(* ===== verification/Topo_Prelude.thy ===== *)
theory Topo_Prelude
  imports Complex_Main "HOL-Library.AList" "HOL-Library.Char_ord" "HOL-Library.List_Lexorder"
    "HOL-Library.Multiset" "HOL-Library.Sublist"
begin

text \<open>
  Shared vocabulary of the development: Go's strings (byte sequences), the parts of the
  packages \<open>strings\<close>, \<open>unicode/utf8\<close>, \<open>sort\<close>, \<open>strconv\<close> and \<open>encoding/hex\<close> that the modelled
  code calls, Go maps as association lists with distinct keys, instants and durations as
  integers (nanoseconds), and the lemmas about them that every component proof uses.
\<close>

named_theorems topo_simps \<open>unfolding rules shared by the component proofs\<close>
named_theorems topo_inv \<open>preservation lemmas of the component invariants\<close>

section \<open>Types\<close>

text \<open>
  A Go \<open>time.Time\<close> is the instant it denotes, in nanoseconds since the Unix epoch; a
  \<open>time.Duration\<close> is a number of nanoseconds. \<open>zero_time\<close> is the instant of the zero
  \<open>time.Time\<close> (January 1 of year 1, UTC).
\<close>

type_synonym time = int
type_synonym duration = int

definition zero_time :: time where
  "zero_time = - 62135596800000000000"

abbreviation second :: duration where "second \<equiv> 1000000000"
abbreviation minute :: duration where "minute \<equiv> 60 * second"
abbreviation hour :: duration where "hour \<equiv> 60 * minute"

type_synonym 'v gomap = "(string \<times> 'v) list"

abbreviation gm_wf :: "'v gomap \<Rightarrow> bool" where
  "gm_wf m \<equiv> distinct (map fst m)"

section \<open>Bytes, runes and strings\<close>

abbreviation byte :: "char \<Rightarrow> nat" where
  "byte c \<equiv> of_char c"

abbreviation NUL :: char where "NUL \<equiv> CHR 0x00"

definition cont_byte :: "nat \<Rightarrow> nat \<Rightarrow> char \<Rightarrow> bool" where
  "cont_byte lo hi c \<longleftrightarrow> lo \<le> byte c \<and> byte c \<le> hi"

text \<open>
  \<open>utf8.DecodeRune\<close>: the first rune of a string and its width; an invalid sequence is the
  replacement character of width 1.
\<close>

definition bad_rune :: "nat \<times> nat" where "bad_rune = (0xFFFD, 1)"

fun decode2 :: "nat \<Rightarrow> string \<Rightarrow> nat \<times> nat" where
  "decode2 x (b # _) =
     (if cont_byte 0x80 0xBF b then ((x - 0xC0) * 64 + (byte b - 0x80), 2) else bad_rune)"
| "decode2 x _ = bad_rune"

fun decode3 :: "nat \<Rightarrow> string \<Rightarrow> nat \<times> nat" where
  "decode3 x (b # c # _) =
     (if cont_byte (if x = 0xE0 then 0xA0 else 0x80) (if x = 0xED then 0x9F else 0xBF) b
         \<and> cont_byte 0x80 0xBF c
      then ((x - 0xE0) * 4096 + (byte b - 0x80) * 64 + (byte c - 0x80), 3) else bad_rune)"
| "decode3 x _ = bad_rune"

fun decode4 :: "nat \<Rightarrow> string \<Rightarrow> nat \<times> nat" where
  "decode4 x (b # c # d # _) =
     (if cont_byte (if x = 0xF0 then 0x90 else 0x80) (if x = 0xF4 then 0x8F else 0xBF) b
         \<and> cont_byte 0x80 0xBF c \<and> cont_byte 0x80 0xBF d
      then ((x - 0xF0) * 262144 + (byte b - 0x80) * 4096 + (byte c - 0x80) * 64
             + (byte d - 0x80), 4) else bad_rune)"
| "decode4 x _ = bad_rune"

fun decode_rune :: "string \<Rightarrow> nat \<times> nat" where
  "decode_rune [] = (0xFFFD, 0)"
| "decode_rune (a # r) =
     (if byte a < 0x80 then (byte a, 1)
      else if 0xC2 \<le> byte a \<and> byte a \<le> 0xDF then decode2 (byte a) r
      else if 0xE0 \<le> byte a \<and> byte a \<le> 0xEF then decode3 (byte a) r
      else if 0xF0 \<le> byte a \<and> byte a \<le> 0xF4 then decode4 (byte a) r
      else bad_rune)"

text \<open>The shapes a decoded rune can have.\<close>

lemma decode_rune_shape:
  assumes "s \<noteq> []"
  obtains (bad) "decode_rune s = bad_rune"
  | (one) a r where "s = a # r" "byte a < 0x80" "decode_rune s = (byte a, 1)"
  | (two) a b r where "s = a # b # r" "0xC2 \<le> byte a" "byte a \<le> 0xDF"
      "0x80 \<le> byte b" "byte b \<le> 0xBF"
      "decode_rune s = ((byte a - 0xC0) * 64 + (byte b - 0x80), 2)"
  | (three) a b c r where "s = a # b # c # r" "0xE0 \<le> byte a" "byte a \<le> 0xEF"
      "0x80 \<le> byte b" "byte b \<le> 0xBF" "0x80 \<le> byte c" "byte c \<le> 0xBF"
      "byte a = 0xE0 \<longrightarrow> 0xA0 \<le> byte b"
      "decode_rune s = ((byte a - 0xE0) * 4096 + (byte b - 0x80) * 64 + (byte c - 0x80), 3)"
  | (four) a b c d r where "s = a # b # c # d # r" "0xF0 \<le> byte a" "byte a \<le> 0xF4"
      "0x80 \<le> byte b" "0x80 \<le> byte c" "0x80 \<le> byte d"
      "byte a = 0xF0 \<longrightarrow> 0x90 \<le> byte b"
      "decode_rune s = ((byte a - 0xF0) * 262144 + (byte b - 0x80) * 4096
                          + (byte c - 0x80) * 64 + (byte d - 0x80), 4)"
proof -
  obtain a r where s: "s = a # r" using assms by (cases s) auto
  consider "byte a < 0x80" | "0xC2 \<le> byte a" "byte a \<le> 0xDF" | "0xE0 \<le> byte a" "byte a \<le> 0xEF"
    | "0xF0 \<le> byte a" "byte a \<le> 0xF4" | "decode_rune s = bad_rune"
    using s by fastforce
  then show thesis
  proof cases
    case 1
    then show thesis using s one by simp
  next
    case 2
    then have eq: "decode_rune s = decode2 (byte a) r" using s by simp
    show thesis
    proof (cases "decode_rune s = bad_rune")
      case False
      then obtain b r' where "r = b # r'" "cont_byte 0x80 0xBF b"
        using eq by (cases "(byte a, r)" rule: decode2.cases) (auto split: if_splits)
      then show thesis using two [of a b r'] s eq 2 by (simp add: cont_byte_def)
    qed (rule bad)
  next
    case 3
    then have eq: "decode_rune s = decode3 (byte a) r" using s by simp
    show thesis
    proof (cases "decode_rune s = bad_rune")
      case False
      then obtain b c r' where "r = b # c # r'" "cont_byte 0x80 0xBF c"
        "cont_byte (if byte a = 0xE0 then 0xA0 else 0x80) (if byte a = 0xED then 0x9F else 0xBF) b"
        using eq by (cases "(byte a, r)" rule: decode3.cases) (auto split: if_splits)
      then show thesis
        using three [of a b c r'] s eq 3 by (simp add: cont_byte_def split: if_splits)
    qed (rule bad)
  next
    case 4
    then have eq: "decode_rune s = decode4 (byte a) r" using s by simp
    show thesis
    proof (cases "decode_rune s = bad_rune")
      case False
      then obtain b c d r' where "r = b # c # d # r'" "cont_byte 0x80 0xBF c"
        "cont_byte 0x80 0xBF d"
        "cont_byte (if byte a = 0xF0 then 0x90 else 0x80) (if byte a = 0xF4 then 0x8F else 0xBF) b"
        using eq by (cases "(byte a, r)" rule: decode4.cases) (auto split: if_splits)
      then show thesis
        using four [of a b c d r'] s eq 4 by (simp add: cont_byte_def split: if_splits)
    qed (rule bad)
  next
    case 5
    then show thesis by (rule bad)
  qed
qed

text \<open>The ranges of the two-, three- and four-byte encodings.\<close>

lemma rune_ranges:
  fixes x y z w :: nat
  shows "0xC2 \<le> x \<Longrightarrow> x \<le> 0xDF \<Longrightarrow> y \<le> 0xBF \<Longrightarrow>
      0x80 \<le> (x - 0xC0) * 64 + (y - 0x80) \<and> (x - 0xC0) * 64 + (y - 0x80) < 0x800"
    and "0xE0 \<le> x \<Longrightarrow> 0x80 \<le> y \<Longrightarrow> (x = 0xE0 \<longrightarrow> 0xA0 \<le> y) \<Longrightarrow>
      0x800 \<le> (x - 0xE0) * 4096 + (y - 0x80) * 64 + (z - 0x80)"
    and "0xF0 \<le> x \<Longrightarrow> 0x80 \<le> y \<Longrightarrow> (x = 0xF0 \<longrightarrow> 0x90 \<le> y) \<Longrightarrow>
      0x10000 \<le> (x - 0xF0) * 262144 + (y - 0x80) * 4096 + (z - 0x80) * 64 + (w - 0x80)"
proof -
  assume a: "0xC2 \<le> x" "x \<le> 0xDF" "y \<le> 0xBF"
  then have "2 \<le> x - 0xC0" "x - 0xC0 \<le> 31" "y - 0x80 \<le> 63" by linarith+
  then show "0x80 \<le> (x - 0xC0) * 64 + (y - 0x80) \<and> (x - 0xC0) * 64 + (y - 0x80) < 0x800"
    by linarith
next
  assume a: "0xE0 \<le> x" "0x80 \<le> y" "x = 0xE0 \<longrightarrow> 0xA0 \<le> y"
  then have "1 \<le> x - 0xE0 \<or> 32 \<le> y - 0x80" by linarith
  then show "0x800 \<le> (x - 0xE0) * 4096 + (y - 0x80) * 64 + (z - 0x80)" by linarith
next
  assume a: "0xF0 \<le> x" "0x80 \<le> y" "x = 0xF0 \<longrightarrow> 0x90 \<le> y"
  then have "1 \<le> x - 0xF0 \<or> 16 \<le> y - 0x80" by linarith
  then show "0x10000 \<le> (x - 0xF0) * 262144 + (y - 0x80) * 4096 + (z - 0x80) * 64 + (w - 0x80)"
    by linarith
qed

lemma decode_rune_width: "s \<noteq> [] \<Longrightarrow> 0 < snd (decode_rune s)"
  by (erule decode_rune_shape) (simp_all add: bad_rune_def)

declare decode_rune.simps [simp del]

text \<open>The runes of a string with their encodings, in the order a \<open>range\<close> loop visits them.\<close>

function rune_chunks :: "string \<Rightarrow> (nat \<times> string) list" where
  "rune_chunks s = (if s = [] then []
     else (fst (decode_rune s), take (snd (decode_rune s)) s)
            # rune_chunks (drop (snd (decode_rune s)) s))"
  by pat_completeness auto
termination
  by (relation "measure length") (auto simp: decode_rune_width)

declare rune_chunks.simps [simp del]

lemma rune_chunks_ascii [simp]:
  "rune_chunks [] = []"
  "byte c < 0x80 \<Longrightarrow> rune_chunks (c # s) = (byte c, [c]) # rune_chunks s"
  by (subst rune_chunks.simps, simp add: decode_rune.simps)+

definition runes :: "string \<Rightarrow> nat list" where
  "runes s = map fst (rune_chunks s)"

text \<open>\<open>unicode.IsSpace\<close> and \<open>unicode.IsControl\<close>.\<close>

definition is_space :: "nat \<Rightarrow> bool" where
  "is_space r \<longleftrightarrow> r \<in> {0x09, 0x0A, 0x0B, 0x0C, 0x0D, 0x20, 0x85, 0xA0, 0x1680, 0x2028, 0x2029,
     0x202F, 0x205F, 0x3000} \<or> (0x2000 \<le> r \<and> r \<le> 0x200A)"

definition is_control :: "nat \<Rightarrow> bool" where
  "is_control r \<longleftrightarrow> r < 0x20 \<or> (0x7F \<le> r \<and> r < 0xA0)"

text \<open>\<open>strings.TrimSpace\<close>, \<open>strings.HasPrefix\<close>, \<open>strings.HasSuffix\<close>, \<open>strings.Join\<close>.\<close>

definition trim_space :: "string \<Rightarrow> string" where
  "trim_space s =
     concat (map snd (rev (dropWhile (is_space \<circ> fst)
       (rev (dropWhile (is_space \<circ> fst) (rune_chunks s))))))"

definition has_prefix :: "string \<Rightarrow> string \<Rightarrow> bool" where
  "has_prefix s p \<longleftrightarrow> take (length p) s = p"

definition has_suffix :: "string \<Rightarrow> string \<Rightarrow> bool" where
  "has_suffix s p \<longleftrightarrow> length p \<le> length s \<and> drop (length s - length p) s = p"

fun join :: "string \<Rightarrow> string list \<Rightarrow> string" where
  "join sep [] = []"
| "join sep [x] = x"
| "join sep (x # y # xs) = x @ sep @ join sep (y # xs)"

lemma concat_rune_chunks [simp]: "concat (map snd (rune_chunks s)) = s"
  by (induction s rule: rune_chunks.induct) (subst rune_chunks.simps, simp)

lemma has_prefix_append [simp]: "has_prefix (p @ s) p"
  by (simp add: has_prefix_def)

lemma has_suffix_append [simp]: "has_suffix (s @ p) p"
  by (simp add: has_suffix_def)

text \<open>
  Fields terminated by a NUL byte: a list of NUL-free fields can be read back, so two such
  encodings agree only if the fields and the rest do.
\<close>

definition nul_fields :: "string list \<Rightarrow> string" where
  "nul_fields xs = concat (map (\<lambda>s. s @ [NUL]) xs)"

lemma nul_fields_simps [simp]:
  "nul_fields [] = []"
  "nul_fields (x # xs) = x @ NUL # nul_fields xs"
  by (simp_all add: nul_fields_def)

lemma split_at_sep:
  assumes "c \<notin> set x" "c \<notin> set y" "x @ c # r = y @ c # t"
  shows "x = y \<and> r = t"
  using assms
proof (induction x arbitrary: y)
  case Nil
  then show ?case by (cases y) auto
next
  case (Cons a x)
  then show ?case by (cases y) auto
qed

lemma nul_fields_inj:
  assumes "\<forall>x \<in> set xs. NUL \<notin> set x" "\<forall>y \<in> set ys. NUL \<notin> set y"
    and "NUL \<notin> set r" "NUL \<notin> set t"
    and "nul_fields xs @ r = nul_fields ys @ t"
  shows "xs = ys \<and> r = t"
  using assms
proof (induction xs arbitrary: ys)
  case Nil
  show ?case
  proof (cases ys)
    case Nil
    then show ?thesis using Nil.prems by simp
  next
    case (Cons y ys')
    then have "NUL \<in> set r" using Nil.prems(5) by simp
    then show ?thesis using Nil.prems(3) by simp
  qed
next
  case (Cons x xs)
  show ?case
  proof (cases ys)
    case Nil
    then have "NUL \<in> set t" using Cons.prems(5) by (metis append_Nil in_set_conv_decomp
      append_Cons append_assoc nul_fields_simps)
    then show ?thesis using Cons.prems(4) by simp
  next
    case (Cons y ys')
    then have "x @ NUL # (nul_fields xs @ r) = y @ NUL # (nul_fields ys' @ t)"
      using Cons.prems(5) by simp
    then have "x = y \<and> nul_fields xs @ r = nul_fields ys' @ t"
      using Cons.prems(1,2) Cons by (intro split_at_sep [of NUL]) auto
    then show ?thesis using Cons Cons.IH [of ys'] Cons.prems by auto
  qed
qed

lemma join_nul: "xs \<noteq> [] \<Longrightarrow> join [NUL] xs = nul_fields (butlast xs) @ last xs"
  by (induction "[NUL]" xs rule: join.induct) auto

lemma join_nul_inj:
  assumes "\<forall>x \<in> set xs. NUL \<notin> set x" "\<forall>y \<in> set ys. NUL \<notin> set y"
    and "xs \<noteq> []" "ys \<noteq> []" and "join [NUL] xs = join [NUL] ys"
  shows "xs = ys"
proof -
  have "butlast xs = butlast ys \<and> last xs = last ys"
    using assms by (intro nul_fields_inj) (auto simp: join_nul dest: in_set_butlastD)
  then show ?thesis using assms(3,4) by (metis append_butlast_last_id)
qed

section \<open>Numbers as text\<close>

definition digit_char :: "nat \<Rightarrow> char" where
  "digit_char d = ''0123456789abcdef'' ! d"

text \<open>\<open>%d\<close> of a non-negative integer, and \<open>%0nd\<close> (zero padded to at least \<open>n\<close> digits).\<close>

fun dec :: "nat \<Rightarrow> string" where
  "dec n = (if n < 10 then [digit_char n] else dec (n div 10) @ [digit_char (n mod 10)])"

declare dec.simps [simp del]

lemma dec_step:
  "n < 10 \<Longrightarrow> dec n = [digit_char n]"
  "10 \<le> n \<Longrightarrow> dec n = dec (n div 10) @ [digit_char (n mod 10)]"
  by (subst dec.simps, simp)+

definition zpad :: "nat \<Rightarrow> string \<Rightarrow> string" where
  "zpad w s = replicate (w - length s) (CHR ''0'') @ s"

definition decz :: "nat \<Rightarrow> nat \<Rightarrow> string" where
  "decz w n = zpad w (dec n)"

definition dec_int :: "int \<Rightarrow> string" where
  "dec_int i = (if i < 0 then CHR ''-'' # dec (nat (- i)) else dec (nat i))"

text \<open>\<open>hex.EncodeToString\<close>: two lower-case digits per byte.\<close>

definition hex :: "string \<Rightarrow> string" where
  "hex s = concat (map (\<lambda>c. [digit_char (byte c div 16), digit_char (byte c mod 16)]) s)"

definition is_hex_digit :: "char \<Rightarrow> bool" where
  "is_hex_digit c \<longleftrightarrow> (48 \<le> byte c \<and> byte c \<le> 57) \<or> (97 \<le> byte c \<and> byte c \<le> 102)
     \<or> (65 \<le> byte c \<and> byte c \<le> 70)"

text \<open>\<open>hex.DecodeString\<close> succeeds on an even number of hexadecimal digits.\<close>

definition hex_decodable :: "string \<Rightarrow> bool" where
  "hex_decodable s \<longleftrightarrow> even (length s) \<and> list_all is_hex_digit s"

lemma byte_digit_char [simp]:
  "d < 10 \<Longrightarrow> byte (digit_char d) = 48 + d"
  "10 \<le> d \<Longrightarrow> d < 16 \<Longrightarrow> byte (digit_char d) = 87 + d"
proof -
  have "\<forall>d < 10. byte (digit_char d) = 48 + d" "\<forall>d \<in> {10..<16}. byte (digit_char d) = 87 + d"
    by code_simp+
  then show "d < 10 \<Longrightarrow> byte (digit_char d) = 48 + d"
    "10 \<le> d \<Longrightarrow> d < 16 \<Longrightarrow> byte (digit_char d) = 87 + d" by simp_all
qed

lemma digit_char_inj:
  assumes "a < 16" "b < 16"
  shows "digit_char a = digit_char b \<longleftrightarrow> a = b"
proof
  assume "digit_char a = digit_char b"
  then have "(of_char (digit_char a) :: nat) = of_char (digit_char b)" by simp
  then show "a = b"
    using assms by (cases "a < 10"; cases "b < 10") (simp_all add: not_less)
qed simp

lemma is_hex_digit_char: "d < 16 \<Longrightarrow> is_hex_digit (digit_char d)"
  by (cases "d < 10") (auto simp: is_hex_digit_def)

lemma length_hex [simp]: "length (hex s) = 2 * length s"
  by (induction s) (auto simp: hex_def)

lemma byte_div_16 [simp]: "byte c div 16 < 16"
  by (cases c) (simp add: less_mult_imp_div_less of_char_def)

lemma hex_decodable_hex: "hex_decodable (hex s)"
  by (induction s) (auto simp: hex_decodable_def hex_def is_hex_digit_char)

lemma hex_nul [simp]: "NUL \<notin> set (hex s)"
  using hex_decodable_hex [of s] by (auto simp: hex_decodable_def list_all_iff is_hex_digit_def)

lemma hex_inj: "hex s = hex t \<longleftrightarrow> s = t"
proof (induction s arbitrary: t)
  case Nil
  then show ?case by (cases t) (auto simp: hex_def)
next
  case (Cons a s)
  show ?case
  proof (cases t)
    case Nil
    then show ?thesis by (simp add: hex_def)
  next
    case (Cons b t')
    have "byte a div 16 = byte b div 16 \<Longrightarrow> byte a mod 16 = byte b mod 16 \<Longrightarrow> a = b"
      by (metis div_mult_mod_eq of_char_eq_iff)
    then show ?thesis
      using Cons Cons.IH [of t'] by (auto simp: hex_def digit_char_inj)
  qed
qed

lemma set_dec: "c \<in> set (dec n) \<Longrightarrow> 48 \<le> byte c \<and> byte c \<le> 57"
proof (induction n rule: dec.induct)
  case (1 n)
  then show ?case by (subst (asm) (2) dec.simps) (auto split: if_splits)
qed

lemma dec_nonempty [simp]: "dec n \<noteq> []"
  by (subst dec.simps) simp

lemma dec_inj: "dec m = dec n \<longleftrightarrow> m = n"
proof (induction m arbitrary: n rule: dec.induct)
  case (1 m)
  show ?case
  proof
    assume eq: "dec m = dec n"
    show "m = n"
    proof (cases "m < 10")
      case True
      then show ?thesis using eq
        by (subst (asm) dec.simps [of m], subst (asm) dec.simps [of n])
          (auto simp: digit_char_inj split: if_splits dest: sym [of "[]"])
    next
      case False
      then have "dec (m div 10) = dec (n div 10) \<and> m mod 10 = n mod 10 \<and> \<not> n < 10" using eq
        by (subst (asm) dec.simps [of m], subst (asm) dec.simps [of n])
          (auto simp: digit_char_inj split: if_splits)
      then show ?thesis using 1 [OF False, of "n div 10"] by (metis div_mult_mod_eq)
    qed
  qed simp
qed

lemma dec_int_nul: "NUL \<notin> set (dec_int i)"
proof -
  have "NUL \<notin> set (dec n)" for n using set_dec [of NUL n] by auto
  then show ?thesis by (simp add: dec_int_def)
qed

lemma dec_int_inj: "inj dec_int"
proof (rule injI)
  fix i j assume "dec_int i = dec_int j"
  moreover have "CHR ''-'' \<notin> set (dec n)" for n using set_dec [of "CHR ''-''" n] by auto
  then have "dec m \<noteq> CHR ''-'' # dec n" for m n by (metis list.set_intros(1))
  ultimately show "i = j"
    by (auto simp: dec_int_def dec_inj eq_commute [of "CHR ''-'' # _"] split: if_splits)
qed

section \<open>Sorting\<close>

text \<open>
  \<open>sort.Strings\<close> is the library's \<open>sort\<close> (Go compares strings bytewise, as \<open>List_Lexorder\<close>
  over \<open>Char_ord\<close> does). \<open>sort.Slice\<close> takes a \<open>less\<close> function; it is modelled by insertion.
\<close>

fun insert_slice :: "('a \<Rightarrow> 'a \<Rightarrow> bool) \<Rightarrow> 'a \<Rightarrow> 'a list \<Rightarrow> 'a list" where
  "insert_slice lt x [] = [x]"
| "insert_slice lt x (y # ys) =
     (if lt y x then y # insert_slice lt x ys else x # y # ys)"

definition sort_slice :: "('a \<Rightarrow> 'a \<Rightarrow> bool) \<Rightarrow> 'a list \<Rightarrow> 'a list" where
  "sort_slice lt xs = foldr (insert_slice lt) xs []"

lemma mset_insert_slice [simp]: "mset (insert_slice lt x xs) = add_mset x (mset xs)"
  by (induction xs) auto

lemma mset_sort_slice [simp]: "mset (sort_slice lt xs) = mset xs"
  by (induction xs) (auto simp: sort_slice_def)

lemma set_sort_slice [simp]: "set (sort_slice lt xs) = set xs"
  by (metis mset_sort_slice set_mset_mset)

lemma length_sort_slice [simp]: "length (sort_slice lt xs) = length xs"
  by (metis mset_sort_slice size_mset)

lemma sort_slice_Nil [simp]: "sort_slice lt [] = []"
  by (simp add: sort_slice_def)

text \<open>
  What \<open>sort.Slice\<close> requires of its argument: a strict weak order. The laws are the
  interface between the sorting model and the comparators of the components.
\<close>

locale slice_less =
  fixes lt :: "'a \<Rightarrow> 'a \<Rightarrow> bool"
  assumes less_asym: "lt x y \<Longrightarrow> \<not> lt y x"
    and less_negtrans: "lt x z \<Longrightarrow> lt x y \<or> lt y z"
begin

lemma not_less_trans: "\<not> lt y x \<Longrightarrow> \<not> lt z y \<Longrightarrow> \<not> lt z x"
  using less_negtrans by blast

lemma set_insert_slice: "set (insert_slice lt x xs) = insert x (set xs)"
  by (metis mset_insert_slice set_mset_add_mset_insert set_mset_mset)

lemma sorted_insert_slice:
  "sorted_wrt (\<lambda>a b. \<not> lt b a) xs \<Longrightarrow> sorted_wrt (\<lambda>a b. \<not> lt b a) (insert_slice lt x xs)"
proof (induction xs)
  case Nil
  then show ?case by simp
next
  case (Cons y ys)
  show ?case
  proof (cases "lt y x")
    case True
    then show ?thesis using Cons by (auto simp: set_insert_slice dest: less_asym)
  next
    case False
    then show ?thesis using Cons.prems by (auto dest: not_less_trans)
  qed
qed

lemma sorted_sort_slice: "sorted_wrt (\<lambda>a b. \<not> lt b a) (sort_slice lt xs)"
  by (induction xs) (auto simp: sort_slice_def sorted_insert_slice)

text \<open>
  Where the elements are pairwise comparable the sorted permutation is unique, so neither the
  sorting algorithm nor the order in which a Go map was iterated can be observed.
\<close>

lemma sorted_unique:
  assumes "mset xs = mset ys"
    and "sorted_wrt (\<lambda>a b. \<not> lt b a) xs" "sorted_wrt (\<lambda>a b. \<not> lt b a) ys"
    and "\<And>a b. a \<in> set xs \<Longrightarrow> b \<in> set xs \<Longrightarrow> a \<noteq> b \<Longrightarrow> lt a b \<or> lt b a"
  shows "xs = ys"
  using assms
proof (induction xs arbitrary: ys)
  case Nil
  then show ?case by simp
next
  case (Cons x xs)
  then obtain y ys' where ys: "ys = y # ys'" by (cases ys) auto
  have sets: "set (x # xs) = set (y # ys')" using Cons.prems(1) ys by (metis set_mset_mset)
  have "x = y"
  proof (rule ccontr)
    assume neq: "x \<noteq> y"
    have "y \<in> set (x # xs)" using sets by simp
    then have yx: "y \<in> set xs" using neq by simp
    moreover have "x \<in> set ys'" using sets neq by auto
    ultimately have "\<not> lt y x" "\<not> lt x y" using Cons.prems(2,3) ys by auto
    then show False using Cons.prems(4) [of x y] yx neq by auto
  qed
  moreover have "xs = ys'"
    using Cons.IH [of ys'] Cons.prems ys \<open>x = y\<close> by auto
  ultimately show ?case using ys by simp
qed

lemma sort_slice_perm:
  assumes "mset xs = mset ys"
    and "\<And>a b. a \<in> set xs \<Longrightarrow> b \<in> set xs \<Longrightarrow> a \<noteq> b \<Longrightarrow> lt a b \<or> lt b a"
  shows "sort_slice lt xs = sort_slice lt ys"
  using assms by (intro sorted_unique) (auto simp: sorted_sort_slice)

end

lemma slice_less_key: "slice_less (\<lambda>a b. (f a :: 'k :: linorder) < f b)"
  by unfold_locales auto

lemma sorted_sort_slice_key:
  fixes f :: "'a \<Rightarrow> 'k :: linorder"
  shows "sorted (map f (sort_slice (\<lambda>a b. f a < f b) xs))"
  using slice_less.sorted_sort_slice [OF slice_less_key, of f xs]
  by (simp add: sorted_map not_less)

section \<open>Go maps\<close>

lemma map_of_update [simp]: "map_of (AList.update k v m) = (map_of m)(k \<mapsto> v)"
  by (simp add: update_conv')

lemma gm_wf_update [simp, intro]: "gm_wf m \<Longrightarrow> gm_wf (AList.update k v m)"
  by (rule distinct_update)

lemma update_update_same [simp]: "AList.update k v (AList.update k w m) = AList.update k v m"
  by (induction m) auto

lemma update_id: "map_of m k = Some v \<Longrightarrow> AList.update k v m = m"
  by (induction m) (auto split: if_splits)

lemma dom_keys: "fst ` set m = dom (map_of m)"
  by (simp add: dom_map_of_conv_image_fst)

lemma gm_wf_lookup: "gm_wf m \<Longrightarrow> (k, v) \<in> set m \<longleftrightarrow> map_of m k = Some v"
  by (simp add: map_of_eq_Some_iff)

lemma mset_gomap:
  assumes "gm_wf m" "gm_wf m'" "map_of m = map_of m'"
  shows "mset m = mset m'"
proof -
  have "set m = set m'" using assms by (metis gm_wf_lookup set_eqI surj_pair)
  moreover have "distinct m" "distinct m'" using assms by (auto simp: distinct_map)
  ultimately show ?thesis by (simp add: set_eq_iff_mset_eq_distinct)
qed

lemma gm_wf_perm: "mset m = mset m' \<Longrightarrow> gm_wf m \<longleftrightarrow> gm_wf m'"
  by (rule mset_eq_imp_distinct_iff) (simp only: mset_map)

lemma map_of_perm:
  assumes "gm_wf m" "mset m = mset m'"
  shows "map_of m = map_of m'"
  using assms gm_wf_perm [OF assms(2)] mset_eq_setD [OF assms(2)]
  by (simp add: map_of_inject_set)

section \<open>Hexadecimal numbers and plain text\<close>

text \<open>\<open>big.Int.Text(16)\<close>: lower-case hexadecimal without leading zeros.\<close>

fun text16 :: "nat \<Rightarrow> string" where
  "text16 n = (if n < 16 then [digit_char n] else text16 (n div 16) @ [digit_char (n mod 16)])"

declare text16.simps [simp del]

definition hex_value :: "char \<Rightarrow> nat" where
  "hex_value c = (if byte c \<le> 57 then byte c - 48 else if byte c \<le> 70 then byte c - 55 else byte c - 87)"

definition read16 :: "string \<Rightarrow> nat" where
  "read16 s = foldl (\<lambda>n c. 16 * n + hex_value c) 0 s"

lemma text16_digits: "c \<in> set (text16 n) \<Longrightarrow> is_hex_digit c \<and> byte c < 0x80
    \<and> \<not> is_space (byte c) \<and> c \<noteq> CHR '':'' \<and> c \<noteq> CHR ''-'' \<and> c \<noteq> CHR ''+'' \<and> c \<noteq> CHR ''x'' \<and> c \<noteq> CHR ''X''"
proof (induction n rule: text16.induct)
  case (1 n)
  have digit: "is_hex_digit c \<and> byte c < 0x80 \<and> \<not> is_space (byte c) \<and> c \<noteq> CHR '':'' \<and> c \<noteq> CHR ''-''
      \<and> c \<noteq> CHR ''+'' \<and> c \<noteq> CHR ''x'' \<and> c \<noteq> CHR ''X''" if "c = digit_char d" "d < 16" for c d
  proof -
    have "(48 \<le> byte c \<and> byte c \<le> 57) \<or> (97 \<le> byte c \<and> byte c \<le> 102)"
      using that by (cases "d < 10") auto
    then show ?thesis by (auto simp: is_hex_digit_def is_space_def)
  qed
  show ?case
  proof (cases "n < 16")
    case True
    then show ?thesis using "1.prems" digit [of c n] by (subst (asm) text16.simps) simp
  next
    case False
    then have "c \<in> set (text16 (n div 16)) \<or> c = digit_char (n mod 16)"
      using "1.prems" by (subst (asm) text16.simps) auto
    then show ?thesis using "1.IH" [OF False] digit [of c "n mod 16"] by auto
  qed
qed

lemma hex_value_digit: "d < 16 \<Longrightarrow> hex_value (digit_char d) = d"
  by (cases "d < 10") (auto simp: hex_value_def)

lemma read16_text16 [simp]: "read16 (text16 n) = n"
proof (induction n rule: text16.induct)
  case (1 n)
  show ?case
  proof (cases "n < 16")
    case True
    then show ?thesis by (subst text16.simps) (simp add: read16_def hex_value_digit)
  next
    case False
    then show ?thesis using "1.IH" [OF False]
      by (subst text16.simps) (simp add: read16_def hex_value_digit)
  qed
qed

lemma text16_nonempty [simp]: "text16 n \<noteq> []"
  by (subst text16.simps) simp

lemma length_text16: "n < 16 ^ k \<Longrightarrow> 0 < k \<Longrightarrow> length (text16 n) \<le> k"
proof (induction n arbitrary: k rule: text16.induct)
  case (1 n)
  show ?case
  proof (cases "n < 16")
    case True
    then show ?thesis using 1 by (subst text16.simps) simp
  next
    case False
    then have "k \<noteq> 1" using "1.prems"(1) by auto
    then obtain j where j: "k = Suc j" "0 < j" using "1.prems"(2) by (cases k) auto
    then have "n div 16 < 16 ^ j" using "1.prems"(1) by (simp add: less_mult_imp_div_less mult.commute)
    then show ?thesis using "1.IH" [OF False] j False by (subst text16.simps) simp
  qed
qed

lemma rune_chunks_ascii_all: "\<forall>c \<in> set s. byte c < 0x80 \<Longrightarrow> rune_chunks s = map (\<lambda>c. (byte c, [c])) s"
  by (induction s) auto

lemma trim_space_text: "\<forall>c \<in> set s. byte c < 0x80 \<and> \<not> is_space (byte c) \<Longrightarrow> trim_space s = s"
proof -
  assume s: "\<forall>c \<in> set s. byte c < 0x80 \<and> \<not> is_space (byte c)"
  then have chunks: "rune_chunks s = map (\<lambda>c. (byte c, [c])) s"
    by (intro rune_chunks_ascii_all) auto
  have drop: "dropWhile P xs = xs" if "\<forall>x \<in> set xs. \<not> P x" for P and xs :: "(nat \<times> string) list"
    using that by (cases xs) auto
  have "dropWhile (is_space \<circ> fst) (map (\<lambda>c. (byte c, [c])) s) = map (\<lambda>c. (byte c, [c])) s"
    "dropWhile (is_space \<circ> fst) (rev (map (\<lambda>c. (byte c, [c])) s)) = rev (map (\<lambda>c. (byte c, [c])) s)"
    using s by (intro drop; auto)+
  moreover have "concat (map snd (map (\<lambda>c. (byte c, [c])) s)) = s" by (induction s) auto
  ultimately show ?thesis unfolding trim_space_def chunks by simp
qed

lemma hex_value_less: "is_hex_digit c \<Longrightarrow> hex_value c < 16"
  by (auto simp: is_hex_digit_def hex_value_def)

lemma read16_bound: "list_all is_hex_digit s \<Longrightarrow> read16 s < 16 ^ length s"
proof (induction s rule: rev_induct)
  case (snoc c s)
  then have "read16 s + 1 \<le> 16 ^ length s" "hex_value c < 16" by (auto simp: hex_value_less)
  then have "16 * read16 s + hex_value c < 16 * 16 ^ length s" by linarith
  then show ?case by (simp add: read16_def)
qed (simp add: read16_def)

text \<open>Decimal digits read back.\<close>

definition read_nat :: "string \<Rightarrow> nat" where
  "read_nat s = foldl (\<lambda>n c. 10 * n + (byte c - 48)) 0 s"

lemma read_nat_dec [simp]: "read_nat (dec n) = n"
proof (induction n rule: dec.induct)
  case (1 n)
  then show ?case
    by (cases "n < 10"; subst dec.simps) (auto simp: read_nat_def)
qed

end
