(* ===== verification/Netip.thy ===== *)
theory Netip
  imports Topo_Prelude
begin

text \<open>
  The part of Go's \<open>net/netip\<close> the worker relies on: addresses and CIDR prefixes, their text forms,
  \<open>Masked\<close>, \<open>Contains\<close> and \<open>Overlaps\<close>. An address is its bit length (32 or 128) and its value; a
  prefix denotes the set of addresses \<open>addrs\<close>. Zones never occur: \<open>ParsePrefix\<close> refuses them.
\<close>

section \<open>Addresses and prefixes\<close>

record addr =
  ip_len :: nat
  ip_val :: nat

record ip_prefix =
  px_ip :: addr
  px_bits :: nat

definition Is4 :: "addr \<Rightarrow> bool" where "Is4 a \<longleftrightarrow> ip_len a = 32"

abbreviation host_bits :: "ip_prefix \<Rightarrow> nat" where
  "host_bits p \<equiv> ip_len (px_ip p) - px_bits p"

definition Masked :: "ip_prefix \<Rightarrow> ip_prefix" where
  "Masked p = p\<lparr>px_ip := (px_ip p)\<lparr>ip_val := ip_val (px_ip p) - ip_val (px_ip p) mod 2 ^ host_bits p\<rparr>\<rparr>"

definition Contains :: "ip_prefix \<Rightarrow> addr \<Rightarrow> bool" where
  "Contains p a \<longleftrightarrow> ip_len a = ip_len (px_ip p)
     \<and> ip_val a div 2 ^ host_bits p = ip_val (px_ip p) div 2 ^ host_bits p"

definition Overlaps :: "ip_prefix \<Rightarrow> ip_prefix \<Rightarrow> bool" where
  "Overlaps p q \<longleftrightarrow> ip_len (px_ip p) = ip_len (px_ip q)
     \<and> (let n = ip_len (px_ip p) - min (px_bits p) (px_bits q)
        in ip_val (px_ip p) div 2 ^ n = ip_val (px_ip q) div 2 ^ n)"

text \<open>\<open>Addr.Compare\<close>: by bit length, then by value.\<close>

definition addr_less :: "addr \<Rightarrow> addr \<Rightarrow> bool" where
  "addr_less a b \<longleftrightarrow> ip_len a < ip_len b \<or> ip_len a = ip_len b \<and> ip_val a < ip_val b"

lemma addr_eq_iff: "a = b \<longleftrightarrow> ip_len a = ip_len b \<and> ip_val a = ip_val b" for a b :: addr
  by (cases a; cases b) auto

section \<open>Text\<close>

definition is_digit :: "char \<Rightarrow> bool" where
  "is_digit c \<longleftrightarrow> 48 \<le> byte c \<and> byte c \<le> 57"

fun split_on :: "char \<Rightarrow> string \<Rightarrow> string list" where
  "split_on c [] = [[]]"
| "split_on c (x # s) = (if x = c then [] # split_on c s
     else case split_on c s of [] \<Rightarrow> [[x]] | w # ws \<Rightarrow> (x # w) # ws)"

text \<open>A decimal number without leading zeros.\<close>

definition plain_number :: "nat \<Rightarrow> string \<Rightarrow> nat option" where
  "plain_number bound s =
     (if s = [] \<or> \<not> list_all is_digit s \<or> (1 < length s \<and> hd s = CHR ''0'') \<or> bound < read_nat s
      then None else Some (read_nat s))"

definition parseIPv4 :: "string \<Rightarrow> nat option" where
  "parseIPv4 s =
     (case map (plain_number 255) (split_on (CHR ''.'') s) of
        [Some a, Some b, Some c, Some d] \<Rightarrow> Some (((a * 256 + b) * 256 + c) * 256 + d)
      | _ \<Rightarrow> None)"

fun parse6_groups ::
  "nat \<Rightarrow> string \<Rightarrow> nat list \<Rightarrow> nat option \<Rightarrow> (nat list \<times> nat option \<times> string) option" where
  "parse6_groups 0 s gs ell = Some (gs, ell, s)"
| "parse6_groups (Suc n) s gs ell =
     (let ds = takeWhile is_hex_digit s; rest = dropWhile is_hex_digit s; gs' = gs @ [read16 ds]
      in if ds = [] \<or> 4 < length ds then None
         else case rest of
           [] \<Rightarrow> Some (gs', ell, [])
         | c # r \<Rightarrow>
             if c = CHR ''.'' then
               (if (ell = None \<and> length gs \<noteq> 6) \<or> n = 0 then None
                else map_option (\<lambda>v. (gs @ [v div 65536, v mod 65536], ell, [])) (parseIPv4 s))
             else if c \<noteq> CHR '':'' \<or> r = [] then None
             else if hd r = CHR '':'' then
               (if ell \<noteq> None then None
                else if tl r = [] then Some (gs', Some (length gs'), [])
                else parse6_groups n (tl r) gs' (Some (length gs')))
             else parse6_groups n r gs' ell)"

definition groups_value :: "nat list \<Rightarrow> nat" where
  "groups_value gs = foldl (\<lambda>v g. v * 65536 + g) 0 gs"

definition parseIPv6 :: "string \<Rightarrow> nat option" where
  "parseIPv6 s =
     (let (ell, s) = (if has_prefix s ''::'' then (Some 0, drop 2 s) else (None, s))
      in if ell \<noteq> None \<and> s = [] then Some 0
         else case parse6_groups 8 s [] ell of
           None \<Rightarrow> None
         | Some (gs, ell, rest) \<Rightarrow>
             if rest \<noteq> [] then None
             else if length gs < 8 then
               (case ell of None \<Rightarrow> None
                | Some k \<Rightarrow> Some (groups_value (take k gs @ replicate (8 - length gs) 0 @ drop k gs)))
             else if ell \<noteq> None then None else Some (groups_value gs))"

text \<open>\<open>ParseAddr\<close> without a zone: the first \<open>.\<close> or \<open>:\<close> decides the family.\<close>

definition ParseAddr :: "string \<Rightarrow> addr option" where
  "ParseAddr s =
     (case dropWhile (\<lambda>c. c \<notin> {CHR ''.'', CHR '':'', CHR ''%''}) s of
        c # _ \<Rightarrow>
          if c = CHR ''.'' then map_option (\<lambda>v. \<lparr>ip_len = 32, ip_val = v\<rparr>) (parseIPv4 s)
          else if c = CHR '':'' \<and> CHR ''%'' \<notin> set s
          then map_option (\<lambda>v. \<lparr>ip_len = 128, ip_val = v\<rparr>) (parseIPv6 s)
          else None
      | [] \<Rightarrow> None)"

definition ParsePrefix :: "string \<Rightarrow> ip_prefix option" where
  "ParsePrefix s =
     (if CHR ''/'' \<notin> set s then None
      else
        let bits = rev (takeWhile (\<lambda>c. c \<noteq> CHR ''/'') (rev s));
            host = rev (tl (dropWhile (\<lambda>c. c \<noteq> CHR ''/'') (rev s)))
        in case ParseAddr host of
             None \<Rightarrow> None
           | Some a \<Rightarrow> map_option (\<lambda>b. \<lparr>px_ip = a, px_bits = b\<rparr>) (plain_number (ip_len a) bits))"

fun value_groups :: "nat \<Rightarrow> nat \<Rightarrow> nat list" where
  "value_groups 0 v = []"
| "value_groups (Suc n) v = value_groups n (v div 65536) @ [v mod 65536]"

text \<open>The longest run of at least two zero groups, the first of its length: start and length.\<close>

definition zero_run :: "nat list \<Rightarrow> nat \<times> nat" where
  "zero_run gs =
     fold (\<lambda>i best. let l = length (takeWhile (\<lambda>g. g = 0) (drop i gs))
                     in if 2 \<le> l \<and> snd best < l then (i, l) else best) [0..<length gs] (0, 0)"

definition addr_String :: "addr \<Rightarrow> string" where
  "addr_String a =
     (if Is4 a then join ''.'' (map dec (map (\<lambda>i. ip_val a div 256 ^ i mod 256) [3, 2, 1, 0]))
      else if ip_val a div 2 ^ 32 = 65535
      then ''::ffff:'' @ join ''.'' (map dec (map (\<lambda>i. ip_val a div 256 ^ i mod 256) [3, 2, 1, 0]))
      else
        let gs = value_groups 8 (ip_val a); (i, l) = zero_run gs
        in if l = 0 then join '':'' (map text16 gs)
           else join '':'' (map text16 (take i gs)) @ ''::'' @ join '':'' (map text16 (drop (i + l) gs)))"

definition prefix_String :: "ip_prefix \<Rightarrow> string" where
  "prefix_String p = addr_String (px_ip p) @ ''/'' @ dec (px_bits p)"

section \<open>The addresses of a prefix\<close>

definition px_ok :: "ip_prefix \<Rightarrow> bool" where
  "px_ok p \<longleftrightarrow> ip_len (px_ip p) \<in> {32, 128} \<and> px_bits p \<le> ip_len (px_ip p)"

definition addrs :: "ip_prefix \<Rightarrow> addr set" where
  "addrs p = {a. Contains p a}"

lemma Contains_self [simp]: "Contains p (px_ip p)"
  by (simp add: Contains_def)

lemma Masked_len [simp]: "ip_len (px_ip (Masked p)) = ip_len (px_ip p)" "px_bits (Masked p) = px_bits p"
  by (simp_all add: Masked_def)

lemma sub_mod_div: "((v :: nat) - v mod k) div k = v div k"
  by (metis div_mult_mod_eq add_diff_cancel_right' nonzero_mult_div_cancel_right div_by_0)

lemma addrs_Masked [simp]: "addrs (Masked p) = addrs p"
  by (auto simp: addrs_def Contains_def Masked_def sub_mod_div)

lemma Masked_Masked [simp]: "Masked (Masked p) = Masked p"
proof -
  have "(v - v mod k) mod k = 0" for v k :: nat by (metis minus_mod_eq_mult_div mod_mult_self1_is_0)
  then show ?thesis by (simp add: Masked_def)
qed

lemma px_ok_Masked [simp]: "px_ok (Masked p) = px_ok p"
  by (simp add: px_ok_def)

lemma div_finer: "i \<le> j \<Longrightarrow> (x :: nat) div 2 ^ j = x div 2 ^ i div 2 ^ (j - i)"
  by (simp add: div_mult2_eq [symmetric] power_add [symmetric])

text \<open>Two prefixes are nested or disjoint, and \<open>Overlaps\<close> tells which.\<close>

lemma addrs_nested:
  assumes "px_ok p" "px_ok q" "px_bits p \<le> px_bits q"
  shows "if Overlaps p q then addrs q \<subseteq> addrs p else addrs p \<inter> addrs q = {}"
proof (cases "ip_len (px_ip p) = ip_len (px_ip q)")
  case True
  let ?l = "ip_len (px_ip p)" and ?v = "ip_val (px_ip p)" and ?w = "ip_val (px_ip q)"
  have le: "?l - px_bits q \<le> ?l - px_bits p" using assms(3) by simp
  have fine: "x div 2 ^ (?l - px_bits p) = ?w div 2 ^ (?l - px_bits p)"
    if "x div 2 ^ (?l - px_bits q) = ?w div 2 ^ (?l - px_bits q)" for x
    unfolding div_finer [OF le, of x] div_finer [OF le, of ?w] that ..
  have ov: "Overlaps p q \<longleftrightarrow> ?v div 2 ^ (?l - px_bits p) = ?w div 2 ^ (?l - px_bits p)"
    using True assms(3) by (simp add: Overlaps_def Let_def min_def)
  have q: "addrs q = {a. ip_len a = ?l \<and> ip_val a div 2 ^ (?l - px_bits q) = ?w div 2 ^ (?l - px_bits q)}"
    using True by (simp add: addrs_def Contains_def)
  have p: "addrs p = {a. ip_len a = ?l \<and> ip_val a div 2 ^ (?l - px_bits p) = ?v div 2 ^ (?l - px_bits p)}"
    by (simp add: addrs_def Contains_def)
  have at_q: "ip_val a div 2 ^ (?l - px_bits p) = ?w div 2 ^ (?l - px_bits p) \<and> ip_len a = ?l" if "a \<in> addrs q" for a
    using that fine [of "ip_val a"] unfolding q mem_Collect_eq by blast
  show ?thesis
  proof (cases "Overlaps p q")
    case True
    have "addrs q \<subseteq> addrs p"
    proof
      fix a assume "a \<in> addrs q"
      from at_q [OF this] True [unfolded ov] show "a \<in> addrs p" unfolding p mem_Collect_eq by simp
    qed
    then show ?thesis using True by simp
  next
    case False
    have "a \<notin> addrs p" if "a \<in> addrs q" for a
      using at_q [OF that] False [unfolded ov] unfolding p mem_Collect_eq by simp
    then show ?thesis using False by auto
  qed
next
  case False
  then show ?thesis by (auto simp: Overlaps_def addrs_def Contains_def)
qed

lemma Overlaps_sym: "Overlaps p q = Overlaps q p"
  unfolding Overlaps_def Let_def by (auto simp: min.commute)

lemma Overlaps_addrs: "px_ok p \<Longrightarrow> px_ok q \<Longrightarrow> Overlaps p q \<longleftrightarrow> addrs p \<inter> addrs q \<noteq> {}"
  using addrs_nested [of p q] addrs_nested [of q p] Overlaps_sym [of p q]
  by (cases "px_bits p \<le> px_bits q") (auto simp: addrs_def split: if_splits intro: Contains_self)

lemma parsed_ok: "ParsePrefix s = Some p \<Longrightarrow> px_ok p"
  by (auto simp: ParsePrefix_def ParseAddr_def px_ok_def plain_number_def Let_def
    split: if_splits option.splits list.splits)

end
