(* ===== verification/Worker_Partition.thy ===== *)
theory Worker_Partition
  imports Netip
begin

text \<open>
  The planner of \<open>internal/worker/partition.go\<close>: it turns the CIDRs and exclusions of a target scope
  into ordered, non-overlapping partitions. The planner's specification is about sets of
  addresses: the partitions cover exactly the included addresses that are not excluded.
\<close>

section \<open>The planner\<close>

definition is_alnum :: "char \<Rightarrow> bool" where
  "is_alnum c \<longleftrightarrow> is_digit c \<or> (65 \<le> byte c \<and> byte c \<le> 90) \<or> (97 \<le> byte c \<and> byte c \<le> 122)"

text \<open>\<open>safeID\<close>: a letter or digit, then at most 127 letters, digits, dots, underscores or hyphens.\<close>

definition safeID :: "string \<Rightarrow> bool" where
  "safeID s \<longleftrightarrow> s \<noteq> [] \<and> length s \<le> 128 \<and> is_alnum (hd s)
     \<and> list_all (\<lambda>c. is_alnum c \<or> c \<in> set ''._-'') (tl s)"

definition DefaultIPv4PartitionPrefix :: int where "DefaultIPv4PartitionPrefix = 24"
definition DefaultIPv6PartitionPrefix :: int where "DefaultIPv6PartitionPrefix = 64"
definition DefaultMaxPartitions :: int where "DefaultMaxPartitions = 100000"
definition maxScopeCIDRs :: nat where "maxScopeCIDRs = 4096"
definition maxPartitionCIDRs :: nat where "maxPartitionCIDRs = 64"

record target_scope =
  ts_ScopeID :: string
  ts_Revision :: int
  ts_CIDRs :: "string list"
  ts_Exclusions :: "string list"
  ts_IPv4PartitionPrefix :: int
  ts_IPv6PartitionPrefix :: int
  ts_MaxPartitions :: int

record target_partition =
  tpn_Key :: string
  tpn_Ordinal :: int
  tpn_Count :: int
  tpn_CIDRs :: "string list"

datatype plan_error = BadScopeID | BadRevision | BadCIDRCount | BadPrefixes | BadMaximum
  | InvalidCIDR string | TooManyPartitions | HostPrefix

fun parsePrefixes :: "string list \<Rightarrow> plan_error + ip_prefix list" where
  "parsePrefixes [] = Inr []"
| "parsePrefixes (v # vs) =
     (case ParsePrefix v of None \<Rightarrow> Inl (InvalidCIDR v)
      | Some p \<Rightarrow> (case parsePrefixes vs of Inl err \<Rightarrow> Inl err | Inr ps \<Rightarrow> Inr (Masked p # ps)))"

definition broader :: "ip_prefix \<Rightarrow> ip_prefix \<Rightarrow> bool" where
  "broader p q \<longleftrightarrow>
     (if ip_len (px_ip p) \<noteq> ip_len (px_ip q) then ip_len (px_ip p) < ip_len (px_ip q)
      else if px_bits p \<noteq> px_bits q then px_bits p < px_bits q
      else addr_less (px_ip p) (px_ip q))"

definition keep_uncovered :: "ip_prefix \<Rightarrow> ip_prefix list \<Rightarrow> ip_prefix list" where
  "keep_uncovered p result =
     (if list_ex (\<lambda>e. ip_len (px_ip e) = ip_len (px_ip p) \<and> Contains e (px_ip p)) result
      then result else result @ [p])"

definition removeCovered :: "ip_prefix list \<Rightarrow> ip_prefix list" where
  "removeCovered ps = fold keep_uncovered (sort_slice broader ps) []"

definition splitPrefix :: "ip_prefix \<Rightarrow> plan_error + ip_prefix \<times> ip_prefix" where
  "splitPrefix p =
     (let p = Masked p; b = px_bits p; l = ip_len (px_ip p)
      in if l \<le> b then Inl HostPrefix
         else Inr (p\<lparr>px_bits := b + 1\<rparr>,
           p\<lparr>px_ip := (px_ip p)\<lparr>ip_val := set_bit (l - b - 1) (ip_val (px_ip p))\<rparr>, px_bits := b + 1\<rparr>))"

lemma splitPrefix_bits:
  "splitPrefix p = Inr (l, r) \<Longrightarrow> px_bits p < ip_len (px_ip p)
     \<and> ip_len (px_ip l) = ip_len (px_ip p) \<and> px_bits l = Suc (px_bits p)
     \<and> ip_len (px_ip r) = ip_len (px_ip p) \<and> px_bits r = Suc (px_bits p)"
  by (auto simp: splitPrefix_def Let_def split: if_splits)

function subtractPrefix :: "ip_prefix \<Rightarrow> ip_prefix \<Rightarrow> int \<Rightarrow> plan_error + ip_prefix list" where
  "subtractPrefix base deny budget =
     (if budget < 0 then Inl TooManyPartitions
      else if \<not> Overlaps base deny then Inr [base]
      else if px_bits deny \<le> px_bits base \<and> Contains deny (px_ip base) then Inr []
      else case splitPrefix base of Inl err \<Rightarrow> Inl err
        | Inr (left, right) \<Rightarrow>
            (case subtractPrefix left deny budget of Inl err \<Rightarrow> Inl err
             | Inr leftParts \<Rightarrow>
                 (case subtractPrefix right deny (budget - int (length leftParts)) of Inl err \<Rightarrow> Inl err
                  | Inr rightParts \<Rightarrow> Inr (leftParts @ rightParts))))"
  by pat_completeness auto
termination
  by (relation "measure (\<lambda>(base, deny, budget). host_bits base)") (auto dest!: splitPrefix_bits)

function splitToPrefix :: "ip_prefix \<Rightarrow> int \<Rightarrow> int \<Rightarrow> plan_error + ip_prefix list" where
  "splitToPrefix p targetBits budget =
     (if budget < 1 then Inl TooManyPartitions
      else if targetBits \<le> int (px_bits p) then Inr [p]
      else case splitPrefix p of Inl err \<Rightarrow> Inl err
        | Inr (left, right) \<Rightarrow>
            (case splitToPrefix left targetBits budget of Inl err \<Rightarrow> Inl err
             | Inr leftParts \<Rightarrow>
                 (case splitToPrefix right targetBits (budget - int (length leftParts)) of Inl err \<Rightarrow> Inl err
                  | Inr rightParts \<Rightarrow> Inr (leftParts @ rightParts))))"
  by pat_completeness auto
termination
  by (relation "measure (\<lambda>(p, t, budget). host_bits p)") (auto dest!: splitPrefix_bits)

declare subtractPrefix.simps [simp del] splitToPrefix.simps [simp del]

fun exclude_one :: "ip_prefix \<Rightarrow> int \<Rightarrow> ip_prefix list \<Rightarrow> ip_prefix list \<Rightarrow> plan_error + ip_prefix list" where
  "exclude_one deny maximum acc [] = Inr acc"
| "exclude_one deny maximum acc (c # cs) =
     (if ip_len (px_ip c) \<noteq> ip_len (px_ip deny) \<or> \<not> Overlaps c deny
      then exclude_one deny maximum (acc @ [c]) cs
      else case subtractPrefix c deny (maximum - int (length acc)) of Inl err \<Rightarrow> Inl err
        | Inr parts \<Rightarrow>
            if maximum < int (length (acc @ parts)) then Inl TooManyPartitions
            else exclude_one deny maximum (acc @ parts) cs)"

fun exclude_all :: "int \<Rightarrow> ip_prefix list \<Rightarrow> ip_prefix list \<Rightarrow> plan_error + ip_prefix list" where
  "exclude_all maximum [] allowed = Inr allowed"
| "exclude_all maximum (deny # ds) allowed =
     (case exclude_one deny maximum [] allowed of Inl err \<Rightarrow> Inl err
      | Inr next \<Rightarrow> exclude_all maximum ds next)"

fun split_all :: "int \<Rightarrow> int \<Rightarrow> int \<Rightarrow> ip_prefix list \<Rightarrow> ip_prefix list \<Rightarrow> plan_error + ip_prefix list" where
  "split_all v4 v6 maximum acc [] = Inr acc"
| "split_all v4 v6 maximum acc (p # ps) =
     (case splitToPrefix p (if Is4 (px_ip p) then v4 else v6) (maximum - int (length acc)) of
        Inl err \<Rightarrow> Inl err
      | Inr parts \<Rightarrow>
          if maximum < int (length (acc @ parts)) then Inl TooManyPartitions
          else split_all v4 v6 maximum (acc @ parts) ps)"

definition prefix_less :: "ip_prefix \<Rightarrow> ip_prefix \<Rightarrow> bool" where
  "prefix_less p q \<longleftrightarrow>
     (if ip_len (px_ip p) \<noteq> ip_len (px_ip q) then ip_len (px_ip p) < ip_len (px_ip q)
      else if px_ip p \<noteq> px_ip q then addr_less (px_ip p) (px_ip q)
      else px_bits p < px_bits q)"

definition or_default :: "int \<Rightarrow> int \<Rightarrow> int" where
  "or_default d x = (if x = 0 then d else x)"

definition partition_key :: "(string \<Rightarrow> string) \<Rightarrow> target_scope \<Rightarrow> string \<Rightarrow> string" where
  "partition_key sha scope cidr =
     hex (sha (ts_ScopeID scope @ [CHR 0x0A] @ dec_int (ts_Revision scope) @ [CHR 0x0A] @ cidr))"

definition PlanTargetPartitions ::
  "(string \<Rightarrow> string) \<Rightarrow> target_scope \<Rightarrow> plan_error + target_partition list" where
  "PlanTargetPartitions sha scope =
     (let v4 = or_default DefaultIPv4PartitionPrefix (ts_IPv4PartitionPrefix scope);
          v6 = or_default DefaultIPv6PartitionPrefix (ts_IPv6PartitionPrefix scope);
          maximum = or_default DefaultMaxPartitions (ts_MaxPartitions scope)
      in if \<not> safeID (ts_ScopeID scope) then Inl BadScopeID
         else if ts_Revision scope < 1 \<or> ts_Revision scope > 1000000 then Inl BadRevision
         else if ts_CIDRs scope = [] \<or> length (ts_CIDRs scope) > maxScopeCIDRs
              \<or> length (ts_Exclusions scope) > maxScopeCIDRs then Inl BadCIDRCount
         else if v4 < 8 \<or> v4 > 32 \<or> v6 < 32 \<or> v6 > 128 then Inl BadPrefixes
         else if maximum < 1 \<or> maximum > DefaultMaxPartitions then Inl BadMaximum
         else case parsePrefixes (ts_CIDRs scope) of Inl err \<Rightarrow> Inl err
         | Inr included \<Rightarrow>
           (case parsePrefixes (ts_Exclusions scope) of Inl err \<Rightarrow> Inl err
            | Inr excluded \<Rightarrow>
              (case exclude_all maximum (removeCovered excluded) (removeCovered included) of Inl err \<Rightarrow> Inl err
               | Inr allowed \<Rightarrow>
                 (case split_all v4 v6 maximum [] allowed of Inl err \<Rightarrow> Inl err
                  | Inr planned \<Rightarrow>
                      let planned = sort_slice prefix_less planned
                      in Inr (map (\<lambda>(i, p). let canonical = prefix_String (Masked p) in
                           \<lparr>tpn_Key = partition_key sha scope canonical, tpn_Ordinal = int i,
                            tpn_Count = int (length planned), tpn_CIDRs = [canonical]\<rparr>)
                         (enumerate 0 planned))))))"

section \<open>Covering sets of addresses\<close>

definition cover :: "ip_prefix list \<Rightarrow> addr set" where
  "cover ps = \<Union> (addrs ` set ps)"

definition apart :: "ip_prefix list \<Rightarrow> bool" where
  "apart ps \<longleftrightarrow> sorted_wrt (\<lambda>p q. addrs p \<inter> addrs q = {}) ps"

definition canon :: "ip_prefix \<Rightarrow> bool" where
  "canon p \<longleftrightarrow> px_ok p \<and> Masked p = p"

lemma cover_simps [simp]:
  "cover [] = {}" "cover (p # ps) = addrs p \<union> cover ps" "cover (ps @ qs) = cover ps \<union> cover qs"
  by (simp_all add: cover_def)

lemma cover_set: "set ps = set qs \<Longrightarrow> cover ps = cover qs"
  by (simp add: cover_def)

lemma apart_simps [simp]:
  "apart []" "apart (p # ps) \<longleftrightarrow> addrs p \<inter> cover ps = {} \<and> apart ps"
  "apart (ps @ qs) \<longleftrightarrow> apart ps \<and> apart qs \<and> cover ps \<inter> cover qs = {}"
  by (auto simp: apart_def cover_def sorted_wrt_append)

lemma canonD: "canon p \<Longrightarrow> px_ok p" "canon p \<Longrightarrow> Masked p = p"
  by (simp_all add: canon_def)

lemma canon_mod: "canon p \<Longrightarrow> ip_val (px_ip p) mod 2 ^ host_bits p = 0"
proof -
  assume "canon p"
  then have "ip_val (px_ip (Masked p)) = ip_val (px_ip p)" by (simp add: canon_def)
  then have e: "ip_val (px_ip p) - ip_val (px_ip p) mod 2 ^ host_bits p = ip_val (px_ip p)"
    by (simp add: Masked_def)
  have "ip_val (px_ip p) mod 2 ^ host_bits p \<le> ip_val (px_ip p)" by simp
  then show ?thesis using e by linarith
qed

lemma canonI: "px_ok p \<Longrightarrow> ip_val (px_ip p) mod 2 ^ host_bits p = 0 \<Longrightarrow> canon p"
  by (cases p; cases "px_ip p") (simp add: canon_def Masked_def)

section \<open>Splitting\<close>

lemma half_div:
  fixes x m :: nat
  shows "x div 2 ^ Suc k = m \<longleftrightarrow> x div 2 ^ k = 2 * m \<or> x div 2 ^ k = Suc (2 * m)"
proof -
  have "x div 2 ^ Suc k = x div 2 ^ k div 2" by (simp add: div_mult2_eq [symmetric] mult.commute)
  then show ?thesis by auto
qed

lemma upper_half:
  fixes a :: nat
  assumes "a mod 2 ^ Suc k = 0"
  obtains m where "a div 2 ^ k = 2 * m" "a div 2 ^ Suc k = m" "set_bit k a div 2 ^ k = Suc (2 * m)"
    "a mod 2 ^ k = 0" "set_bit k a mod 2 ^ k = 0"
proof -
  obtain m where m: "a = 2 ^ k * (2 * m)" using assms by (auto simp: mod_eq_0_iff_dvd elim!: dvdE)
  then have "\<not> bit a k" by (simp add: bit_iff_odd)
  then have set: "set_bit k a = a + 2 ^ k" by (simp add: set_bit_eq)
  show thesis by (rule that [of m]) (simp_all add: set, simp_all add: m)
qed

lemma splitPrefix_cover:
  assumes "canon p" "splitPrefix p = Inr (l, r)"
  shows "canon l" "canon r" "addrs l \<union> addrs r = addrs p" "addrs l \<inter> addrs r = {}"
proof -
  define a k len b where "a = ip_val (px_ip p)" "k = host_bits p - 1" "len = ip_len (px_ip p)" "b = px_bits p"
  note defs = this
  have b: "b < len" using splitPrefix_bits [OF assms(2)] by (simp add: defs)
  then have k: "len - b = Suc k" "len - Suc b = k" by (simp_all add: defs)
  have lr: "ip_len (px_ip l) = len" "ip_len (px_ip r) = len" "px_bits l = Suc b" "px_bits r = Suc b"
    "ip_val (px_ip l) = a" "ip_val (px_ip r) = set_bit k a"
    using assms k(2) by (auto simp: splitPrefix_def Let_def canon_def defs split: if_splits)
  have "a mod 2 ^ Suc k = 0" using canon_mod [OF assms(1)] k(1) unfolding defs by simp
  then obtain m where m: "a div 2 ^ k = 2 * m" "a div 2 ^ Suc k = m" "set_bit k a div 2 ^ k = Suc (2 * m)"
    "a mod 2 ^ k = 0" "set_bit k a mod 2 ^ k = 0" by (rule upper_half)
  have ok: "px_ok l" "px_ok r" using canonD(1) [OF assms(1)] b lr by (simp_all add: px_ok_def defs)
  show "canon l" by (rule canonI [OF ok(1)]) (simp add: lr k m)
  show "canon r" by (rule canonI [OF ok(2)]) (simp add: lr k m)
  have al: "addrs l = {x. ip_len x = len \<and> ip_val x div 2 ^ k = 2 * m}"
    unfolding addrs_def Contains_def lr k m ..
  have ar: "addrs r = {x. ip_len x = len \<and> ip_val x div 2 ^ k = Suc (2 * m)}"
    unfolding addrs_def Contains_def lr k m ..
  have ap: "addrs p = {x. ip_len x = len \<and> ip_val x div 2 ^ Suc k = m}"
    unfolding addrs_def Contains_def defs(1,3,4) [symmetric] k(1) m(2) ..
  show "addrs l \<union> addrs r = addrs p" unfolding al ar ap half_div by blast
  show "addrs l \<inter> addrs r = {}" unfolding al ar by auto
qed

lemma splitPrefix_ok: "px_bits p < ip_len (px_ip p) \<Longrightarrow> \<exists>l r. splitPrefix p = Inr (l, r)"
  by (simp add: splitPrefix_def Let_def)

lemma covered_base:
  assumes "px_ok base" "px_ok deny" "Overlaps base deny"
  shows "px_bits deny \<le> px_bits base \<Longrightarrow> addrs base \<subseteq> addrs deny"
    "\<not> (px_bits deny \<le> px_bits base \<and> Contains deny (px_ip base)) \<Longrightarrow> px_bits base < ip_len (px_ip base)"
proof -
  show sub: "addrs base \<subseteq> addrs deny" if "px_bits deny \<le> px_bits base"
    using addrs_nested [OF assms(2,1) that] assms(3) Overlaps_sym [of base deny] by simp
  show "px_bits base < ip_len (px_ip base)"
    if n: "\<not> (px_bits deny \<le> px_bits base \<and> Contains deny (px_ip base))"
  proof (rule ccontr)
    assume "\<not> px_bits base < ip_len (px_ip base)"
    then have "px_bits deny \<le> px_bits base"
      using assms by (auto simp: px_ok_def Overlaps_def)
    then show False using n sub by (auto simp: addrs_def intro: Contains_self)
  qed
qed

text \<open>Subtracting an excluded prefix: the pieces cover the difference, and splitting never fails.\<close>

lemma subtract_cover:
  assumes "canon base" "px_ok deny" "subtractPrefix base deny budget = Inr ps"
  shows "cover ps = addrs base - addrs deny \<and> apart ps \<and> list_all canon ps"
  using assms
proof (induction base deny budget arbitrary: ps rule: subtractPrefix.induct)
  case (1 base deny budget)
  have ok: "px_ok base" using "1.prems"(1) by (rule canonD)
  show ?case
  proof (cases "Overlaps base deny")
    case False
    then have "ps = [base]" using "1.prems"(3) by (simp add: subtractPrefix.simps split: if_splits)
    moreover have "addrs base \<inter> addrs deny = {}" using Overlaps_addrs [OF ok "1.prems"(2)] False by simp
    ultimately show ?thesis using "1.prems"(1) by auto
  next
    case ov: True
    note covered = covered_base [OF ok "1.prems"(2) ov]
    show ?thesis
    proof (cases "px_bits deny \<le> px_bits base \<and> Contains deny (px_ip base)")
      case True
      then have "ps = []" using "1.prems"(3) ov by (simp add: subtractPrefix.simps split: if_splits)
      then show ?thesis using covered(1) True by auto
    next
      case False
      obtain l r where lr: "splitPrefix base = Inr (l, r)" using splitPrefix_ok covered(2) [OF False] by blast
      note halves = splitPrefix_cover [OF "1.prems"(1) lr]
      obtain ls rs where parts: "subtractPrefix l deny budget = Inr ls"
        "subtractPrefix r deny (budget - int (length ls)) = Inr rs" "ps = ls @ rs" "\<not> budget < 0"
        using "1.prems"(3) ov False lr
        by (subst (asm) subtractPrefix.simps) (auto split: if_splits sum.splits)
      have "cover ls = addrs l - addrs deny \<and> apart ls \<and> list_all canon ls"
        using "1.IH"(1) [OF parts(4) _ _ lr refl halves(1) "1.prems"(2) parts(1)] ov False by simp
      moreover have "cover rs = addrs r - addrs deny \<and> apart rs \<and> list_all canon rs"
        using "1.IH"(2) [OF parts(4) _ _ lr refl parts(1) halves(2) "1.prems"(2) parts(2)] ov False by simp
      ultimately show ?thesis using halves(3,4) parts(3) by auto
    qed
  qed
qed

lemma subtract_fails:
  assumes "canon base" "px_ok deny" "subtractPrefix base deny budget = Inl err"
  shows "err = TooManyPartitions"
  using assms
proof (induction base deny budget arbitrary: err rule: subtractPrefix.induct)
  case (1 base deny budget)
  show ?case
  proof (cases "\<not> budget < 0 \<and> Overlaps base deny \<and> \<not> (px_bits deny \<le> px_bits base \<and> Contains deny (px_ip base))")
    case True
    then obtain l r where lr: "splitPrefix base = Inr (l, r)"
      using splitPrefix_ok covered_base(2) [OF canonD(1) [OF "1.prems"(1)] "1.prems"(2)] by blast
    note halves = splitPrefix_cover [OF "1.prems"(1) lr]
    show ?thesis
    proof (cases "subtractPrefix l deny budget")
      case (Inl e)
      then show ?thesis using "1.IH"(1) [OF _ _ _ lr refl halves(1) "1.prems"(2)] True "1.prems"(3) lr
        by (subst (asm) (2) subtractPrefix.simps) auto
    next
      case (Inr ls)
      then show ?thesis using "1.IH"(2) [OF _ _ _ lr refl Inr halves(2) "1.prems"(2)] True "1.prems"(3) lr
        by (subst (asm) (2) subtractPrefix.simps) (auto split: sum.splits)
    qed
  next
    case False
    then show ?thesis using "1.prems"(3) by (subst (asm) subtractPrefix.simps) (auto split: if_splits)
  qed
qed

lemma split_to_cover:
  assumes "canon p" "splitToPrefix p t budget = Inr ps"
  shows "cover ps = addrs p \<and> apart ps \<and> list_all canon ps \<and> (\<forall>q \<in> set ps. t \<le> int (px_bits q))
    \<and> int (length ps) \<le> budget \<and> (\<forall>q \<in> set ps. ip_len (px_ip q) = ip_len (px_ip p))"
  using assms
proof (induction p t budget arbitrary: ps rule: splitToPrefix.induct)
  case (1 p t budget)
  show ?case
  proof (cases "t \<le> int (px_bits p)")
    case True
    then show ?thesis using "1.prems" by (subst (asm) splitToPrefix.simps) (auto split: if_splits)
  next
    case False
    then obtain l r ls rs where lr: "splitPrefix p = Inr (l, r)"
      and parts: "splitToPrefix l t budget = Inr ls"
        "splitToPrefix r t (budget - int (length ls)) = Inr rs" "ps = ls @ rs" "\<not> budget < 1"
      using "1.prems"(2) by (subst (asm) splitToPrefix.simps) (auto split: if_splits sum.splits prod.splits)
    note halves = splitPrefix_cover [OF "1.prems"(1) lr] splitPrefix_bits [OF lr]
    have "cover ls = addrs l \<and> apart ls \<and> list_all canon ls \<and> (\<forall>q \<in> set ls. t \<le> int (px_bits q))
        \<and> int (length ls) \<le> budget \<and> (\<forall>q \<in> set ls. ip_len (px_ip q) = ip_len (px_ip l))"
      using "1.IH"(1) [OF parts(4) False lr refl halves(1) parts(1)] .
    moreover have "cover rs = addrs r \<and> apart rs \<and> list_all canon rs \<and> (\<forall>q \<in> set rs. t \<le> int (px_bits q))
        \<and> int (length rs) \<le> budget - int (length ls) \<and> (\<forall>q \<in> set rs. ip_len (px_ip q) = ip_len (px_ip r))"
      using "1.IH"(2) [OF parts(4) False lr refl parts(1) halves(2) parts(2)] .
    ultimately show ?thesis using halves(3-5) parts(3) by auto
  qed
qed

section \<open>The stages of the planner\<close>

lemma not_overlapping:
  "px_ok c \<Longrightarrow> px_ok deny \<Longrightarrow> ip_len (px_ip c) \<noteq> ip_len (px_ip deny) \<or> \<not> Overlaps c deny \<Longrightarrow>
   addrs c \<inter> addrs deny = {}"
  using Overlaps_addrs [of c deny] by (auto simp: Overlaps_def)

lemma exclude_one_cover:
  "exclude_one deny maximum acc cs = Inr ps \<Longrightarrow> px_ok deny \<Longrightarrow> list_all canon (acc @ cs) \<Longrightarrow> apart (acc @ cs) \<Longrightarrow>
   cover acc \<inter> addrs deny = {} \<Longrightarrow>
   cover ps = cover acc \<union> (cover cs - addrs deny) \<and> apart ps \<and> list_all canon ps"
proof (induction deny maximum acc cs rule: exclude_one.induct)
  case (1 deny maximum acc)
  then show ?case by auto
next
  case (2 deny maximum acc c cs)
  have c: "canon c" "px_ok c" using "2.prems"(3) by (simp_all add: canon_def)
  show ?case
  proof (cases "ip_len (px_ip c) \<noteq> ip_len (px_ip deny) \<or> \<not> Overlaps c deny")
    case True
    note d = not_overlapping [OF c(2) "2.prems"(2) True]
    have "cover ps = cover (acc @ [c]) \<union> (cover cs - addrs deny) \<and> apart ps \<and> list_all canon ps"
      using "2.prems" True d by (intro "2.IH"(1) [OF True]) auto
    then show ?thesis using d by auto
  next
    case False
    then obtain parts where parts: "subtractPrefix c deny (maximum - int (length acc)) = Inr parts"
      "\<not> maximum < int (length (acc @ parts))" "exclude_one deny maximum (acc @ parts) cs = Inr ps"
      using "2.prems"(1) by (auto split: sum.splits if_splits)
    note sub = subtract_cover [OF c(1) "2.prems"(2) parts(1)]
    have "cover ps = cover (acc @ parts) \<union> (cover cs - addrs deny) \<and> apart ps \<and> list_all canon ps"
      using "2.prems" sub by (intro "2.IH"(2) [OF False parts(1,2,3)]) auto
    then show ?thesis using sub by auto
  qed
qed

lemma exclude_all_cover:
  "exclude_all maximum ds allowed = Inr ps \<Longrightarrow> list_all px_ok ds \<Longrightarrow> list_all canon allowed \<Longrightarrow> apart allowed \<Longrightarrow>
   cover ps = cover allowed - cover ds \<and> apart ps \<and> list_all canon ps"
proof (induction maximum ds allowed rule: exclude_all.induct)
  case (2 maximum deny ds allowed)
  then obtain nx where nx: "exclude_one deny maximum [] allowed = Inr nx" "exclude_all maximum ds nx = Inr ps"
    by (auto split: sum.splits)
  have one: "cover nx = cover allowed - addrs deny \<and> apart nx \<and> list_all canon nx"
    using exclude_one_cover [OF nx(1)] "2.prems" by simp
  then show ?case using "2.IH" [OF nx] "2.prems" by auto
qed simp

lemma split_all_cover:
  "split_all v4 v6 maximum acc cs = Inr ps \<Longrightarrow> list_all canon (acc @ cs) \<Longrightarrow> apart (acc @ cs) \<Longrightarrow>
   int (length acc) \<le> maximum \<Longrightarrow>
   (\<forall>p \<in> set acc. (if Is4 (px_ip p) then v4 else v6) \<le> int (px_bits p)) \<Longrightarrow>
   cover ps = cover acc \<union> cover cs \<and> apart ps \<and> list_all canon ps \<and> int (length ps) \<le> maximum
   \<and> (\<forall>p \<in> set ps. (if Is4 (px_ip p) then v4 else v6) \<le> int (px_bits p))"
proof (induction v4 v6 maximum acc cs rule: split_all.induct)
  case (2 v4 v6 maximum acc p cs)
  let ?t = "if Is4 (px_ip p) then v4 else v6"
  obtain parts where parts: "splitToPrefix p ?t (maximum - int (length acc)) = Inr parts"
    "\<not> maximum < int (length (acc @ parts))" "split_all v4 v6 maximum (acc @ parts) cs = Inr ps"
    using "2.prems"(1) by (auto split: sum.splits if_splits)
  have "canon p" using "2.prems"(2) by simp
  note split = split_to_cover [OF this parts(1)]
  have bits: "\<forall>q \<in> set parts. (if Is4 (px_ip q) then v4 else v6) \<le> int (px_bits q)"
    using split by (auto simp: Is4_def)
  have "cover ps = cover (acc @ parts) \<union> cover cs \<and> apart ps \<and> list_all canon ps \<and> int (length ps) \<le> maximum
   \<and> (\<forall>p \<in> set ps. (if Is4 (px_ip p) then v4 else v6) \<le> int (px_bits p))"
    using "2.prems" split bits parts(2) by (intro "2.IH" [OF parts]) auto
  then show ?case using split by auto
qed simp

text \<open>Removing covered prefixes leaves disjoint ones with the same addresses.\<close>

lemma apart_insert_slice: "apart (insert_slice lt x ps) = apart (x # ps)"
proof -
  have "cover (insert_slice lt y qs) = addrs y \<union> cover qs" for y qs
    using cover_set [of "insert_slice lt y qs" "y # qs"] by (metis cover_simps(2) insert_is_Un list.simps(15) mset_insert_slice set_mset_mset mset.simps(2))
  then show ?thesis by (induction ps) (auto simp: Int_Un_distrib)
qed

lemma apart_sort_slice: "apart (sort_slice lt ps) = apart ps"
proof (induction ps)
  case (Cons p ps)
  have "cover (sort_slice lt ps) = cover ps" by (rule cover_set) simp
  then show ?case using Cons by (simp add: sort_slice_def apart_insert_slice)
qed (simp add: sort_slice_def)

lemma keep_uncovered_fold:
  "list_all canon (acc @ ps) \<Longrightarrow> apart acc \<Longrightarrow> sorted_wrt (\<lambda>p q. \<not> broader q p) (acc @ ps) \<Longrightarrow>
   cover (fold keep_uncovered ps acc) = cover acc \<union> cover ps \<and> apart (fold keep_uncovered ps acc)
   \<and> list_all canon (fold keep_uncovered ps acc)"
proof (induction ps arbitrary: acc)
  case (Cons p ps)
  have p: "canon p" "px_ok p" using Cons.prems(1) by (simp_all add: canon_def)
  have le: "ip_len (px_ip e) = ip_len (px_ip p) \<Longrightarrow> px_bits e \<le> px_bits p" if "e \<in> set acc" for e
    using Cons.prems(3) that by (force simp: sorted_wrt_append broader_def split: if_splits)
  have e: "px_ok e" if "e \<in> set acc" for e using Cons.prems(1) that by (auto simp: list_all_iff canon_def)
  show ?case
  proof (cases "list_ex (\<lambda>e. ip_len (px_ip e) = ip_len (px_ip p) \<and> Contains e (px_ip p)) acc")
    case True
    then obtain x where x: "x \<in> set acc" "ip_len (px_ip x) = ip_len (px_ip p)" "Contains x (px_ip p)"
      by (auto simp: list_ex_iff)
    then have "Overlaps x p" using Overlaps_addrs [OF e [OF x(1)] p(2)] by (auto simp: addrs_def intro: Contains_self)
    then have "addrs p \<subseteq> addrs x" using addrs_nested [OF e [OF x(1)] p(2) le [OF x(1,2)]] by simp
    then have "addrs p \<subseteq> cover acc" using x(1) by (auto simp: cover_def)
    moreover have "cover (fold keep_uncovered ps acc) = cover acc \<union> cover ps
      \<and> apart (fold keep_uncovered ps acc) \<and> list_all canon (fold keep_uncovered ps acc)"
      using Cons.prems by (intro Cons.IH) (auto simp: sorted_wrt_append)
    moreover have "keep_uncovered p acc = acc" using True by (simp add: keep_uncovered_def)
    ultimately show ?thesis by auto
  next
    case False
    have "addrs x \<inter> addrs p = {}" if x: "x \<in> set acc" for x
    proof (rule ccontr)
      assume n: "addrs x \<inter> addrs p \<noteq> {}"
      then have o: "Overlaps x p" using Overlaps_addrs [OF e [OF x] p(2)] by simp
      then have l: "ip_len (px_ip x) = ip_len (px_ip p)" by (simp add: Overlaps_def)
      then have "addrs p \<subseteq> addrs x" using addrs_nested [OF e [OF x] p(2) le [OF x l]] o by simp
      then have "Contains x (px_ip p)" by (auto simp: addrs_def intro: Contains_self)
      then show False using False l x by (auto simp: list_ex_iff)
    qed
    then have "cover acc \<inter> addrs p = {}" by (auto simp: cover_def)
    then have "cover (fold keep_uncovered ps (acc @ [p])) = cover (acc @ [p]) \<union> cover ps
      \<and> apart (fold keep_uncovered ps (acc @ [p])) \<and> list_all canon (fold keep_uncovered ps (acc @ [p]))"
      using Cons.prems by (intro Cons.IH) auto
    moreover have "keep_uncovered p acc = acc @ [p]" using False by (simp add: keep_uncovered_def)
    ultimately show ?thesis by auto
  qed
qed simp

lemma slice_less_broader: "slice_less broader"
  by unfold_locales (auto simp: broader_def addr_less_def split: if_splits)

lemma removeCovered_cover:
  assumes "list_all canon ps"
  shows "cover (removeCovered ps) = cover ps \<and> apart (removeCovered ps) \<and> list_all canon (removeCovered ps)"
proof -
  have c: "cover (sort_slice broader ps) = cover ps" by (rule cover_set) simp
  show ?thesis using keep_uncovered_fold [of "[]" "sort_slice broader ps"] assms c
    slice_less.sorted_sort_slice [OF slice_less_broader, of ps]
    by (simp add: removeCovered_def list_all_iff)
qed

lemma parsePrefixes_cover:
  "parsePrefixes vs = Inr ps \<Longrightarrow> list_all canon ps \<and>
   cover ps = {a. \<exists>v \<in> set vs. \<exists>p. ParsePrefix v = Some p \<and> Contains p a}"
proof (induction vs arbitrary: ps)
  case (Cons v vs)
  then obtain p qs where p: "ParsePrefix v = Some p" "parsePrefixes vs = Inr qs" "ps = Masked p # qs"
    by (auto split: option.splits sum.splits)
  have "canon (Masked p)" using parsed_ok [OF p(1)] by (simp add: canon_def)
  moreover have "addrs (Masked p) = {a. Contains p a}" by (simp add: addrs_def [symmetric])
  ultimately show ?case using Cons.IH [OF p(2)] p(1,3) by auto
qed simp

section \<open>The plan is exact\<close>

definition selected :: "string list \<Rightarrow> addr set" where
  "selected cidrs = {a. \<exists>v \<in> set cidrs. \<exists>p. ParsePrefix v = Some p \<and> Contains p a}"

text \<open>
  C10: the planner partitions exactly the authorised addresses. When it returns partitions, they
  are the canonical texts of prefixes that cover every address some CIDR of the scope contains and
  no exclusion contains, and no other address; no address lies in two partitions; they are in
  ascending order, at least as narrow as the configured prefix length, within the partition limit,
  and numbered consecutively out of their total.
\<close>

theorem plan_exact:
  assumes "PlanTargetPartitions sha scope = Inr ts"
  shows "\<exists>ps. map tpn_CIDRs ts = map (\<lambda>p. [prefix_String p]) ps
      \<and> cover ps = selected (ts_CIDRs scope) - selected (ts_Exclusions scope)
      \<and> apart ps \<and> list_all canon ps \<and> sorted_wrt (\<lambda>p q. \<not> prefix_less q p) ps
      \<and> (\<forall>p \<in> set ps. (if Is4 (px_ip p) then or_default 24 (ts_IPv4PartitionPrefix scope)
            else or_default 64 (ts_IPv6PartitionPrefix scope)) \<le> int (px_bits p))
    \<and> int (length ts) \<le> or_default 100000 (ts_MaxPartitions scope)
    \<and> map tpn_Ordinal ts = map int [0..<length ts] \<and> (\<forall>t \<in> set ts. tpn_Count t = int (length ts))"
proof -
  let ?v4 = "or_default 24 (ts_IPv4PartitionPrefix scope)"
  let ?v6 = "or_default 64 (ts_IPv6PartitionPrefix scope)"
  let ?max = "or_default 100000 (ts_MaxPartitions scope)"
  note default_defs = DefaultIPv4PartitionPrefix_def DefaultIPv6PartitionPrefix_def DefaultMaxPartitions_def
  obtain inc exc allowed planned where st: "parsePrefixes (ts_CIDRs scope) = Inr inc"
    "parsePrefixes (ts_Exclusions scope) = Inr exc" "1 \<le> ?max"
    "exclude_all ?max (removeCovered exc) (removeCovered inc) = Inr allowed"
    "split_all ?v4 ?v6 ?max [] allowed = Inr planned"
    and ts: "ts = map (\<lambda>(i, p). let canonical = prefix_String (Masked p) in
                           \<lparr>tpn_Key = partition_key sha scope canonical, tpn_Ordinal = int i,
                            tpn_Count = int (length (sort_slice prefix_less planned)), tpn_CIDRs = [canonical]\<rparr>)
                         (enumerate 0 (sort_slice prefix_less planned))"
    using assms unfolding PlanTargetPartitions_def Let_def default_defs
    by (auto split: if_splits sum.splits)
  let ?ps = "sort_slice prefix_less planned"
  note inc = parsePrefixes_cover [OF st(1)] and exc = parsePrefixes_cover [OF st(2)]
  have rinc: "cover (removeCovered inc) = cover inc" "apart (removeCovered inc)" "list_all canon (removeCovered inc)"
    using removeCovered_cover [of inc] inc by blast+
  have rexc: "cover (removeCovered exc) = cover exc" "list_all canon (removeCovered exc)"
    using removeCovered_cover [of exc] exc by blast+
  have "list_all px_ok (removeCovered exc)"
    using rexc(2) unfolding list_all_iff by (blast dest: canonD)
  from exclude_all_cover [OF st(4) this rinc(3,2)]
  have allowed: "cover allowed = cover inc - cover exc" "apart allowed" "list_all canon allowed"
    unfolding rinc(1) rexc(1) by blast+
  have "cover planned = cover [] \<union> cover allowed \<and> apart planned \<and> list_all canon planned
      \<and> int (length planned) \<le> ?max \<and> (\<forall>p \<in> set planned. (if Is4 (px_ip p) then ?v4 else ?v6) \<le> int (px_bits p))"
    by (rule split_all_cover [OF st(5)]) (use allowed(2,3) st(3) in simp_all)
  then have planned: "cover planned = cover allowed" "apart planned" "list_all canon planned"
      "int (length planned) \<le> ?max" "\<forall>p \<in> set planned. (if Is4 (px_ip p) then ?v4 else ?v6) \<le> int (px_bits p)"
    by simp_all
  have "cover ?ps = cover planned" by (rule cover_set) simp
  then have cov: "cover ?ps = selected (ts_CIDRs scope) - selected (ts_Exclusions scope)"
    unfolding planned(1) allowed(1) selected_def using conjunct2 [OF inc] conjunct2 [OF exc] by (simp only:)
  have masked: "Masked p = p" if "p \<in> set ?ps" for p
    using that planned(3) unfolding list_all_iff by (simp add: canonD)
  have masked_nth: "Masked (?ps ! i) = ?ps ! i" if "i < length planned" for i
    using masked [OF nth_mem [of i "?ps"]] that by simp
  have sorted: "sorted_wrt (\<lambda>p q. \<not> prefix_less q p) ?ps"
  proof (rule slice_less.sorted_sort_slice)
    show "slice_less prefix_less" by unfold_locales (auto simp: prefix_less_def addr_less_def addr_eq_iff split: if_splits)
  qed
  have len: "length ts = length ?ps" using ts by simp
  have cidrs: "map tpn_CIDRs ts = map (\<lambda>p. [prefix_String p]) ?ps"
    unfolding ts by (rule nth_equalityI) (simp_all add: Let_def nth_enumerate_eq masked_nth)
  have ord: "map tpn_Ordinal ts = map int [0..<length ts]"
    unfolding ts by (rule nth_equalityI) (simp_all add: Let_def nth_enumerate_eq)
  have cnt: "\<forall>t \<in> set ts. tpn_Count t = int (length ts)"
    unfolding len unfolding ts by (auto simp: Let_def)
  show ?thesis
  proof (intro conjI exI [of _ "?ps"] cidrs cov sorted ord cnt)
    show "apart ?ps" using planned(2) by (simp only: apart_sort_slice)
    show "list_all canon ?ps" using planned(3) by (simp add: list_all_iff)
    show "\<forall>p \<in> set ?ps. (if Is4 (px_ip p) then ?v4 else ?v6) \<le> int (px_bits p)"
      using planned(5) by (simp only: set_sort_slice)
    show "int (length ts) \<le> ?max" using planned(4) len by simp
  qed
qed

definition demo_scope :: target_scope where
  "demo_scope = \<lparr>ts_ScopeID = ''s'', ts_Revision = 1, ts_CIDRs = [''10.0.0.0/24''],
     ts_Exclusions = [''10.0.0.128/25''], ts_IPv4PartitionPrefix = 25, ts_IPv6PartitionPrefix = 0,
     ts_MaxPartitions = 0\<rparr>"

lemmas parse_defs = ParsePrefix_def ParseAddr_def parseIPv4_def plain_number_def is_digit_def read_nat_def

lemma demo_CIDRs:
  "ParsePrefix ''10.0.0.0/24'' = Some \<lparr>px_ip = \<lparr>ip_len = 32, ip_val = 167772160\<rparr>, px_bits = 24\<rparr>"
  "ParsePrefix ''10.0.0.128/25'' = Some \<lparr>px_ip = \<lparr>ip_len = 32, ip_val = 167772288\<rparr>, px_bits = 25\<rparr>"
  by (simp_all add: parse_defs Let_def)

lemma demo_plan: "\<exists>ts. PlanTargetPartitions (take 4) demo_scope = Inr ts"
proof -
  let ?p = "\<lparr>px_ip = \<lparr>ip_len = 32, ip_val = 167772160\<rparr>, px_bits = 24\<rparr>"
  let ?q = "\<lparr>px_ip = \<lparr>ip_len = 32, ip_val = 167772288\<rparr>, px_bits = 25\<rparr>"
  let ?l = "\<lparr>px_ip = \<lparr>ip_len = 32, ip_val = 167772160\<rparr>, px_bits = 25\<rparr>"
  have split: "splitPrefix ?p = Inr (?l, ?q)"
    by (simp add: splitPrefix_def Masked_def set_bit_eq bit_iff_odd)
  have "subtractPrefix ?l ?q 100000 = Inr [?l]" "subtractPrefix ?q ?q 99999 = Inr []"
    by (simp_all add: subtractPrefix.simps Overlaps_def Contains_def)
  then have "subtractPrefix ?p ?q 100000 = Inr [?l]"
    by (subst subtractPrefix.simps) (simp add: split Overlaps_def Contains_def)
  then have ex: "exclude_all 100000 [?q] [?p] = Inr [?l]" by (simp add: Overlaps_def)
  have "splitToPrefix ?l 25 100000 = Inr [?l]" by (simp add: splitToPrefix.simps)
  then have sp: "split_all 25 64 100000 [] [?l] = Inr [?l]" by (simp add: Is4_def)
  show ?thesis
    using ex sp by (simp add: PlanTargetPartitions_def demo_scope_def demo_CIDRs Let_def or_default_def
      DefaultIPv6PartitionPrefix_def DefaultIPv4PartitionPrefix_def DefaultMaxPartitions_def
      maxScopeCIDRs_def safeID_def is_alnum_def is_digit_def removeCovered_def keep_uncovered_def
      sort_slice_def Masked_def)
qed

theorem plan_exact_witness:
  "\<exists>ts ps. PlanTargetPartitions (take 4) demo_scope = Inr ts \<and> map tpn_CIDRs ts = map (\<lambda>p. [prefix_String p]) ps
    \<and> cover ps = selected [''10.0.0.0/24''] - selected [''10.0.0.128/25''] \<and> apart ps"
proof -
  obtain ts where ts: "PlanTargetPartitions (take 4) demo_scope = Inr ts" using demo_plan by blast
  from plan_exact [OF ts] ts show ?thesis by (auto simp: demo_scope_def)
qed

end
