(* ===== verification/Model.thy ===== *)
theory Model
  imports Topo_Prelude
begin

text \<open>
  Package \<open>pkg/model\<close>: the destination-neutral discovery contract. Each Go struct is a record
  whose fields carry a prefix naming the struct (\<open>as_Name\<close> is \<open>Asset.Name\<close>), since several
  structs share field names. Values of type \<open>any\<close> are JSON values. A number is the exact rational it denotes:
  the rounding to \<open>float64\<close> of an integer of type \<open>any\<close> beyond 2 to the 53 is not represented. The digest \<open>sha256.Sum256\<close>
  is the parameter \<open>sha\<close> (bytes to bytes).
\<close>

section \<open>Data\<close>

type_synonym float64 = rat

datatype json = JNull | JBool bool | JNum float64 | JStr string | JArr "json list"
  | JObj "(string \<times> json) list"

definition SchemaVersion :: string where "SchemaVersion = ''v1alpha1''"

type_synonym asset_type = string

definition AssetHost :: asset_type where "AssetHost = ''host''"
definition AssetNetworkInterface :: asset_type where "AssetNetworkInterface = ''network_interface''"

record evidence =
  ev_Source :: string
  ev_Collected :: time
  ev_Path :: string
  ev_Confidence :: float64

record asset =
  as_Type :: asset_type
  as_NativeID :: string
  as_Name :: string
  as_Identifiers :: "string gomap"
  as_Attributes :: "json gomap"
  as_Evidence :: "evidence list"

record relationship =
  rl_Type :: string
  rl_FromNativeID :: string
  rl_ToNativeID :: string
  rl_Evidence :: "evidence list"

record collection_error =
  ce_Code :: string
  ce_Message :: string
  ce_Retryable :: bool

record observation =
  ob_SchemaVersion :: string
  ob_ObservationID :: string
  ob_SiteID :: string
  ob_CollectorID :: string
  ob_Plugin :: string
  ob_JobID :: string
  ob_ObservedAt :: time
  ob_Assets :: "asset list"
  ob_Relationships :: "relationship list"
  ob_Errors :: "collection_error list"
  ob_Labels :: "string gomap"

record heartbeat_request =
  hr_SchemaVersion :: string
  hr_CollectorID :: string
  hr_SiteID :: string

record collector_status =
  cs_CollectorID :: string
  cs_SiteID :: string
  cs_LastHeartbeat :: time
  cs_Alive :: bool

type_synonym job_type = string

definition JobTypeDiscover :: job_type where "JobTypeDiscover = ''discover''"

record job =
  jb_JobID :: string
  jb_CollectorID :: string
  jb_Type :: job_type
  jb_CreatedAt :: time

record job_request =
  jq_CollectorID :: string
  jq_Type :: job_type

record job_result =
  jr_CollectorID :: string
  jr_Success :: bool
  jr_Error :: string
  jr_CompletedAt :: time

record job_status_view =
  js_JobID :: string
  js_CollectorID :: string
  js_Type :: job_type
  js_Status :: string
  js_CreatedAt :: time
  js_CompletedAt :: time
  js_Error :: string

section \<open>Stable identifiers\<close>

text \<open>A Go map read returns the zero value for an absent key.\<close>

definition gm_index :: "string gomap \<Rightarrow> string \<Rightarrow> string" where
  "gm_index m k = (case map_of m k of None \<Rightarrow> [] | Some v \<Rightarrow> v)"

definition key_value_parts :: "string gomap \<Rightarrow> string list" where
  "key_value_parts m = map (\<lambda>k. k @ ''='' @ gm_index m k) (sort (map fst m))"

definition asset_id_parts :: "asset \<Rightarrow> string list" where
  "asset_id_parts a = [as_Type a, as_NativeID a] @ key_value_parts (as_Identifiers a)"

definition StableAssetID :: "(string \<Rightarrow> string) \<Rightarrow> asset \<Rightarrow> string" where
  "StableAssetID sha a = hex (take 16 (sha (join [NUL] (asset_id_parts a))))"

definition relationship_id_parts :: "relationship \<Rightarrow> string list" where
  "relationship_id_parts r = [rl_Type r, rl_FromNativeID r, rl_ToNativeID r]"

definition StableRelationshipID :: "(string \<Rightarrow> string) \<Rightarrow> relationship \<Rightarrow> string" where
  "StableRelationshipID sha r = hex (take 16 (sha (join [NUL] (relationship_id_parts r))))"

section \<open>Properties of the identifiers\<close>

lemma gm_index_cong: "map_of m = map_of m' \<Longrightarrow> gm_index m = gm_index m'"
  by (simp add: gm_index_def fun_eq_iff)

lemma key_value_parts_perm:
  assumes "gm_wf m" "mset m = mset m'"
  shows "key_value_parts m = key_value_parts m'"
proof -
  have "gm_index m = gm_index m'" using assms by (intro gm_index_cong map_of_perm)
  moreover have "sort (map fst m) = sort (map fst m')"
    by (rule properties_for_sort) (simp_all add: assms(2))
  ultimately show ?thesis by (simp add: key_value_parts_def)
qed

text \<open>
  The key-value fields determine the map, given NUL-free entries and keys without \<open>=\<close>.
\<close>

definition plain_map :: "string gomap \<Rightarrow> bool" where
  "plain_map m \<longleftrightarrow> gm_wf m \<and> (\<forall>(k, v) \<in> set m. CHR ''='' \<notin> set k \<and> NUL \<notin> set k \<and> NUL \<notin> set v)"

lemma key_value_parts_nul:
  assumes "plain_map m"
  shows "\<forall>x \<in> set (key_value_parts m). NUL \<notin> set x"
proof
  fix x assume "x \<in> set (key_value_parts m)"
  then obtain k where x: "x = k @ ''='' @ gm_index m k" and k: "k \<in> fst ` set m"
    by (auto simp: key_value_parts_def)
  from k obtain v where kv: "(k, v) \<in> set m" by auto
  then have "map_of m k = Some v" using assms by (auto simp: plain_map_def)
  then have "gm_index m k = v" by (simp add: gm_index_def)
  moreover have "NUL \<notin> set k" "NUL \<notin> set v" using kv assms by (auto simp: plain_map_def)
  ultimately show "NUL \<notin> set x" using x by simp
qed

lemma key_value_parts_inj:
  assumes "plain_map m" "plain_map m'" "key_value_parts m = key_value_parts m'"
  shows "map_of m = map_of m'"
proof -
  have split: "k = k' \<and> v = v'"
    if "CHR ''='' \<notin> set k" "CHR ''='' \<notin> set k'" "k @ ''='' @ v = k' @ ''='' @ v'" for k k' v v'
    using split_at_sep [of "CHR ''=''" k k' v v'] that by simp
  let ?ks = "sort (map fst m)" and ?ks' = "sort (map fst m')"
  have len: "length ?ks = length ?ks'"
    using arg_cong [OF assms(3), of length] by (simp add: key_value_parts_def)
  have noeq: "\<forall>k \<in> set ?ks. CHR ''='' \<notin> set k" "\<forall>k \<in> set ?ks'. CHR ''='' \<notin> set k"
    using assms(1,2) by (auto simp: plain_map_def)
  have nth: "?ks ! i = ?ks' ! i \<and> gm_index m (?ks ! i) = gm_index m' (?ks' ! i)"
    if "i < length ?ks" for i
  proof -
    have "?ks ! i @ ''='' @ gm_index m (?ks ! i) = ?ks' ! i @ ''='' @ gm_index m' (?ks' ! i)"
      using arg_cong [OF assms(3), of "\<lambda>l. l ! i"] that len by (simp add: key_value_parts_def)
    then show ?thesis using noeq that len by (intro split) (metis nth_mem)+
  qed
  have keys: "?ks = ?ks'" using nth len by (intro nth_equalityI) auto
  have doms: "dom (map_of m) = dom (map_of m')"
    using arg_cong [OF keys, of set] by (simp add: dom_map_of_conv_image_fst)
  have "map_of m k = map_of m' k" if k: "k \<in> dom (map_of m)" for k
  proof -
    from k have "k \<in> set ?ks" by (simp add: dom_map_of_conv_image_fst)
    then obtain i where "i < length ?ks" "k = ?ks ! i" by (metis in_set_conv_nth)
    then have "gm_index m k = gm_index m' k" using nth keys by metis
    moreover obtain v v' where "map_of m k = Some v" "map_of m' k = Some v'"
      using k doms by blast
    ultimately show ?thesis by (simp add: gm_index_def)
  qed
  then show ?thesis using doms by (metis domIff ext)
qed

text \<open>
  The stable asset ID depends only on the type, the native ID and the identifier map (as a
  map, whatever order Go iterates it in), never on the name, the attributes or the evidence.
\<close>

theorem StableAssetID_determined:
  assumes "gm_wf (as_Identifiers a)" "mset (as_Identifiers a) = mset (as_Identifiers b)"
    and "as_Type a = as_Type b" "as_NativeID a = as_NativeID b"
  shows "StableAssetID sha a = StableAssetID sha b"
  using assms key_value_parts_perm by (simp add: StableAssetID_def asset_id_parts_def)

theorem StableAssetID_determined_witness:
  "StableAssetID (take 32) \<lparr>as_Type = AssetHost, as_NativeID = ''n'', as_Name = ''old'',
      as_Identifiers = [(''mac'', ''m''), (''ip'', ''i'')], as_Attributes = [], as_Evidence = []\<rparr> =
   StableAssetID (take 32) \<lparr>as_Type = AssetHost, as_NativeID = ''n'', as_Name = ''new'',
      as_Identifiers = [(''ip'', ''i''), (''mac'', ''m'')], as_Attributes = [(''os'', JNull)],
      as_Evidence = []\<rparr>"
  by (rule StableAssetID_determined) simp_all

end
