(* ===== verification/Json_Text.thy ===== *)
theory Json_Text
  imports Model
begin

text \<open>
  How \<open>encoding/json\<close> writes a Go string (with HTML escaping, its default), and that a quoted
  string can be read back: the text of a tuple of valid strings determines the tuple.
\<close>

section \<open>Quoting\<close>

definition hex4 :: "nat \<Rightarrow> string" where
  "hex4 n = [digit_char (n div 4096 mod 16), digit_char (n div 256 mod 16),
             digit_char (n div 16 mod 16), digit_char (n mod 16)]"

definition short_escapes :: "(nat \<times> char) list" where
  "short_escapes = [(0x22, CHR 0x22), (0x5C, CHR 0x5C), (8, CHR ''b''), (12, CHR ''f''),
     (10, CHR ''n''), (13, CHR ''r''), (9, CHR ''t'')]"

definition escape_rune :: "nat \<times> string \<Rightarrow> string" where
  "escape_rune rc = (let (r, c) = rc in
     if r < 0x80 then
       (case map_of short_escapes r of
          Some d \<Rightarrow> [CHR 0x5C, d]
        | None \<Rightarrow> if r < 0x20 \<or> r \<in> {0x3C, 0x3E, 0x26} then CHR 0x5C # CHR ''u'' # hex4 r else c)
     else if r = 0xFFFD \<and> length c = 1 then CHR 0x5C # ''ufffd''
     else if r = 0x2028 \<or> r = 0x2029 then CHR 0x5C # CHR ''u'' # hex4 r
     else c)"

definition json_quote :: "string \<Rightarrow> string" where
  "json_quote s = CHR 0x22 # concat (map escape_rune (rune_chunks s)) @ [CHR 0x22]"

text \<open>\<open>json.Marshal([3]string{a, b, c})\<close>.\<close>

definition json_triple :: "string \<Rightarrow> string \<Rightarrow> string \<Rightarrow> string" where
  "json_triple a b c =
     ''['' @ json_quote a @ '','' @ json_quote b @ '','' @ json_quote c @ '']''"

text \<open>
  Two values are written as the same text exactly when their canonical forms agree: keys
  sorted, strings quoted.
\<close>

fun json_form :: "json \<Rightarrow> json" where
  "json_form (JStr s) = JStr (json_quote s)"
| "json_form (JArr xs) = JArr (map json_form xs)"
| "json_form (JObj kvs) =
     JObj (map (\<lambda>kv. (json_quote (fst kv), json_form (snd kv))) (sort_key fst kvs))"
| "json_form j = j"

section \<open>Reading back\<close>

definition valid_utf8 :: "string \<Rightarrow> bool" where
  "valid_utf8 s \<longleftrightarrow> (\<forall>rc \<in> set (rune_chunks s). \<not> (fst rc = 0xFFFD \<and> length (snd rc) = 1))"

definition unhex :: "char \<Rightarrow> nat" where
  "unhex c = (if byte c < 58 then byte c - 48 else byte c - 87)"

definition unescape4 :: "string \<Rightarrow> string" where
  "unescape4 h = (let n = foldl (\<lambda>a c. 16 * a + unhex c) 0 h in
     if n = 0x2028 then map char_of [0xE2, 0x80, 0xA8 :: nat]
     else if n = 0x2029 then map char_of [0xE2, 0x80, 0xA9 :: nat]
     else [char_of n])"

definition unescape1 :: "char \<Rightarrow> string" where
  "unescape1 d = (case find (\<lambda>p. snd p = d) short_escapes of
     Some p \<Rightarrow> [char_of (fst p)] | None \<Rightarrow> [d])"

fun unquote :: "string \<Rightarrow> string \<times> string" where
  "unquote [] = ([], [])"
| "unquote (c # s) =
     (if c = CHR 0x22 then ([], s)
      else if c = CHR 0x5C then
        (case s of
           d # a1 # a2 # a3 # a4 # s' \<Rightarrow>
             (if d = CHR ''u'' then apfst ((@) (unescape4 [a1, a2, a3, a4])) (unquote s')
              else apfst ((@) (unescape1 d)) (unquote (a1 # a2 # a3 # a4 # s')))
         | d # s' \<Rightarrow> apfst ((@) (unescape1 d)) (unquote s')
         | [] \<Rightarrow> ([], []))
      else apfst ((#) c) (unquote s))"

lemma unquote_plain:
  "CHR 0x22 \<notin> set c \<Longrightarrow> CHR 0x5C \<notin> set c \<Longrightarrow> unquote (c @ s) = apfst ((@) c) (unquote s)"
  by (induction c) (auto simp: apfst_def map_prod_def split: prod.splits)

lemma unquote_short:
  "d \<noteq> CHR ''u'' \<Longrightarrow> unquote (CHR 0x5C # d # s) = apfst ((@) (unescape1 d)) (unquote s)"
  by (simp split: list.splits)

lemma unquote_hex4:
  "unquote (CHR 0x5C # CHR ''u'' # hex4 n @ s) = apfst ((@) (unescape4 (hex4 n))) (unquote s)"
  by (simp add: hex4_def)

declare unquote.simps(2) [simp del]

lemma decode_rune_ascii:
  assumes "s \<noteq> []" "fst (decode_rune s) < 0x80"
  shows "take (snd (decode_rune s)) s = [char_of (fst (decode_rune s))]"
  using assms(1)
proof (cases s rule: decode_rune_shape)
  case (two a b r)
  show ?thesis using rune_ranges(1) [OF two(2,3,5)] assms(2) two(6) by simp
next
  case (three a b c r)
  show ?thesis using rune_ranges(2) [OF three(2,4,8), of "byte c"] assms(2) three(9) by simp
next
  case (four a b c d r)
  show ?thesis
    using rune_ranges(3) [OF four(2,4,7), of "byte c" "byte d"] assms(2) four(8) by simp
qed (use assms(2) in \<open>simp_all add: bad_rune_def\<close>)

lemma decode_rune_high:
  assumes "s \<noteq> []" "0x80 \<le> fst (decode_rune s)"
    and "\<not> (fst (decode_rune s) = 0xFFFD \<and> length (take (snd (decode_rune s)) s) = 1)"
  shows "\<forall>c \<in> set (take (snd (decode_rune s)) s). 0x80 \<le> byte c"
  using assms(1)
proof (cases s rule: decode_rune_shape)
  case bad
  then show ?thesis using assms(1,3) by (cases s) (simp_all add: bad_rune_def)
qed (use assms(2) in simp_all)

lemma rune_2028:
  fixes x y z d :: nat
  assumes "(x - 0xE0) * 4096 + (y - 0x80) * 64 + (z - 0x80) = 0x2028 + d" "d < 2"
    "0xE0 \<le> x" "0x80 \<le> y" "y \<le> 0xBF" "0x80 \<le> z" "z \<le> 0xBF"
  shows "x = 0xE2 \<and> y = 0x80 \<and> z = 0xA8 + d"
proof -
  have B: "y - 0x80 \<le> 63" and C: "z - 0x80 \<le> 63" using assms(5,7) by linarith+
  have "x - 0xE0 \<le> 2" using assms(1,2) by linarith
  moreover have "2 \<le> x - 0xE0" using assms(1,2) B C by linarith
  ultimately have A: "x - 0xE0 = 2" by linarith
  then have "(y - 0x80) * 64 + (z - 0x80) = 40 + d" using assms(1) by linarith
  then have "y - 0x80 = 0" using assms(2) by linarith
  then have "z - 0x80 = 40 + d" using A assms(1) by linarith
  then show ?thesis using A \<open>y - 0x80 = 0\<close> assms(3,4,6) by linarith
qed

lemma decode_rune_2028:
  assumes "s \<noteq> []" "fst (decode_rune s) = 0x2028 + d" "d < 2"
  shows "take (snd (decode_rune s)) s = map char_of [0xE2, 0x80, 0xA8 + d]"
  using assms(1)
proof (cases s rule: decode_rune_shape)
  case (two a b r)
  show ?thesis using rune_ranges(1) [OF two(2,3,5)] assms(2) two(6) by simp
next
  case (three a b c r)
  have "byte a = 0xE2 \<and> byte b = 0x80 \<and> byte c = 0xA8 + d"
    by (rule rune_2028 [OF _ assms(3) three(2,4,5,6,7)]) (use three(9) assms(2) in simp)
  then have "a = char_of (0xE2 :: nat) \<and> b = char_of (0x80 :: nat) \<and> c = char_of (0xA8 + d)"
    using char_of_char by metis
  then show ?thesis using three(1,9) by (simp only: snd_conv) (simp add: numeral_3_eq_3)
next
  case (four a b c d' r)
  show ?thesis
    using rune_ranges(3) [OF four(2,4,7), of "byte c" "byte d'"] assms(2,3) four(8) by simp
qed (use assms(2,3) in \<open>simp_all add: bad_rune_def\<close>)

text \<open>Every valid chunk of a string is read back from its escaped form.\<close>

definition good_chunk :: "nat \<times> string \<Rightarrow> bool" where
  "good_chunk rc \<longleftrightarrow> \<not> (fst rc = 0xFFFD \<and> length (snd rc) = 1)
     \<and> (fst rc < 0x80 \<longrightarrow> snd rc = [char_of (fst rc)])
     \<and> (0x80 \<le> fst rc \<longrightarrow> (\<forall>c \<in> set (snd rc). 0x80 \<le> byte c))
     \<and> (\<forall>d < 2. fst rc = 0x2028 + d \<longrightarrow> snd rc = map char_of [0xE2, 0x80, 0xA8 + d])"

lemma rune_chunks_good:
  "valid_utf8 s \<Longrightarrow> rc \<in> set (rune_chunks s) \<Longrightarrow> good_chunk rc"
proof (induction s rule: rune_chunks.induct)
  case (1 s)
  show ?case
  proof (cases "s = []")
    case True
    then show ?thesis using "1.prems" by (simp add: rune_chunks.simps)
  next
    case False
    let ?rest = "drop (snd (decode_rune s)) s"
    have chunks: "rune_chunks s = (fst (decode_rune s), take (snd (decode_rune s)) s)
        # rune_chunks ?rest"
      using False by (subst rune_chunks.simps) simp
    have "valid_utf8 ?rest" using "1.prems"(1) by (simp add: valid_utf8_def chunks)
    moreover have "good_chunk (fst (decode_rune s), take (snd (decode_rune s)) s)"
      using "1.prems"(1) decode_rune_ascii [OF False] decode_rune_high [OF False]
        decode_rune_2028 [OF False]
      by (auto simp: good_chunk_def valid_utf8_def chunks)
    ultimately show ?thesis using "1.IH" [OF False] "1.prems"(2) by (auto simp: chunks)
  qed
qed

lemma unhex_digit [simp]: "d < 16 \<Longrightarrow> unhex (digit_char d) = d"
  by (cases "d < 10") (simp_all add: unhex_def)

lemma unescape4_hex4:
  assumes "n < 65536"
  shows "unescape4 (hex4 n) = (if n = 0x2028 then map char_of [0xE2, 0x80, 0xA8 :: nat]
     else if n = 0x2029 then map char_of [0xE2, 0x80, 0xA9 :: nat] else [char_of n])"
proof -
  have "foldl (\<lambda>a c. 16 * a + unhex c) 0 (hex4 n)
      = 16 * (16 * (16 * (n div 4096 mod 16) + n div 256 mod 16) + n div 16 mod 16) + n mod 16"
    by (simp add: hex4_def)
  also have "\<dots> = n"
  proof -
    have "n div 256 = n div 16 div 16" "n div 4096 = n div 16 div 16 div 16"
      by (simp_all flip: div_mult2_eq)
    moreover have "n div 16 div 16 div 16 < 16" using assms by (simp add: less_mult_imp_div_less)
    ultimately show ?thesis by (simp add: mult_div_mod_eq)
  qed
  finally show ?thesis by (simp add: unescape4_def Let_def)
qed

lemma short_escapes_Some:
  "map_of short_escapes n = Some d \<Longrightarrow> d \<noteq> CHR ''u'' \<and> unescape1 d = [char_of n]"
  by (auto simp: short_escapes_def unescape1_def split: if_splits)

lemma short_escapes_None: "map_of short_escapes n = None \<Longrightarrow> n \<noteq> 0x22 \<and> n \<noteq> 0x5C"
  by (auto simp: short_escapes_def)

lemma char_of_neq: "n < 256 \<Longrightarrow> n \<noteq> byte c \<Longrightarrow> char_of n \<noteq> c"
  by (metis of_char_of mod_less)

lemma good_chunkD:
  assumes "good_chunk (r, c)"
  shows "r < 0x80 \<Longrightarrow> c = [char_of r]" "0x80 \<le> r \<Longrightarrow> x \<in> set c \<Longrightarrow> 0x80 \<le> byte x"
    "\<not> (r = 0xFFFD \<and> length c = 1)"
    "r = 0x2028 \<Longrightarrow> c = map char_of [0xE2, 0x80, 0xA8 :: nat]"
    "r = 0x2029 \<Longrightarrow> c = map char_of [0xE2, 0x80, 0xA9 :: nat]"
  using assms unfolding good_chunk_def fst_conv snd_conv
  by (blast, blast, blast, force dest: spec [of _ 0], force dest: spec [of _ 1])

lemma unquote_escape_low:
  assumes "r < 0x80"
  shows "unquote (escape_rune (r, [char_of r]) @ s) = apfst ((@) [char_of r]) (unquote s)"
proof (cases "map_of short_escapes r")
  case (Some d)
  then have "d \<noteq> CHR ''u''" "unescape1 d = [char_of r]" by (simp_all add: short_escapes_Some)
  then show ?thesis using assms Some unquote_short [of d s] by (simp add: escape_rune_def)
next
  case None
  have "char_of r \<noteq> CHR 0x22" "char_of r \<noteq> CHR 0x5C"
    using short_escapes_None [OF None] assms by (simp_all add: char_of_neq)
  then have "unquote ([char_of r] @ s) = apfst ((@) [char_of r]) (unquote s)"
    by (intro unquote_plain) auto
  moreover have "unquote (CHR 0x5C # CHR ''u'' # hex4 r @ s) = apfst ((@) [char_of r]) (unquote s)"
    using assms unquote_hex4 [of r s] unescape4_hex4 [of r] by simp
  ultimately show ?thesis using assms None by (simp add: escape_rune_def)
qed

lemma unquote_escape:
  assumes "good_chunk (r, c)"
  shows "unquote (escape_rune (r, c) @ s) = apfst ((@) c) (unquote s)"
proof -
  note good = good_chunkD [OF assms]
  consider "r < 0x80" | "r = 0x2028" | "r = 0x2029" | "0x80 \<le> r" "r \<noteq> 0x2028" "r \<noteq> 0x2029"
    by linarith
  then show ?thesis
  proof cases
    case 1
    then show ?thesis using good(1) unquote_escape_low by simp
  next
    case 2
    then show ?thesis
      using good(4) unquote_hex4 [of r s] unescape4_hex4 [of r] by (simp add: escape_rune_def)
  next
    case 3
    then show ?thesis
      using good(5) unquote_hex4 [of r s] unescape4_hex4 [of r] by (simp add: escape_rune_def)
  next
    case 4
    have "CHR 0x22 \<notin> set c" "CHR 0x5C \<notin> set c"
      using good(2) [OF 4(1), of "CHR 0x22"] good(2) [OF 4(1), of "CHR 0x5C"] by auto
    then have "unquote (c @ s) = apfst ((@) c) (unquote s)" by (rule unquote_plain)
    moreover have "escape_rune (r, c) = c" using 4 good(3) by (auto simp: escape_rune_def)
    ultimately show ?thesis by simp
  qed
qed

lemma unquote_close: "unquote (CHR 0x22 # s) = ([], s)"
  by (simp add: unquote.simps)

lemma unquote_chunks:
  assumes "\<forall>rc \<in> set cs. good_chunk rc"
  shows "unquote (concat (map escape_rune cs) @ CHR 0x22 # s) = (concat (map snd cs), s)"
  using assms by (induction cs) (auto simp: unquote_escape unquote_close)

lemma json_quote_read: "valid_utf8 s \<Longrightarrow> unquote (tl (json_quote s) @ t) = (s, t)"
  using unquote_chunks [of "rune_chunks s" t] rune_chunks_good [of s]
  by (simp add: json_quote_def)

lemma json_quote_inj:
  assumes "valid_utf8 s" "valid_utf8 s'" "json_quote s @ t = json_quote s' @ t'"
  shows "s = s' \<and> t = t'"
proof -
  have "tl (json_quote s) @ t = tl (json_quote s') @ t'"
    using arg_cong [OF assms(3), of tl] by (simp add: json_quote_def)
  then show ?thesis using json_quote_read assms(1,2) by (metis prod.inject)
qed

lemma json_triple_inj:
  assumes "\<forall>x \<in> {a, b, c, a', b', c'}. valid_utf8 x" "json_triple a b c = json_triple a' b' c'"
  shows "a = a' \<and> b = b' \<and> c = c'"
proof -
  let ?r = "\<lambda>c. json_quote c @ '']''"
  let ?q = "\<lambda>b c. json_quote b @ '','' @ ?r c"
  have "json_quote a @ '','' @ ?q b c = json_quote a' @ '','' @ ?q b' c'"
    using assms(2) by (simp add: json_triple_def)
  then have a: "a = a' \<and> '','' @ ?q b c = '','' @ ?q b' c'"
    by (rule json_quote_inj [rotated 2]) (use assms(1) in simp_all)
  then have "?q b c = ?q b' c'" by simp
  then have b: "b = b' \<and> '','' @ ?r c = '','' @ ?r c'"
    by (rule json_quote_inj [rotated 2]) (use assms(1) in simp_all)
  then have "?r c = ?r c'" by simp
  then have "c = c' \<and> '']'' = '']''"
    by (rule json_quote_inj [rotated 2]) (use assms(1) in simp_all)
  with a b show ?thesis by simp
qed

end
