(* ===== verification/Worker_Policy.thy ===== *)
theory Worker_Policy
  imports Worker_Partition Json_Text
begin

text \<open>
  The worker's local authority: its policy (\<open>internal/worker/policy.go\<close>), the allowlists it loads
  (\<open>ssh_policy.go\<close>), the tasks ServiceNow sends (\<open>contract.go\<close>) and their validation
  (\<open>client.go\<close>). Error texts are abstracted to the check that failed.
\<close>

section \<open>Constants of the contract\<close>

definition ContractVersion :: string where "ContractVersion = ''v1alpha1''"
definition OperationLocalV1 :: string where "OperationLocalV1 = ''local.v1''"
definition OperationSSHLinuxV1 :: string where "OperationSSHLinuxV1 = ''ssh_linux.v1''"
definition OperationWinRMWindowsV1 :: string where "OperationWinRMWindowsV1 = ''winrm_windows.v1''"
definition sha256HexLength :: nat where "sha256HexLength = 64"
definition DefaultMaxTaskDuration :: duration where "DefaultMaxTaskDuration = 30 * second"
definition DefaultMaxConcurrency :: int where "DefaultMaxConcurrency = 1"
definition MaxWorkerConcurrency :: int where "MaxWorkerConcurrency = 32"
definition maxSSHAllowlistBytes :: nat where "maxSSHAllowlistBytes = 65536"
definition maxSSHAllowlistCIDRs :: nat where "maxSSHAllowlistCIDRs = 256"
definition maxSSHTargets :: int where "maxSSHTargets = 1024"
abbreviation millisecond :: duration where "millisecond \<equiv> 1000000"

section \<open>The policy\<close>

record policy =
  po_WorkerPool :: string
  po_SiteID :: string
  po_AllowLocal :: bool
  po_AllowSSHLinux :: bool
  po_AllowWinRMWindows :: bool
  po_WinRMAllowlist :: "ip_prefix list"
  po_WinRMTrustDigest :: string
  po_SSHAllowlist :: "ip_prefix list"
  po_SSHHostKeyDigest :: string
  po_MaxTaskDuration :: duration
  po_MaxConcurrency :: int
  po_RemoteStartInterval :: duration

datatype policy_error = BadWorkerPool | BadSiteID | NoOperation | BadSSHAllowlist | BadSSHDigest
  | StraySSHData | BadWinRMAllowlist | BadWinRMDigest | StrayWinRMData | BadStartInterval
  | BadTaskDuration | BadConcurrency

definition concurrency :: "policy \<Rightarrow> int" where
  "concurrency p = or_default DefaultMaxConcurrency (po_MaxConcurrency p)"

definition taskDuration :: "policy \<Rightarrow> duration" where
  "taskDuration p = or_default DefaultMaxTaskDuration (po_MaxTaskDuration p)"

definition remoteStartInterval :: "policy \<Rightarrow> duration" where
  "remoteStartInterval p = or_default second (po_RemoteStartInterval p)"

definition canonical_v4 :: "ip_prefix \<Rightarrow> bool" where
  "canonical_v4 p \<longleftrightarrow> Is4 (px_ip p) \<and> p = Masked p"

definition Validate :: "policy \<Rightarrow> policy_error option" where
  "Validate p =
     (if \<not> safeID (po_WorkerPool p) then Some BadWorkerPool
      else if \<not> safeID (po_SiteID p) then Some BadSiteID
      else if \<not> po_AllowLocal p \<and> \<not> po_AllowSSHLinux p \<and> \<not> po_AllowWinRMWindows p then Some NoOperation
      else if po_AllowSSHLinux p \<and> (po_SSHAllowlist p = [] \<or> length (po_SSHAllowlist p) > maxSSHAllowlistCIDRs
              \<or> \<not> list_all canonical_v4 (po_SSHAllowlist p)) then Some BadSSHAllowlist
      else if po_AllowSSHLinux p \<and> (length (po_SSHHostKeyDigest p) \<noteq> sha256HexLength
              \<or> \<not> hex_decodable (po_SSHHostKeyDigest p)) then Some BadSSHDigest
      else if \<not> po_AllowSSHLinux p \<and> (po_SSHAllowlist p \<noteq> [] \<or> po_SSHHostKeyDigest p \<noteq> [])
      then Some StraySSHData
      else if po_AllowWinRMWindows p \<and> (po_WinRMAllowlist p = []
              \<or> length (po_WinRMAllowlist p) > maxSSHAllowlistCIDRs
              \<or> \<not> list_all canonical_v4 (po_WinRMAllowlist p)) then Some BadWinRMAllowlist
      else if po_AllowWinRMWindows p \<and> (length (po_WinRMTrustDigest p) \<noteq> sha256HexLength
              \<or> \<not> hex_decodable (po_WinRMTrustDigest p)) then Some BadWinRMDigest
      else if \<not> po_AllowWinRMWindows p \<and> (po_WinRMAllowlist p \<noteq> [] \<or> po_WinRMTrustDigest p \<noteq> [])
      then Some StrayWinRMData
      else if remoteStartInterval p < 100 * millisecond \<or> remoteStartInterval p > minute
      then Some BadStartInterval
      else if taskDuration p < second \<or> taskDuration p > 10 * minute then Some BadTaskDuration
      else if concurrency p < 1 \<or> concurrency p > MaxWorkerConcurrency then Some BadConcurrency
      else None)"

definition Capabilities :: "policy \<Rightarrow> string list" where
  "Capabilities p =
     (if po_AllowLocal p then [OperationLocalV1] else [])
     @ (if po_AllowSSHLinux p then [OperationSSHLinuxV1] else [])
     @ (if po_AllowWinRMWindows p then [OperationWinRMWindowsV1] else [])"

definition canonicalPrefixStrings :: "ip_prefix list \<Rightarrow> string list" where
  "canonicalPrefixStrings ps = sort (map prefix_String ps)"

text \<open>The JSON text of an object whose fields are already written, and of a list of strings.\<close>

definition json_object :: "(string \<times> string) list \<Rightarrow> string" where
  "json_object fs = ''{'' @ join '','' (map (\<lambda>(k, v). json_quote k @ '':'' @ v) fs) @ ''}''"

definition json_strings :: "string list \<Rightarrow> string" where
  "json_strings xs = ''['' @ join '','' (map json_quote xs) @ '']''"

definition policy_json :: "policy \<Rightarrow> string" where
  "policy_json p = json_object (
     [(''remote_start_milliseconds'', dec_int (remoteStartInterval p div millisecond)),
      (''schema_version'', json_quote ContractVersion),
      (''worker_pool'', json_quote (po_WorkerPool p)),
      (''site_id'', json_quote (po_SiteID p)),
      (''operations'', json_strings (Capabilities p)),
      (''max_task_seconds'', dec_int (taskDuration p div second)),
      (''max_concurrency'', dec_int (concurrency p))]
     @ (if po_SSHAllowlist p = [] then []
        else [(''ssh_allowlist'', json_strings (canonicalPrefixStrings (po_SSHAllowlist p)))])
     @ (if po_SSHHostKeyDigest p = [] then []
        else [(''ssh_host_key_digest'', json_quote (po_SSHHostKeyDigest p))])
     @ (if po_WinRMAllowlist p = [] then []
        else [(''winrm_allowlist'', json_strings (canonicalPrefixStrings (po_WinRMAllowlist p)))])
     @ (if po_WinRMTrustDigest p = [] then []
        else [(''winrm_trust_digest'', json_quote (po_WinRMTrustDigest p))]))"

definition Digest :: "(string \<Rightarrow> string) \<Rightarrow> policy \<Rightarrow> policy_error + string" where
  "Digest sha p =
     (case Validate p of Some err \<Rightarrow> Inl err | None \<Rightarrow> Inr (hex (sha (policy_json p))))"

section \<open>Allowlists\<close>

datatype allowlist_error = NotCanonical string | TooManyCIDRs | LineTooLong | NoCIDRs

definition canonical_line :: "string \<Rightarrow> bool" where
  "canonical_line line = (case ParsePrefix line of None \<Rightarrow> False
     | Some p \<Rightarrow> Is4 (px_ip p) \<and> p = Masked p \<and> prefix_String p = line)"

fun allow_lines :: "string list \<Rightarrow> string list \<Rightarrow> allowlist_error + string list" where
  "allow_lines values [] = Inr values"
| "allow_lines values (raw # lines) =
     (let line = trim_space raw
      in if line = [] \<or> has_prefix line ''#'' then allow_lines values lines
         else if \<not> canonical_line line then Inl (NotCanonical line)
         else if line \<in> set values then allow_lines values lines
         else if length values + 1 > maxSSHAllowlistCIDRs then Inl TooManyCIDRs
         else allow_lines (values @ [line]) lines)"

definition parseSSHAllowlist :: "string \<Rightarrow> allowlist_error + ip_prefix list" where
  "parseSSHAllowlist body =
     (let lines = split_on (CHR 0x0A) body
      in case allow_lines [] (takeWhile (\<lambda>l. length l < maxSSHAllowlistBytes) lines) of
           Inl err \<Rightarrow> Inl err
         | Inr values \<Rightarrow>
             if list_ex (\<lambda>l. maxSSHAllowlistBytes \<le> length l) lines then Inl LineTooLong
             else if values = [] then Inl NoCIDRs
             else Inr (map (\<lambda>v. the (ParsePrefix v)) (sort values)))"

definition targetAllowed :: "addr \<Rightarrow> ip_prefix list \<Rightarrow> bool" where
  "targetAllowed target allowlist \<longleftrightarrow> Is4 target \<and> list_ex (\<lambda>p. Contains p target) allowlist"

definition safeSSHUsername :: "string \<Rightarrow> bool" where
  "safeSSHUsername s \<longleftrightarrow> s \<noteq> [] \<and> length s \<le> 64 \<and> list_all (\<lambda>c. is_alnum c \<or> c \<in> set ''._-'') s"

definition safePasswordUsername :: "string \<Rightarrow> bool" where
  "safePasswordUsername s \<longleftrightarrow> s \<noteq> [] \<and> length s \<le> 256
     \<and> list_all (\<lambda>c. is_alnum c \<or> c \<in> set ''._@-'' \<or> c = CHR 0x5C) s"

section \<open>Tasks\<close>

record task =
  tk_TaskID :: string
  tk_RunID :: string
  tk_AttemptID :: string
  tk_LeaseToken :: string
  tk_LeaseExpiresAt :: time
  tk_Operation :: string
  tk_ProfileID :: string
  tk_ProfileRevision :: int
  tk_CredentialBindingID :: string
  tk_TargetPartition :: "target_partition option"
  tk_Deadline :: time

datatype task_error = BadTaskField | UnsupportedOperation | BadRevisionNumber | BadPartition
  | MissingTimes | BadLease | LocalWithCredential | BadBinding | NotOneTarget | NotHostTarget

definition validateTargetPartition :: "target_partition option \<Rightarrow> bool" where
  "validateTargetPartition tp = (case tp of None \<Rightarrow> True
     | Some p \<Rightarrow>
         length (tpn_Key p) = sha256HexLength \<and> hex_decodable (tpn_Key p)
         \<and> \<not> (tpn_Count p < 1 \<or> tpn_Count p > DefaultMaxPartitions \<or> tpn_Ordinal p < 0
              \<or> tpn_Ordinal p \<ge> tpn_Count p)
         \<and> \<not> (length (tpn_CIDRs p) < 1 \<or> length (tpn_CIDRs p) > maxPartitionCIDRs)
         \<and> list_all (\<lambda>v. case ParsePrefix v of None \<Rightarrow> False
              | Some q \<Rightarrow> q = Masked q \<and> prefix_String q = v) (tpn_CIDRs p))"

definition host_target :: "target_partition \<Rightarrow> ip_prefix option" where
  "host_target p = (case tpn_CIDRs p of [] \<Rightarrow> None
     | v # _ \<Rightarrow> (case ParsePrefix v of None \<Rightarrow> None
         | Some q \<Rightarrow> if Is4 (px_ip q) \<and> px_bits q = 32 then Some q else None))"

definition validateTask :: "time \<Rightarrow> task \<Rightarrow> task_error option" where
  "validateTask now t =
     (if \<not> list_all safeID [tk_TaskID t, tk_RunID t, tk_AttemptID t, tk_ProfileID t, tk_LeaseToken t]
      then Some BadTaskField
      else if tk_Operation t \<notin> {OperationLocalV1, OperationSSHLinuxV1, OperationWinRMWindowsV1}
      then Some UnsupportedOperation
      else if tk_ProfileRevision t < 1 then Some BadRevisionNumber
      else if \<not> validateTargetPartition (tk_TargetPartition t) then Some BadPartition
      else if tk_LeaseExpiresAt t = zero_time \<or> tk_Deadline t = zero_time then Some MissingTimes
      else if \<not> tk_LeaseExpiresAt t > now \<or> tk_LeaseExpiresAt t > tk_Deadline t then Some BadLease
      else if tk_Operation t = OperationLocalV1
      then (if tk_CredentialBindingID t \<noteq> [] then Some LocalWithCredential else None)
      else if \<not> safeID (tk_CredentialBindingID t) then Some BadBinding
      else (case tk_TargetPartition t of None \<Rightarrow> Some NotOneTarget
        | Some p \<Rightarrow>
            if tpn_Count p > maxSSHTargets \<or> length (tpn_CIDRs p) \<noteq> 1 then Some NotOneTarget
            else if host_target p = None then Some NotHostTarget else None))"

definition validToken :: "string \<Rightarrow> bool" where
  "validToken s \<longleftrightarrow> s \<noteq> [] \<and> length s \<le> 65536 \<and> \<not> list_ex (\<lambda>r. is_space r \<or> is_control r) (runes s)"

definition truncate_text :: "string \<Rightarrow> nat \<Rightarrow> string" where
  "truncate_text s limit = (if length s \<le> limit then s else take limit s @ ''...'')"

end
