(* ===== verification/Worker_Executor.thy ===== *)
theory Worker_Executor
  imports Worker_Policy Model
begin

text \<open>
  \<open>internal/worker/executor.go\<close>: one task is checked against the local policy and turned into at
  most one discovery. The discovery plugins' \<open>Discover\<close> and the credential broker are parameters:
  the model records which of them was called and with what, in order, so that what a task can
  reach is a statement about that list of actions.
\<close>

section \<open>Requests, plugins and credentials\<close>

record discovery_request =
  dr_JobID :: string
  dr_SiteID :: string
  dr_CollectorID :: string
  dr_Targets :: "string list"
  dr_Deadline :: time

record credential =
  cd_Username :: string
  cd_Password :: string

datatype action = AskCredential | RunLocal discovery_request
  | RunSSH string discovery_request | RunWinRM credential discovery_request

datatype plugin_failure = ContextCancelled | DiscoveryFailed

type_synonym plugins = "action \<Rightarrow> plugin_failure + observation"

text \<open>The credential source is absent, or answers its one call with a credential or an error.\<close>

type_synonym credential_source = "credential option option"

record executor =
  ex_Policy :: policy
  ex_SSHHostKeyCallback :: bool
  ex_WinRMRootCAs :: bool

datatype exec_error = PolicyInvalid policy_error | TaskInvalid task_error | LeaseExpired
  | DeadlineExpired | NotAllowed | RemoteAuthority | NotOnePartition | NotAHost
  | OutsideAllowlist | NoCredentialSource | ErrCredentialResolution | BadRequest
  | PluginError plugin_failure | NilDereference

text \<open>\<open>net.JoinHostPort\<close> and \<open>net.SplitHostPort\<close> (whether it succeeds).\<close>

definition JoinHostPort :: "string \<Rightarrow> string \<Rightarrow> string" where
  "JoinHostPort host port =
     (if CHR '':'' \<in> set host \<or> CHR ''%'' \<in> set host then ''['' @ host @ '']:'' @ port
      else host @ '':'' @ port)"

definition host_part :: "char \<Rightarrow> string \<Rightarrow> string" where
  "host_part c s = rev (tl (dropWhile (\<lambda>x. x \<noteq> c) (rev s)))"

definition last_part :: "char \<Rightarrow> string \<Rightarrow> string" where
  "last_part c s = rev (takeWhile (\<lambda>x. x \<noteq> c) (rev s))"

definition SplitHostPort_ok :: "string \<Rightarrow> bool" where
  "SplitHostPort_ok s \<longleftrightarrow> CHR '':'' \<in> set s \<and>
     (let host = host_part (CHR '':'') s in
      if hd s = CHR ''['' then
        CHR '']'' \<in> set s \<and> last_part (CHR '']'') s = CHR '':'' # last_part (CHR '':'') s
        \<and> CHR ''['' \<notin> set (tl s) \<and> count_list s (CHR '']'') = 1
      else CHR '':'' \<notin> set host \<and> CHR ''['' \<notin> set s \<and> CHR '']'' \<notin> set s)"

text \<open>\<open>sshlinux.parseTarget\<close>: \<open>username@host:port\<close>, split at the last at sign.\<close>

definition parseTarget :: "string \<Rightarrow> (string \<times> string) option" where
  "parseTarget raw =
     (let user = host_part (CHR ''@'') raw; address = last_part (CHR ''@'') raw
      in if CHR ''@'' \<notin> set raw \<or> user = [] \<or> address = [] \<or> \<not> SplitHostPort_ok address then None
         else Some (user, address))"

definition local_ValidateConfiguration :: "discovery_request \<Rightarrow> bool" where
  "local_ValidateConfiguration r \<longleftrightarrow> \<not> (dr_Targets r \<noteq> [] \<and> (length (dr_Targets r) \<noteq> 1 \<or> hd (dr_Targets r) \<noteq> ''local''))"

text \<open>The plugin is built with a host key callback and concurrency 1, and no private key.\<close>

definition ssh_ValidateConfiguration :: "bool \<Rightarrow> string \<Rightarrow> discovery_request \<Rightarrow> bool" where
  "ssh_ValidateConfiguration callback password r \<longleftrightarrow>
     dr_Targets r \<noteq> [] \<and> callback \<and> password \<noteq> [] \<and> list_all (\<lambda>raw. parseTarget raw \<noteq> None) (dr_Targets r)"

section \<open>Execute\<close>

definition request_for :: "executor \<Rightarrow> task \<Rightarrow> string \<Rightarrow> time \<Rightarrow> discovery_request" where
  "request_for e t target deadline =
     \<lparr>dr_JobID = tk_TaskID t, dr_SiteID = po_SiteID (ex_Policy e),
      dr_CollectorID = ''worker-pool-'' @ po_WorkerPool (ex_Policy e),
      dr_Targets = [target], dr_Deadline = deadline\<rparr>"

definition run_plugin :: "plugins \<Rightarrow> action \<Rightarrow> exec_error + observation" where
  "run_plugin run a = (case run a of Inl f \<Rightarrow> Inl (PluginError f) | Inr obs \<Rightarrow> Inr obs)"

type_synonym execution = "action list \<times> (exec_error + observation)"

definition executeLocal :: "plugins \<Rightarrow> executor \<Rightarrow> task \<Rightarrow> time \<Rightarrow> execution" where
  "executeLocal run e t deadline =
     (if \<not> po_AllowLocal (ex_Policy e) then ([], Inl NotAllowed)
      else if tk_TargetPartition t \<noteq> None \<or> tk_CredentialBindingID t \<noteq> [] then ([], Inl RemoteAuthority)
      else let r = request_for e t ''local'' deadline
           in if \<not> local_ValidateConfiguration r then ([], Inl BadRequest)
              else ([RunLocal r], run_plugin run (RunLocal r)))"

definition bad_password :: "credential \<Rightarrow> bool" where
  "bad_password c \<longleftrightarrow> cd_Password c = [] \<or> 4096 < length (cd_Password c)"

definition executeSSH :: "plugins \<Rightarrow> credential_source \<Rightarrow> executor \<Rightarrow> task \<Rightarrow> time \<Rightarrow> execution" where
  "executeSSH run creds e t deadline =
     (if \<not> po_AllowSSHLinux (ex_Policy e) \<or> \<not> ex_SSHHostKeyCallback e then ([], Inl NotAllowed)
      else case tk_TargetPartition t of None \<Rightarrow> ([], Inl NotOnePartition)
      | Some tp \<Rightarrow>
        if length (tpn_CIDRs tp) \<noteq> 1 then ([], Inl NotOnePartition)
        else case ParsePrefix (hd (tpn_CIDRs tp)) of None \<Rightarrow> ([], Inl NotAHost)
        | Some q \<Rightarrow>
          if \<not> Is4 (px_ip q) \<or> px_bits q \<noteq> 32 then ([], Inl NotAHost)
          else if \<not> targetAllowed (px_ip q) (po_SSHAllowlist (ex_Policy e)) then ([], Inl OutsideAllowlist)
          else case creds of None \<Rightarrow> ([], Inl NoCredentialSource)
          | Some None \<Rightarrow> ([AskCredential], Inl ErrCredentialResolution)
          | Some (Some c) \<Rightarrow>
            if \<not> safeSSHUsername (cd_Username c) \<or> bad_password c
            then ([AskCredential], Inl ErrCredentialResolution)
            else
              let target = cd_Username c @ ''@'' @ JoinHostPort (addr_String (px_ip q)) ''22'';
                  r = request_for e t target deadline
              in if \<not> ssh_ValidateConfiguration (ex_SSHHostKeyCallback e) (cd_Password c) r
                 then ([AskCredential], Inl BadRequest)
                 else ([AskCredential, RunSSH (cd_Password c) r], run_plugin run (RunSSH (cd_Password c) r)))"

definition executeWinRM :: "plugins \<Rightarrow> credential_source \<Rightarrow> executor \<Rightarrow> task \<Rightarrow> time \<Rightarrow> execution" where
  "executeWinRM run creds e t deadline =
     (if \<not> po_AllowWinRMWindows (ex_Policy e) \<or> \<not> ex_WinRMRootCAs e then ([], Inl NotAllowed)
      else case tk_TargetPartition t of None \<Rightarrow> ([], Inl NilDereference)
      | Some tp \<Rightarrow>
        if tpn_CIDRs tp = [] then ([], Inl NilDereference)
        else case ParsePrefix (hd (tpn_CIDRs tp)) of None \<Rightarrow> ([], Inl OutsideAllowlist)
        | Some q \<Rightarrow>
          if \<not> targetAllowed (px_ip q) (po_WinRMAllowlist (ex_Policy e)) then ([], Inl OutsideAllowlist)
          else case creds of None \<Rightarrow> ([], Inl ErrCredentialResolution)
          | Some None \<Rightarrow> ([AskCredential], Inl ErrCredentialResolution)
          | Some (Some c) \<Rightarrow>
            if \<not> safePasswordUsername (cd_Username c) \<or> bad_password c
            then ([AskCredential], Inl ErrCredentialResolution)
            else
              let target = ''https://'' @ JoinHostPort (addr_String (px_ip q)) ''5986'' @ ''/wsman'';
                  a = RunWinRM c (request_for e t target deadline)
              in ([AskCredential, a], run_plugin run a))"

text \<open>
  \<open>validateTask\<close> reads the system clock (\<open>sysnow\<close>), \<open>execute\<close> the executor's own (\<open>current\<close>).
\<close>

definition execute ::
  "plugins \<Rightarrow> credential_source \<Rightarrow> time \<Rightarrow> time \<Rightarrow> executor \<Rightarrow> task \<Rightarrow> execution" where
  "execute run creds sysnow current e t =
     (case Validate (ex_Policy e) of Some err \<Rightarrow> ([], Inl (PolicyInvalid err)) | None \<Rightarrow>
      case validateTask sysnow t of Some err \<Rightarrow> ([], Inl (TaskInvalid err)) | None \<Rightarrow>
      if \<not> tk_LeaseExpiresAt t > current then ([], Inl LeaseExpired)
      else if \<not> tk_Deadline t > current then ([], Inl DeadlineExpired)
      else
        let limit = current + taskDuration (ex_Policy e);
            deadline = (if tk_Deadline t < limit then tk_Deadline t else limit)
        in if tk_Operation t = OperationLocalV1 then executeLocal run e t deadline
           else if tk_Operation t = OperationWinRMWindowsV1 then executeWinRM run creds e t deadline
           else if tk_Operation t = OperationSSHLinuxV1 then executeSSH run creds e t deadline
           else ([], Inl NotAllowed))"

section \<open>What a task can reach\<close>

text \<open>
  The authority a remote action needs: the operation enabled by the deployment, and the task's one
  target an IPv4 host that the operator's allowlist of that operation contains.
\<close>

definition allowed_host :: "task \<Rightarrow> ip_prefix list \<Rightarrow> addr \<Rightarrow> bool" where
  "allowed_host t allowlist a \<longleftrightarrow> Is4 a
     \<and> (\<exists>tp v q. tk_TargetPartition t = Some tp \<and> tpn_CIDRs tp = [v] \<and> ParsePrefix v = Some q
        \<and> px_bits q = 32 \<and> px_ip q = a)
     \<and> (\<exists>p \<in> set allowlist. a \<in> addrs p)"

definition ssh_host :: "executor \<Rightarrow> task \<Rightarrow> addr \<Rightarrow> bool" where
  "ssh_host e t a \<longleftrightarrow> tk_Operation t = OperationSSHLinuxV1 \<and> po_AllowSSHLinux (ex_Policy e)
     \<and> ex_SSHHostKeyCallback e \<and> allowed_host t (po_SSHAllowlist (ex_Policy e)) a"

definition winrm_host :: "executor \<Rightarrow> task \<Rightarrow> addr \<Rightarrow> bool" where
  "winrm_host e t a \<longleftrightarrow> tk_Operation t = OperationWinRMWindowsV1 \<and> po_AllowWinRMWindows (ex_Policy e)
     \<and> ex_WinRMRootCAs e \<and> allowed_host t (po_WinRMAllowlist (ex_Policy e)) a"

definition in_time :: "executor \<Rightarrow> task \<Rightarrow> time \<Rightarrow> discovery_request \<Rightarrow> bool" where
  "in_time e t current r \<longleftrightarrow> current < tk_LeaseExpiresAt t \<and> current < dr_Deadline r
     \<and> dr_Deadline r \<le> tk_Deadline t \<and> dr_Deadline r \<le> current + 10 * minute"

fun confined :: "executor \<Rightarrow> task \<Rightarrow> time \<Rightarrow> action \<Rightarrow> bool" where
  "confined e t current AskCredential \<longleftrightarrow> (\<exists>a. ssh_host e t a \<or> winrm_host e t a)"
| "confined e t current (RunLocal r) \<longleftrightarrow> tk_Operation t = OperationLocalV1 \<and> po_AllowLocal (ex_Policy e)
     \<and> tk_TargetPartition t = None \<and> tk_CredentialBindingID t = []
     \<and> dr_Targets r = [''local''] \<and> in_time e t current r"
| "confined e t current (RunSSH password r) \<longleftrightarrow> (\<exists>a user. ssh_host e t a \<and> safeSSHUsername user
     \<and> dr_Targets r = [user @ ''@'' @ addr_String a @ '':22''] \<and> in_time e t current r)"
| "confined e t current (RunWinRM c r) \<longleftrightarrow> (\<exists>a. winrm_host e t a \<and> safePasswordUsername (cd_Username c)
     \<and> dr_Targets r = [''https://'' @ addr_String a @ '':5986/wsman''] \<and> in_time e t current r)"

lemma dec_plain: "c \<in> set (dec n) \<Longrightarrow> c \<noteq> CHR '':'' \<and> c \<noteq> CHR ''%''"
  using set_dec [of c n] by auto

lemma join_host_v4: "Is4 a \<Longrightarrow> JoinHostPort (addr_String a) port = addr_String a @ '':'' @ port"
  by (auto simp: JoinHostPort_def addr_String_def dest: dec_plain)

lemma targetAllowed_addrs: "targetAllowed a l \<longleftrightarrow> Is4 a \<and> (\<exists>p \<in> set l. a \<in> addrs p)"
  by (auto simp: targetAllowed_def list_ex_iff addrs_def)

text \<open>Every credential request and every action of the three branches.\<close>

lemma executeLocal_acts:
  "executeLocal run e t d = (acts, res) \<Longrightarrow> res \<noteq> Inl NilDereference \<and>
     (acts = [] \<or> (acts = [RunLocal (request_for e t ''local'' d)] \<and> po_AllowLocal (ex_Policy e)
       \<and> tk_TargetPartition t = None \<and> tk_CredentialBindingID t = []))"
  by (auto simp: executeLocal_def run_plugin_def Let_def split: if_splits sum.splits)

lemma allowed_hostI:
  "tk_TargetPartition t = Some tp \<Longrightarrow> tpn_CIDRs tp = [v] \<Longrightarrow> ParsePrefix v = Some q
   \<Longrightarrow> px_bits q = 32 \<Longrightarrow> targetAllowed (px_ip q) l \<Longrightarrow> allowed_host t l (px_ip q)"
  by (auto simp: allowed_host_def targetAllowed_addrs)

lemma one_cidr: "length xs = Suc 0 \<longleftrightarrow> (\<exists>v. xs = [v])" for xs :: "string list"
  by (auto simp: length_Suc_conv)

definition ssh_request :: "executor \<Rightarrow> task \<Rightarrow> time \<Rightarrow> credential \<Rightarrow> addr \<Rightarrow> discovery_request" where
  "ssh_request e t d c a = request_for e t (cd_Username c @ ''@'' @ addr_String a @ '':22'') d"

definition winrm_request :: "executor \<Rightarrow> task \<Rightarrow> time \<Rightarrow> addr \<Rightarrow> discovery_request" where
  "winrm_request e t d a = request_for e t (''https://'' @ addr_String a @ '':5986/wsman'') d"

lemma executeSSH_acts:
  assumes run: "executeSSH run creds e t d = (acts, res)" and op: "tk_Operation t = OperationSSHLinuxV1"
  shows "res \<noteq> Inl NilDereference \<and> (acts = [] \<or> (\<exists>a. ssh_host e t a \<and> (acts = [AskCredential]
     \<or> (\<exists>c. safeSSHUsername (cd_Username c) \<and> acts = [AskCredential, RunSSH (cd_Password c) (ssh_request e t d c a)]))))"
proof (cases "acts = []")
  case True
  then show ?thesis using run
    by (auto simp: executeSSH_def Let_def split: if_splits option.splits)
next
  case False
  then obtain tp v q where tp: "tk_TargetPartition t = Some tp" "tpn_CIDRs tp = [v]" "ParsePrefix v = Some q"
      and q: "Is4 (px_ip q)" "px_bits q = 32" "targetAllowed (px_ip q) (po_SSHAllowlist (ex_Policy e))"
      and allow: "po_AllowSSHLinux (ex_Policy e)" "ex_SSHHostKeyCallback e" and creds: "creds \<noteq> None"
    using run by (auto simp: executeSSH_def Let_def one_cidr split: if_splits option.splits)
  have host: "ssh_host e t (px_ip q)"
    using allowed_hostI [OF tp q(2,3)] allow op by (simp add: ssh_host_def)
  have "res \<noteq> Inl NilDereference \<and> (acts = [AskCredential] \<or> (\<exists>c. safeSSHUsername (cd_Username c)
      \<and> acts = [AskCredential, RunSSH (cd_Password c) (ssh_request e t d c (px_ip q))]))"
    using run tp q allow creds
    by (auto simp: executeSSH_def Let_def run_plugin_def ssh_request_def join_host_v4
        split: if_splits option.splits sum.splits)
  with host show ?thesis by blast
qed

lemma executeWinRM_acts:
  assumes run: "executeWinRM run creds e t d = (acts, res)" and op: "tk_Operation t = OperationWinRMWindowsV1"
    and tp: "tk_TargetPartition t = Some tp" "tpn_CIDRs tp = [v]" "ParsePrefix v = Some q" "px_bits q = 32"
  shows "res \<noteq> Inl NilDereference \<and> (acts = [] \<or> (\<exists>a. winrm_host e t a \<and> (acts = [AskCredential]
     \<or> (\<exists>c. safePasswordUsername (cd_Username c) \<and> acts = [AskCredential, RunWinRM c (winrm_request e t d a)]))))"
proof (cases "acts = []")
  case True
  then show ?thesis using run tp
    by (auto simp: executeWinRM_def Let_def split: if_splits option.splits)
next
  case False
  then have q: "targetAllowed (px_ip q) (po_WinRMAllowlist (ex_Policy e))"
      and allow: "po_AllowWinRMWindows (ex_Policy e)" "ex_WinRMRootCAs e" and creds: "creds \<noteq> None"
    using run tp by (auto simp: executeWinRM_def Let_def split: if_splits option.splits)
  have host: "winrm_host e t (px_ip q)"
    using allowed_hostI [OF tp q] allow op by (simp add: winrm_host_def)
  have "Is4 (px_ip q)" using q by (simp add: targetAllowed_def)
  then have "res \<noteq> Inl NilDereference \<and> (acts = [AskCredential] \<or> (\<exists>c. safePasswordUsername (cd_Username c)
      \<and> acts = [AskCredential, RunWinRM c (winrm_request e t d (px_ip q))]))"
    using run tp q allow creds
    by (auto simp: executeWinRM_def Let_def run_plugin_def winrm_request_def join_host_v4
        split: if_splits option.splits sum.splits)
  with host show ?thesis by blast
qed

lemma remote_target:
  "validateTask now t = None \<Longrightarrow> tk_Operation t \<noteq> OperationLocalV1
   \<Longrightarrow> \<exists>tp v q. tk_TargetPartition t = Some tp \<and> tpn_CIDRs tp = [v] \<and> ParsePrefix v = Some q \<and> px_bits q = 32"
  by (auto simp: validateTask_def host_target_def one_cidr split: if_splits option.splits list.splits)

lemma Validate_duration: "Validate p = None \<Longrightarrow> second \<le> taskDuration p \<and> taskDuration p \<le> 10 * minute"
  by (auto simp: Validate_def split: if_splits)

lemma in_time_request:
  "Validate (ex_Policy e) = None \<Longrightarrow> current < tk_LeaseExpiresAt t \<Longrightarrow> current < tk_Deadline t
   \<Longrightarrow> d = min (tk_Deadline t) (current + taskDuration (ex_Policy e))
   \<Longrightarrow> in_time e t current (request_for e t target d)"
  using Validate_duration [of "ex_Policy e"] by (auto simp: in_time_def request_for_def)

lemma execute_cases:
  assumes "execute run creds sysnow current e t = (acts, res)"
  obtains (refused) "acts = []" "res \<noteq> Inl NilDereference"
  | (go) d where "Validate (ex_Policy e) = None" "validateTask sysnow t = None"
      "current < tk_LeaseExpiresAt t" "current < tk_Deadline t"
      "d = min (tk_Deadline t) (current + taskDuration (ex_Policy e))"
      "(tk_Operation t = OperationLocalV1 \<and> executeLocal run e t d = (acts, res))
       \<or> (tk_Operation t = OperationWinRMWindowsV1 \<and> executeWinRM run creds e t d = (acts, res))
       \<or> (tk_Operation t = OperationSSHLinuxV1 \<and> executeSSH run creds e t d = (acts, res))"
proof -
  have "min (tk_Deadline t) (current + taskDuration (ex_Policy e))
      = (if tk_Deadline t < current + taskDuration (ex_Policy e) then tk_Deadline t
         else current + taskDuration (ex_Policy e))"
    by simp
  then show thesis
    using assms refused go unfolding execute_def
    by (auto simp: Let_def split: if_splits option.splits)
qed

text \<open>
  C2: whatever task the control plane sends, the worker runs at most one discovery, asks for at most
  one credential and only before it, and every one of these calls lies within the local policy: the
  operation is enabled by the deployment, the single IPv4 target is inside the operator's allowlist,
  and the discovery's deadline respects the lease check, the task's deadline and the local maximum.
  No task makes it dereference a missing target partition.
\<close>
theorem execute_confined:
  assumes "execute run creds sysnow current e t = (acts, res)"
  shows "list_all (confined e t current) acts \<and> length acts \<le> 2
    \<and> (\<forall>a r. acts = a # r \<and> r \<noteq> [] \<longrightarrow> a = AskCredential \<and> hd r \<noteq> AskCredential)
    \<and> res \<noteq> Inl NilDereference"
  using assms
proof (cases rule: execute_cases)
  case refused
  then show ?thesis by simp
next
  case (go d)
  note timed = in_time_request [OF go(1,3,4,5)]
  from go(6) show ?thesis
  proof (elim disjE conjE)
    assume "tk_Operation t = OperationLocalV1" and run: "executeLocal run e t d = (acts, res)"
    then show ?thesis
      using executeLocal_acts [OF run] timed [of "''local''"] by (auto simp: request_for_def)
  next
    assume op: "tk_Operation t = OperationSSHLinuxV1" and run: "executeSSH run creds e t d = (acts, res)"
    have "confined e t current (RunSSH p (ssh_request e t d c a))"
      if "ssh_host e t a" "safeSSHUsername (cd_Username c)" for a c p
      using that timed by (auto simp: ssh_request_def request_for_def)
    then show ?thesis using executeSSH_acts [OF run op] by auto
  next
    assume op: "tk_Operation t = OperationWinRMWindowsV1" and run: "executeWinRM run creds e t d = (acts, res)"
    have "tk_Operation t \<noteq> OperationLocalV1"
      by (simp add: op OperationWinRMWindowsV1_def OperationLocalV1_def)
    then obtain tp v q where tp: "tk_TargetPartition t = Some tp" "tpn_CIDRs tp = [v]"
        "ParsePrefix v = Some q" "px_bits q = 32"
      using remote_target [OF go(2)] by blast
    have "confined e t current (RunWinRM c (winrm_request e t d a))"
      if "winrm_host e t a" "safePasswordUsername (cd_Username c)" for a c
      using that timed by (auto simp: winrm_request_def request_for_def)
    then show ?thesis using executeWinRM_acts [OF run op tp] by auto
  qed
qed

abbreviation demo_executor :: executor where
  "demo_executor \<equiv> \<lparr>ex_Policy = \<lparr>po_WorkerPool = ''pool'', po_SiteID = ''site'', po_AllowLocal = False,
     po_AllowSSHLinux = True, po_AllowWinRMWindows = False, po_WinRMAllowlist = [], po_WinRMTrustDigest = [],
     po_SSHAllowlist = [\<lparr>px_ip = \<lparr>ip_len = 32, ip_val = 0x0A000000\<rparr>, px_bits = 24\<rparr>],
     po_SSHHostKeyDigest = replicate 64 (CHR ''a''), po_MaxTaskDuration = 0, po_MaxConcurrency = 0,
     po_RemoteStartInterval = 0\<rparr>, ex_SSHHostKeyCallback = True, ex_WinRMRootCAs = False\<rparr>"

abbreviation demo_task :: task where
  "demo_task \<equiv> \<lparr>tk_TaskID = ''t1'', tk_RunID = ''r1'', tk_AttemptID = ''a1'', tk_LeaseToken = ''lease'',
     tk_LeaseExpiresAt = 60 * second, tk_Operation = ''ssh_linux.v1'', tk_ProfileID = ''p1'',
     tk_ProfileRevision = 1, tk_CredentialBindingID = ''c1'',
     tk_TargetPartition = Some \<lparr>tpn_Key = replicate 64 (CHR ''0''), tpn_Ordinal = 0, tpn_Count = 1,
       tpn_CIDRs = [''10.0.0.5/32'']\<rparr>, tk_Deadline = 120 * second\<rparr>"

abbreviation demo_credential :: credential where
  "demo_credential \<equiv> \<lparr>cd_Username = ''root'', cd_Password = ''pw''\<rparr>"

abbreviation demo_request :: discovery_request where
  "demo_request \<equiv> \<lparr>dr_JobID = ''t1'', dr_SiteID = ''site'', dr_CollectorID = ''worker-pool-pool'',
     dr_Targets = [''root@10.0.0.5:22''], dr_Deadline = 30 * second\<rparr>"

lemmas operation_names = OperationLocalV1_def OperationSSHLinuxV1_def OperationWinRMWindowsV1_def

lemma demo_digests: "hex_decodable (replicate 64 (CHR ''a''))" "hex_decodable (replicate 64 (CHR ''0''))"
  by (simp_all add: hex_decodable_def is_hex_digit_def list_all_iff)

lemma demo_policy: "Validate (ex_Policy demo_executor) = None"
  by (simp add: Validate_def safeID_def is_alnum_def is_digit_def maxSSHAllowlistCIDRs_def canonical_v4_def
      Is4_def Masked_def sha256HexLength_def demo_digests remoteStartInterval_def taskDuration_def
      concurrency_def or_default_def DefaultMaxTaskDuration_def DefaultMaxConcurrency_def MaxWorkerConcurrency_def)

lemma demo_target:
  "ParsePrefix ''10.0.0.5/32'' = Some \<lparr>px_ip = \<lparr>ip_len = 32, ip_val = 0x0A000005\<rparr>, px_bits = 32\<rparr>"
  "addr_String \<lparr>ip_len = 32, ip_val = 0x0A000005\<rparr> = ''10.0.0.5''"
  "parseTarget ''root@10.0.0.5:22'' = Some (''root'', ''10.0.0.5:22'')"
  "targetAllowed \<lparr>ip_len = 32, ip_val = 0x0A000005\<rparr> (po_SSHAllowlist (ex_Policy demo_executor))"
  by (simp_all add: parse_defs Let_def addr_String_def Is4_def digit_char_def dec.simps parseTarget_def
      host_part_def last_part_def SplitHostPort_ok_def targetAllowed_def Contains_def)

lemma demo_task_valid: "validateTask 0 demo_task = None"
  by (simp add: validateTask_def validateTargetPartition_def safeID_def is_alnum_def is_digit_def
      operation_names demo_digests sha256HexLength_def demo_target(1,2) maxPartitionCIDRs_def
      DefaultMaxPartitions_def Masked_def prefix_String_def digit_char_def dec.simps zero_time_def
      maxSSHTargets_def host_target_def Is4_def)

lemma demo_run_acts:
  "execute run (Some (Some demo_credential)) 0 0 demo_executor demo_task =
    ([AskCredential, RunSSH ''pw'' demo_request], run_plugin run (RunSSH ''pw'' demo_request))"
  by (simp add: execute_def demo_policy [simplified] demo_task_valid [simplified] operation_names executeSSH_def
      demo_target(1-3) demo_target(4) [simplified] Is4_def safeSSHUsername_def is_alnum_def is_digit_def
      bad_password_def JoinHostPort_def request_for_def ssh_ValidateConfiguration_def Let_def
      taskDuration_def or_default_def DefaultMaxTaskDuration_def)

theorem execute_confined_witness:
  "confined demo_executor demo_task 0 AskCredential \<and> confined demo_executor demo_task 0 (RunSSH ''pw'' demo_request)"
  using execute_confined [OF demo_run_acts [of "\<lambda>a. Inl DiscoveryFailed"]]
  by (simp only: list.pred_inject)

end
