(* ===== verification/Worker_Run.thy ===== *)
theory Worker_Run
  imports Worker_Executor
begin

text \<open>
  The worker process (\<open>internal/worker/run.go\<close>, \<open>start_limit.go\<close> and the messages of
  \<open>contract.go\<close>): registration and the preflight check, the claim loop with its active attempts as
  a step relation, one claimed task from execution to completion, the lease renewal loop and the
  limiter that spaces remote starts. The control plane is the environment: its answers are
  arguments, the calls made to it are recorded in order.
\<close>

section \<open>Messages to the control plane\<close>

record register_request =
  rr_BootID :: string
  rr_WorkerPool :: string
  rr_SiteID :: string
  rr_Version :: string
  rr_Capabilities :: "string list"
  rr_PolicyDigest :: string
  rr_MaxConcurrency :: int
  rr_StartedAt :: time

record result_chunk =
  rc_ChunkNumber :: int
  rc_ChunkCount :: int
  rc_Checksum :: string
  rc_ObservationJSON :: string

record failure =
  fl_Code :: string
  fl_Message :: string

record registration =
  rg_workerID :: string
  rg_bootID :: string

text \<open>The identity every request about a task carries.\<close>

record attempt_id =
  at_TaskID :: string
  at_WorkerID :: string
  at_BootID :: string
  at_AttemptID :: string
  at_LeaseToken :: string

datatype control_call = CRegister register_request
  | CHeartbeat registration nat time
  | CClaim registration "string list" nat
  | CRenew attempt_id
  | CCredential attempt_id
  | CSubmit attempt_id result_chunk
  | CComplete attempt_id "failure option" nat

definition attempt :: "registration \<Rightarrow> task \<Rightarrow> attempt_id" where
  "attempt reg t = \<lparr>at_TaskID = tk_TaskID t, at_WorkerID = rg_workerID reg, at_BootID = rg_bootID reg,
     at_AttemptID = tk_AttemptID t, at_LeaseToken = tk_LeaseToken t\<rparr>"

definition maxFailureBytes :: nat where "maxFailureBytes = 4096"
definition maxControlRequestBytes :: nat where "maxControlRequestBytes = 2097152"

section \<open>Registration and the preflight check\<close>

datatype run_error = RunPolicy policy_error | NoIdentity | BadBootID | RegisterFailed | BadWorkerID
  | HeartbeatFailed

text \<open>
  \<open>random\<close> is the outcome of \<open>randomID\<close>, \<open>answer\<close> the worker ID in the control plane's response.
\<close>

definition register ::
  "(string \<Rightarrow> string) \<Rightarrow> policy \<Rightarrow> string \<Rightarrow> string \<Rightarrow> string option \<Rightarrow> time \<Rightarrow> string option
   \<Rightarrow> control_call list \<times> (run_error + registration)" where
  "register sha p version boot random now answer =
     (case (if boot = [] then random else Some boot) of None \<Rightarrow> ([], Inl NoIdentity)
      | Some bootID \<Rightarrow>
        if \<not> safeID bootID then ([], Inl BadBootID)
        else case Digest sha p of Inl err \<Rightarrow> ([], Inl (RunPolicy err))
        | Inr digest \<Rightarrow>
          let request = \<lparr>rr_BootID = bootID, rr_WorkerPool = po_WorkerPool p, rr_SiteID = po_SiteID p,
                rr_Version = truncate_text version 64, rr_Capabilities = Capabilities p,
                rr_PolicyDigest = digest, rr_MaxConcurrency = concurrency p, rr_StartedAt = now\<rparr>
          in ([CRegister request],
              case answer of None \<Rightarrow> Inl RegisterFailed
              | Some worker \<Rightarrow>
                  if \<not> safeID worker then Inl BadWorkerID
                  else Inr \<lparr>rg_workerID = worker, rg_bootID = bootID\<rparr>))"

record check_result =
  ck_WorkerID :: string
  ck_BootID :: string
  ck_WorkerPool :: string
  ck_SiteID :: string
  ck_Capabilities :: "string list"

definition Check ::
  "(string \<Rightarrow> string) \<Rightarrow> policy \<Rightarrow> string \<Rightarrow> string \<Rightarrow> string option \<Rightarrow> time \<Rightarrow> string option \<Rightarrow> bool
   \<Rightarrow> control_call list \<times> (run_error + check_result)" where
  "Check sha p version boot random now answer alive =
     (case Validate p of Some err \<Rightarrow> ([], Inl (RunPolicy err)) | None \<Rightarrow>
      case register sha p version boot random now answer of
        (calls, Inl err) \<Rightarrow> (calls, Inl err)
      | (calls, Inr reg) \<Rightarrow>
          (calls @ [CHeartbeat reg 0 now],
           if \<not> alive then Inl HeartbeatFailed
           else Inr \<lparr>ck_WorkerID = rg_workerID reg, ck_BootID = rg_bootID reg,
                  ck_WorkerPool = po_WorkerPool p, ck_SiteID = po_SiteID p,
                  ck_Capabilities = Capabilities p\<rparr>))"

section \<open>Active attempts\<close>

text \<open>\<open>activeTasks\<close>: the attempts in flight, each with whether its context was cancelled.\<close>

type_synonym active = "bool gomap"

definition add :: "string \<Rightarrow> int \<Rightarrow> active \<Rightarrow> active option" where
  "add aid maximum s =
     (if int (length s) \<ge> maximum then None
      else if map_of s aid \<noteq> None then None
      else Some (AList.update aid False s))"

definition remove :: "string \<Rightarrow> active \<Rightarrow> active" where
  "remove aid s = AList.delete aid s"

definition count :: "active \<Rightarrow> nat" where
  "count s = length s"

definition cancelAttempts :: "string list \<Rightarrow> active \<Rightarrow> active" where
  "cancelAttempts ids s = map (\<lambda>(a, c). (a, c \<or> a \<in> set ids)) s"

definition cancelAll :: "active \<Rightarrow> active" where
  "cancelAll s = map (\<lambda>(a, c). (a, True)) s"

section \<open>The claim loop\<close>

text \<open>
  The main goroutine is between cycles (\<open>Waiting\<close>), at the head of the claim loop (\<open>Looping\<close>), has
  a claim in flight (\<open>Claiming\<close>), or has shut down. Task goroutines run concurrently: any of them may
  end between two steps of the main one.
\<close>

datatype phase = Waiting | Looping | Claiming | Stopped

record worker =
  wk_active :: active
  wk_phase :: phase
  wk_calls :: "control_call list"
  wk_started :: "task list"

definition start_worker :: worker where
  "start_worker = \<lparr>wk_active = [], wk_phase = Waiting, wk_calls = [], wk_started = []\<rparr>"

inductive wstep :: "policy \<Rightarrow> registration \<Rightarrow> worker \<Rightarrow> worker \<Rightarrow> bool" for p reg where
  heartbeat_failed: "wk_phase w = Waiting \<Longrightarrow>
     wstep p reg w (w\<lparr>wk_calls := wk_calls w @ [CHeartbeat reg (count (wk_active w)) now]\<rparr>)"
| heartbeat: "wk_phase w = Waiting \<Longrightarrow>
     wstep p reg w (w\<lparr>wk_calls := wk_calls w @ [CHeartbeat reg (count (wk_active w)) now],
       wk_active := cancelAttempts cancelled (wk_active w), wk_phase := Looping\<rparr>)"
| cycle_full: "wk_phase w = Looping \<Longrightarrow> \<not> int (count (wk_active w)) < concurrency p \<Longrightarrow>
     wstep p reg w (w\<lparr>wk_phase := Waiting\<rparr>)"
| claim: "wk_phase w = Looping \<Longrightarrow> int (count (wk_active w)) < concurrency p \<Longrightarrow>
     wstep p reg w (w\<lparr>wk_calls := wk_calls w @ [CClaim reg (Capabilities p) (count (wk_active w))],
       wk_phase := Claiming\<rparr>)"
| nothing_claimed: "wk_phase w = Claiming \<Longrightarrow> wstep p reg w (w\<lparr>wk_phase := Waiting\<rparr>)"
| claimed: "wk_phase w = Claiming \<Longrightarrow> add (tk_AttemptID t) (concurrency p) (wk_active w) = Some s \<Longrightarrow>
     wstep p reg w (w\<lparr>wk_active := s, wk_started := wk_started w @ [t], wk_phase := Looping\<rparr>)"
| claim_refused: "wk_phase w = Claiming \<Longrightarrow> add (tk_AttemptID (t :: task)) (concurrency p) (wk_active w) = None \<Longrightarrow>
     wstep p reg w (w\<lparr>wk_phase := Waiting\<rparr>)"
| task_done: "wstep p reg w (w\<lparr>wk_active := remove a (wk_active w)\<rparr>)"
| shutdown: "wk_phase w = Waiting \<Longrightarrow>
     wstep p reg w (w\<lparr>wk_active := cancelAll (wk_active w), wk_phase := Stopped\<rparr>)"

inductive_cases wstepE: "wstep p reg w w'"

section \<open>One claimed task\<close>

datatype failure_kind = Cancelled | CredentialFailure | OtherFailure

text \<open>How \<open>errors.Is\<close> classifies the executor's errors.\<close>

fun failure_of :: "exec_error \<Rightarrow> failure_kind" where
  "failure_of (PluginError ContextCancelled) = Cancelled"
| "failure_of ErrCredentialResolution = CredentialFailure"
| "failure_of _ = OtherFailure"

text \<open>How \<open>maintainLease\<close> ended: stopped by the task, lease lost, or cancelled by ServiceNow.\<close>

datatype lease_end = Released | LeaseLost | TaskCancelled

text \<open>
  What one run of \<open>executeTask\<close> meets: the error of the wait for a remote start, the executor's
  result, whether the process is shutting down when the task fails and when it ends, how the lease
  ended, and the control plane's acknowledgements (\<open>None\<close> where the call failed).
\<close>

record task_world =
  tw_wait :: "(failure_kind \<times> string) option"
  tw_result :: "(failure_kind \<times> string) + observation"
  tw_stopping_failed :: bool
  tw_stopping_ended :: bool
  tw_lease :: lease_end
  tw_accepted :: "bool option"

definition reportFailure :: "registration \<Rightarrow> task \<Rightarrow> string \<Rightarrow> string \<Rightarrow> control_call list" where
  "reportFailure reg t code cause =
     [CComplete (attempt reg t) (Some \<lparr>fl_Code = code, fl_Message = truncate_text cause maxFailureBytes\<rparr>) 0]"

definition cancelled_text :: string where
  "cancelled_text = ''task was cancelled by ServiceNow''"

definition cancelled_report :: "registration \<Rightarrow> task \<Rightarrow> control_call list" where
  "cancelled_report reg t = reportFailure reg t ''cancelled'' cancelled_text"

definition task_error_calls :: "registration \<Rightarrow> task \<Rightarrow> task_world \<Rightarrow> failure_kind \<times> string \<Rightarrow> control_call list" where
  "task_error_calls reg t w err =
     (if tw_stopping_failed w then []
      else case fst err of
        Cancelled \<Rightarrow> if tw_lease w = LeaseLost then [] else cancelled_report reg t
      | CredentialFailure \<Rightarrow> reportFailure reg t ''credential_resolution_failed'' (snd err)
      | OtherFailure \<Rightarrow> reportFailure reg t ''operation_failed'' (snd err))"

definition result_chunk_for :: "(string \<Rightarrow> string) \<Rightarrow> string \<Rightarrow> result_chunk" where
  "result_chunk_for sha payload = \<lparr>rc_ChunkNumber = 0, rc_ChunkCount = 1,
     rc_Checksum = hex (sha payload), rc_ObservationJSON = payload\<rparr>"

text \<open>\<open>marshal\<close> is \<open>json.Marshal\<close> on the observation: its text, or the text of its error.\<close>

definition executeTask ::
  "(string \<Rightarrow> string) \<Rightarrow> (observation \<Rightarrow> string + string) \<Rightarrow> registration \<Rightarrow> task \<Rightarrow> task_world \<Rightarrow> control_call list" where
  "executeTask sha marshal reg t w =
     (let waited = (if tk_Operation t = OperationLocalV1 then None else tw_wait w);
          result = (case waited of Some err \<Rightarrow> Inl err | None \<Rightarrow> tw_result w)
      in case result of Inl err \<Rightarrow> task_error_calls reg t w err
      | Inr observation \<Rightarrow>
        case marshal observation of
          Inl cause \<Rightarrow> reportFailure reg t ''observation_encode_failed'' cause
        | Inr payload \<Rightarrow>
          if length payload > maxControlRequestBytes div 2
          then reportFailure reg t ''observation_too_large'' ''observation exceeds 1048576 bytes''
          else
            let submit = CSubmit (attempt reg t) (result_chunk_for sha payload);
                cancelled = (if tw_lease w = TaskCancelled \<and> \<not> tw_stopping_ended w
                             then cancelled_report reg t else [])
            in case tw_accepted w of
                 None \<Rightarrow> submit # cancelled
               | Some False \<Rightarrow> [submit]
               | Some True \<Rightarrow> submit # CComplete (attempt reg t) None 1 # cancelled)"

text \<open>The executor of \<open>executor.go\<close> in the place of \<open>config.Executor\<close>.\<close>

definition workerTask ::
  "(string \<Rightarrow> string) \<Rightarrow> (observation \<Rightarrow> string + string) \<Rightarrow> (exec_error \<Rightarrow> string) \<Rightarrow> plugins \<Rightarrow> credential_source
   \<Rightarrow> time \<Rightarrow> time \<Rightarrow> executor \<Rightarrow> registration \<Rightarrow> task \<Rightarrow> task_world \<Rightarrow> action list \<times> control_call list" where
  "workerTask sha marshal text run creds sysnow current e reg t w =
     (if tk_Operation t \<noteq> OperationLocalV1 \<and> tw_wait w \<noteq> None then ([], executeTask sha marshal reg t w)
      else case execute run creds sysnow current e t of (acts, res) \<Rightarrow>
        (acts, executeTask sha marshal reg t
          (w\<lparr>tw_result := map_sum (\<lambda>err. (failure_of err, text err)) id res\<rparr>)))"

section \<open>Renewing the lease\<close>

text \<open>How long \<open>maintainLease\<close> sleeps when \<open>remaining\<close> nanoseconds of the lease are left.\<close>

definition renew_delay :: "duration \<Rightarrow> duration" where
  "renew_delay remaining =
     (let delay = remaining div 2;
          delay = (if delay > 30 * second then 30 * second else delay);
          delay = (if delay < 10 * millisecond then 10 * millisecond else delay)
      in if delay \<ge> remaining then remaining div 2 else delay)"

text \<open>
  One round: the clock when it starts, whether the task ended during the sleep, the answer to the
  renewal (\<open>None\<close> where it failed, with whether the task ended meanwhile), the clock after it.
\<close>

record renewal =
  rn_LeaseExpiresAt :: time
  rn_Cancelled :: bool

record round =
  rd_now :: time
  rd_stopped :: bool
  rd_answer :: "renewal option"
  rd_stopped_after :: bool
  rd_after :: time

text \<open>
  \<open>None\<close>: the loop is still running when the given rounds are used up. The second component is the
  list of renewals sent, each with the expiry that bounds its request.
\<close>

fun maintainLease :: "time \<Rightarrow> time \<Rightarrow> round list \<Rightarrow> lease_end option \<times> time list" where
  "maintainLease deadline expires [] = (None, [])"
| "maintainLease deadline expires (r # rs) =
     (if expires - rd_now r \<le> 0 then (Some LeaseLost, [])
      else if rd_stopped r then (Some Released, [])
      else case rd_answer r of
        None \<Rightarrow>
          if rd_stopped_after r then (Some Released, [expires])
          else map_prod id ((#) expires) (maintainLease deadline expires rs)
      | Some a \<Rightarrow>
          if rn_Cancelled a then (Some TaskCancelled, [expires])
          else if \<not> rn_LeaseExpiresAt a > rd_after r \<or> rn_LeaseExpiresAt a > deadline
          then (Some LeaseLost, [expires])
          else map_prod id ((#) expires) (maintainLease deadline (rn_LeaseExpiresAt a) rs))"

section \<open>Spacing remote starts\<close>

text \<open>
  \<open>remoteStartLimiter\<close>: the gate serialises the waiters, so a run of the limiter is the sequence of
  the waiters that take the gate, in that order. A waiter is cancelled, or its timer fires and it
  reads the clock; only then does it start, and moves \<open>next\<close>.
\<close>

record waiter =
  wa_cancelled :: bool
  wa_fired :: time

fun remote_starts :: "duration \<Rightarrow> time \<Rightarrow> waiter list \<Rightarrow> time list" where
  "remote_starts interval nxt [] = []"
| "remote_starts interval nxt (w # ws) =
     (if wa_cancelled w then remote_starts interval nxt ws
      else wa_fired w # remote_starts interval (wa_fired w + interval) ws)"

end
