(* ===== verification/Json_Codec.thy ===== *)
theory Json_Codec
  imports Json_Text
begin

text \<open>
  \<open>json.Marshal\<close> and \<open>json.Unmarshal\<close> of the structs of \<open>pkg/model\<close>, following their struct tags
  (names and \<open>omitempty\<close>). A JSON text is the tree it denotes; the sorted order in which \<open>Marshal\<close> lists
  the keys of a map, and \<open>null\<close> for a nil slice or map where an empty one gives \<open>[]\<close> or \<open>{}\<close>, are not
  represented, since both are read back alike. Marshalling replaces invalid UTF-8
  by the replacement character; an instant is its RFC 3339 text, rendered by \<open>tfmt\<close> and read by
  \<open>tparse\<close>. Unmarshalling leaves the zero value for an absent field and fails on a value of the
  wrong type.
\<close>

section \<open>Strings, maps and lists\<close>

definition utf8_fix :: "string \<Rightarrow> string" where
  "utf8_fix s = concat (map (\<lambda>(r, c). if r = 0xFFFD \<and> length c = 1
     then map char_of [0xEF, 0xBF, 0xBD :: nat] else c) (rune_chunks s))"

definition enc_string :: "string \<Rightarrow> json" where
  "enc_string s = JStr (utf8_fix s)"

fun dec_string :: "json \<Rightarrow> string option" where
  "dec_string (JStr s) = Some s"
| "dec_string JNull = Some []"
| "dec_string _ = None"

fun fix_json :: "json \<Rightarrow> json" where
  "fix_json (JStr s) = enc_string s"
| "fix_json (JArr xs) = JArr (map fix_json xs)"
| "fix_json (JObj kvs) = JObj (map (\<lambda>kv. (utf8_fix (fst kv), fix_json (snd kv))) kvs)"
| "fix_json j = j"

fun valid_json :: "json \<Rightarrow> bool" where
  "valid_json (JStr s) \<longleftrightarrow> valid_utf8 s"
| "valid_json (JArr xs) \<longleftrightarrow> list_all valid_json xs"
| "valid_json (JObj kvs) \<longleftrightarrow> list_all (\<lambda>kv. valid_utf8 (fst kv) \<and> valid_json (snd kv)) kvs"
| "valid_json j \<longleftrightarrow> True"

definition enc_gomap :: "('v \<Rightarrow> json) \<Rightarrow> 'v gomap \<Rightarrow> json" where
  "enc_gomap f m = JObj (map (\<lambda>(k, v). (utf8_fix k, f v)) m)"

fun dec_pairs :: "(json \<Rightarrow> 'v option) \<Rightarrow> (string \<times> json) list \<Rightarrow> 'v gomap option" where
  "dec_pairs f [] = Some []"
| "dec_pairs f ((k, j) # kvs) =
     (case f j of None \<Rightarrow> None
      | Some v \<Rightarrow> (case dec_pairs f kvs of None \<Rightarrow> None | Some m \<Rightarrow> Some ((k, v) # m)))"

fun dec_gomap :: "(json \<Rightarrow> 'v option) \<Rightarrow> json \<Rightarrow> 'v gomap option" where
  "dec_gomap f (JObj kvs) = dec_pairs f kvs"
| "dec_gomap f JNull = Some []"
| "dec_gomap f _ = None"

fun dec_items :: "(json \<Rightarrow> 'v option) \<Rightarrow> json list \<Rightarrow> 'v list option" where
  "dec_items f [] = Some []"
| "dec_items f (j # js) =
     (case f j of None \<Rightarrow> None
      | Some v \<Rightarrow> (case dec_items f js of None \<Rightarrow> None | Some vs \<Rightarrow> Some (v # vs)))"

fun dec_list :: "(json \<Rightarrow> 'v option) \<Rightarrow> json \<Rightarrow> 'v list option" where
  "dec_list f (JArr js) = dec_items f js"
| "dec_list f JNull = Some []"
| "dec_list f _ = None"

text \<open>An object field, and an \<open>omitempty\<close> field that is left out when it is empty.\<close>

definition field :: "string \<Rightarrow> json \<Rightarrow> (string \<times> json) list" where
  "field name j = [(name, j)]"

definition field_opt :: "string \<Rightarrow> bool \<Rightarrow> json \<Rightarrow> (string \<times> json) list" where
  "field_opt name omit j = (if omit then [] else [(name, j)])"

definition get :: "(string \<times> json) list \<Rightarrow> string \<Rightarrow> json" where
  "get kvs name = (case map_of kvs name of None \<Rightarrow> JNull | Some j \<Rightarrow> j)"

fun dec_bool :: "json \<Rightarrow> bool option" where
  "dec_bool (JBool b) = Some b" | "dec_bool JNull = Some False" | "dec_bool _ = None"

fun dec_num :: "json \<Rightarrow> float64 option" where
  "dec_num (JNum q) = Some q" | "dec_num JNull = Some 0" | "dec_num _ = None"

definition enc_time :: "(time \<Rightarrow> string) \<Rightarrow> time \<Rightarrow> json" where
  "enc_time tfmt t = JStr (tfmt t)"

fun dec_time :: "(string \<Rightarrow> time option) \<Rightarrow> json \<Rightarrow> time option" where
  "dec_time tparse (JStr s) = tparse s" | "dec_time tparse JNull = Some zero_time"
| "dec_time tparse _ = None"

section \<open>The structs\<close>

definition enc_evidence :: "(time \<Rightarrow> string) \<Rightarrow> evidence \<Rightarrow> json" where
  "enc_evidence tfmt e = JObj (
     field ''source'' (enc_string (ev_Source e))
     @ field ''collected_at'' (enc_time tfmt (ev_Collected e))
     @ field_opt ''path'' (ev_Path e = []) (enc_string (ev_Path e))
     @ field ''confidence'' (JNum (ev_Confidence e)))"

fun dec_evidence :: "(string \<Rightarrow> time option) \<Rightarrow> json \<Rightarrow> evidence option" where
  "dec_evidence tparse (JObj o') =
     (case (dec_string (get o' ''source''), dec_time tparse (get o' ''collected_at''),
            dec_string (get o' ''path''), dec_num (get o' ''confidence'')) of
        (Some s, Some t, Some p, Some c) \<Rightarrow>
          Some \<lparr>ev_Source = s, ev_Collected = t, ev_Path = p, ev_Confidence = c\<rparr>
      | _ \<Rightarrow> None)"
| "dec_evidence tparse _ = None"

definition enc_asset :: "(time \<Rightarrow> string) \<Rightarrow> asset \<Rightarrow> json" where
  "enc_asset tfmt a = JObj (
     field ''type'' (enc_string (as_Type a))
     @ field ''native_id'' (enc_string (as_NativeID a))
     @ field_opt ''name'' (as_Name a = []) (enc_string (as_Name a))
     @ field_opt ''identifiers'' (as_Identifiers a = []) (enc_gomap enc_string (as_Identifiers a))
     @ field_opt ''attributes'' (as_Attributes a = []) (enc_gomap fix_json (as_Attributes a))
     @ field_opt ''evidence'' (as_Evidence a = []) (JArr (map (enc_evidence tfmt) (as_Evidence a))))"

fun dec_asset :: "(string \<Rightarrow> time option) \<Rightarrow> json \<Rightarrow> asset option" where
  "dec_asset tparse (JObj o') =
     (case (dec_string (get o' ''type''), dec_string (get o' ''native_id''),
            dec_string (get o' ''name''), dec_gomap dec_string (get o' ''identifiers''),
            dec_gomap Some (get o' ''attributes''),
            dec_list (dec_evidence tparse) (get o' ''evidence'')) of
        (Some ty, Some n, Some nm, Some i, Some att, Some ev) \<Rightarrow>
          Some \<lparr>as_Type = ty, as_NativeID = n, as_Name = nm, as_Identifiers = i,
                as_Attributes = att, as_Evidence = ev\<rparr>
      | _ \<Rightarrow> None)"
| "dec_asset tparse _ = None"

definition enc_relationship :: "(time \<Rightarrow> string) \<Rightarrow> relationship \<Rightarrow> json" where
  "enc_relationship tfmt r = JObj (
     field ''type'' (enc_string (rl_Type r))
     @ field ''from_native_id'' (enc_string (rl_FromNativeID r))
     @ field ''to_native_id'' (enc_string (rl_ToNativeID r))
     @ field_opt ''evidence'' (rl_Evidence r = []) (JArr (map (enc_evidence tfmt) (rl_Evidence r))))"

fun dec_relationship :: "(string \<Rightarrow> time option) \<Rightarrow> json \<Rightarrow> relationship option" where
  "dec_relationship tparse (JObj o') =
     (case (dec_string (get o' ''type''), dec_string (get o' ''from_native_id''),
            dec_string (get o' ''to_native_id''),
            dec_list (dec_evidence tparse) (get o' ''evidence'')) of
        (Some ty, Some f, Some t, Some ev) \<Rightarrow>
          Some \<lparr>rl_Type = ty, rl_FromNativeID = f, rl_ToNativeID = t, rl_Evidence = ev\<rparr>
      | _ \<Rightarrow> None)"
| "dec_relationship tparse _ = None"

definition enc_error :: "collection_error \<Rightarrow> json" where
  "enc_error e = JObj (
     field ''code'' (enc_string (ce_Code e)) @ field ''message'' (enc_string (ce_Message e))
     @ field ''retryable'' (JBool (ce_Retryable e)))"

fun dec_error :: "json \<Rightarrow> collection_error option" where
  "dec_error (JObj o') =
     (case (dec_string (get o' ''code''), dec_string (get o' ''message''),
            dec_bool (get o' ''retryable'')) of
        (Some c, Some m, Some r) \<Rightarrow> Some \<lparr>ce_Code = c, ce_Message = m, ce_Retryable = r\<rparr>
      | _ \<Rightarrow> None)"
| "dec_error _ = None"

definition enc_observation :: "(time \<Rightarrow> string) \<Rightarrow> observation \<Rightarrow> json" where
  "enc_observation tfmt e = JObj (
     field ''schema_version'' (enc_string (ob_SchemaVersion e))
     @ field ''observation_id'' (enc_string (ob_ObservationID e))
     @ field ''site_id'' (enc_string (ob_SiteID e))
     @ field ''collector_id'' (enc_string (ob_CollectorID e))
     @ field ''plugin'' (enc_string (ob_Plugin e))
     @ field_opt ''job_id'' (ob_JobID e = []) (enc_string (ob_JobID e))
     @ field ''observed_at'' (enc_time tfmt (ob_ObservedAt e))
     @ field ''assets'' (JArr (map (enc_asset tfmt) (ob_Assets e)))
     @ field_opt ''relationships'' (ob_Relationships e = [])
         (JArr (map (enc_relationship tfmt) (ob_Relationships e)))
     @ field_opt ''errors'' (ob_Errors e = []) (JArr (map enc_error (ob_Errors e)))
     @ field_opt ''labels'' (ob_Labels e = []) (enc_gomap enc_string (ob_Labels e)))"

fun dec_observation :: "(string \<Rightarrow> time option) \<Rightarrow> json \<Rightarrow> observation option" where
  "dec_observation tparse (JObj o') =
     (case (dec_string (get o' ''schema_version''), dec_string (get o' ''observation_id''),
            dec_string (get o' ''site_id''), dec_string (get o' ''collector_id''),
            dec_string (get o' ''plugin''), dec_string (get o' ''job_id'')) of
        (Some sv, Some oid, Some site, Some coll, Some plug, Some jid) \<Rightarrow>
          (case (dec_time tparse (get o' ''observed_at''),
                 dec_list (dec_asset tparse) (get o' ''assets''),
                 dec_list (dec_relationship tparse) (get o' ''relationships''),
                 dec_list dec_error (get o' ''errors''),
                 dec_gomap dec_string (get o' ''labels'')) of
             (Some t, Some assets, Some rs, Some es, Some ls) \<Rightarrow>
               Some \<lparr>ob_SchemaVersion = sv, ob_ObservationID = oid, ob_SiteID = site,
                     ob_CollectorID = coll, ob_Plugin = plug, ob_JobID = jid, ob_ObservedAt = t,
                     ob_Assets = assets, ob_Relationships = rs, ob_Errors = es, ob_Labels = ls\<rparr>
           | _ \<Rightarrow> None)
      | _ \<Rightarrow> None)"
| "dec_observation tparse _ = None"

section \<open>Values that survive the round trip\<close>

definition time_ok :: "(time \<Rightarrow> string) \<Rightarrow> (string \<Rightarrow> time option) \<Rightarrow> time \<Rightarrow> bool" where
  "time_ok tfmt tparse t \<longleftrightarrow> tparse (tfmt t) = Some t"

definition valid_strings :: "string gomap \<Rightarrow> bool" where
  "valid_strings m \<longleftrightarrow> list_all (\<lambda>(k, v). valid_utf8 k \<and> valid_utf8 v) m"

definition valid_evidence :: "(time \<Rightarrow> string) \<Rightarrow> (string \<Rightarrow> time option) \<Rightarrow> evidence \<Rightarrow> bool" where
  "valid_evidence tfmt tparse e \<longleftrightarrow>
     valid_utf8 (ev_Source e) \<and> valid_utf8 (ev_Path e) \<and> time_ok tfmt tparse (ev_Collected e)"

definition valid_asset :: "(time \<Rightarrow> string) \<Rightarrow> (string \<Rightarrow> time option) \<Rightarrow> asset \<Rightarrow> bool" where
  "valid_asset tfmt tparse a \<longleftrightarrow>
     valid_utf8 (as_Type a) \<and> valid_utf8 (as_NativeID a) \<and> valid_utf8 (as_Name a)
     \<and> valid_strings (as_Identifiers a)
     \<and> list_all (\<lambda>(k, v). valid_utf8 k \<and> valid_json v) (as_Attributes a)
     \<and> list_all (valid_evidence tfmt tparse) (as_Evidence a)"

definition valid_relationship :: "(time \<Rightarrow> string) \<Rightarrow> (string \<Rightarrow> time option) \<Rightarrow> relationship \<Rightarrow> bool" where
  "valid_relationship tfmt tparse r \<longleftrightarrow>
     valid_utf8 (rl_Type r) \<and> valid_utf8 (rl_FromNativeID r) \<and> valid_utf8 (rl_ToNativeID r)
     \<and> list_all (valid_evidence tfmt tparse) (rl_Evidence r)"

definition valid_error :: "collection_error \<Rightarrow> bool" where
  "valid_error e \<longleftrightarrow> valid_utf8 (ce_Code e) \<and> valid_utf8 (ce_Message e)"

definition valid_observation :: "(time \<Rightarrow> string) \<Rightarrow> (string \<Rightarrow> time option) \<Rightarrow> observation \<Rightarrow> bool" where
  "valid_observation tfmt tparse e \<longleftrightarrow>
     list_all valid_utf8 [ob_SchemaVersion e, ob_ObservationID e, ob_SiteID e, ob_CollectorID e,
       ob_Plugin e, ob_JobID e]
     \<and> time_ok tfmt tparse (ob_ObservedAt e) \<and> list_all (valid_asset tfmt tparse) (ob_Assets e)
     \<and> list_all (valid_relationship tfmt tparse) (ob_Relationships e)
     \<and> list_all valid_error (ob_Errors e) \<and> valid_strings (ob_Labels e)"

lemma utf8_fix_valid [simp]: "valid_utf8 s \<Longrightarrow> utf8_fix s = s"
proof -
  assume "valid_utf8 s"
  then have "map (\<lambda>(r, c). if r = 0xFFFD \<and> length c = 1
      then map char_of [0xEF, 0xBF, 0xBD :: nat] else c) (rune_chunks s) = map snd (rune_chunks s)"
    by (intro map_cong) (auto simp: valid_utf8_def)
  then show ?thesis unfolding utf8_fix_def by (simp only: concat_rune_chunks)
qed

lemma dec_enc_string [simp]: "valid_utf8 s \<Longrightarrow> dec_string (enc_string s) = Some s"
  by (simp add: enc_string_def)

lemma fix_json_valid [simp]: "valid_json j \<Longrightarrow> fix_json j = j"
  by (induction j) (auto simp: enc_string_def list_all_iff intro!: map_idI)

lemma dec_enc_gomap:
  "list_all (\<lambda>(k, v). valid_utf8 k \<and> f (g v) = Some v) m \<Longrightarrow> dec_gomap f (enc_gomap g m) = Some m"
  by (induction m) (auto simp: enc_gomap_def)

lemma dec_enc_items:
  "list_all (\<lambda>v. f (g v) = Some v) vs \<Longrightarrow> dec_items f (map g vs) = Some vs"
  by (induction vs) auto

lemma dec_enc_strings: "valid_strings m \<Longrightarrow> dec_gomap dec_string (enc_gomap enc_string m) = Some m"
  by (rule dec_enc_gomap) (auto simp: valid_strings_def list_all_iff)

lemma get_simps:
  "get (field n j @ r) m = (if m = n then j else get r m)"
  "get (field_opt n b j @ r) m = (if m = n \<and> \<not> b then j else get r m)"
  "get (field n j) m = (if m = n then j else JNull)"
  "get (field_opt n b j) m = (if m = n \<and> \<not> b then j else JNull)"
  by (simp_all add: get_def field_def field_opt_def)

lemma dec_enc_evidence:
  "valid_evidence tfmt tparse e \<Longrightarrow> dec_evidence tparse (enc_evidence tfmt e) = Some e"
  by (cases "ev_Path e = []")
    (simp_all add: enc_evidence_def get_simps valid_evidence_def time_ok_def enc_time_def)

lemma dec_enc_evidences:
  "list_all (valid_evidence tfmt tparse) es \<Longrightarrow>
   dec_items (dec_evidence tparse) (map (enc_evidence tfmt) es) = Some es"
  by (rule dec_enc_items) (auto simp: list_all_iff dec_enc_evidence)

lemma dec_enc_asset: "valid_asset tfmt tparse a \<Longrightarrow> dec_asset tparse (enc_asset tfmt a) = Some a"
proof -
  assume v: "valid_asset tfmt tparse a"
  have "dec_gomap Some (enc_gomap fix_json (as_Attributes a)) = Some (as_Attributes a)"
    using v by (intro dec_enc_gomap) (auto simp: valid_asset_def list_all_iff)
  then show ?thesis using v dec_enc_evidences [of tfmt tparse "as_Evidence a"]
    by (simp add: enc_asset_def get_simps valid_asset_def dec_enc_strings)
qed

lemma dec_enc_relationship:
  "valid_relationship tfmt tparse r \<Longrightarrow> dec_relationship tparse (enc_relationship tfmt r) = Some r"
  by (simp add: enc_relationship_def get_simps valid_relationship_def dec_enc_evidences)

lemma dec_enc_error: "valid_error e \<Longrightarrow> dec_error (enc_error e) = Some e"
  by (simp add: enc_error_def get_simps valid_error_def)

lemma dec_enc_observation:
  assumes "valid_observation tfmt tparse e"
  shows "dec_observation tparse (enc_observation tfmt e) = Some e"
proof -
  have "dec_items (dec_asset tparse) (map (enc_asset tfmt) (ob_Assets e)) = Some (ob_Assets e)"
    "dec_items (dec_relationship tparse) (map (enc_relationship tfmt) (ob_Relationships e)) =
       Some (ob_Relationships e)"
    "dec_items dec_error (map enc_error (ob_Errors e)) = Some (ob_Errors e)"
    using assms by (auto intro!: dec_enc_items
      simp: valid_observation_def list_all_iff dec_enc_asset dec_enc_relationship dec_enc_error)
  then show ?thesis using assms
    by (simp add: enc_observation_def get_simps valid_observation_def dec_enc_strings time_ok_def
      enc_time_def)
qed

text \<open>
  C24: marshalling an observation envelope and unmarshalling the text gives the envelope back,
  when its strings are valid UTF-8 and its instants survive their text form; \<open>omitempty\<close> loses
  nothing.
\<close>

theorem observation_roundtrip:
  assumes "valid_observation tfmt tparse e"
  shows "dec_observation tparse (enc_observation tfmt e) = Some e"
  by (rule dec_enc_observation [OF assms])

definition sample_observation :: observation where
  "sample_observation =
     \<lparr>ob_SchemaVersion = SchemaVersion, ob_ObservationID = ''o'', ob_SiteID = ''s'',
      ob_CollectorID = ''c'', ob_Plugin = ''p'', ob_JobID = [], ob_ObservedAt = 5,
      ob_Assets = [\<lparr>as_Type = AssetHost, as_NativeID = ''n'', as_Name = ''web'',
        as_Identifiers = [(''mac'', ''m'')], as_Attributes = [(''cpus'', JNum 4)],
        as_Evidence = [\<lparr>ev_Source = ''q'', ev_Collected = 5, ev_Path = [], ev_Confidence = 1\<rparr>]\<rparr>],
      ob_Relationships = [], ob_Errors = [], ob_Labels = []\<rparr>"

theorem observation_roundtrip_witness:
  "dec_observation (\<lambda>_. Some 5) (enc_observation dec_int sample_observation) = Some sample_observation"
  by (rule observation_roundtrip)
    (simp add: valid_observation_def sample_observation_def SchemaVersion_def AssetHost_def
      valid_asset_def valid_strings_def valid_evidence_def time_ok_def valid_utf8_def)

end
