(* ===== verification/Worker_Properties.thy ===== *)
theory Worker_Properties
  imports Worker_Run Json_Codec
begin

text \<open>
  What the worker guarantees: its capacity, what a completed task stands for, the lease loop, the
  spacing of remote starts, the preflight check, the allowlist and the policy digest.
\<close>

section \<open>Capacity\<close>

definition worker_ok :: "policy \<Rightarrow> registration \<Rightarrow> worker \<Rightarrow> bool" where
  "worker_ok p reg w \<longleftrightarrow> gm_wf (wk_active w) \<and> int (count (wk_active w)) \<le> concurrency p
     \<and> fst ` set (wk_active w) \<subseteq> tk_AttemptID ` set (wk_started w)
     \<and> (\<forall>c \<in> set (wk_calls w). case c of
          CClaim r caps n \<Rightarrow> r = reg \<and> caps = Capabilities p \<and> int n < concurrency p
        | CHeartbeat r n now \<Rightarrow> r = reg \<and> int n \<le> concurrency p
        | _ \<Rightarrow> False)"

lemma keys_cancel [simp]:
  "map fst (cancelAttempts ids s) = map fst s" "map fst (cancelAll s) = map fst s"
  by (auto simp: cancelAttempts_def cancelAll_def)

lemma count_keys: "count s = length (map fst s)"
  by (simp add: count_def)

lemma count_cancel [simp]: "count (cancelAttempts ids s) = count s" "count (cancelAll s) = count s"
  by (simp_all add: count_keys del: length_map)

lemma update_new: "map_of s a = None \<Longrightarrow> AList.update a v s = s @ [(a, v)]"
  by (induction s) (auto split: if_splits)

lemma add_Some:
  assumes "add a m s = Some s'"
  shows "s' = s @ [(a, False)]" "a \<notin> fst ` set s" "int (count s') \<le> m"
  using assms by (auto simp: add_def count_def update_new map_of_eq_None_iff split: if_splits)

lemma count_remove: "count (remove a s) \<le> count s"
  by (induction s) (auto simp: remove_def count_def split: if_splits)

lemma set_remove: "set (remove a s) \<subseteq> set s"
  by (auto simp: remove_def AList.delete_eq)

lemma keys_set: "fst ` set s = set (map fst s)"
  by simp

lemma worker_ok_step:
  assumes "wstep p reg w w'" "worker_ok p reg w"
  shows "worker_ok p reg w'"
  using assms
proof (cases rule: wstep.cases)
  case (claimed t s)
  with assms(2) add_Some [OF claimed(3)] show ?thesis
    by (auto simp: worker_ok_def count_def)
next
  case (task_done a)
  with assms(2) count_remove [of a "wk_active w"] set_remove [of a "wk_active w"] show ?thesis
    unfolding worker_ok_def by (auto simp: remove_def distinct_delete)
qed (auto simp: worker_ok_def keys_set simp del: set_map)

text \<open>The reachable state in which a call was made, and what it reports of that state.\<close>

definition reports_active :: "worker \<Rightarrow> control_call \<Rightarrow> bool" where
  "reports_active w c \<longleftrightarrow> (case c of CClaim r caps n \<Rightarrow> n = count (wk_active w)
     | CHeartbeat r n now \<Rightarrow> n = count (wk_active w) | _ \<Rightarrow> False)"

lemma wstep_calls:
  assumes "wstep p reg w w'"
  shows "wk_calls w' = wk_calls w \<or> (\<exists>c. wk_calls w' = wk_calls w @ [c] \<and> reports_active w c)"
  using assms by (cases rule: wstep.cases) (auto simp: reports_active_def)

lemma calls_report_active:
  assumes "(wstep p reg)\<^sup>*\<^sup>* start_worker w"
  shows "wk_calls w = earlier @ c # later \<Longrightarrow>
    \<exists>u. (wstep p reg)\<^sup>*\<^sup>* start_worker u \<and> (wstep p reg)\<^sup>*\<^sup>* u w \<and> wk_calls u = earlier \<and> reports_active u c"
  using assms
proof (induction arbitrary: later rule: rtranclp_induct)
  case base
  then show ?case by (simp add: start_worker_def)
next
  case (step w w')
  have old: ?case if split: "wk_calls w = earlier @ c # rest" for rest
  proof -
    obtain u where u: "(wstep p reg)\<^sup>*\<^sup>* start_worker u" "(wstep p reg)\<^sup>*\<^sup>* u w" "wk_calls u = earlier" "reports_active u c"
      using step.IH [OF split] by blast
    from u(2) step.hyps(2) have "(wstep p reg)\<^sup>*\<^sup>* u w'" by (rule rtranclp.rtrancl_into_rtrancl)
    then show ?thesis using u by blast
  qed
  from wstep_calls [OF step.hyps(2)] show ?case
  proof (elim disjE exE conjE)
    assume "wk_calls w' = wk_calls w"
    then have "wk_calls w = earlier @ c # later" using step.prems by simp
    then show ?case by (rule old)
  next
    fix d assume d: "wk_calls w' = wk_calls w @ [d]" "reports_active w d"
    show ?case
    proof (cases later rule: rev_cases)
      case Nil
      then have "wk_calls w = earlier" "d = c" using step.prems d(1) by simp_all
      then show ?thesis using step.hyps d(2) by blast
    next
      case (snoc rest e)
      then have "wk_calls w = earlier @ c # rest" using step.prems d(1) by simp
      then show ?thesis by (rule old)
    qed
  qed
qed

text \<open>
  C14: at every moment, however heartbeats, claims, answers and finishing tasks interleave, the
  attempts in flight are distinct, were all handed out by the control plane, and are at most the
  policy's concurrency (itself between 1 and 32). The process sends only heartbeats and claims from this
  loop, a claim only while a slot is free, and each of them was sent in a state whose number of
  attempts in flight is exactly the number of leases it reports.
\<close>
theorem worker_capacity:
  assumes "Validate p = None" "(wstep p reg)\<^sup>*\<^sup>* start_worker w"
  shows "gm_wf (wk_active w) \<and> int (count (wk_active w)) \<le> concurrency p
    \<and> fst ` set (wk_active w) \<subseteq> tk_AttemptID ` set (wk_started w)
    \<and> 1 \<le> concurrency p \<and> concurrency p \<le> 32
    \<and> (\<forall>c \<in> set (wk_calls w). case c of
          CClaim r caps n \<Rightarrow> r = reg \<and> caps = Capabilities p \<and> int n < concurrency p
        | CHeartbeat r n now \<Rightarrow> r = reg \<and> int n \<le> concurrency p
        | _ \<Rightarrow> False)
    \<and> (\<forall>earlier c later. wk_calls w = earlier @ c # later \<longrightarrow>
         (\<exists>u. (wstep p reg)\<^sup>*\<^sup>* start_worker u \<and> (wstep p reg)\<^sup>*\<^sup>* u w \<and> wk_calls u = earlier
            \<and> (case c of CClaim r caps n \<Rightarrow> n = count (wk_active u)
               | CHeartbeat r n now \<Rightarrow> n = count (wk_active u) | _ \<Rightarrow> False)))"
proof -
  have conc: "1 \<le> concurrency p \<and> concurrency p \<le> 32"
    using assms(1) by (auto simp: Validate_def MaxWorkerConcurrency_def split: if_splits)
  have "worker_ok p reg w"
    using assms(2)
  proof (induction rule: rtranclp_induct)
    case base
    show ?case using conc by (simp add: worker_ok_def start_worker_def count_def)
  qed (rule worker_ok_step)
  then show ?thesis using conc calls_report_active [OF assms(2)] unfolding worker_ok_def reports_active_def by blast
qed

abbreviation demo_reg :: registration where
  "demo_reg \<equiv> \<lparr>rg_workerID = ''w1'', rg_bootID = ''b1''\<rparr>"

abbreviation demo_worker :: worker where
  "demo_worker \<equiv> \<lparr>wk_active = [(''a1'', False)], wk_phase = Looping,
     wk_calls = [CHeartbeat demo_reg 0 0, CClaim demo_reg [OperationSSHLinuxV1] 0], wk_started = [demo_task]\<rparr>"

lemma demo_worker_reached: "(wstep (ex_Policy demo_executor) demo_reg)\<^sup>*\<^sup>* start_worker demo_worker"
proof -
  let ?step = "wstep (ex_Policy demo_executor) demo_reg"
  let ?w1 = "\<lparr>wk_active = [], wk_phase = Looping, wk_calls = [CHeartbeat demo_reg 0 0], wk_started = []\<rparr>"
  let ?w2 = "?w1\<lparr>wk_calls := [CHeartbeat demo_reg 0 0, CClaim demo_reg [OperationSSHLinuxV1] 0], wk_phase := Claiming\<rparr>"
  have s1: "?step start_worker ?w1"
    using heartbeat [where w = start_worker and p = "ex_Policy demo_executor" and reg = demo_reg and now = 0 and cancelled = "[]"]
    by (simp add: start_worker_def cancelAttempts_def count_def)
  have s2: "?step ?w1 ?w2"
    using claim [where w = "?w1" and p = "ex_Policy demo_executor" and reg = demo_reg]
    by (simp add: count_def concurrency_def or_default_def DefaultMaxConcurrency_def Capabilities_def)
  have s3: "?step ?w2 demo_worker"
    using claimed [where w = "?w2" and t = demo_task and s = "[(''a1'', False)]" and p = "ex_Policy demo_executor" and reg = demo_reg]
    by (simp add: add_def concurrency_def or_default_def DefaultMaxConcurrency_def)
  from s1 have "?step\<^sup>*\<^sup>* start_worker ?w1" by (rule r_into_rtranclp)
  from this s2 have "?step\<^sup>*\<^sup>* start_worker ?w2" by (rule rtranclp.rtrancl_into_rtrancl)
  from this s3 show ?thesis by (rule rtranclp.rtrancl_into_rtrancl)
qed

theorem worker_capacity_witness:
  "int (count (wk_active demo_worker)) \<le> concurrency (ex_Policy demo_executor)
    \<and> fst ` set (wk_active demo_worker) \<subseteq> tk_AttemptID ` set (wk_started demo_worker)
    \<and> (\<exists>u :: worker. wk_calls u = [CHeartbeat demo_reg 0 0] \<and> 0 = count (wk_active u))"
proof -
  note cap = worker_capacity [OF demo_policy demo_worker_reached]
  have "wk_calls demo_worker = [CHeartbeat demo_reg 0 0] @ CClaim demo_reg [OperationSSHLinuxV1] 0 # []" by simp
  from cap [THEN conjunct2, THEN conjunct2, THEN conjunct2, THEN conjunct2, THEN conjunct2, THEN conjunct2, rule_format, OF this]
  have "\<exists>u :: worker. wk_calls u = [CHeartbeat demo_reg 0 0] \<and> 0 = count (wk_active u)"
    unfolding control_call.case by (elim exE conjE) (intro exI conjI)
  with cap show ?thesis by (elim conjE) (intro conjI)
qed

section \<open>A completed task\<close>

lemma executeTask_calls:
  assumes "executeTask sha marshal reg t w = calls"
  obtains (none) "calls = []"
  | (failed) fl where "calls = [CComplete (attempt reg t) (Some fl) 0]"
  | (submitted) obs payload rest where "tw_result w = Inr obs" "marshal obs = Inr payload"
      "length payload \<le> 1048576" "tk_Operation t = OperationLocalV1 \<or> tw_wait w = None"
      "calls = CSubmit (attempt reg t) (result_chunk_for sha payload) # rest"
      "rest \<in> {[], cancelled_report reg t}
       \<or> (tw_accepted w = Some True \<and> rest \<in> {[CComplete (attempt reg t) None 1],
            CComplete (attempt reg t) None 1 # cancelled_report reg t})"
  using assms unfolding executeTask_def task_error_calls_def reportFailure_def cancelled_report_def
  by (auto simp: Let_def maxControlRequestBytes_def
      split: if_splits option.splits sum.splits bool.splits failure_kind.splits)

lemma execute_result:
  assumes "execute run creds sysnow current e t = (acts, Inr obs)"
  shows "\<exists>a. acts \<noteq> [] \<and> last acts = a \<and> a \<noteq> AskCredential \<and> run a = Inr obs"
  using assms
  by (auto simp: execute_def executeLocal_def executeSSH_def executeWinRM_def run_plugin_def Let_def
      split: if_splits option.splits sum.splits)

text \<open>
  C7: when the worker reports a task as successful, a discovery ran last, within the local policy,
  and returned an observation; exactly its encoding, at most 1 MiB, was submitted first with its
  SHA-256 checksum, and the control plane had accepted it. Every request names this attempt and its lease.
\<close>
theorem completed_task_sound:
  assumes "workerTask sha marshal text run creds sysnow current e reg t w = (acts, calls)"
    and "CComplete a None n \<in> set calls"
  shows "\<exists>act obs payload rest. acts \<noteq> [] \<and> last acts = act \<and> act \<noteq> AskCredential \<and> confined e t current act
    \<and> run act = Inr obs \<and> marshal obs = Inr payload \<and> length payload \<le> 1048576 \<and> tw_accepted w = Some True
    \<and> calls = CSubmit (attempt reg t) (result_chunk_for sha payload) # CComplete (attempt reg t) None 1 # rest
    \<and> rest \<in> {[], cancelled_report reg t}"
proof -
  have no_success: "CComplete a None n \<notin> set (cancelled_report reg t)"
    by (simp add: cancelled_report_def reportFailure_def)
  obtain v where calls: "executeTask sha marshal reg t v = calls" and acc: "tw_accepted v = tw_accepted w"
    and v: "(tk_Operation t \<noteq> OperationLocalV1 \<and> tw_wait v \<noteq> None) \<or>
      (\<exists>res. execute run creds sysnow current e t = (acts, res)
        \<and> tw_result v = map_sum (\<lambda>err. (failure_of err, text err)) id res)"
    using assms(1) by (auto simp: workerTask_def split: if_splits prod.splits)
  show ?thesis
    using calls
  proof (cases rule: executeTask_calls)
    case (submitted obs payload rest)
    then obtain res where ex: "execute run creds sysnow current e t = (acts, res)"
        "tw_result v = map_sum (\<lambda>err. (failure_of err, text err)) id res"
      using v by auto
    have "res = Inr obs" using submitted(1) ex(2) by (cases res) auto
    with ex(1) obtain act where act: "acts \<noteq> []" "last acts = act" "act \<noteq> AskCredential" "run act = Inr obs"
      using execute_result by blast
    have "confined e t current act"
      using execute_confined [OF ex(1)] act(1,2) by (auto simp: list_all_iff)
    moreover have "tw_accepted w = Some True \<and> (\<exists>rest'. rest = CComplete (attempt reg t) None 1 # rest'
        \<and> rest' \<in> {[], cancelled_report reg t})"
      using submitted(5,6) assms(2) no_success acc by auto
    ultimately show ?thesis using act submitted(2,3,5) by blast
  qed (use assms(2) in auto)
qed

abbreviation demo_world :: task_world where
  "demo_world \<equiv> \<lparr>tw_wait = None, tw_result = Inl (OtherFailure, []), tw_stopping_failed = False,
     tw_stopping_ended = False, tw_lease = Released, tw_accepted = Some True\<rparr>"

abbreviation demo_chunk :: control_call where
  "demo_chunk \<equiv> CSubmit (attempt demo_reg demo_task) (result_chunk_for (\<lambda>s. s) ''{}'')"

abbreviation demo_complete :: control_call where
  "demo_complete \<equiv> CComplete (attempt demo_reg demo_task) None 1"

lemma demo_success:
  "workerTask (\<lambda>s. s) (\<lambda>x. Inr ''{}'') (\<lambda>err. []) (\<lambda>a. Inr obs) (Some (Some demo_credential)) 0 0
     demo_executor demo_reg demo_task demo_world
   = ([AskCredential, RunSSH ''pw'' demo_request], [demo_chunk, demo_complete])"
  unfolding workerTask_def demo_run_acts
  by (simp add: executeTask_def run_plugin_def maxControlRequestBytes_def Let_def)

theorem completed_task_sound_witness:
  "confined demo_executor demo_task 0 (last [AskCredential, RunSSH ''pw'' demo_request])
    \<and> length ''{}'' \<le> 1048576"
proof -
  have "demo_complete \<in> set [demo_chunk, demo_complete]" by simp
  from completed_task_sound [OF demo_success [of sample_observation] this]
  show ?thesis by (elim exE conjE) simp
qed

lemma length_truncate: "length (truncate_text s n) \<le> n + 3"
  by (simp add: truncate_text_def)

lemma execute_outcome:
  assumes "execute run creds sysnow current e t = (acts, res)"
  shows "(acts \<noteq> [] \<and> last acts \<noteq> AskCredential \<and> res = run_plugin run (last acts))
    \<or> (set acts \<subseteq> {AskCredential} \<and> (\<exists>err. res = Inl err \<and> failure_of err \<noteq> Cancelled))"
  using assms
  by (auto simp: execute_def executeLocal_def executeSSH_def executeWinRM_def Let_def
      split: if_splits option.splits)

text \<open>The three ways in which \<open>executeTask\<close> ends.\<close>

abbreviation started :: "task \<Rightarrow> task_world \<Rightarrow> bool" where
  "started t w \<equiv> tk_Operation t = OperationLocalV1 \<or> tw_wait w = None"

lemma executeTask_sent:
  assumes "started t w" "tw_result w = Inr obs" "marshal obs = Inr payload" "length payload \<le> 1048576"
  shows "executeTask sha marshal reg t w = CSubmit (attempt reg t) (result_chunk_for sha payload)
    # (case tw_accepted w of None \<Rightarrow> [] | Some ok \<Rightarrow> if ok then [CComplete (attempt reg t) None 1] else [])
    @ (if tw_accepted w \<noteq> Some False \<and> tw_lease w = TaskCancelled \<and> \<not> tw_stopping_ended w then cancelled_report reg t else [])"
proof -
  have "(case (if tk_Operation t = OperationLocalV1 then None else tw_wait w) of Some err \<Rightarrow> Inl err | None \<Rightarrow> tw_result w) = Inr obs"
    using assms(1,2) by auto
  moreover have "\<not> length payload > maxControlRequestBytes div 2" using assms(4) by (simp add: maxControlRequestBytes_def)
  ultimately show ?thesis
    unfolding executeTask_def Let_def using assms(3) by (auto split: option.split bool.split)
qed

lemma executeTask_ends:
  obtains (error) err where "\<not> started t w \<or> tw_result w = Inl err" "executeTask sha marshal reg t w = task_error_calls reg t w err"
  | (unsent) obs code cause where "started t w" "tw_result w = Inr obs"
      "\<nexists>payload. marshal obs = Inr payload \<and> length payload \<le> 1048576" "executeTask sha marshal reg t w = reportFailure reg t code cause"
  | (sent) obs payload rest where "started t w" "tw_result w = Inr obs" "marshal obs = Inr payload" "length payload \<le> 1048576"
      "executeTask sha marshal reg t w = CSubmit (attempt reg t) (result_chunk_for sha payload) # rest"
      "set rest \<subseteq> insert (CComplete (attempt reg t) None 1) (if tw_lease w = TaskCancelled then set (cancelled_report reg t) else {})"
proof (cases "started t w")
  case False
  then obtain err where "tw_wait w = Some err" by auto
  then show thesis using False error [of err] by (simp add: executeTask_def)
next
  case True
  note go = this
  show thesis
  proof (cases "tw_result w")
    case (Inl err)
    then show thesis using True error [of err] by (auto simp: executeTask_def)
  next
    case (Inr obs)
    show thesis
    proof (cases "\<exists>payload. marshal obs = Inr payload \<and> length payload \<le> 1048576")
      case True
      then obtain payload where p: "marshal obs = Inr payload" "length payload \<le> 1048576" by blast
      show thesis
        by (rule sent [OF go Inr p executeTask_sent]) (use go Inr p in \<open>auto split: option.split\<close>)
    next
      case False
      then have "\<exists>code cause. executeTask sha marshal reg t w = reportFailure reg t code cause"
      proof (cases "marshal obs")
        case (Inl cause)
        then have "executeTask sha marshal reg t w = reportFailure reg t ''observation_encode_failed'' cause"
          using go \<open>tw_result w = Inr obs\<close> by (auto simp: executeTask_def)
        then show ?thesis by blast
      next
        case (Inr payload)
        then have "executeTask sha marshal reg t w = reportFailure reg t ''observation_too_large'' ''observation exceeds 1048576 bytes''"
          using False go \<open>tw_result w = Inr obs\<close> by (auto simp: executeTask_def maxControlRequestBytes_def)
        then show ?thesis by blast
      qed
      then show thesis using unsent go Inr False by blast
    qed
  qed
qed

lemma task_error_calls_cases:
  "task_error_calls reg t w err = [] \<and> (tw_stopping_failed w \<or> fst err = Cancelled \<and> tw_lease w = LeaseLost)
   \<or> (\<exists>code cause. task_error_calls reg t w err = reportFailure reg t code cause
        \<and> (fst err \<noteq> Cancelled \<longrightarrow> code \<in> {''operation_failed'', ''credential_resolution_failed''}))"
  unfolding task_error_calls_def cancelled_report_def by (cases "fst err") auto

lemma reportFailure_one:
  "\<exists>f. reportFailure reg t code cause = [CComplete (attempt reg t) (Some f) 0] \<and> fl_Code f = code \<and> length (fl_Message f) \<le> 4099"
  using length_truncate [of cause 4096] by (simp add: reportFailure_def maxFailureBytes_def)

text \<open>What every run of \<open>executeTask\<close> keeps.\<close>

definition calls_ok :: "registration \<Rightarrow> task \<Rightarrow> task_world \<Rightarrow> control_call list \<Rightarrow> bool" where
  "calls_ok reg t w calls \<longleftrightarrow>
     ((\<exists>a c. CSubmit a c \<in> set calls) \<or> calls = [] \<and> (tw_stopping_failed w \<or> tw_lease w = LeaseLost)
        \<or> (\<exists>f. calls = [CComplete (attempt reg t) (Some f) 0]))
     \<and> (\<forall>a f n. CComplete a (Some f) n \<in> set calls \<longrightarrow> a = attempt reg t \<and> length (fl_Message f) \<le> 4099
          \<and> (calls \<noteq> [CComplete a (Some f) n] \<longrightarrow> tw_lease w = TaskCancelled \<and> fl_Code f = ''cancelled''))"

lemma calls_ok_report: "calls_ok reg t w (reportFailure reg t code cause)"
  using reportFailure_one [of reg t code cause] by (auto simp: calls_ok_def)

lemma cancelled_report_one:
  "CComplete a (Some f) n \<in> set (cancelled_report reg t) \<Longrightarrow> a = attempt reg t \<and> length (fl_Message f) \<le> 4099 \<and> fl_Code f = ''cancelled''"
  using reportFailure_one [of reg t "''cancelled''" cancelled_text] by (auto simp: cancelled_report_def)

lemma executeTask_ok: "calls_ok reg t w (executeTask sha marshal reg t w)"
proof (cases rule: executeTask_ends [of t w sha marshal reg])
  case (error err)
  then show ?thesis using task_error_calls_cases [of reg t w err] calls_ok_report by (fastforce simp: calls_ok_def)
next
  case (unsent obs code cause)
  then show ?thesis using calls_ok_report by simp
next
  case (sent obs payload rest)
  have "a = attempt reg t \<and> length (fl_Message f) \<le> 4099 \<and> tw_lease w = TaskCancelled \<and> fl_Code f = ''cancelled''"
    if "CComplete a (Some f) n \<in> set (executeTask sha marshal reg t w)" for a f n
    using that sent(5,6) cancelled_report_one [of a f n reg t] by (auto split: if_splits)
  then show ?thesis using sent(5) unfolding calls_ok_def by auto
qed

lemma no_submit_report: "CSubmit a c \<notin> set (reportFailure reg t code cause)"
  by (simp add: reportFailure_def)

lemma executeTask_submits:
  "(\<exists>a c. CSubmit a c \<in> set (executeTask sha marshal reg t w))
   \<longleftrightarrow> started t w \<and> (\<exists>obs. tw_result w = Inr obs \<and> (\<exists>payload. marshal obs = Inr payload \<and> length payload \<le> 1048576))"
proof (cases rule: executeTask_ends [of t w sha marshal reg])
  case (error err)
  then show ?thesis using task_error_calls_cases [of reg t w err] no_submit_report by fastforce
next
  case (unsent obs code cause)
  then show ?thesis using no_submit_report by simp
next
  case (sent obs payload rest)
  then show ?thesis by auto
qed

lemma executeTask_refused:
  assumes "started t w" "tw_result w = Inl (k, cause)" "k \<noteq> Cancelled" "\<not> tw_stopping_failed w"
  shows "\<exists>f. executeTask sha marshal reg t w = [CComplete (attempt reg t) (Some f) 0]
    \<and> fl_Code f \<in> {''operation_failed'', ''credential_resolution_failed''}"
proof -
  have "executeTask sha marshal reg t w = task_error_calls reg t w (k, cause)"
    using assms(1,2) by (auto simp: executeTask_def)
  then show ?thesis using assms(3,4) by (cases k) (auto simp: task_error_calls_def reportFailure_def)
qed

text \<open>
  C34: no claimed task goes unanswered. The worker submits a result exactly when a discovery ran and
  returned an observation whose encoding is at most 1 MiB. Otherwise, whether the policy, the
  credential, the discovery, the encoding or the size failed, it sends exactly one failure of this
  attempt and nothing else, unless the process is shutting down or the lease was lost. A task that
  got its turn to start and for which no discovery ran is always reported as a failure by a running
  process, even when its lease was lost. A failure message is bounded, and a failure next to a submission is only the cancellation by
  ServiceNow.
\<close>
theorem task_outcome_reported:
  assumes "workerTask sha marshal text run creds sysnow current e reg t w = (acts, calls)"
  shows "((\<exists>a c. CSubmit a c \<in> set calls) \<longleftrightarrow>
      (\<exists>obs payload. acts \<noteq> [] \<and> last acts \<noteq> AskCredential \<and> run (last acts) = Inr obs \<and> marshal obs = Inr payload
        \<and> length payload \<le> 1048576))
    \<and> ((\<exists>a c. CSubmit a c \<in> set calls) \<or> calls = [] \<and> (tw_stopping_failed w \<or> tw_lease w = LeaseLost)
      \<or> (\<exists>f. calls = [CComplete (attempt reg t) (Some f) 0]))
    \<and> (set acts \<subseteq> {AskCredential} \<and> \<not> tw_stopping_failed w \<and> (tk_Operation t = OperationLocalV1 \<or> tw_wait w = None)
      \<longrightarrow> (\<exists>f. calls = [CComplete (attempt reg t) (Some f) 0]
            \<and> fl_Code f \<in> {''operation_failed'', ''credential_resolution_failed''}))
    \<and> (\<forall>a f n. CComplete a (Some f) n \<in> set calls \<longrightarrow> a = attempt reg t \<and> length (fl_Message f) \<le> 4099
      \<and> (calls \<noteq> [CComplete a (Some f) n] \<longrightarrow> tw_lease w = TaskCancelled \<and> fl_Code f = ''cancelled''))"
proof (cases "started t w")
  case False
  then have c: "acts = []" "calls = executeTask sha marshal reg t w" using assms by (simp_all add: workerTask_def)
  have "\<not> (\<exists>a c. CSubmit a c \<in> set calls)" unfolding c(2) executeTask_submits using False by blast
  then show ?thesis using False executeTask_ok [of reg t w sha marshal] unfolding c calls_ok_def by (intro conjI) (simp, blast+)
next
  case True
  obtain res where ex: "execute run creds sysnow current e t = (acts, res)"
    and c: "calls = executeTask sha marshal reg t (w\<lparr>tw_result := map_sum (\<lambda>err. (failure_of err, text err)) id res\<rparr>)"
    using assms True by (auto simp: workerTask_def split: prod.splits)
  let ?w = "w\<lparr>tw_result := map_sum (\<lambda>err. (failure_of err, text err)) id res\<rparr>"
  let ?P = "\<lambda>obs. \<exists>payload. marshal obs = Inr payload \<and> length payload \<le> 1048576"
  note out = execute_outcome [OF ex]
  have res: "tw_result ?w = Inr obs \<longleftrightarrow> res = Inr obs" for obs by (cases res) simp_all
  have asked: "set acts \<subseteq> {AskCredential} \<Longrightarrow> acts = [] \<or> last acts = AskCredential" using last_in_set [of acts] by blast
  then have ran: "res = Inr obs \<longleftrightarrow> acts \<noteq> [] \<and> last acts \<noteq> AskCredential \<and> run (last acts) = Inr obs" for obs
    using out by (auto simp: run_plugin_def split: sum.splits)
  have "(\<exists>a c. CSubmit a c \<in> set calls) \<longleftrightarrow> (\<exists>obs. (acts \<noteq> [] \<and> last acts \<noteq> AskCredential \<and> run (last acts) = Inr obs) \<and> ?P obs)"
    unfolding c executeTask_submits res ran using True by simp
  then have sub: "(\<exists>a c. CSubmit a c \<in> set calls) \<longleftrightarrow>
      (\<exists>obs payload. acts \<noteq> [] \<and> last acts \<noteq> AskCredential \<and> run (last acts) = Inr obs \<and> marshal obs = Inr payload
        \<and> length payload \<le> 1048576)"
    by blast
  have refused: "\<exists>f. calls = [CComplete (attempt reg t) (Some f) 0] \<and> fl_Code f \<in> {''operation_failed'', ''credential_resolution_failed''}"
    if none: "set acts \<subseteq> {AskCredential}" and running: "\<not> tw_stopping_failed w"
  proof -
    obtain err where err: "res = Inl err" "failure_of err \<noteq> Cancelled" using out asked [OF none] by blast
    show ?thesis unfolding c
      by (rule executeTask_refused [where k = "failure_of err" and cause = "text err"]) (use True running err in simp_all)
  qed
  have "calls_ok reg t w calls" using executeTask_ok [of reg t ?w sha marshal] unfolding c calls_ok_def by simp
  then show ?thesis using sub refused unfolding calls_ok_def by (intro conjI) blast+
qed

theorem task_outcome_reported_witness:
  "\<forall>a c. CSubmit a c \<notin> set (snd (workerTask (\<lambda>s. s) (\<lambda>x. Inr ''{}'') (\<lambda>err. []) (\<lambda>a. Inl DiscoveryFailed)
     (Some (Some demo_credential)) 0 0 demo_executor demo_reg demo_task demo_world))"
proof -
  obtain acts calls where run: "workerTask (\<lambda>s. s) (\<lambda>x. Inr ''{}'') (\<lambda>err. []) (\<lambda>a. Inl DiscoveryFailed)
     (Some (Some demo_credential)) 0 0 demo_executor demo_reg demo_task demo_world = (acts, calls)" by fastforce
  from conjunct1 [OF task_outcome_reported [OF run]] show ?thesis unfolding run by simp
qed

section \<open>The lease\<close>

lemma renew_delay_bounds:
  "0 < remaining \<Longrightarrow> 0 \<le> renew_delay remaining \<and> renew_delay remaining < remaining
    \<and> renew_delay remaining \<le> 30 * second"
  by (auto simp: renew_delay_def Let_def)

lemma renewals_bounded:
  "expires \<le> deadline \<Longrightarrow> \<forall>x \<in> set (snd (maintainLease deadline expires rs)). x \<le> deadline"
proof (induction rs arbitrary: expires)
  case (Cons r rs)
  have next_expiry: "\<forall>x \<in> set (snd (maintainLease deadline y rs)). x \<le> deadline" if "y \<le> deadline" for y
    using that by (rule Cons.IH)
  from Cons.prems show ?case by (auto simp: not_less dest: bspec [OF next_expiry, rotated] split: option.splits)
qed simp

lemma lease_ends:
  "expires \<le> deadline \<Longrightarrow> deadline \<le> rd_now r \<Longrightarrow>
   fst (maintainLease deadline expires (before @ r # rest)) \<noteq> None
   \<and> length (snd (maintainLease deadline expires (before @ r # rest))) \<le> length before"
proof (induction before arbitrary: expires)
  case (Cons b bs)
  then show ?case by (fastforce split: option.splits)
qed auto

text \<open>
  C33: the renewal loop of a claimed task ends: a round that starts at or after the task's deadline is
  its last one, whatever the control plane answers before. No renewal is sent for an expiry past the
  deadline, and while some of the lease remains the loop sleeps less than that, and at most 30 s.
\<close>
theorem lease_loop_terminates:
  assumes "validateTask now t = None" "tk_Deadline t \<le> rd_now r"
  shows "fst (maintainLease (tk_Deadline t) (tk_LeaseExpiresAt t) (before @ r # rest)) \<noteq> None
    \<and> length (snd (maintainLease (tk_Deadline t) (tk_LeaseExpiresAt t) (before @ r # rest))) \<le> length before
    \<and> (\<forall>x \<in> set (snd (maintainLease (tk_Deadline t) (tk_LeaseExpiresAt t) (before @ r # rest))). x \<le> tk_Deadline t)
    \<and> (\<forall>x > 0. 0 \<le> renew_delay x \<and> renew_delay x < x \<and> renew_delay x \<le> 30 * second)"
proof -
  have le: "tk_LeaseExpiresAt t \<le> tk_Deadline t"
    using assms(1) by (auto simp: validateTask_def split: if_splits)
  show ?thesis
    using lease_ends [OF le assms(2)] renewals_bounded [OF le] renew_delay_bounds by blast
qed

theorem lease_loop_terminates_witness:
  "fst (maintainLease (tk_Deadline demo_task) (tk_LeaseExpiresAt demo_task) ([] @
     \<lparr>rd_now = 120 * second, rd_stopped = False, rd_answer = None, rd_stopped_after = False,
      rd_after = 0\<rparr> # [])) \<noteq> None"
  by (rule conjunct1 [OF lease_loop_terminates [OF demo_task_valid]]) simp

section \<open>Spacing of remote starts\<close>

text \<open>A timer never fires before the time it was set to (\<open>time.NewTimer\<close>).\<close>

fun timers_ok :: "duration \<Rightarrow> time \<Rightarrow> waiter list \<Rightarrow> bool" where
  "timers_ok interval nxt [] = True"
| "timers_ok interval nxt (w # ws) =
     (if wa_cancelled w then timers_ok interval nxt ws
      else nxt \<le> wa_fired w \<and> timers_ok interval (wa_fired w + interval) ws)"

lemma starts_after: "timers_ok i nxt ws \<Longrightarrow> 0 \<le> i \<Longrightarrow> x \<in> set (remote_starts i nxt ws) \<Longrightarrow> nxt \<le> x"
  by (induction ws arbitrary: nxt) (fastforce split: if_splits)+

lemma starts_apart: "timers_ok i nxt ws \<Longrightarrow> 0 \<le> i \<Longrightarrow> sorted_wrt (\<lambda>a b. a + i \<le> b) (remote_starts i nxt ws)"
  by (induction ws arbitrary: nxt) (auto split: if_splits dest: starts_after)

text \<open>
  In a worker with a valid policy any two remote discoveries start at least the policy's start
  interval apart, and never less than 100 ms, whatever the number of tasks waiting and whichever
  of them are cancelled: there is no burst credit.
\<close>
theorem remote_starts_spaced:
  assumes "Validate p = None" "timers_ok (remoteStartInterval p) nxt ws"
  shows "sorted_wrt (\<lambda>a b. a + remoteStartInterval p \<le> b \<and> a + 100 * millisecond \<le> b)
    (remote_starts (remoteStartInterval p) nxt ws)"
proof -
  have i: "100 * millisecond \<le> remoteStartInterval p"
    using assms(1) by (auto simp: Validate_def split: if_splits)
  show ?thesis
    by (rule sorted_wrt_mono_rel [OF _ starts_apart [OF assms(2)]]) (use i in auto)
qed

theorem remote_starts_spaced_witness:
  "remote_starts (remoteStartInterval (ex_Policy demo_executor)) 0
     [\<lparr>wa_cancelled = False, wa_fired = 5\<rparr>, \<lparr>wa_cancelled = True, wa_fired = 0\<rparr>,
      \<lparr>wa_cancelled = False, wa_fired = 2 * second\<rparr>] = [5, 2 * second]
   \<and> (5 :: int) + 100 * millisecond \<le> 2 * second"
  using remote_starts_spaced [OF demo_policy, of 0 "[\<lparr>wa_cancelled = False, wa_fired = 5\<rparr>,
      \<lparr>wa_cancelled = True, wa_fired = 0\<rparr>, \<lparr>wa_cancelled = False, wa_fired = 2 * second\<rparr>]"]
  by (simp add: remoteStartInterval_def or_default_def)

section \<open>The preflight check\<close>

text \<open>
  A check sends at most one registration and then one heartbeat with no leases, and nothing else:
  it claims no task and asks for no credential. It is reported as ready only when the policy is valid
  and both requests succeeded.
\<close>
theorem check_acquires_nothing:
  assumes "Check sha p version boot random now answer alive = (calls, res)"
  shows "(calls = [] \<or> (\<exists>q. rr_PolicyDigest q = hex (sha (policy_json p)) \<and> rr_MaxConcurrency q = concurrency p
       \<and> safeID (rr_BootID q) \<and> (calls = [CRegister q]
          \<or> (\<exists>reg. rg_bootID reg = rr_BootID q \<and> answer = Some (rg_workerID reg) \<and> calls = [CRegister q, CHeartbeat reg 0 now]))))
    \<and> (\<forall>ok. res = Inr ok \<longrightarrow> Validate p = None \<and> alive \<and> answer = Some (ck_WorkerID ok) \<and> safeID (ck_WorkerID ok)
         \<and> length calls = 2)"
  using assms
  by (auto simp: Check_def register_def Digest_def Let_def split: option.splits if_splits)

theorem check_acquires_nothing_witness:
  "\<exists>calls res. Check (\<lambda>s. s) (ex_Policy demo_executor) [] ''b1'' None 0 (Some ''w1'') True = (calls, res)
    \<and> (\<forall>ok. res = Inr ok \<longrightarrow> length calls = 2)"
proof -
  obtain calls res where run: "Check (\<lambda>s. s) (ex_Policy demo_executor) [] ''b1'' None 0 (Some ''w1'') True = (calls, res)"
    by fastforce
  from check_acquires_nothing [OF run] run show ?thesis by blast
qed

end
