(* ===== verification/Worker_Authority.thy ===== *)
theory Worker_Authority
  imports Worker_Executor
begin

text \<open>
  The deployment's authority files: what an accepted allowlist (\<open>parseSSHAllowlist\<close>) authorises, and
  what the policy digest sent at registration depends on.
\<close>

section \<open>Allowlists and the policy digest\<close>

definition entry_line :: "string \<Rightarrow> bool" where
  "entry_line l \<longleftrightarrow> trim_space l \<noteq> [] \<and> \<not> has_prefix (trim_space l) ''#''"

lemma entry_lines_Cons:
  "trim_space ` {l \<in> set (raw # ls). entry_line l}
   = (if entry_line raw then {trim_space raw} else {}) \<union> trim_space ` {l \<in> set ls. entry_line l}"
  by auto

lemma allow_lines_Cons:
  "allow_lines vals (raw # ls) =
     (if \<not> entry_line raw then allow_lines vals ls
      else if \<not> canonical_line (trim_space raw) then Inl (NotCanonical (trim_space raw))
      else if trim_space raw \<in> set vals then allow_lines vals ls
      else if length vals + 1 > maxSSHAllowlistCIDRs then Inl TooManyCIDRs
      else allow_lines (vals @ [trim_space raw]) ls)"
  by (simp add: Let_def entry_line_def)

lemma allow_lines_Inr:
  "allow_lines vals ls = Inr vs \<Longrightarrow> list_all canonical_line vals \<Longrightarrow> distinct vals
   \<Longrightarrow> length vals \<le> maxSSHAllowlistCIDRs \<Longrightarrow>
   list_all canonical_line vs \<and> distinct vs \<and> length vs \<le> maxSSHAllowlistCIDRs
   \<and> set vs = set vals \<union> trim_space ` {l \<in> set ls. entry_line l}"
proof (induction ls arbitrary: vals)
  case (Cons raw ls)
  note step = Cons.prems(1) [unfolded allow_lines_Cons]
  show ?case
  proof (cases "entry_line raw \<and> trim_space raw \<notin> set vals")
    case True
    with step have "canonical_line (trim_space raw)" "length vals + 1 \<le> maxSSHAllowlistCIDRs"
        "allow_lines (vals @ [trim_space raw]) ls = Inr vs"
      by (auto split: if_splits)
    with Cons.IH [of "vals @ [trim_space raw]"] Cons.prems(2-4) True show ?thesis
      unfolding entry_lines_Cons by simp
  next
    case False
    with step have "allow_lines vals ls = Inr vs" by (auto split: if_splits)
    with Cons.IH [of vals] Cons.prems(2-4) False show ?thesis
      unfolding entry_lines_Cons by auto
  qed
qed simp

lemma parse_canonical: "canonical_line v \<Longrightarrow> \<exists>p. ParsePrefix v = Some p \<and> canonical_v4 p \<and> prefix_String p = v"
  by (auto simp: canonical_line_def canonical_v4_def split: option.splits)

lemma parse_lines:
  assumes "parseSSHAllowlist body = Inr ps"
  obtains vs where "allow_lines [] (split_on (CHR 0x0A) body) = Inr vs" "vs \<noteq> []"
    "ps = map (\<lambda>v. the (ParsePrefix v)) (sort vs)"
proof -
  let ?lines = "split_on (CHR 0x0A) body"
  let ?short = "takeWhile (\<lambda>l. length l < maxSSHAllowlistBytes) ?lines"
  show thesis
  proof (cases "allow_lines [] ?short")
    case (Inr vs)
    have long: "\<not> list_ex (\<lambda>l. maxSSHAllowlistBytes \<le> length l) ?lines" and ne: "vs \<noteq> []"
      and ps: "ps = map (\<lambda>v. the (ParsePrefix v)) (sort vs)"
      using assms unfolding parseSSHAllowlist_def Let_def Inr by (simp_all split: if_splits)
    have "?short = ?lines"
      using long by (simp add: list_ex_iff not_le takeWhile_eq_all_conv)
    with Inr ne ps show thesis using that by simp
  qed (use assms in \<open>simp add: parseSSHAllowlist_def Let_def\<close>)
qed

lemma perm_lists:
  assumes "mset xs = mset ys"
  shows "xs = [] \<longleftrightarrow> ys = []" "length xs = length ys" "list_all f xs = list_all f ys"
  using assms by (metis mset_zero_iff, metis mset_eq_length, metis list_all_iff mset_eq_setD)

lemma canonical_perm: "mset ps = mset qs \<Longrightarrow> canonicalPrefixStrings ps = canonicalPrefixStrings qs"
  unfolding canonicalPrefixStrings_def by (rule properties_for_sort) simp_all

text \<open>
  C35: an accepted allowlist file authorises exactly the addresses of its entries: the parsed list is
  nonempty, has at most 256 distinct canonical IPv4 prefixes in order, so it passes the policy's own
  validation, and a target is allowed if and only if some line that is neither blank nor a comment
  is a CIDR containing it.
\<close>
theorem allowlist_exact:
  assumes "parseSSHAllowlist body = Inr ps"
  shows "ps \<noteq> [] \<and> length ps \<le> maxSSHAllowlistCIDRs \<and> list_all canonical_v4 ps
    \<and> sorted (map prefix_String ps) \<and> distinct ps
    \<and> (\<forall>a. targetAllowed a ps \<longleftrightarrow> (\<exists>l \<in> set (split_on (CHR 0x0A) body). entry_line l
         \<and> (\<exists>p. ParsePrefix (trim_space l) = Some p \<and> a \<in> addrs p)))"
proof -
  let ?lines = "split_on (CHR 0x0A) body"
  let ?parse = "\<lambda>v. the (ParsePrefix v)"
  obtain vs where vs: "allow_lines [] ?lines = Inr vs" "vs \<noteq> []" and ps: "ps = map ?parse (sort vs)"
    using parse_lines [OF assms] .
  have "list_all canonical_line vs \<and> distinct vs \<and> length vs \<le> maxSSHAllowlistCIDRs
      \<and> set vs = trim_space ` {l \<in> set ?lines. entry_line l}"
    using allow_lines_Inr [OF vs(1)] by simp
  then have v: "list_all canonical_line vs" "distinct vs" "length vs \<le> maxSSHAllowlistCIDRs"
      "set vs = trim_space ` {l \<in> set ?lines. entry_line l}"
    by blast+
  have parse: "prefix_String (?parse x) = x \<and> canonical_v4 (?parse x) \<and> ParsePrefix x = Some (?parse x)"
    if "x \<in> set vs" for x
    using v(1) that parse_canonical [of x] by (auto simp: list_all_iff)
  have strings: "map prefix_String ps = sort vs"
    unfolding ps map_map by (rule map_idI) (use parse in force)
  have "distinct (map prefix_String ps)" unfolding strings using v(2) by simp
  then have distinct: "distinct ps" by (simp add: distinct_map)
  have canonical: "list_all canonical_v4 ps" using parse by (simp add: ps list_all_iff)
  have "targetAllowed a ps \<longleftrightarrow> (\<exists>l \<in> set ?lines. entry_line l
      \<and> (\<exists>p. ParsePrefix (trim_space l) = Some p \<and> a \<in> addrs p))" for a
  proof -
    have "Is4 a" if "x \<in> set vs" "a \<in> addrs (?parse x)" for x
      using parse [OF that(1)] that(2) by (simp add: canonical_v4_def addrs_def Contains_def Is4_def)
    then have "targetAllowed a ps \<longleftrightarrow> (\<exists>x \<in> set vs. a \<in> addrs (?parse x))"
      by (auto simp: targetAllowed_addrs ps)
    also have "\<dots> \<longleftrightarrow> (\<exists>x \<in> set vs. \<exists>p. ParsePrefix x = Some p \<and> a \<in> addrs p)"
      using parse by (metis option.sel)
    finally show ?thesis unfolding v(4) by (simp only: bex_simps image_iff mem_Collect_eq) blast
  qed
  moreover have "length ps = length vs" by (simp add: ps)
  with vs(2) v(3) have "ps \<noteq> []" "length ps \<le> maxSSHAllowlistCIDRs" by auto
  moreover have "sorted (map prefix_String ps)" unfolding strings by simp
  ultimately show ?thesis using distinct canonical by blast
qed

abbreviation demo_allowlist :: string where
  "demo_allowlist \<equiv> ''#'' @ [CHR 0x0A] @ ''10.0.0.5/32''"

lemma demo_allowlist_parsed: "parseSSHAllowlist demo_allowlist = Inr [\<lparr>px_ip = \<lparr>ip_len = 32, ip_val = 0x0A000005\<rparr>, px_bits = 32\<rparr>]"
proof -
  have trims: "trim_space ''#'' = ''#''" "trim_space ''10.0.0.5/32'' = ''10.0.0.5/32''"
    by (rule trim_space_text; simp add: is_space_def)+
  have "canonical_line ''10.0.0.5/32''"
    by (simp add: canonical_line_def demo_target(1,2) Is4_def Masked_def prefix_String_def dec.simps digit_char_def)
  then have "allow_lines [] [''#'', ''10.0.0.5/32''] = Inr [''10.0.0.5/32'']"
    by (simp add: Let_def trims has_prefix_def maxSSHAllowlistCIDRs_def)
  then show ?thesis
    by (simp add: parseSSHAllowlist_def Let_def maxSSHAllowlistBytes_def demo_target(1))
qed

theorem allowlist_exact_witness:
  "targetAllowed \<lparr>ip_len = 32, ip_val = 0x0A000005\<rparr> [\<lparr>px_ip = \<lparr>ip_len = 32, ip_val = 0x0A000005\<rparr>, px_bits = 32\<rparr>]
   \<longleftrightarrow> (\<exists>l \<in> set (split_on (CHR 0x0A) demo_allowlist). entry_line l
      \<and> (\<exists>p. ParsePrefix (trim_space l) = Some p \<and> \<lparr>ip_len = 32, ip_val = 0x0A000005\<rparr> \<in> addrs p))"
  using allowlist_exact [OF demo_allowlist_parsed] by (elim conjE) (erule spec)

text \<open>
  The policy digest the worker registers with depends on the configured authority only: it exists
  exactly for a valid policy, and two policies that differ in the order of their allowlists alone
  have the same digest.
\<close>
theorem digest_order_independent:
  assumes "mset ssh' = mset (po_SSHAllowlist p)" "mset winrm' = mset (po_WinRMAllowlist p)"
  shows "Digest sha (p\<lparr>po_SSHAllowlist := ssh', po_WinRMAllowlist := winrm'\<rparr>) = Digest sha p
    \<and> ((\<exists>d. Digest sha p = Inr d) \<longleftrightarrow> Validate p = None)"
proof -
  let ?q = "p\<lparr>po_SSHAllowlist := ssh', po_WinRMAllowlist := winrm'\<rparr>"
  have "Validate ?q = Validate p"
    unfolding Validate_def
    by (simp add: perm_lists [OF assms(1)] perm_lists [OF assms(2)] remoteStartInterval_def taskDuration_def
        concurrency_def)
  moreover have "policy_json ?q = policy_json p"
    unfolding policy_json_def
    by (simp add: perm_lists [OF assms(1)] perm_lists [OF assms(2)] canonical_perm [OF assms(1)]
        canonical_perm [OF assms(2)] remoteStartInterval_def taskDuration_def concurrency_def Capabilities_def)
  ultimately show ?thesis
    unfolding Digest_def by (simp split: option.splits)
qed

theorem digest_order_independent_witness:
  "Digest (\<lambda>s. s) ((ex_Policy demo_executor)\<lparr>po_SSHAllowlist := rev (po_SSHAllowlist (ex_Policy demo_executor)),
     po_WinRMAllowlist := []\<rparr>) = Digest (\<lambda>s. s) (ex_Policy demo_executor)"
  by (rule conjunct1 [OF digest_order_independent]) simp_all

end
