(* ===== verification/Spool.thy ===== *)
theory Spool
  imports Model
begin

text \<open>
  The encrypted on-disk queues of the relay (\<open>internal/relay/spool.go\<close>) and of the agent
  (\<open>internal/agent/spool.go\<close>) over one model of a directory: files by name, and for every call to
  the file system whether it works. AES-GCM and \<open>encoding/json\<close> are parameters (\<open>sealing\<close>), their
  documented laws the predicate \<open>sealing_ok\<close>. Encoding is total: what is spooled holds strings, booleans,
  numbers, clock times and decoded or plugin-built JSON values only, on which \<open>json.Marshal\<close> does not fail, so its error path is left out. The interface the run loops rely on is the locale
  \<open>spool_queue\<close>, interpreted on both queues.
\<close>

section \<open>The directory\<close>

text \<open>
  What happens to one file-system call: it works, it fails, or, for a write, it fails after
  some bytes reached the new file.
\<close>

datatype io = Works | Fails | FailsAfter nat

record spool =
  sp_files :: "string gomap"
  sp_seq :: nat
  sp_io :: "io list"
  sp_nonces :: "string list"

datatype spool_error = EntryTooLarge | NoNonce | DirError | ErrSpoolFull | WriteError | RenameError
  | BadName | OpenError | FileTooLarge | Truncated | Tampered | Undecodable | RemoveError | StatError

definition next_io :: "spool \<Rightarrow> io \<times> spool" where
  "next_io s = (case sp_io s of [] \<Rightarrow> (Works, s) | i # is \<Rightarrow> (i, s\<lparr>sp_io := is\<rparr>))"

definition next_nonce :: "spool \<Rightarrow> string option \<times> spool" where
  "next_nonce s = (case sp_nonces s of [] \<Rightarrow> (None, s) | n # ns \<Rightarrow> (Some n, s\<lparr>sp_nonces := ns\<rparr>))"

definition ReadDir :: "spool \<Rightarrow> string gomap option \<times> spool" where
  "ReadDir s = (case next_io s of (Works, s) \<Rightarrow> (Some (sp_files s), s) | (_, s) \<Rightarrow> (None, s))"

definition WriteFile :: "string \<Rightarrow> string \<Rightarrow> spool \<Rightarrow> bool \<times> spool" where
  "WriteFile name content s =
     (case next_io s of
        (Works, s) \<Rightarrow> (True, s\<lparr>sp_files := AList.update name content (sp_files s)\<rparr>)
      | (Fails, s) \<Rightarrow> (False, s)
      | (FailsAfter n, s) \<Rightarrow> (False, s\<lparr>sp_files := AList.update name (take n content) (sp_files s)\<rparr>))"

definition Rename :: "string \<Rightarrow> string \<Rightarrow> spool \<Rightarrow> bool \<times> spool" where
  "Rename old new s =
     (case next_io s of
        (Works, s) \<Rightarrow>
          (case map_of (sp_files s) old of None \<Rightarrow> (False, s)
           | Some content \<Rightarrow> (True, s\<lparr>sp_files := AList.update new content (AList.delete old (sp_files s))\<rparr>))
      | (_, s) \<Rightarrow> (False, s))"

text \<open>Removing a file that does not exist is not an error for any caller here.\<close>

definition RemoveFile :: "string \<Rightarrow> spool \<Rightarrow> bool \<times> spool" where
  "RemoveFile name s =
     (case next_io s of
        (Works, s) \<Rightarrow> (True, s\<lparr>sp_files := AList.delete name (sp_files s)\<rparr>)
      | (_, s) \<Rightarrow> (False, s))"

definition ReadFile :: "string \<Rightarrow> spool \<Rightarrow> string option \<times> spool" where
  "ReadFile name s =
     (case next_io s of (Works, s) \<Rightarrow> (map_of (sp_files s) name, s) | (_, s) \<Rightarrow> (None, s))"

definition total_bytes :: "string gomap \<Rightarrow> nat" where
  "total_bytes fs = sum_list (map (length \<circ> snd) fs)"

section \<open>Encryption and encoding\<close>

record 'd sealing =
  sl_marshal :: "'d \<Rightarrow> string"
  sl_unmarshal :: "string \<Rightarrow> 'd option"
  sl_seal :: "string \<Rightarrow> string \<Rightarrow> string"
  sl_open :: "string \<Rightarrow> string \<Rightarrow> string option"

definition nonceSize :: nat where "nonceSize = 12"

text \<open>
  What the code relies on. A value survives \<open>json.Marshal\<close> and \<open>json.Unmarshal\<close> up to \<open>R\<close> (JSON
  replaces invalid UTF-8, so this is not equality); \<open>Open\<close> inverts \<open>Seal\<close>, which adds a tag of 16
  bytes, and rejects a truncated ciphertext. GCM seals at most \<open>2 ^ 36 - 32\<close> bytes.
\<close>

definition gcm_limit :: nat where "gcm_limit = 2 ^ 36 - 32"

definition sealing_ok :: "('d \<Rightarrow> 'd \<Rightarrow> bool) \<Rightarrow> 'd sealing \<Rightarrow> bool" where
  "sealing_ok R e \<longleftrightarrow> (\<forall>d. \<exists>d'. sl_unmarshal e (sl_marshal e d) = Some d' \<and> R d d')
     \<and> (\<forall>n p. length p \<le> gcm_limit \<longrightarrow> sl_open e n (sl_seal e n p) = Some p
          \<and> length (sl_seal e n p) = length p + 16
          \<and> (\<forall>k < length (sl_seal e n p). sl_open e n (take k (sl_seal e n p)) = None))"

text \<open>\<open>aead.Seal(nonce, nonce, plaintext, nil)\<close> and the decoding of what it wrote.\<close>

definition ciphertext :: "'d sealing \<Rightarrow> string \<Rightarrow> 'd \<Rightarrow> string" where
  "ciphertext e nonce d = nonce @ sl_seal e nonce (sl_marshal e d)"

definition decode_entry :: "'d sealing \<Rightarrow> nat \<Rightarrow> string \<Rightarrow> spool_error + 'd" where
  "decode_entry e maximum c =
     (if length c > maximum then Inl FileTooLarge
      else if length c < nonceSize then Inl Truncated
      else case sl_open e (take nonceSize c) (drop nonceSize c) of None \<Rightarrow> Inl Tampered
        | Some p \<Rightarrow> (case sl_unmarshal e p of None \<Rightarrow> Inl Undecodable | Some d \<Rightarrow> Inr d))"

section \<open>The relay's spool\<close>

definition relaySpoolSuffix :: string where "relaySpoolSuffix = ''.relay-spool''"
definition relaySpoolTmp :: string where "relaySpoolTmp = ''.tmp-relay-''"
definition maxRelayEntryBytes :: nat where "maxRelayEntryBytes = 16777216"
definition maxRelayFileBytes :: nat where "maxRelayFileBytes = maxRelayEntryBytes + 64"

definition entry_name :: "nat \<Rightarrow> nat \<Rightarrow> string \<Rightarrow> string" where
  "entry_name now seq sfx = decz 20 now @ ''-'' @ decz 8 seq @ sfx"

text \<open>The commit both spools share: write a temporary file, rename it, or clean it up.\<close>

definition commit_entry :: "string \<Rightarrow> string \<Rightarrow> string \<Rightarrow> spool \<Rightarrow> spool_error option \<times> spool" where
  "commit_entry tmp name content s =
     (case WriteFile (tmp @ name) content s of
        (False, s) \<Rightarrow> (Some WriteError, s)
      | (True, s) \<Rightarrow>
          (case Rename (tmp @ name) name s of
             (True, s) \<Rightarrow> (None, s)
           | (False, s) \<Rightarrow> (Some RenameError, snd (RemoveFile (tmp @ name) s))))"

definition relay_writeLocked ::
  "'d sealing \<Rightarrow> nat \<Rightarrow> string \<Rightarrow> 'd \<Rightarrow> nat \<Rightarrow> spool \<Rightarrow> spool_error option \<times> spool" where
  "relay_writeLocked e maxBytes name d replaced s =
     (if length (sl_marshal e d) > maxRelayEntryBytes then (Some EntryTooLarge, s)
      else case next_nonce s of (None, s) \<Rightarrow> (Some NoNonce, s)
      | (Some nonce, s) \<Rightarrow>
        (case ReadDir s of (None, s) \<Rightarrow> (Some DirError, s)
         | (Some fs, s) \<Rightarrow>
             if int (total_bytes fs) - int replaced + int (length (ciphertext e nonce d)) > int maxBytes
             then (Some ErrSpoolFull, s)
             else commit_entry relaySpoolTmp name (ciphertext e nonce d) s))"

definition relay_Enqueue :: "'d sealing \<Rightarrow> nat \<Rightarrow> nat \<Rightarrow> 'd \<Rightarrow> spool \<Rightarrow> spool_error option \<times> spool" where
  "relay_Enqueue e maxBytes now d s =
     (let s = s\<lparr>sp_seq := sp_seq s + 1\<rparr>
      in relay_writeLocked e maxBytes (entry_name now (sp_seq s) relaySpoolSuffix) d 0 s)"

definition entryPath_ok :: "string \<Rightarrow> string \<Rightarrow> bool" where
  "entryPath_ok sfx name \<longleftrightarrow> CHR ''/'' \<notin> set name \<and> CHR 0x5C \<notin> set name \<and> has_suffix name sfx"

definition relay_Replace :: "'d sealing \<Rightarrow> nat \<Rightarrow> string \<Rightarrow> 'd \<Rightarrow> spool \<Rightarrow> spool_error option \<times> spool" where
  "relay_Replace e maxBytes name d s =
     (if \<not> entryPath_ok relaySpoolSuffix name then (Some BadName, s)
      else case ReadFile name s of (None, s) \<Rightarrow> (Some StatError, s)
        | (Some old, s) \<Rightarrow> relay_writeLocked e maxBytes name d (length old) s)"

definition relay_Pending :: "spool \<Rightarrow> string list option \<times> spool" where
  "relay_Pending s =
     (case ReadDir s of (None, s) \<Rightarrow> (None, s)
      | (Some fs, s) \<Rightarrow> (Some (sort (filter (\<lambda>n. has_suffix n relaySpoolSuffix) (map fst fs))), s))"

definition relay_Read :: "'d sealing \<Rightarrow> string \<Rightarrow> spool \<Rightarrow> (spool_error + 'd) \<times> spool" where
  "relay_Read e name s =
     (if \<not> entryPath_ok relaySpoolSuffix name then (Inl BadName, s)
      else case ReadFile name s of (None, s) \<Rightarrow> (Inl OpenError, s)
        | (Some c, s) \<Rightarrow> (decode_entry e maxRelayFileBytes c, s))"

definition relay_Remove :: "string \<Rightarrow> spool \<Rightarrow> spool_error option \<times> spool" where
  "relay_Remove name s =
     (if \<not> entryPath_ok relaySpoolSuffix name then (Some BadName, s)
      else case RemoveFile name s of (True, s) \<Rightarrow> (None, s) | (False, s) \<Rightarrow> (Some RemoveError, s))"

section \<open>The agent's spool\<close>

definition spoolSuffix :: string where "spoolSuffix = ''.spool''"
definition tmpPrefix :: string where "tmpPrefix = ''.tmp-''"
definition maxSpoolFileBytes :: nat where "maxSpoolFileBytes = 8388608"

definition agent_Enqueue :: "'d sealing \<Rightarrow> nat \<Rightarrow> nat \<Rightarrow> 'd \<Rightarrow> spool \<Rightarrow> spool_error option \<times> spool" where
  "agent_Enqueue e maxBytes now d s =
     (case next_nonce s of (None, s) \<Rightarrow> (Some NoNonce, s)
      | (Some nonce, s) \<Rightarrow>
        (case ReadDir s of (None, s) \<Rightarrow> (Some DirError, s)
         | (Some fs, s) \<Rightarrow>
             if total_bytes fs + length (ciphertext e nonce d) > maxBytes then (Some ErrSpoolFull, s)
             else
               let s = s\<lparr>sp_seq := sp_seq s + 1\<rparr>
               in commit_entry tmpPrefix (entry_name now (sp_seq s) spoolSuffix) (ciphertext e nonce d) s))"

definition agent_Pending :: "spool \<Rightarrow> string list option \<times> spool" where
  "agent_Pending s =
     (case ReadDir s of (None, s) \<Rightarrow> (None, s)
      | (Some fs, s) \<Rightarrow> (Some (sort (filter (\<lambda>n. \<not> has_prefix n tmpPrefix \<and> has_suffix n spoolSuffix) (map fst fs))), s))"

definition agent_Read :: "'d sealing \<Rightarrow> string \<Rightarrow> spool \<Rightarrow> (spool_error + 'd) \<times> spool" where
  "agent_Read e name s =
     (if \<not> entryPath_ok spoolSuffix name then (Inl BadName, s)
      else case ReadFile name s of (None, s) \<Rightarrow> (Inl OpenError, s)
        | (Some c, s) \<Rightarrow> (decode_entry e maxSpoolFileBytes c, s))"

definition agent_Remove :: "string \<Rightarrow> spool \<Rightarrow> spool_error option \<times> spool" where
  "agent_Remove name s =
     (if \<not> entryPath_ok spoolSuffix name then (Some BadName, s)
      else case RemoveFile name s of (True, s) \<Rightarrow> (None, s) | (False, s) \<Rightarrow> (Some RemoveError, s))"

section \<open>What the operations do to the directory\<close>

abbreviation nonces_ok :: "spool \<Rightarrow> bool" where
  "nonces_ok s \<equiv> \<forall>n \<in> set (sp_nonces s). length n = nonceSize"

lemma next_io_files [simp]: "next_io s = (i, s') \<Longrightarrow> sp_files s' = sp_files s \<and> sp_nonces s' = sp_nonces s \<and> sp_seq s' = sp_seq s"
  by (auto simp: next_io_def split: list.splits)

lemma next_nonce_files: "next_nonce s = (r, s') \<Longrightarrow> sp_files s' = sp_files s \<and> sp_seq s' = sp_seq s
    \<and> set (sp_nonces s') \<subseteq> set (sp_nonces s) \<and> (\<forall>n. r = Some n \<longrightarrow> n \<in> set (sp_nonces s))"
  by (auto simp: next_nonce_def split: list.splits)

lemma ReadDir_files: "ReadDir s = (r, s') \<Longrightarrow> sp_files s' = sp_files s \<and> sp_nonces s' = sp_nonces s
    \<and> (\<forall>fs. r = Some fs \<longrightarrow> fs = sp_files s)"
  by (auto simp: ReadDir_def split: prod.splits io.splits)

lemma ReadFile_files: "ReadFile n s = (r, s') \<Longrightarrow> sp_files s' = sp_files s \<and> sp_nonces s' = sp_nonces s
    \<and> (\<forall>c. r = Some c \<longrightarrow> map_of (sp_files s) n = Some c)"
  by (auto simp: ReadFile_def split: prod.splits io.splits)

lemma RemoveFile_files: "RemoveFile n s = (ok, s') \<Longrightarrow> sp_nonces s' = sp_nonces s
    \<and> sp_files s' = (if ok then AList.delete n (sp_files s) else sp_files s)"
  by (auto simp: RemoveFile_def split: prod.splits io.splits)

text \<open>
  \<open>commit_entry\<close>: on success exactly the entry is replaced; on failure no other file changes, and the
  temporary one is absent, or is as it was, or holds a prefix of the content.
\<close>

lemma commit_entry_files:
  assumes "commit_entry tmp name c s = (r, s')" "tmp \<noteq> []"
  shows "sp_nonces s' = sp_nonces s"
    and "n \<noteq> tmp @ name \<Longrightarrow> map_of (sp_files s') n =
      (if r = None \<and> n = name then Some c else map_of (sp_files s) n)"
    and "map_of (sp_files s') (tmp @ name) \<in> {None, map_of (sp_files s) (tmp @ name)} \<union> range (\<lambda>k. Some (take k c))"
    and "gm_wf (sp_files s) \<Longrightarrow> gm_wf (sp_files s')"
proof -
  have ne: "tmp @ name \<noteq> name" using assms(2) by simp
  have tmp_all: "Some c \<in> range (\<lambda>k. Some (take k c))"
    by (rule range_eqI [of _ _ "length c"]) simp
  show "sp_nonces s' = sp_nonces s"
    and "n \<noteq> tmp @ name \<Longrightarrow> map_of (sp_files s') n =
      (if r = None \<and> n = name then Some c else map_of (sp_files s) n)"
    and "map_of (sp_files s') (tmp @ name) \<in> {None, map_of (sp_files s) (tmp @ name)} \<union> range (\<lambda>k. Some (take k c))"
    and "gm_wf (sp_files s) \<Longrightarrow> gm_wf (sp_files s')"
    using assms(1) ne tmp_all unfolding commit_entry_def WriteFile_def Rename_def RemoveFile_def
    by (auto simp: update_conv' delete_conv' AList.distinct_delete split: prod.splits bool.splits io.splits option.splits dest!: next_io_files)
qed

section \<open>The contents of entries\<close>

lemma sealD:
  assumes "sealing_ok R e" "length p \<le> gcm_limit"
  shows "sl_open e n (sl_seal e n p) = Some p" "length (sl_seal e n p) = length p + 16"
    "k < length (sl_seal e n p) \<Longrightarrow> sl_open e n (take k (sl_seal e n p)) = None"
  using assms unfolding sealing_ok_def by simp_all

lemma decode_partial:
  assumes "sealing_ok R e" "length nonce = nonceSize" "length (sl_marshal e d) \<le> gcm_limit"
    and "decode_entry e m (take k (ciphertext e nonce d)) = Inr d'"
  shows "R d d'"
proof -
  let ?box = "sl_seal e nonce (sl_marshal e d)"
  have long: "nonceSize \<le> length (take k (ciphertext e nonce d))"
    using assms(4) by (auto simp: decode_entry_def split: if_splits)
  then have k: "nonceSize \<le> k" by simp
  have parts: "take nonceSize (take k (ciphertext e nonce d)) = nonce"
      "drop nonceSize (take k (ciphertext e nonce d)) = take (k - nonceSize) ?box"
    using assms(2) k by (simp_all add: ciphertext_def min_def)
  have "sl_open e nonce (take (k - nonceSize) ?box) \<noteq> None"
    using assms(4) long unfolding decode_entry_def parts by (auto split: if_splits option.splits)
  then have "\<not> k - nonceSize < length ?box"
    by (auto dest: sealD(3) [OF assms(1,3)])
  then have "sl_open e nonce (take (k - nonceSize) ?box) = Some (sl_marshal e d)"
    using sealD(1) [OF assms(1,3)] by simp
  then have "sl_unmarshal e (sl_marshal e d) = Some d'"
    using assms(4) long unfolding decode_entry_def parts by (auto split: if_splits option.splits)
  moreover obtain d2 where "sl_unmarshal e (sl_marshal e d) = Some d2" "R d d2"
    using assms(1) unfolding sealing_ok_def by blast
  ultimately show ?thesis by simp
qed

lemma decode_full:
  assumes "sealing_ok R e" "length nonce = nonceSize" "length (sl_marshal e d) \<le> gcm_limit"
    and "length (sl_marshal e d) + 28 \<le> m"
  shows "\<exists>d'. decode_entry e m (ciphertext e nonce d) = Inr d' \<and> R d d'"
proof -
  obtain d' where "sl_unmarshal e (sl_marshal e d) = Some d'" "R d d'"
    using assms(1) unfolding sealing_ok_def by blast
  moreover have "sl_open e nonce (sl_seal e nonce (sl_marshal e d)) = Some (sl_marshal e d)"
      "length (sl_seal e nonce (sl_marshal e d)) = length (sl_marshal e d) + 16"
    by (rule sealD [OF assms(1,3)])+
  ultimately show ?thesis
    using assms(2,4) by (auto simp: decode_entry_def ciphertext_def nonceSize_def)
qed

text \<open>Every file that decodes, under whatever size limit, decodes to a value with the property.\<close>

definition contents :: "'d sealing \<Rightarrow> ('d \<Rightarrow> bool) \<Rightarrow> spool \<Rightarrow> bool" where
  "contents e Q s \<longleftrightarrow> nonces_ok s
     \<and> (\<forall>n c m d. map_of (sp_files s) n = Some c \<longrightarrow> decode_entry e m c = Inr d \<longrightarrow> Q d)"

lemma contentsD: "contents e Q s \<Longrightarrow> map_of (sp_files s) n = Some c \<Longrightarrow> decode_entry e m c = Inr d \<Longrightarrow> Q d"
  unfolding contents_def by blast

lemma contents_mono: "contents e Q s \<Longrightarrow> (\<And>d. Q d \<Longrightarrow> Q' d) \<Longrightarrow> contents e Q' s"
  unfolding contents_def by blast

lemma contents_files:
  "contents e Q s \<Longrightarrow> sp_files s' = sp_files s \<Longrightarrow> set (sp_nonces s') \<subseteq> set (sp_nonces s) \<Longrightarrow> contents e Q s'"
  unfolding contents_def by auto

lemma contents_delete:
  assumes "contents e Q s" "sp_files s' = AList.delete n (sp_files s)" "sp_nonces s' = sp_nonces s"
  shows "contents e Q s'"
  using assms unfolding contents_def by (auto simp: delete_conv' split: if_splits)

lemma contents_commit:
  assumes "sealing_ok R e" "contents e Q s" "length nonce = nonceSize" "length (sl_marshal e d) \<le> gcm_limit"
    and "\<And>d'. R d d' \<Longrightarrow> Q d'" "tmp \<noteq> []"
    and "commit_entry tmp name (ciphertext e nonce d) s = (r, s')"
  shows "contents e Q s'"
proof -
  note files = commit_entry_files [OF assms(7,6)]
  have "Q d'" if at: "map_of (sp_files s') n = Some c" "decode_entry e m c = Inr d'" for n c m d'
  proof -
    have "map_of (sp_files s) n = Some c \<or> (\<exists>k. c = take k (ciphertext e nonce d))"
    proof (cases "n = tmp @ name")
      case True
      with files(3) at(1) show ?thesis by auto
    next
      case False
      with files(2) [of n] at(1) show ?thesis
        by (auto split: if_splits intro: exI [of _ "length (ciphertext e nonce d)"])
    qed
    then show ?thesis
      using contentsD [OF assms(2) _ at(2)] decode_partial [OF assms(1,3,4)] at(2) assms(5) by blast
  qed
  then show ?thesis using assms(2) files(1) unfolding contents_def by simp
qed

lemma relay_write_contents:
  assumes "sealing_ok R e" "contents e Q s" "\<And>d'. R d d' \<Longrightarrow> Q d'"
    and "relay_writeLocked e maxBytes name d replaced s = (r, s')"
  shows "contents e Q s'"
proof (cases "length (sl_marshal e d) > maxRelayEntryBytes")
  case True
  then show ?thesis using assms(2,4) by (simp add: relay_writeLocked_def)
next
  case False
  then have small: "length (sl_marshal e d) \<le> gcm_limit"
    by (simp add: maxRelayEntryBytes_def gcm_limit_def)
  obtain x s1 where n: "next_nonce s = (x, s1)" by fastforce
  note n' = next_nonce_files [OF n]
  have c1: "contents e Q s1" using contents_files [OF assms(2)] n' by blast
  show ?thesis
  proof (cases x)
    case None
    then show ?thesis using assms(4) n c1 False by (simp add: relay_writeLocked_def)
  next
    case (Some nonce)
    then have len: "length nonce = nonceSize" using n' assms(2) unfolding contents_def by blast
    obtain y s2 where r: "ReadDir s1 = (y, s2)" by fastforce
    have c2: "contents e Q s2" using contents_files [OF c1] ReadDir_files [OF r] by simp
    have tmp: "relaySpoolTmp \<noteq> []" by (simp add: relaySpoolTmp_def)
    show ?thesis
      using assms(4) n r Some False c2 contents_commit [OF assms(1) c2 len small assms(3) tmp]
      by (auto simp: relay_writeLocked_def split: option.splits if_splits)
  qed
qed

section \<open>The interface of the run loops\<close>

locale spool_queue =
  fixes e :: "'d sealing" and limit :: nat and listed :: "string \<Rightarrow> bool"
    and pending :: "spool \<Rightarrow> string list option \<times> spool"
    and read :: "string \<Rightarrow> spool \<Rightarrow> (spool_error + 'd) \<times> spool"
    and remove :: "string \<Rightarrow> spool \<Rightarrow> spool_error option \<times> spool"
  assumes pending_files: "pending s = (r, s') \<Longrightarrow> sp_files s' = sp_files s \<and> sp_nonces s' = sp_nonces s"
    and pending_names: "pending s = (Some ns, s') \<Longrightarrow> ns = sort (filter listed (map fst (sp_files s)))"
    and read_files: "read n s = (x, s') \<Longrightarrow> sp_files s' = sp_files s \<and> sp_nonces s' = sp_nonces s"
    and read_value: "read n s = (Inr d, s') \<Longrightarrow>
      \<exists>c. map_of (sp_files s) n = Some c \<and> decode_entry e limit c = Inr d"
    and remove_files: "remove n s = (err, s') \<Longrightarrow> sp_nonces s' = sp_nonces s
      \<and> sp_files s' = (if err = None then AList.delete n (sp_files s) else sp_files s)"
begin

lemma pending_set:
  assumes "pending s = (Some ns, s')"
  shows "set ns = {n. listed n \<and> map_of (sp_files s) n \<noteq> None}"
  unfolding pending_names [OF assms] by (auto simp: map_of_eq_None_iff)

lemma pending_sorted: "pending s = (Some ns, s') \<Longrightarrow> gm_wf (sp_files s) \<Longrightarrow> sorted ns \<and> distinct ns"
  by (auto dest: pending_names)

lemma pending_contents:
  assumes "contents e Q s" "pending s = (r, s')"
  shows "contents e Q s'"
  using contents_files [OF assms(1), of s'] pending_files [OF assms(2)] by simp

lemma read_contents:
  assumes "contents e Q s" "read n s = (x, s')"
  shows "contents e Q s'"
  using contents_files [OF assms(1), of s'] read_files [OF assms(2)] by simp

lemma read_good:
  assumes "contents e Q s" "read n s = (Inr d, s')"
  shows "Q d"
  using contentsD [OF assms(1)] read_value [OF assms(2)] by blast

lemma remove_contents:
  assumes "contents e Q s" "remove n s = (r, s')"
  shows "contents e Q s'"
  using contents_files [OF assms(1), of s'] contents_delete [OF assms(1), of s' n] remove_files [OF assms(2)]
  by (simp split: if_splits)

lemma remove_others: "remove n s = (r, s') \<Longrightarrow> m \<noteq> n \<or> r \<noteq> None \<Longrightarrow> map_of (sp_files s') m = map_of (sp_files s) m"
  using remove_files [of n s r s'] by (auto simp: delete_conv')

lemma remove_wf: "remove n s = (r, s') \<Longrightarrow> gm_wf (sp_files s) \<Longrightarrow> gm_wf (sp_files s')"
  using remove_files [of n s r s'] by (auto simp: AList.distinct_delete)

end

interpretation rq: spool_queue e maxRelayFileBytes "\<lambda>n. has_suffix n relaySpoolSuffix"
  relay_Pending "relay_Read e" relay_Remove for e :: "'d sealing"
  by unfold_locales
    (auto simp: relay_Pending_def relay_Read_def relay_Remove_def split: prod.splits option.splits bool.splits if_splits
      dest!: ReadDir_files ReadFile_files RemoveFile_files)

interpretation aq: spool_queue e maxSpoolFileBytes "\<lambda>n. \<not> has_prefix n tmpPrefix \<and> has_suffix n spoolSuffix"
  agent_Pending "agent_Read e" agent_Remove for e :: "'d sealing"
  by unfold_locales
    (auto simp: agent_Pending_def agent_Read_def agent_Remove_def split: prod.splits option.splits bool.splits if_splits
      dest!: ReadDir_files ReadFile_files RemoveFile_files)

end
