(* ===== verification/Relay.thy ===== *)
theory Relay
  imports Spool Worker_Executor
begin

text \<open>
  The ServiceNow-controlled relay: the messages of \<open>internal/relay/contract.go\<close>, the validation of
  its local configuration (\<open>config.go\<close>) and of the jobs it is sent (\<open>client.go\<close>), the choice of a
  plugin for a profile (\<open>executor.go\<close>) and the run loop that publishes and reports results through
  the encrypted spool (\<open>run.go\<close>). The answers of the publisher and of the control plane are streams
  of the state; the calls made are logged with their answers, in order.
\<close>

section \<open>Messages\<close>

definition RelayContractVersion :: string where "RelayContractVersion = ''v1alpha1''"
definition RelayJobTypeDiscover :: string where "RelayJobTypeDiscover = ''discover''"

record relay_job =
  rj_JobID :: string
  rj_Type :: string
  rj_ProfileID :: string
  rj_RequestedAt :: time

record relay_result =
  rl_JobID :: string
  rl_RelayID :: string
  rl_ProfileID :: string
  rl_Success :: bool
  rl_StartedAt :: time
  rl_CompletedAt :: time
  rl_ObservationID :: string
  rl_Assets :: nat
  rl_Relationships :: nat
  rl_CollectionErrors :: nat
  rl_Error :: string

record delivery =
  pd_Job :: relay_job
  pd_RelayID :: string
  pd_StartedAt :: time
  pd_CompletedAt :: time
  pd_Observation :: "observation option"
  pd_DiscoveryError :: string
  pd_Published :: bool
  pd_PublishAttempts :: nat
  pd_PublicationError :: string

datatype relay_job_error = BadJobID | BadJobType | BadProfileID

definition validateJob :: "relay_job \<Rightarrow> relay_job_error option" where
  "validateJob j =
     (if rj_JobID j = [] \<or> length (rj_JobID j) > 128 then Some BadJobID
      else if rj_Type j \<noteq> RelayJobTypeDiscover then Some BadJobType
      else if rj_ProfileID j = [] \<or> length (rj_ProfileID j) > 128 then Some BadProfileID
      else None)"

definition relay_truncate :: "string \<Rightarrow> nat \<Rightarrow> string" where
  "relay_truncate s limit = (if length s \<le> limit then s else take limit s @ ''...'')"

section \<open>Configuration\<close>

definition maxProfiles :: nat where "maxProfiles = 128"
definition maxTargets :: nat where "maxTargets = 10000"
definition maxTargetsBytes :: nat where "maxTargetsBytes = 4194304"
definition maxTargetLine :: nat where "maxTargetLine = 4096"
definition defaultConcurrency :: int where "defaultConcurrency = 32"
definition maxDiscoveryDuration :: duration where "maxDiscoveryDuration = 30 * minute"

record ssh_config =
  sh_PasswordRef :: string
  sh_PrivateKeyRef :: string
  sh_KnownHostsFile :: string
  sh_Concurrency :: int
  sh_ConnectTimeout :: string
  sh_CommandTimeout :: string
  sh_MaxOutputBytes :: int

record profile_config =
  pf_ID :: string
  pf_Plugin :: string
  pf_TargetsFile :: string
  pf_SSH :: "ssh_config option"

record file_config =
  fc_SchemaVersion :: string
  fc_RelayID :: string
  fc_SiteID :: string
  fc_Profiles :: "profile_config list"

datatype config_error = BadSchemaVersion | BadRelayID | BadRelaySite | BadProfileCount
  | BadProfileName nat | DuplicateProfile string | BadProfile string

text \<open>\<open>time.ParseDuration\<close> is a parameter. Paths are those of a Unix system.\<close>

definition IsAbs :: "string \<Rightarrow> bool" where "IsAbs path = has_prefix path ''/''"

definition parseDuration :: "(string \<Rightarrow> duration option) \<Rightarrow> string \<Rightarrow> duration \<Rightarrow> duration option" where
  "parseDuration pdur raw fallback =
     (if raw = [] then Some fallback
      else case pdur raw of None \<Rightarrow> None
        | Some v \<Rightarrow> if v \<le> 0 \<or> v > 10 * minute then None else Some v)"

definition profile_valid :: "(string \<Rightarrow> duration option) \<Rightarrow> profile_config \<Rightarrow> bool" where
  "profile_valid pdur p =
     (if pf_Plugin p = ''local'' then pf_TargetsFile p = [] \<and> pf_SSH p = None
      else if pf_Plugin p = ''ssh-linux'' then
        IsAbs (pf_TargetsFile p)
        \<and> (case pf_SSH p of None \<Rightarrow> False
           | Some h \<Rightarrow> IsAbs (sh_KnownHostsFile h)
              \<and> \<not> (sh_PasswordRef h = [] \<and> sh_PrivateKeyRef h = [])
              \<and> \<not> (sh_Concurrency h < 0 \<or> sh_Concurrency h > 1024)
              \<and> \<not> (sh_MaxOutputBytes h < 0 \<or> sh_MaxOutputBytes h > 64 * 2 ^ 20)
              \<and> parseDuration pdur (sh_ConnectTimeout h) (10 * second) \<noteq> None
              \<and> parseDuration pdur (sh_CommandTimeout h) (10 * second) \<noteq> None)
      else False)"

fun check_profiles ::
  "(string \<Rightarrow> duration option) \<Rightarrow> nat \<Rightarrow> string list \<Rightarrow> profile_config list \<Rightarrow> config_error option" where
  "check_profiles pdur index seen [] = None"
| "check_profiles pdur index seen (p # ps) =
     (if \<not> safeID (pf_ID p) then Some (BadProfileName index)
      else if pf_ID p \<in> set seen then Some (DuplicateProfile (pf_ID p))
      else if \<not> profile_valid pdur p then Some (BadProfile (pf_ID p))
      else check_profiles pdur (index + 1) (pf_ID p # seen) ps)"

definition ValidateConfig :: "(string \<Rightarrow> duration option) \<Rightarrow> file_config \<Rightarrow> config_error option" where
  "ValidateConfig pdur c =
     (if fc_SchemaVersion c \<noteq> RelayContractVersion then Some BadSchemaVersion
      else if \<not> safeID (fc_RelayID c) then Some BadRelayID
      else if \<not> safeID (fc_SiteID c) then Some BadRelaySite
      else if fc_Profiles c = [] \<or> length (fc_Profiles c) > maxProfiles then Some BadProfileCount
      else check_profiles pdur 0 [] (fc_Profiles c))"

definition relay_Capabilities :: "file_config \<Rightarrow> (string \<times> string) list" where
  "relay_Capabilities c = map (\<lambda>p. (pf_ID p, pf_Plugin p)) (fc_Profiles c)"

definition Profile :: "file_config \<Rightarrow> string \<Rightarrow> profile_config option" where
  "Profile c pid = find (\<lambda>p. pf_ID p = pid) (fc_Profiles c)"

datatype targets_error = TargetsFileTooLarge | TargetLineTooLong | TooManyTargets | NoTargets

fun collect_targets :: "string list \<Rightarrow> string list \<Rightarrow> targets_error + string list" where
  "collect_targets acc [] = Inr acc"
| "collect_targets acc (raw # ls) =
     (let line = trim_space raw
      in if line = [] \<or> has_prefix line ''#'' then collect_targets acc ls
         else if length line > maxTargetLine then Inl TargetLineTooLong
         else if length acc + 1 > maxTargets then Inl TooManyTargets
         else collect_targets (acc @ [line]) ls)"

definition readTargets :: "string \<Rightarrow> targets_error + string list" where
  "readTargets body =
     (if length body > maxTargetsBytes then Inl TargetsFileTooLarge
      else case collect_targets [] (split_on (CHR 0x0A) body) of Inl err \<Rightarrow> Inl err
        | Inr ts \<Rightarrow> if ts = [] then Inl NoTargets else Inr ts)"

section \<open>From a profile to a plugin\<close>

text \<open>
  The host's files and secrets: targets files, whether a known_hosts file loads, credential
  references, and whether a private key parses.
\<close>

record relay_host =
  rh_TargetsFile :: "string \<Rightarrow> string option"
  rh_KnownHosts :: "string \<Rightarrow> bool"
  rh_Resolve :: "string \<Rightarrow> string option"
  rh_ParseKey :: "string \<Rightarrow> bool"

record ssh_plugin =
  sp_Password :: string
  sp_Signer :: "string option"
  sp_Concurrency :: int
  sp_ConnectTimeout :: duration
  sp_CommandTimeout :: duration
  sp_MaxOutputBytes :: int

datatype relay_plugin = LocalPlugin | SSHPlugin ssh_plugin

datatype relay_exec_error = JobInvalid relay_job_error | UnknownProfile string | UnsupportedPlugin
  | NoSSHConfig | TargetsUnreadable | BadTargets targets_error | NoKnownHosts | KeyUnresolved
  | BadKey | PasswordUnresolved | ProfileInvalid | DiscoverFailed string

definition or_else :: "'a \<Rightarrow> 'a option \<Rightarrow> 'a" where
  "or_else d x = (case x of None \<Rightarrow> d | Some v \<Rightarrow> v)"

definition job_timeout :: "nat \<Rightarrow> int \<Rightarrow> duration \<Rightarrow> duration \<Rightarrow> duration" where
  "job_timeout targets conc connect command =
     (let t = (int targets div conc + 1) * (connect + 8 * command)
      in if t > maxDiscoveryDuration then maxDiscoveryDuration else t)"

definition buildSSHPlugin ::
  "(string \<Rightarrow> duration option) \<Rightarrow> relay_host \<Rightarrow> profile_config \<Rightarrow> relay_exec_error + (relay_plugin \<times> string list \<times> duration)"
  where
  "buildSSHPlugin pdur host p =
     (case pf_SSH p of None \<Rightarrow> Inl NoSSHConfig
      | Some h \<Rightarrow>
        case rh_TargetsFile host (pf_TargetsFile p) of None \<Rightarrow> Inl TargetsUnreadable
        | Some body \<Rightarrow>
          case readTargets body of Inl err \<Rightarrow> Inl (BadTargets err)
          | Inr targets \<Rightarrow>
            if \<not> rh_KnownHosts host (sh_KnownHostsFile h) then Inl NoKnownHosts
            else case (if sh_PrivateKeyRef h = [] then Inr None
                else case rh_Resolve host (sh_PrivateKeyRef h) of None \<Rightarrow> Inl KeyUnresolved
                  | Some key \<Rightarrow> if rh_ParseKey host key then Inr (Some key) else Inl BadKey) of
              Inl err \<Rightarrow> Inl err
            | Inr signer \<Rightarrow>
              case (if sh_PasswordRef h = [] then Inr []
                  else case rh_Resolve host (sh_PasswordRef h) of None \<Rightarrow> Inl PasswordUnresolved
                    | Some value \<Rightarrow> Inr value) of
                Inl err \<Rightarrow> Inl err
              | Inr password \<Rightarrow>
                let connect = or_else 0 (parseDuration pdur (sh_ConnectTimeout h) (10 * second));
                    command = or_else 0 (parseDuration pdur (sh_CommandTimeout h) (10 * second));
                    conc = (if sh_Concurrency h = 0 then defaultConcurrency else sh_Concurrency h);
                    maxOutput = (if sh_MaxOutputBytes h = 0 then 4 * 2 ^ 20 else sh_MaxOutputBytes h)
                in Inr (SSHPlugin \<lparr>sp_Password = password, sp_Signer = signer, sp_Concurrency = conc,
                      sp_ConnectTimeout = connect, sp_CommandTimeout = command, sp_MaxOutputBytes = maxOutput\<rparr>,
                    targets, job_timeout (length targets) conc connect command))"

definition buildPlugin ::
  "(string \<Rightarrow> duration option) \<Rightarrow> relay_host \<Rightarrow> profile_config \<Rightarrow> relay_exec_error + (relay_plugin \<times> string list \<times> duration)"
  where
  "buildPlugin pdur host p =
     (if pf_Plugin p = ''local'' then Inr (LocalPlugin, [''local''], 30 * second)
      else if pf_Plugin p = ''ssh-linux'' then buildSSHPlugin pdur host p
      else Inl UnsupportedPlugin)"

fun plugin_accepts :: "relay_plugin \<Rightarrow> discovery_request \<Rightarrow> bool" where
  "plugin_accepts LocalPlugin r = local_ValidateConfiguration r"
| "plugin_accepts (SSHPlugin c) r \<longleftrightarrow> dr_Targets r \<noteq> [] \<and> (sp_Password c \<noteq> [] \<or> sp_Signer c \<noteq> None)
     \<and> \<not> (sp_Concurrency c < 0 \<or> sp_Concurrency c > 1024) \<and> \<not> sp_MaxOutputBytes c < 0
     \<and> list_all (\<lambda>raw. parseTarget raw \<noteq> None) (dr_Targets r)"

text \<open>The plugin's \<open>Discover\<close> is the parameter \<open>run\<close>; the discoveries started are returned too.\<close>

type_synonym relay_run = "relay_plugin \<Rightarrow> discovery_request \<Rightarrow> string + observation"

definition relay_Execute ::
  "(string \<Rightarrow> duration option) \<Rightarrow> relay_host \<Rightarrow> relay_run \<Rightarrow> time \<Rightarrow> file_config \<Rightarrow> relay_job \<Rightarrow>
   (relay_plugin \<times> discovery_request) list \<times> (relay_exec_error + observation)" where
  "relay_Execute pdur host run now c j =
     (case validateJob j of Some err \<Rightarrow> ([], Inl (JobInvalid err)) | None \<Rightarrow>
      case Profile c (rj_ProfileID j) of None \<Rightarrow> ([], Inl (UnknownProfile (rj_ProfileID j)))
      | Some p \<Rightarrow>
        case buildPlugin pdur host p of Inl err \<Rightarrow> ([], Inl err)
        | Inr (plugin, targets, timeout) \<Rightarrow>
          let r = \<lparr>dr_JobID = rj_JobID j, dr_SiteID = fc_SiteID c, dr_CollectorID = fc_RelayID c,
                dr_Targets = targets, dr_Deadline = now + timeout\<rparr>
          in if \<not> plugin_accepts plugin r then ([], Inl ProfileInvalid)
             else ([(plugin, r)], case run plugin r of Inl err \<Rightarrow> Inl (DiscoverFailed err) | Inr obs \<Rightarrow> Inr obs))"

section \<open>Publishing and reporting\<close>

definition maxPublishAttempts :: nat where "maxPublishAttempts = 3"
definition maxResultErrorBytes :: nat where "maxResultErrorBytes = 4096"
definition maxJobsPerPoll :: nat where "maxJobsPerPoll = 1"

datatype publish_answer = Accepted | Refused bool string

datatype relay_call = RPublish observation publish_answer | RReport relay_result bool | RPoll

record relay_state =
  ry_spool :: spool
  ry_publish :: "publish_answer list"
  ry_report :: "bool list"
  ry_calls :: "relay_call list"

text \<open>An exhausted stream answers like an unreachable peer.\<close>

definition publish_batch :: "observation \<Rightarrow> relay_state \<Rightarrow> publish_answer \<times> relay_state" where
  "publish_batch obs s =
     (let a = (case ry_publish s of [] \<Rightarrow> Refused True ''unreachable'' | x # _ \<Rightarrow> x)
      in (a, s\<lparr>ry_publish := tl (ry_publish s), ry_calls := ry_calls s @ [RPublish obs a]\<rparr>))"

definition report :: "relay_result \<Rightarrow> relay_state \<Rightarrow> bool \<times> relay_state" where
  "report r s =
     (let ok = (case ry_report s of [] \<Rightarrow> False | x # _ \<Rightarrow> x)
      in (ok, s\<lparr>ry_report := tl (ry_report s), ry_calls := ry_calls s @ [RReport r ok]\<rparr>))"

definition on_spool :: "(spool \<Rightarrow> 'a \<times> spool) \<Rightarrow> relay_state \<Rightarrow> 'a \<times> relay_state" where
  "on_spool f s = (case f (ry_spool s) of (x, sp) \<Rightarrow> (x, s\<lparr>ry_spool := sp\<rparr>))"

definition resultFor :: "delivery \<Rightarrow> string option \<Rightarrow> relay_result" where
  "resultFor d override =
     \<lparr>rl_JobID = rj_JobID (pd_Job d), rl_RelayID = pd_RelayID d, rl_ProfileID = rj_ProfileID (pd_Job d),
      rl_Success = (override = None \<and> pd_DiscoveryError d = [] \<and> pd_PublicationError d = [] \<and> pd_Published d),
      rl_StartedAt = pd_StartedAt d, rl_CompletedAt = pd_CompletedAt d,
      rl_ObservationID = (case pd_Observation d of None \<Rightarrow> [] | Some obs \<Rightarrow> ob_ObservationID obs),
      rl_Assets = (case pd_Observation d of None \<Rightarrow> 0 | Some obs \<Rightarrow> length (ob_Assets obs)),
      rl_Relationships = (case pd_Observation d of None \<Rightarrow> 0 | Some obs \<Rightarrow> length (ob_Relationships obs)),
      rl_CollectionErrors = (case pd_Observation d of None \<Rightarrow> 0 | Some obs \<Rightarrow> length (ob_Errors obs)),
      rl_Error = (case override of Some e \<Rightarrow> relay_truncate e maxResultErrorBytes
        | None \<Rightarrow> if pd_DiscoveryError d \<noteq> [] then pd_DiscoveryError d
            else if pd_PublicationError d \<noteq> [] then pd_PublicationError d
            else if pd_Published d then [] else ''observation was not published'')\<rparr>"

definition after_publish :: "delivery \<Rightarrow> publish_answer \<Rightarrow> delivery" where
  "after_publish d a =
     (let d = d\<lparr>pd_PublishAttempts := pd_PublishAttempts d + 1\<rparr>
      in case a of Accepted \<Rightarrow> d\<lparr>pd_Published := True\<rparr>
         | Refused retryable text \<Rightarrow>
             if \<not> retryable \<or> pd_PublishAttempts d \<ge> maxPublishAttempts
             then d\<lparr>pd_PublicationError := relay_truncate text maxResultErrorBytes\<rparr> else d)"

type_synonym relay_env = "delivery sealing"

text \<open>\<open>None\<close>: the entry stays in the spool for the next drain.\<close>

definition publish_step ::
  "relay_env \<Rightarrow> nat \<Rightarrow> string \<Rightarrow> delivery \<Rightarrow> relay_state \<Rightarrow> delivery option \<times> relay_state" where
  "publish_step e maxBytes name d s =
     (case pd_Observation d of None \<Rightarrow> (Some d, s)
      | Some obs \<Rightarrow>
          if pd_Published d \<or> pd_PublicationError d \<noteq> [] then (Some d, s)
          else
            case publish_batch obs s of (a, s) \<Rightarrow>
              let d = after_publish d a
              in case on_spool (relay_Replace e maxBytes name d) s of
                   (Some _, s) \<Rightarrow> (None, s)
                 | (None, s) \<Rightarrow>
                     if a \<noteq> Accepted \<and> pd_PublicationError d = [] then (None, s) else (Some d, s))"

fun drain_names :: "relay_env \<Rightarrow> nat \<Rightarrow> string list \<Rightarrow> relay_state \<Rightarrow> bool \<times> relay_state" where
  "drain_names e maxBytes [] s = (True, s)"
| "drain_names e maxBytes (name # names) s =
     (case on_spool (relay_Read e name) s of (Inl _, s) \<Rightarrow> (False, s)
      | (Inr d, s) \<Rightarrow>
        case publish_step e maxBytes name d s of (None, s) \<Rightarrow> (False, s)
        | (Some d, s) \<Rightarrow>
          case report (resultFor d None) s of (False, s) \<Rightarrow> (False, s)
          | (True, s) \<Rightarrow>
            case on_spool (relay_Remove name) s of (Some _, s) \<Rightarrow> (False, s)
            | (None, s) \<Rightarrow> drain_names e maxBytes names s)"

definition drain :: "relay_env \<Rightarrow> nat \<Rightarrow> relay_state \<Rightarrow> bool \<times> relay_state" where
  "drain e maxBytes s =
     (case on_spool relay_Pending s of (None, s) \<Rightarrow> (False, s)
      | (Some names, s) \<Rightarrow> drain_names e maxBytes names s)"

text \<open>
  \<open>outcome\<close> is what \<open>relay_Execute\<close> returned for a valid job, its error as text; \<open>now\<close> the clock when the entry
  is named.
\<close>

definition delivery_for :: "file_config \<Rightarrow> relay_job \<Rightarrow> time \<Rightarrow> time \<Rightarrow> string + observation \<Rightarrow> delivery" where
  "delivery_for c j started completed outcome =
     \<lparr>pd_Job = j, pd_RelayID = fc_RelayID c, pd_StartedAt = started, pd_CompletedAt = completed,
      pd_Observation = (case outcome of Inl _ \<Rightarrow> None | Inr obs \<Rightarrow> Some obs),
      pd_DiscoveryError = (case outcome of Inl err \<Rightarrow> relay_truncate err maxResultErrorBytes | Inr _ \<Rightarrow> []),
      pd_Published = False, pd_PublishAttempts = 0, pd_PublicationError = []\<rparr>"

definition runJob ::
  "relay_env \<Rightarrow> nat \<Rightarrow> file_config \<Rightarrow> nat \<Rightarrow> time \<Rightarrow> time \<Rightarrow> string + observation \<Rightarrow> relay_job \<Rightarrow> relay_state \<Rightarrow> relay_state"
  where
  "runJob e maxBytes c now started completed outcome j s =
     (let d = delivery_for c j started completed outcome
      in case on_spool (relay_Enqueue e maxBytes now d) s of
           (Some err, s) \<Rightarrow> snd (report (resultFor d (Some ''retain job result in encrypted spool'')) s)
         | (None, s) \<Rightarrow> snd (drain e maxBytes s))"

text \<open>
  One cycle: the answer to the poll is an error or at most one job (\<open>Client.Poll\<close> refuses more, and
  refuses an invalid one), with what its execution will return.
\<close>

record polled =
  po_job :: relay_job
  po_now :: nat
  po_started :: time
  po_completed :: time
  po_outcome :: "string + observation"

definition relay_cycle :: "relay_env \<Rightarrow> nat \<Rightarrow> file_config \<Rightarrow> polled list option \<Rightarrow> relay_state \<Rightarrow> relay_state" where
  "relay_cycle e maxBytes c answer s =
     (case drain e maxBytes s of (False, s) \<Rightarrow> s
      | (True, s) \<Rightarrow>
          let s = s\<lparr>ry_calls := ry_calls s @ [RPoll]\<rparr>
          in case answer of None \<Rightarrow> s
             | Some jobs \<Rightarrow>
                 if length jobs > maxJobsPerPoll \<or> \<not> list_all (\<lambda>p. validateJob (po_job p) = None) jobs then s
                 else fold (\<lambda>p s. runJob e maxBytes c (po_now p) (po_started p) (po_completed p) (po_outcome p) (po_job p) s) jobs s)"

end
