(* ===== verification/Spool_Demo.thy ===== *)
theory Spool_Demo
  imports Spool
begin

text \<open>
  A concrete cipher and codec that satisfy \<open>sealing_ok\<close>, for the witnesses: the tag is the length of
  the plaintext in 16 decimal digits, texts are written with an escape byte before each character.
\<close>

lemma length_dec: "n < 10 ^ k \<Longrightarrow> 0 < k \<Longrightarrow> length (dec n) \<le> k"
proof (induction n arbitrary: k rule: dec.induct)
  case (1 n)
  show ?case
  proof (cases "n < 10")
    case False
    then obtain j where k: "k = Suc j" "0 < j" using 1(2,3) by (cases k; cases "k - 1") auto
    have "n div 10 < 10 ^ j" using 1(2) k by (simp add: less_mult_imp_div_less mult.commute)
    with 1(1) False k show ?thesis by (subst dec.simps) simp
  qed (use 1 in \<open>subst dec.simps, simp\<close>)
qed

lemma read_nat_zeros: "read_nat (replicate m (CHR ''0'') @ s) = read_nat s"
  by (induction m) (simp_all add: read_nat_def)

lemma decz_inj: "decz k m = decz k n \<Longrightarrow> m = n"
  by (metis decz_def zpad_def read_nat_dec read_nat_zeros)

lemma length_decz: "n < 10 ^ k \<Longrightarrow> 0 < k \<Longrightarrow> length (decz k n) = k"
  using length_dec [of n k] by (simp add: decz_def zpad_def)

definition demo_seal :: "string \<Rightarrow> string \<Rightarrow> string" where
  "demo_seal nonce p = decz 16 (length p) @ p"

definition demo_open :: "string \<Rightarrow> string \<Rightarrow> string option" where
  "demo_open nonce c =
     (if 16 \<le> length c \<and> take 16 c = decz 16 (length c - 16) then Some (drop 16 c) else None)"

definition demo_sealing :: "('d \<Rightarrow> string) \<Rightarrow> (string \<Rightarrow> 'd option) \<Rightarrow> 'd sealing" where
  "demo_sealing m u = \<lparr>sl_marshal = m, sl_unmarshal = u, sl_seal = demo_seal, sl_open = demo_open\<rparr>"

lemma demo_sealing_ok:
  assumes "\<And>d. \<exists>d'. u (m d) = Some d' \<and> R d d'"
  shows "sealing_ok R (demo_sealing m u)"
proof -
  have "demo_open n (take k (demo_seal n p)) = None"
    if len: "length p \<le> gcm_limit" and k: "k < length (demo_seal n p)" for n p k
  proof -
    have h: "length (decz 16 (length p)) = 16"
      by (rule length_decz) (use len in \<open>simp_all add: gcm_limit_def\<close>)
    show ?thesis
    proof (rule ccontr)
      assume "demo_open n (take k (demo_seal n p)) \<noteq> None"
      then have "16 \<le> k" "decz 16 (length p) = decz 16 (k - 16)"
        using k h by (auto simp: demo_open_def demo_seal_def min_def split: if_splits)
      then have "length p = k - 16" by (blast dest: decz_inj)
      with k h \<open>16 \<le> k\<close> show False by (simp add: demo_seal_def)
    qed
  qed
  moreover have "demo_open n (demo_seal n p) = Some p \<and> length (demo_seal n p) = length p + 16"
    if "length p \<le> gcm_limit" for n p
    using length_decz [of "length p" 16] that by (simp add: demo_open_def demo_seal_def gcm_limit_def)
  ultimately show ?thesis
    using assms unfolding sealing_ok_def demo_sealing_def by simp
qed

fun put_text :: "string \<Rightarrow> string" where
  "put_text [] = [CHR 0x00]"
| "put_text (c # s) = CHR 0x01 # c # put_text s"

fun get_text :: "string \<Rightarrow> (string \<times> string) option" where
  "get_text (x # rest) =
     (if x = CHR 0x00 then Some ([], rest)
      else case rest of [] \<Rightarrow> None | c # r \<Rightarrow> map_option (map_prod ((#) c) id) (get_text r))"
| "get_text [] = None"

lemma get_put [simp]: "get_text (put_text s @ t) = Some (s, t)"
  by (induction s) auto

end
