(* ===== verification/Spool_Names.thy ===== *)
theory Spool_Names
  imports Spool_Demo
begin

text \<open>
  The names of spool entries: no two entries with different sequence numbers share a name, no entry is
  named like a temporary file, and no file operation changes the sequence number.
\<close>

section \<open>Names of entries\<close>

lemma decz_digits: "c \<in> set (decz k n) \<Longrightarrow> c \<noteq> CHR ''-'' \<and> c \<noteq> CHR ''.''"
  using set_dec [of c n] by (auto simp: decz_def zpad_def)

lemma decz_front: "takeWhile (\<lambda>c. c \<noteq> CHR ''-'') (decz w n @ CHR ''-'' # ys) = decz w n"
proof -
  have "takeWhile (\<lambda>c. c \<noteq> CHR ''-'') (decz w n @ CHR ''-'' # ys)
      = decz w n @ takeWhile (\<lambda>c. c \<noteq> CHR ''-'') (CHR ''-'' # ys)"
    by (rule takeWhile_append2) (rule conjunct1 [OF decz_digits])
  then show ?thesis by simp
qed

lemma entry_name_parts: assumes "entry_name a i x = entry_name b j x"
  shows "decz 20 a @ CHR ''-'' # decz 8 i @ x = decz 20 b @ CHR ''-'' # decz 8 j @ x"
    using assms unfolding entry_name_def append_Cons append_Nil .
lemma entry_name_front: assumes eq: "decz 20 a @ CHR ''-'' # decz 8 i @ x = decz 20 b @ CHR ''-'' # decz 8 j @ x"
  shows "decz 20 a = decz 20 b"
    using arg_cong [OF eq, of "takeWhile (\<lambda>c. c \<noteq> CHR ''-'')"] unfolding decz_front .
lemma entry_name_back: assumes eq: "decz 20 a @ CHR ''-'' # decz 8 i @ x = decz 20 b @ CHR ''-'' # decz 8 j @ x" and "decz 20 a = decz 20 b"
  shows "CHR ''-'' # decz 8 i @ x = CHR ''-'' # decz 8 j @ x"
    using eq unfolding assms(2) same_append_eq .
lemma entry_name_inner: "CHR ''-'' # decz 8 i @ x = CHR ''-'' # decz 8 j @ x \<Longrightarrow> i = j"
 using decz_inj by simp

lemma entry_name_seq: "entry_name a i x = entry_name b j x \<Longrightarrow> i = j"
  by (rule entry_name_inner) (rule entry_name_back [OF entry_name_parts entry_name_front [OF entry_name_parts]])

lemma decz_Cons: "\<exists>c cs. decz w n = c # cs \<and> c \<noteq> CHR ''.''"
proof (cases "decz w n")
  case Nil
  then have "dec n = []" unfolding decz_def zpad_def by (rule append_is_Nil_conv [THEN iffD1, THEN conjunct2])
  then show ?thesis using dec_nonempty by blast
next
  case (Cons c cs)
  then have "c \<in> set (decz w n)" by (rule ssubst) (rule list.set_intros(1))
  with Cons show ?thesis using decz_digits by blast
qed

section \<open>The sequence number\<close>

named_theorems seq_kept

lemma seq_next_io [seq_kept]: "next_io s = (x, s') \<Longrightarrow> sp_seq s' = sp_seq s"
  by (cases "sp_io s") (auto simp: next_io_def)

lemma seq_next_nonce [seq_kept]: "next_nonce s = (x, s') \<Longrightarrow> sp_seq s' = sp_seq s"
  by (cases "sp_nonces s") (auto simp: next_nonce_def)

lemma seq_ReadDir [seq_kept]: "ReadDir s = (x, s') \<Longrightarrow> sp_seq s' = sp_seq s"
  using seq_next_io [of s] by (cases "next_io s") (auto simp: ReadDir_def split: io.splits)

lemma seq_ReadFile [seq_kept]: "ReadFile n s = (x, s') \<Longrightarrow> sp_seq s' = sp_seq s"
  using seq_next_io [of s] by (cases "next_io s") (auto simp: ReadFile_def split: io.splits)

lemma seq_RemoveFile [seq_kept]: "RemoveFile n s = (x, s') \<Longrightarrow> sp_seq s' = sp_seq s"
  using seq_next_io [of s] by (cases "next_io s") (auto simp: RemoveFile_def split: io.splits)

lemma seq_WriteFile [seq_kept]: "WriteFile n c s = (x, s') \<Longrightarrow> sp_seq s' = sp_seq s"
  using seq_next_io [of s] by (cases "next_io s") (auto simp: WriteFile_def split: io.splits)

lemma seq_Rename [seq_kept]: "Rename n m s = (x, s') \<Longrightarrow> sp_seq s' = sp_seq s"
  using seq_next_io [of s] by (cases "next_io s") (auto simp: Rename_def split: io.splits option.splits)

lemma seq_commit [seq_kept]: assumes "commit_entry tmp n c s = (x, s')" shows "sp_seq s' = sp_seq s"
proof -
  obtain b s1 where w: "WriteFile (tmp @ n) c s = (b, s1)" by fastforce
  obtain b2 s2 where r: "Rename (tmp @ n) n s1 = (b2, s2)" by fastforce
  obtain b3 s3 where rm: "RemoveFile (tmp @ n) s2 = (b3, s3)" by fastforce
  from assms have "s' = s1 \<or> s' = s2 \<or> s' = s3"
    by (cases b; cases b2) (simp_all add: commit_entry_def w r rm)
  then show ?thesis using seq_WriteFile [OF w] seq_Rename [OF r] seq_RemoveFile [OF rm] by auto
qed

section \<open>Entry names as files\<close>

lemma entry_name_first: "\<exists>c cs. entry_name now i x = c # cs \<and> c \<noteq> CHR ''.''"
proof -
  obtain c cs where "decz 20 now = c # cs" "c \<noteq> CHR ''.''" using decz_Cons by blast
  then show ?thesis unfolding entry_name_def by simp
qed

lemma entry_name_suffix: "has_suffix (entry_name now i x) x"
  using has_suffix_append [of "decz 20 now @ ''-'' @ decz 8 i" x] unfolding entry_name_def by simp

lemma decz_slash: "CHR ''/'' \<notin> set (decz k n) \<and> CHR 0x5C \<notin> set (decz k n)"
  using set_dec [of "CHR ''/''" n] set_dec [of "CHR 0x5C" n] by (auto simp: decz_def zpad_def)

lemma entry_name_path:
  assumes "CHR ''/'' \<notin> set x" "CHR 0x5C \<notin> set x"
  shows "entryPath_ok x (entry_name now i x)"
  using assms decz_slash entry_name_suffix unfolding entryPath_ok_def by (simp add: entry_name_def)

end
