(* ===== verification/Relay_Properties.thy ===== *)
theory Relay_Properties
  imports Relay Json_Codec Spool_Names
begin

text \<open>
  What the relay guarantees about the results it reports: a reported success was published before
  (\<open>relay_success_truthful\<close>), a result is not dropped (\<open>relay_result_not_lost\<close>); and what a
  half-written spool file does to it (\<open>relay_partial_write_stalls\<close>).
\<close>

section \<open>What a delivery claims\<close>

text \<open>JSON keeps identifiers up to the replacement of invalid UTF-8.\<close>

definition same_obs :: "observation \<Rightarrow> observation \<Rightarrow> bool" where
  "same_obs x y \<longleftrightarrow> utf8_fix (ob_ObservationID x) = utf8_fix (ob_ObservationID y)"

definition same_delivery :: "delivery \<Rightarrow> delivery \<Rightarrow> bool" where
  "same_delivery d d' \<longleftrightarrow> pd_Published d' = pd_Published d
     \<and> utf8_fix (rj_JobID (pd_Job d')) = utf8_fix (rj_JobID (pd_Job d))
     \<and> rel_option same_obs (pd_Observation d) (pd_Observation d')"

definition good :: "relay_call set \<Rightarrow> delivery \<Rightarrow> bool" where
  "good calls d \<longleftrightarrow> (pd_Published d \<longrightarrow>
     (\<exists>obs x. pd_Observation d = Some x \<and> RPublish obs Accepted \<in> calls \<and> same_obs obs x))"

lemma good_mono: "good A d \<Longrightarrow> A \<subseteq> B \<Longrightarrow> good B d"
  unfolding good_def by blast

lemma good_same: "same_delivery d d' \<Longrightarrow> good calls d \<Longrightarrow> good calls d'"
  by (auto simp: same_delivery_def good_def option_rel_Some1 same_obs_def) metis

definition backed :: "relay_call set \<Rightarrow> relay_call \<Rightarrow> bool" where
  "backed calls x \<longleftrightarrow> (\<forall>r ok. x = RReport r ok \<longrightarrow> rl_Success r \<longrightarrow> rl_Error r = []
     \<and> (\<exists>obs. RPublish obs Accepted \<in> calls \<and> utf8_fix (ob_ObservationID obs) = utf8_fix (rl_ObservationID r)))"

definition truthful_log :: "relay_call list \<Rightarrow> bool" where
  "truthful_log calls \<longleftrightarrow> (\<forall>i < length calls. backed (set (take i calls)) (calls ! i))"

lemma truthful_log_snoc: "truthful_log (calls @ [x]) \<longleftrightarrow> truthful_log calls \<and> backed (set calls) x"
  unfolding truthful_log_def by (auto simp: less_Suc_eq nth_append)

lemma backed_other [simp]: "backed calls (RPublish obs a)" "backed calls RPoll"
  by (simp_all add: backed_def)

lemma backed_result:
  "good calls d \<Longrightarrow> backed calls (RReport (resultFor d override) ok)"
  by (auto simp: backed_def resultFor_def good_def same_obs_def)

definition truthful :: "relay_env \<Rightarrow> relay_state \<Rightarrow> bool" where
  "truthful e s \<longleftrightarrow> contents e (good (set (ry_calls s))) (ry_spool s) \<and> truthful_log (ry_calls s)"

lemma on_spool_calls: "on_spool f s = (x, s') \<Longrightarrow> ry_calls s' = ry_calls s \<and> f (ry_spool s) = (x, ry_spool s')
    \<and> ry_publish s' = ry_publish s \<and> ry_report s' = ry_report s"
  by (auto simp: on_spool_def split: prod.splits)

lemma truthful_spool:
  assumes "truthful e s" "on_spool f s = (x, s')"
    and "\<And>Q. contents e Q (ry_spool s) \<Longrightarrow> f (ry_spool s) = (x, ry_spool s') \<Longrightarrow> contents e Q (ry_spool s')"
  shows "truthful e s'"
  using assms on_spool_calls [OF assms(2)] unfolding truthful_def by metis

lemma truthful_log_call:
  assumes "truthful e s" "ry_spool s' = ry_spool s" "ry_calls s' = ry_calls s @ [x]" "backed (set (ry_calls s)) x"
  shows "truthful e s'"
  using assms contents_mono [of e "good (set (ry_calls s))" "ry_spool s" "good (set (ry_calls s'))"]
  unfolding truthful_def by (auto simp: truthful_log_snoc intro: good_mono)

lemma report_truthful:
  assumes "truthful e s" "good (set (ry_calls s)) d" "report (resultFor d override) s = (ok, s')"
  shows "truthful e s' \<and> set (ry_calls s) \<subseteq> set (ry_calls s')"
  using assms(3) truthful_log_call [OF assms(1), of s' "RReport (resultFor d override) ok"] backed_result [OF assms(2)]
  by (auto simp: report_def Let_def)

lemma replace_contents:
  assumes "sealing_ok same_delivery e" "contents e Q s" "\<And>d'. same_delivery d d' \<Longrightarrow> Q d'"
    and "relay_Replace e maxBytes name d s = (r, s')"
  shows "contents e Q s'"
proof (cases "entryPath_ok relaySpoolSuffix name")
  case True
  obtain x s1 where f: "ReadFile name s = (x, s1)" by fastforce
  have c: "contents e Q s1" using contents_files [OF assms(2), of s1] ReadFile_files [OF f] by simp
  show ?thesis
    using assms(4) True f c relay_write_contents [OF assms(1) c assms(3)]
    by (auto simp: relay_Replace_def split: option.splits)
qed (use assms(2,4) in \<open>simp add: relay_Replace_def\<close>)

section \<open>A reported success was published\<close>

lemma publish_batch_truthful:
  assumes "truthful e s" "publish_batch obs s = (a, s')"
  shows "truthful e s' \<and> set (ry_calls s') = insert (RPublish obs a) (set (ry_calls s))
    \<and> ry_spool s' = ry_spool s"
  using assms(2) truthful_log_call [OF assms(1), of s' "RPublish obs a"]
  by (auto simp: publish_batch_def Let_def)

lemma after_publish_good:
  "pd_Observation d = Some obs \<Longrightarrow> \<not> pd_Published d \<Longrightarrow> RPublish obs a \<in> calls \<Longrightarrow> good calls (after_publish d a)"
  by (cases a) (auto simp: after_publish_def good_def same_obs_def Let_def)

lemma publish_step_truthful:
  assumes "sealing_ok same_delivery e" "truthful e s" "good (set (ry_calls s)) d"
    and "publish_step e maxBytes name d s = (x, s')"
  shows "truthful e s' \<and> set (ry_calls s) \<subseteq> set (ry_calls s') \<and> (\<forall>d'. x = Some d' \<longrightarrow> good (set (ry_calls s')) d')"
proof (cases "pd_Observation d = None \<or> pd_Published d \<or> pd_PublicationError d \<noteq> []")
  case True
  then show ?thesis using assms(2-4) by (auto simp: publish_step_def split: option.splits)
next
  case False
  then obtain obs where obs: "pd_Observation d = Some obs" "\<not> pd_Published d" "pd_PublicationError d = []" by auto
  obtain a s1 where pub: "publish_batch obs s = (a, s1)" by fastforce
  note p = publish_batch_truthful [OF assms(2) pub]
  obtain r s2 where rep: "on_spool (relay_Replace e maxBytes name (after_publish d a)) s1 = (r, s2)" by fastforce
  note o = on_spool_calls [OF rep]
  have g: "good (set (ry_calls s1)) (after_publish d a)"
    using after_publish_good [OF obs(1,2)] p by simp
  have "contents e (good (set (ry_calls s1))) (ry_spool s2)"
    using replace_contents [OF assms(1), of "good (set (ry_calls s1))" "ry_spool s1"] o p g good_same
    unfolding truthful_def by blast
  then have "truthful e s2" using p o unfolding truthful_def by metis
  then show ?thesis
    using assms(4) obs pub rep p o g
    by (auto simp: publish_step_def Let_def split: option.splits if_splits)
qed

lemma drain_names_truthful:
  assumes "sealing_ok same_delivery e"
  shows "truthful e s \<Longrightarrow> drain_names e maxBytes names s = (b, s') \<Longrightarrow>
    truthful e s' \<and> set (ry_calls s) \<subseteq> set (ry_calls s')"
proof (induction names arbitrary: s)
  case (Cons name names)
  obtain x s1 where rd: "on_spool (relay_Read e name) s = (x, s1)" by fastforce
  note o1 = on_spool_calls [OF rd]
  have t1: "truthful e s1" using truthful_spool [OF Cons.prems(1) rd] rq.read_contents by blast
  show ?case
  proof (cases x)
    case (Inl err)
    then show ?thesis using Cons.prems(2) rd t1 o1 by simp
  next
    case (Inr d)
    have g1: "good (set (ry_calls s1)) d"
      using rq.read_good [of e "good (set (ry_calls s))" "ry_spool s" name d "ry_spool s1"] Cons.prems(1) o1 Inr
      unfolding truthful_def by simp
    obtain y s2 where ps: "publish_step e maxBytes name d s1 = (y, s2)" by fastforce
    note t2 = publish_step_truthful [OF assms t1 g1 ps]
    show ?thesis
    proof (cases y)
      case None
      then show ?thesis using Cons.prems(2) rd Inr ps t2 o1 by simp
    next
      case (Some d2)
      obtain ok s3 where rp: "report (resultFor d2 None) s2 = (ok, s3)" by fastforce
      have t3: "truthful e s3 \<and> set (ry_calls s2) \<subseteq> set (ry_calls s3)"
        using report_truthful [OF _ _ rp] t2 Some by blast
      obtain z s4 where rm: "on_spool (relay_Remove name) s3 = (z, s4)" by fastforce
      have t4: "truthful e s4" using truthful_spool [OF conjunct1 [OF t3] rm] rq.remove_contents by blast
      note o4 = on_spool_calls [OF rm]
      show ?thesis
      proof (cases "ok \<and> z = None")
        case True
        then have "drain_names e maxBytes names s4 = (b, s')"
          using Cons.prems(2) rd Inr ps Some rp rm by simp
        from Cons.IH [OF t4 this] show ?thesis using t2 t3 o1 o4 by auto
      next
        case False
        then show ?thesis
          using Cons.prems(2) rd Inr ps Some rp rm t2 t3 t4 o1 o4 by (auto split: bool.splits)
      qed
    qed
  qed
qed simp

lemma drain_truthful:
  assumes "sealing_ok same_delivery e" "truthful e s" "drain e maxBytes s = (b, s')"
  shows "truthful e s' \<and> set (ry_calls s) \<subseteq> set (ry_calls s')"
proof -
  obtain x s1 where p: "on_spool relay_Pending s = (x, s1)" by fastforce
  have t1: "truthful e s1" using truthful_spool [OF assms(2) p] rq.pending_contents by blast
  note o = on_spool_calls [OF p]
  show ?thesis
  proof (cases x)
    case None
    then show ?thesis using assms(3) p t1 o by (simp add: drain_def)
  next
    case (Some names)
    then have "drain_names e maxBytes names s1 = (b, s')" using assms(3) p by (simp add: drain_def)
    from drain_names_truthful [OF assms(1) t1 this] show ?thesis using o by simp
  qed
qed

lemma delivery_for_good [simp]: "good calls (delivery_for c j t u outcome)"
  by (simp add: good_def delivery_for_def)

lemma enqueue_contents:
  assumes "sealing_ok same_delivery e" "contents e Q s" "\<And>d'. same_delivery d d' \<Longrightarrow> Q d'"
    and "relay_Enqueue e maxBytes now d s = (r, s')"
  shows "contents e Q s'"
proof -
  let ?s = "s\<lparr>sp_seq := sp_seq s + 1\<rparr>"
  have c: "contents e Q ?s" using contents_files [OF assms(2), of ?s] by simp
  have "relay_writeLocked e maxBytes (entry_name now (sp_seq ?s) relaySpoolSuffix) d 0 ?s = (r, s')"
    using assms(4) by (simp only: relay_Enqueue_def Let_def)
  from relay_write_contents [where Q = Q, OF assms(1) c _ this] show ?thesis using assms(3) by blast
qed

lemma runJob_truthful:
  assumes "sealing_ok same_delivery e" "truthful e s"
  shows "truthful e (runJob e maxBytes c now t u outcome j s)"
proof -
  let ?d = "delivery_for c j t u outcome"
  obtain r s1 where en: "on_spool (relay_Enqueue e maxBytes now ?d) s = (r, s1)" by fastforce
  note o = on_spool_calls [OF en]
  have "contents e (good (set (ry_calls s))) (ry_spool s1)"
    using enqueue_contents [OF assms(1), of "good (set (ry_calls s))" "ry_spool s"] assms(2) o good_same delivery_for_good
    unfolding truthful_def by blast
  then have t1: "truthful e s1" using assms(2) o unfolding truthful_def by simp
  show ?thesis
  proof (cases r)
    case None
    then show ?thesis
      using en drain_truthful [OF assms(1) t1] by (simp add: runJob_def) (metis prod.collapse)
  next
    case (Some err)
    then show ?thesis
      using en report_truthful [OF t1 delivery_for_good] by (simp add: runJob_def) (metis prod.collapse)
  qed
qed

lemma cycle_truthful:
  assumes "sealing_ok same_delivery e" "truthful e s"
  shows "truthful e (relay_cycle e maxBytes c answer s)"
proof -
  obtain b s1 where d: "drain e maxBytes s = (b, s1)" by fastforce
  have t1: "truthful e s1" using drain_truthful [OF assms d] by blast
  let ?s2 = "s1\<lparr>ry_calls := ry_calls s1 @ [RPoll]\<rparr>"
  have t2: "truthful e ?s2" using truthful_log_call [OF t1, of ?s2 RPoll] by simp
  have "truthful e (fold (\<lambda>p s. runJob e maxBytes c (po_now p) (po_started p) (po_completed p) (po_outcome p) (po_job p) s) jobs ?s2)"
    for jobs
    using t2 by (induction jobs rule: rev_induct) (simp_all add: runJob_truthful [OF assms(1)])
  then show ?thesis
    using d t1 t2 by (auto simp: relay_cycle_def Let_def split: bool.splits option.splits)
qed

definition start_relay :: "io list \<Rightarrow> string list \<Rightarrow> publish_answer list \<Rightarrow> bool list \<Rightarrow> relay_state" where
  "start_relay ios nonces pubs reps =
     \<lparr>ry_spool = \<lparr>sp_files = [], sp_seq = 0, sp_io = ios, sp_nonces = nonces\<rparr>,
      ry_publish = pubs, ry_report = reps, ry_calls = []\<rparr>"

lemma relay_reports_backed:
  assumes "sealing_ok same_delivery e" "\<forall>n \<in> set nonces. length n = nonceSize"
    and "s = fold (relay_cycle e maxBytes c) answers (start_relay ios nonces pubs reps)"
    and "i < length (ry_calls s)" "ry_calls s ! i = RReport r ok" "rl_Success r"
  shows "rl_Error r = [] \<and> (\<exists>obs. RPublish obs Accepted \<in> set (take i (ry_calls s))
    \<and> utf8_fix (ob_ObservationID obs) = utf8_fix (rl_ObservationID r))"
proof -
  have "truthful e (start_relay ios nonces pubs reps)"
    using assms(2) by (simp add: truthful_def start_relay_def contents_def truthful_log_def)
  then have "truthful e s"
    unfolding assms(3) by (induction answers rule: rev_induct) (simp_all add: cycle_truthful [OF assms(1)])
  then show ?thesis
    using assms(4-6) unfolding truthful_def truthful_log_def backed_def by blast
qed

text \<open>
  However the control plane, the publisher and the file system behave, over any number of cycles,
  whenever the relay reports a job as successful it carries no error, and the observation it names
  was accepted by the publisher earlier, also when the report is a retry from the spool.
\<close>
theorem relay_success_truthful:
  assumes "sealing_ok same_delivery e" "\<forall>n \<in> set nonces. length n = nonceSize"
    and "s = fold (relay_cycle e maxBytes c) answers (start_relay ios nonces pubs reps)"
    and "i < length (ry_calls s)" "ry_calls s ! i = RReport r ok" "rl_Success r"
  shows "rl_Error r = [] \<and> (\<exists>obs. RPublish obs Accepted \<in> set (take i (ry_calls s))
    \<and> utf8_fix (ob_ObservationID obs) = utf8_fix (rl_ObservationID r))"
  by (rule relay_reports_backed [OF assms])

text \<open>A codec that keeps what \<open>same_delivery\<close> names.\<close>

abbreviation demo_job :: "string \<Rightarrow> relay_job" where
  "demo_job jid \<equiv> \<lparr>rj_JobID = jid, rj_Type = ''discover'', rj_ProfileID = ''p'', rj_RequestedAt = 0\<rparr>"

definition demo_marshal :: "delivery \<Rightarrow> string" where
  "demo_marshal d = (if pd_Published d then CHR 0x01 else CHR 0x00) # put_text (rj_JobID (pd_Job d))
     @ (case pd_Observation d of None \<Rightarrow> [CHR 0x00] | Some obs \<Rightarrow> CHR 0x01 # put_text (ob_ObservationID obs))"

definition demo_unmarshal :: "string \<Rightarrow> delivery option" where
  "demo_unmarshal s =
     (case get_text (tl s) of None \<Rightarrow> None
      | Some (jid, rest) \<Rightarrow>
          Some \<lparr>pd_Job = demo_job jid, pd_RelayID = [], pd_StartedAt = 0, pd_CompletedAt = 0,
            pd_Observation = (if hd rest = CHR 0x00 then None
              else map_option (\<lambda>(oid, _). sample_observation\<lparr>ob_ObservationID := oid\<rparr>) (get_text (tl rest))),
            pd_DiscoveryError = [], pd_Published = (hd s = CHR 0x01), pd_PublishAttempts = 0,
            pd_PublicationError = []\<rparr>)"

lemma get_put_end [simp]: "get_text (put_text s) = Some (s, [])"
  using get_put [of s "[]"] by simp

lemma demo_codec: "\<exists>d'. demo_unmarshal (demo_marshal d) = Some d' \<and> same_delivery d d'"
  by (auto simp: demo_unmarshal_def demo_marshal_def same_delivery_def same_obs_def split: option.splits)

abbreviation demo_env :: relay_env where
  "demo_env \<equiv> demo_sealing demo_marshal demo_unmarshal"

lemma demo_env_ok: "sealing_ok same_delivery demo_env"
  by (rule demo_sealing_ok) (rule demo_codec)

abbreviation demo_config :: file_config where
  "demo_config \<equiv> \<lparr>fc_SchemaVersion = ''v1alpha1'', fc_RelayID = ''r'', fc_SiteID = ''s'', fc_Profiles = []\<rparr>"

abbreviation demo_nonce :: string where "demo_nonce \<equiv> replicate 12 (CHR 0x00)"

abbreviation demo_obs :: observation where "demo_obs \<equiv> sample_observation\<lparr>ob_ObservationID := ''o''\<rparr>"

abbreviation demo_polled :: polled where
  "demo_polled \<equiv> \<lparr>po_job = demo_job ''j'', po_now = 1, po_started = 0, po_completed = 0, po_outcome = Inr demo_obs\<rparr>"

abbreviation demo_relay :: relay_state where
  "demo_relay \<equiv> fold (relay_cycle demo_env 1000 demo_config) [Some [demo_polled]]
     (start_relay [] [demo_nonce, demo_nonce] [Accepted] [True])"

lemma demo_name: "has_suffix (entry_name (Suc 0) (Suc 0) relaySpoolSuffix) relaySpoolSuffix"
  "entryPath_ok relaySpoolSuffix (entry_name (Suc 0) (Suc 0) relaySpoolSuffix)"
  by (simp_all add: entry_name_def entryPath_ok_def decz_def zpad_def dec_step digit_char_def relaySpoolSuffix_def
      has_suffix_def numeral_eq_Suc)

lemma write_works:
  assumes "sp_io s = []" "sp_nonces s = n # ns" "length (sl_marshal e d) \<le> maxRelayEntryBytes"
    and "int (total_bytes (sp_files s)) - int replaced + int (length (ciphertext e n d)) \<le> int maxBytes"
    and "sp_files s = [] \<or> (\<exists>c. sp_files s = [(name, c)])"
  shows "relay_writeLocked e maxBytes name d replaced s
    = (None, s\<lparr>sp_nonces := ns, sp_files := [(name, ciphertext e n d)]\<rparr>)"
  using assms by (auto simp: relay_writeLocked_def next_nonce_def ReadDir_def next_io_def commit_entry_def
      WriteFile_def Rename_def relaySpoolTmp_def)

abbreviation demo_entry :: "delivery \<Rightarrow> spool" where
  "demo_entry d \<equiv> \<lparr>sp_files = [(entry_name (Suc 0) (Suc 0) relaySpoolSuffix, ciphertext demo_env demo_nonce d)], sp_seq = 1,
     sp_io = [], sp_nonces = []\<rparr>"

abbreviation demo_first :: delivery where
  "demo_first \<equiv> delivery_for demo_config (demo_job ''j'') 0 0 (Inr demo_obs)"

abbreviation demo_read :: delivery where
  "demo_read \<equiv> \<lparr>pd_Job = demo_job ''j'', pd_RelayID = [], pd_StartedAt = 0, pd_CompletedAt = 0,
     pd_Observation = Some demo_obs, pd_DiscoveryError = [], pd_Published = False, pd_PublishAttempts = 0,
     pd_PublicationError = []\<rparr>"

lemma demo_lengths: "pd_Job d = demo_job ''j'' \<Longrightarrow> pd_Observation d = Some demo_obs \<Longrightarrow>
    length (sl_marshal demo_env d) = 8 \<and> length (ciphertext demo_env n d) = length n + 24"
  by (simp add: demo_sealing_def ciphertext_def demo_seal_def demo_marshal_def length_decz)

lemma demo_decode: "decode_entry demo_env maxRelayFileBytes (ciphertext demo_env demo_nonce demo_first) = Inr demo_read"
  by (simp add: decode_entry_def ciphertext_def demo_sealing_def demo_seal_def demo_open_def demo_marshal_def demo_unmarshal_def
   maxRelayFileBytes_def maxRelayEntryBytes_def nonceSize_def length_decz delivery_for_def; rule arg_cong [of _ _ "decz 16"]; simp)

lemma demo_drain:
  "drain demo_env 1000 \<lparr>ry_spool = (demo_entry demo_first)\<lparr>sp_nonces := [demo_nonce]\<rparr>, ry_publish = [Accepted], ry_report = [True], ry_calls = [RPoll]\<rparr>
   = (True, \<lparr>ry_spool = (demo_entry demo_first)\<lparr>sp_files := []\<rparr>, ry_publish = [], ry_report = [],
        ry_calls = [RPoll, RPublish demo_obs Accepted, RReport (resultFor (demo_read\<lparr>pd_Published := True, pd_PublishAttempts := 1\<rparr>) None) True]\<rparr>)"
  by (simp add: drain_def on_spool_def relay_Pending_def ReadDir_def next_io_def demo_name relay_Read_def ReadFile_def demo_decode [simplified]
   publish_step_def publish_batch_def after_publish_def relay_Replace_def write_works demo_lengths maxRelayEntryBytes_def total_bytes_def report_def relay_Remove_def RemoveFile_def Let_def)

lemma demo_cycle:
  "relay_cycle demo_env 1000 demo_config (Some [demo_polled]) (start_relay [] [demo_nonce, demo_nonce] [Accepted] [True])
   = snd (drain demo_env 1000 \<lparr>ry_spool = (demo_entry demo_first)\<lparr>sp_nonces := [demo_nonce]\<rparr>,
       ry_publish = [Accepted], ry_report = [True], ry_calls = [RPoll]\<rparr>)"
  by (simp add: start_relay_def relay_cycle_def [of _ _ _ _ "\<lparr>ry_spool = _, ry_publish = _, ry_report = _, ry_calls = _\<rparr>"] drain_def [of _ _ "\<lparr>ry_spool = \<lparr>sp_files = [], sp_seq = _, sp_io = _, sp_nonces = _\<rparr>, ry_publish = _, ry_report = _, ry_calls = _\<rparr>"] on_spool_def relay_Pending_def ReadDir_def next_io_def
    maxJobsPerPoll_def validateJob_def RelayJobTypeDiscover_def runJob_def relay_Enqueue_def Let_def write_works demo_lengths maxRelayEntryBytes_def total_bytes_def
   delivery_for_def)

theorem relay_success_truthful_witness:
  "rl_Success (resultFor (demo_read\<lparr>pd_Published := True, pd_PublishAttempts := 1\<rparr>) None)
   \<and> rl_Error (resultFor (demo_read\<lparr>pd_Published := True, pd_PublishAttempts := 1\<rparr>) None) = []"
proof -
  let ?s = "fold (relay_cycle demo_env 1000 demo_config) [Some [demo_polled]] (start_relay [] [demo_nonce, demo_nonce] [Accepted] [True])"
  let ?r = "resultFor (demo_read\<lparr>pd_Published := True, pd_PublishAttempts := 1\<rparr>) None"
  have calls: "ry_calls ?s = [RPoll, RPublish demo_obs Accepted, RReport ?r True]"
    by (simp only: fold_simps demo_cycle demo_drain) simp
  have succ: "rl_Success ?r" by (simp add: resultFor_def)
  have "rl_Error ?r = []"
    by (rule conjunct1 [OF relay_success_truthful [OF demo_env_ok _ refl, of "[demo_nonce, demo_nonce]" 2 1000 demo_config "[Some [demo_polled]]" "[]" "[Accepted]" "[True]" ?r True]])
      (simp_all only: calls succ, simp_all add: nonceSize_def)
  with succ show ?thesis by blast
qed

section \<open>A half-written entry\<close>

text \<open>The first file listed as pending never decodes.\<close>

definition stuck :: "relay_env \<Rightarrow> spool \<Rightarrow> bool" where
  "stuck e s \<longleftrightarrow> (\<exists>n c. map_of (sp_files s) n = Some c \<and> has_suffix n relaySpoolSuffix
     \<and> (\<forall>m. map_of (sp_files s) m \<noteq> None \<longrightarrow> has_suffix m relaySpoolSuffix \<longrightarrow> n \<le> m)
     \<and> (\<forall>m d. decode_entry e m c \<noteq> Inr d))"

lemma stuck_files: "sp_files s' = sp_files s \<Longrightarrow> stuck e s' = stuck e s"
  by (simp add: stuck_def)

lemma stuck_drain:
  assumes "stuck e (ry_spool s)" "drain e maxBytes s = (b, s')"
  shows "\<not> b \<and> stuck e (ry_spool s') \<and> ry_calls s' = ry_calls s"
proof -
  obtain n c where entry: "map_of (sp_files (ry_spool s)) n = Some c" "has_suffix n relaySpoolSuffix"
      and least: "\<And>m. map_of (sp_files (ry_spool s)) m \<noteq> None \<Longrightarrow> has_suffix m relaySpoolSuffix \<Longrightarrow> n \<le> m"
      and bad: "\<And>m d. decode_entry e m c \<noteq> Inr d"
    using assms(1) unfolding stuck_def by blast
  obtain x s1 where p: "on_spool relay_Pending s = (x, s1)" by fastforce
  note o = on_spool_calls [OF p]
  have same: "sp_files (ry_spool s1) = sp_files (ry_spool s)" using rq.pending_files o by metis
  have kept: "stuck e (ry_spool s1)" using stuck_files [OF same] assms(1) by simp
  show ?thesis
  proof (cases x)
    case None
    then show ?thesis using assms(2) p o kept unfolding drain_def by auto
  next
    case (Some names)
    then have pd: "relay_Pending (ry_spool s) = (Some names, ry_spool s1)" using o by simp
    have "n \<in> set names" using rq.pending_set [OF pd] entry by simp
    then obtain m rest where names: "names = m # rest" by (cases names) auto
    have "sorted names" using rq.pending_names [OF pd] by simp
    then have "m \<le> n" using \<open>n \<in> set names\<close> names by auto
    moreover have "m \<in> {n. has_suffix n relaySpoolSuffix \<and> map_of (sp_files (ry_spool s)) n \<noteq> None}"
      unfolding rq.pending_set [OF pd, symmetric] names by simp
    then have "n \<le> m" using least by blast
    ultimately have m: "m = n" by (rule antisym)
    obtain y s2 where rd: "on_spool (relay_Read e n) s1 = (y, s2)" by fastforce
    note o2 = on_spool_calls [OF rd]
    have "\<nexists>d. y = Inr d"
    proof
      assume "\<exists>d. y = Inr d"
      then obtain d where "relay_Read e n (ry_spool s1) = (Inr d, ry_spool s2)" using o2 by auto
      then show False using rq.read_value same entry(1) bad by fastforce
    qed
    then obtain err where y: "y = Inl err" by (cases y) auto
    have "sp_files (ry_spool s2) = sp_files (ry_spool s1)" using rq.read_files o2 by metis
    then have "stuck e (ry_spool s2)" using stuck_files kept by blast
    then show ?thesis using assms(2) p Some names m rd y o o2 unfolding drain_def by auto
  qed
qed

lemma stuck_cycles:
  "stuck e (ry_spool s) \<Longrightarrow> ry_calls (fold (relay_cycle e maxBytes c) answers s) = ry_calls s"
proof (induction answers arbitrary: s)
  case (Cons a answers)
  obtain b s1 where d: "drain e maxBytes s = (b, s1)" by fastforce
  have "relay_cycle e maxBytes c a s = s1 \<and> stuck e (ry_spool s1) \<and> ry_calls s1 = ry_calls s"
    using stuck_drain [OF Cons.prems d] d by (auto simp: relay_cycle_def)
  then show ?case using Cons.IH [of s1] by simp
qed simp

text \<open>A beginning of an entry is too short for a nonce, or fails authentication.\<close>

lemma cut_undecodable:
  assumes "sealing_ok R e" "length nonce = nonceSize" "length (sl_marshal e d) \<le> gcm_limit" "n < length (ciphertext e nonce d)"
  shows "decode_entry e m (take n (ciphertext e nonce d)) \<noteq> Inr d'"
proof
  let ?box = "sl_seal e nonce (sl_marshal e d)"
  assume dec: "decode_entry e m (take n (ciphertext e nonce d)) = Inr d'"
  then have long: "nonceSize \<le> length (take n (ciphertext e nonce d))" by (auto simp: decode_entry_def split: if_splits)
  then have n: "nonceSize \<le> n" by simp
  have parts: "take nonceSize (take n (ciphertext e nonce d)) = nonce"
      "drop nonceSize (take n (ciphertext e nonce d)) = take (n - nonceSize) ?box"
    using assms(2) n by (simp_all add: ciphertext_def min_def)
  have "n - nonceSize < length ?box" using assms(2,4) n by (simp add: ciphertext_def)
  then have "sl_open e nonce (take (n - nonceSize) ?box) = None" by (rule sealD(3) [OF assms(1,3)])
  then show False using dec long unfolding decode_entry_def parts by (simp split: if_splits)
qed

lemma tmp_before_entries: "relaySpoolTmp @ x < entry_name now k relaySpoolSuffix"
proof -
  obtain c cs where c: "decz 20 now = c # cs" using decz_Cons by blast
  then have "c \<in> set (decz 20 now)" by simp
  then have "is_digit c" using set_dec [of c now] by (auto simp: decz_def zpad_def is_digit_def)
  then have "CHR ''.'' < c" by (auto simp: is_digit_def less_char_def)
  then show ?thesis unfolding entry_name_def c relaySpoolTmp_def by simp
qed

lemma half_written:
  assumes "length (sl_marshal e d) \<le> maxRelayEntryBytes" "total_bytes (sp_files s) + length (ciphertext e nonce d) \<le> maxBytes"
    and "sp_io s = Works # FailsAfter n # ios" "sp_nonces s = nonce # ns"
  shows "\<exists>s'. relay_Enqueue e maxBytes now d s = (Some WriteError, s') \<and> sp_files s' =
    AList.update (relaySpoolTmp @ entry_name now (Suc (sp_seq s)) relaySpoolSuffix) (take n (ciphertext e nonce d)) (sp_files s)"
proof -
  have "int (total_bytes (sp_files s)) + int (length (ciphertext e nonce d)) \<le> int maxBytes" using assms(2) by linarith
  then show ?thesis
    using assms(1,3,4) by (simp add: relay_Enqueue_def relay_writeLocked_def next_nonce_def ReadDir_def next_io_def
      commit_entry_def WriteFile_def Let_def)
qed

lemma half_written_stuck:
  assumes "sp_files s' = AList.update (relaySpoolTmp @ entry_name now k relaySpoolSuffix) c (sp_files s)"
    and "\<And>m. map_of (sp_files s) m \<noteq> None \<Longrightarrow> has_suffix m relaySpoolSuffix \<Longrightarrow> \<exists>t i. m = entry_name t i relaySpoolSuffix"
    and "\<And>m d. decode_entry e m c \<noteq> Inr d"
  shows "stuck e s'"
proof -
  let ?n = "relaySpoolTmp @ entry_name now k relaySpoolSuffix"
  have "has_suffix ?n relaySpoolSuffix"
    using has_suffix_append [of "relaySpoolTmp @ decz 20 now @ ''-'' @ decz 8 k" relaySpoolSuffix] by (simp add: entry_name_def)
  moreover have "?n \<le> m" if m: "map_of (sp_files s') m \<noteq> None" "has_suffix m relaySpoolSuffix" for m
  proof (cases "m = ?n")
    case False
    then have "map_of (sp_files s) m \<noteq> None" using m(1) assms(1) by (simp add: update_conv')
    then obtain t i where "m = entry_name t i relaySpoolSuffix" using assms(2) m(2) by blast
    then show ?thesis using tmp_before_entries less_imp_le by blast
  qed simp
  moreover have "map_of (sp_files s') ?n = Some c" using assms(1) by (simp add: update_conv')
  ultimately show ?thesis using assms(3) unfolding stuck_def by blast
qed

text \<open>
  C37: one write that is cut short stops the relay for good. When writing the entry of a job creates the
  temporary file and fails before its last byte, wherever the write stops and whatever other entries wait in
  the spool, the leftover is listed as the first pending entry and cannot be read: whichever later file
  operations work and whatever the control plane answers, the relay never polls, publishes or reports
  again after the failure report of that job.
\<close>
theorem relay_partial_write_stalls:
  assumes "sealing_ok R e" "length nonce = nonceSize"
    and "\<And>m. map_of (sp_files (ry_spool s)) m \<noteq> None \<Longrightarrow> has_suffix m relaySpoolSuffix \<Longrightarrow> \<exists>k i. m = entry_name k i relaySpoolSuffix"
    and "sp_io (ry_spool s) = Works # FailsAfter n # ios" "sp_nonces (ry_spool s) = nonce # ns"
    and "d = delivery_for c j started completed outcome" "n < length (ciphertext e nonce d)"
    and "length (sl_marshal e d) \<le> maxRelayEntryBytes"
    and "total_bytes (sp_files (ry_spool s)) + length (ciphertext e nonce d) \<le> maxBytes"
  shows "\<exists>r ok. \<not> rl_Success r \<and>
    ry_calls (fold (relay_cycle e maxBytes c) answers (runJob e maxBytes c now started completed outcome j s))
    = ry_calls s @ [RReport r ok]"
proof -
  let ?r = "resultFor d (Some ''retain job result in encrypted spool'')"
  let ?n = "relaySpoolTmp @ entry_name now (Suc (sp_seq (ry_spool s))) relaySpoolSuffix"
  have small: "length (sl_marshal e d) \<le> gcm_limit" using assms(8) by (simp add: gcm_limit_def maxRelayEntryBytes_def)
  obtain sp' where en: "relay_Enqueue e maxBytes now d (ry_spool s) = (Some WriteError, sp')"
    and left: "sp_files sp' = AList.update ?n (take n (ciphertext e nonce d)) (sp_files (ry_spool s))"
    using half_written [OF assms(8,9,4,5)] by blast
  have st: "stuck e sp'" by (rule half_written_stuck [OF left assms(3) cut_undecodable [OF assms(1,2) small assms(7)]])
  have os: "on_spool (relay_Enqueue e maxBytes now d) s = (Some WriteError, s\<lparr>ry_spool := sp'\<rparr>)"
    unfolding on_spool_def en by simp
  obtain ok s2 where rp: "report ?r (s\<lparr>ry_spool := sp'\<rparr>) = (ok, s2)" by fastforce
  have s2: "ry_spool s2 = sp'" "ry_calls s2 = ry_calls s @ [RReport ?r ok]"
    using rp unfolding report_def Let_def by auto
  have run: "runJob e maxBytes c now started completed outcome j s = s2"
    unfolding runJob_def Let_def assms(6) [symmetric] os by (simp add: rp)
  have "ry_calls (fold (relay_cycle e maxBytes c) answers s2) = ry_calls s @ [RReport ?r ok]"
    unfolding s2(2) [symmetric] by (rule stuck_cycles) (simp only: s2(1) st)
  moreover have "\<not> rl_Success ?r" by (simp add: resultFor_def)
  ultimately show ?thesis unfolding run by blast
qed

theorem relay_partial_write_stalls_witness:
  "\<exists>r ok. \<not> rl_Success r \<and>
    ry_calls (fold (relay_cycle demo_env 1000 demo_config) (replicate 100 (Some [demo_polled]))
      (runJob demo_env 1000 demo_config 1 0 0 (Inr demo_obs) (demo_job ''j'')
        (start_relay [Works, FailsAfter 20, Fails] [demo_nonce] [] [True])))
    = ry_calls (start_relay [Works, FailsAfter 20, Fails] [demo_nonce] [] [True]) @ [RReport r ok]"
  by (rule relay_partial_write_stalls [where nonce = demo_nonce and n = 20 and ns = "[]" and ios = "[Fails]" and d = demo_first, OF demo_env_ok])
    (simp_all add: start_relay_def nonceSize_def demo_lengths maxRelayEntryBytes_def delivery_for_def total_bytes_def)

end
