(* ===== verification/Relay_Retention.thy ===== *)
theory Relay_Retention
  imports Relay_Properties Spool_Names
begin

text \<open>
  The relay does not drop a result: once a job has run, its result is in the spool until the control
  plane has acknowledged a report of it.
\<close>

section \<open>A result is not dropped\<close>

text \<open>
  A result of job \<open>j\<close> is settled with respect to the first \<open>k\<close> calls: a later report of it was
  acknowledged, or an entry of the spool that reads back holds it.
\<close>

definition retained :: "relay_env \<Rightarrow> string \<Rightarrow> spool \<Rightarrow> string \<Rightarrow> bool" where
  "retained e jid s name \<longleftrightarrow> (\<exists>c d. map_of (sp_files s) name = Some c \<and> decode_entry e maxRelayFileBytes c = Inr d
     \<and> utf8_fix (rj_JobID (pd_Job d)) = utf8_fix jid)"

definition acknowledged :: "string \<Rightarrow> nat \<Rightarrow> relay_state \<Rightarrow> bool" where
  "acknowledged jid k s \<longleftrightarrow> (\<exists>r. RReport r True \<in> set (drop k (ry_calls s)) \<and> utf8_fix (rl_JobID r) = utf8_fix jid)"

definition settled :: "relay_env \<Rightarrow> string \<Rightarrow> nat \<Rightarrow> string \<Rightarrow> relay_state \<Rightarrow> bool" where
  "settled e jid k name s \<longleftrightarrow> acknowledged jid k s \<or> retained e jid (ry_spool s) name"

lemma acknowledged_more: "acknowledged jid k s \<Longrightarrow> ry_calls s' = ry_calls s @ xs \<Longrightarrow> acknowledged jid k s'"
  unfolding acknowledged_def by auto

lemma retained_same: "retained e jid s name \<Longrightarrow> map_of (sp_files s') name = map_of (sp_files s) name \<Longrightarrow> retained e jid s' name"
  unfolding retained_def by simp

lemma write_cases:
  assumes "relay_writeLocked e maxBytes name d replaced s = (r, s')"
  obtains (untouched) "sp_files s' = sp_files s" "r \<noteq> None" "set (sp_nonces s') \<subseteq> set (sp_nonces s)"
  | (commit) nonce s2 where "nonce \<in> set (sp_nonces s)" "sp_files s2 = sp_files s"
      "set (sp_nonces s2) \<subseteq> set (sp_nonces s)" "length (sl_marshal e d) \<le> maxRelayEntryBytes"
      "commit_entry relaySpoolTmp name (ciphertext e nonce d) s2 = (r, s')"
proof -
  obtain x s1 where n: "next_nonce s = (x, s1)" by fastforce
  obtain y s2 where y: "ReadDir s1 = (y, s2)" by fastforce
  note facts = next_nonce_files [OF n] ReadDir_files [OF y]
  show thesis
  proof (cases "length (sl_marshal e d) > maxRelayEntryBytes \<or> x = None \<or> y = None
      \<or> int (total_bytes (the y)) - int replaced + int (length (ciphertext e (the x) d)) > int maxBytes")
    case True
    then show thesis
      using assms n y facts untouched
      by (cases x; cases y) (auto simp: relay_writeLocked_def split: if_splits)
  next
    case False
    then obtain nonce fs where "x = Some nonce" "y = Some fs" by auto
    then show thesis
      using False assms n y facts commit [of nonce s2] by (auto simp: relay_writeLocked_def)
  qed
qed

lemma tmp_nonempty [simp]: "relaySpoolTmp \<noteq> []"
  by (simp add: relaySpoolTmp_def)

lemma write_other:
  assumes "relay_writeLocked e maxBytes name d replaced s = (r, s')" "n \<noteq> relaySpoolTmp @ name" "n \<noteq> name \<or> r \<noteq> None"
  shows "map_of (sp_files s') n = map_of (sp_files s) n"
  using assms(1)
proof (cases rule: write_cases)
  case (commit nonce s2)
  then show ?thesis using commit_entry_files(2) [OF commit(5) tmp_nonempty assms(2)] assms(3) by auto
qed simp

lemma write_entry:
  assumes "sealing_ok same_delivery e" "nonces_ok s" "relay_writeLocked e maxBytes name d replaced s = (None, s')"
  shows "retained e (rj_JobID (pd_Job d)) s' name"
  using assms(3)
proof (cases rule: write_cases)
  case (commit nonce s2)
  have "map_of (sp_files s') name = Some (ciphertext e nonce d)"
    using commit_entry_files(2) [OF commit(5) tmp_nonempty, of name] by (simp add: relaySpoolTmp_def)
  moreover obtain d' where "decode_entry e maxRelayFileBytes (ciphertext e nonce d) = Inr d'" "same_delivery d d'"
    using decode_full [OF assms(1), of nonce d maxRelayFileBytes] commit(1,4) assms(2)
    by (auto simp: maxRelayFileBytes_def maxRelayEntryBytes_def gcm_limit_def)
  ultimately show ?thesis unfolding retained_def same_delivery_def by blast
qed simp

section \<open>Draining keeps a result settled\<close>

text \<open>An entry proper is not one of the temporary files.\<close>

definition proper :: "string \<Rightarrow> bool" where
  "proper name \<longleftrightarrow> \<not> has_prefix name relaySpoolTmp"

lemma proper_tmp: "proper name \<Longrightarrow> name \<noteq> relaySpoolTmp @ n"
  by (auto simp: proper_def)

abbreviation sound :: "relay_env \<Rightarrow> spool \<Rightarrow> bool" where
  "sound e s \<equiv> contents e (\<lambda>_. True) s"

abbreviation same_job :: "delivery \<Rightarrow> string \<Rightarrow> bool" where
  "same_job d jid \<equiv> utf8_fix (rj_JobID (pd_Job d)) = utf8_fix jid"

lemma replace_keeps:
  assumes "sealing_ok same_delivery e" "sound e s" "proper name" "retained e jid s name"
    and "relay_Replace e maxBytes n d s = (r, s')" "n = name \<Longrightarrow> same_job d jid"
  shows "retained e jid s' name"
proof (cases "entryPath_ok relaySpoolSuffix n")
  case True
  obtain x s1 where f: "ReadFile n s = (x, s1)" by fastforce
  note same = ReadFile_files [OF f]
  have ret1: "retained e jid s1 name" using retained_same [OF assms(4), of s1] same by simp
  show ?thesis
  proof (cases x)
    case (Some old)
    then have w: "relay_writeLocked e maxBytes n d (length old) s1 = (r, s')"
      using assms(5) True f by (simp add: relay_Replace_def)
    show ?thesis
    proof (cases "n = name \<and> r = None")
      case True
      have "nonces_ok s1" using assms(2) same unfolding contents_def by simp
      with write_entry [OF assms(1)] w True have "retained e (rj_JobID (pd_Job d)) s' name" by blast
      then show ?thesis using assms(6) True unfolding retained_def by simp
    next
      case False
      then show ?thesis
        using retained_same [OF ret1] write_other [OF w proper_tmp [OF assms(3)]] by blast
    qed
  qed (use assms(5) True f ret1 in \<open>simp add: relay_Replace_def\<close>)
qed (use assms(4,5) in \<open>simp add: relay_Replace_def\<close>)

lemma job_after_publish [simp]: "pd_Job (after_publish d a) = pd_Job d"
  by (cases a) (simp_all add: after_publish_def Let_def)

lemma publish_step_keeps:
  assumes "sealing_ok same_delivery e" "sound e (ry_spool s)" "proper name"
    and "publish_step e maxBytes n d s = (x, s')"
  shows "sound e (ry_spool s')
    \<and> (retained e jid (ry_spool s) name \<and> (n = name \<longrightarrow> same_job d jid) \<longrightarrow> retained e jid (ry_spool s') name)
    \<and> (\<exists>xs. ry_calls s' = ry_calls s @ xs) \<and> (\<forall>d'. x = Some d' \<longrightarrow> pd_Job d' = pd_Job d)"
proof (cases "pd_Observation d = None \<or> pd_Published d \<or> pd_PublicationError d \<noteq> []")
  case True
  then show ?thesis using assms(2,4) by (auto simp: publish_step_def split: option.splits)
next
  case False
  then obtain obs where obs: "pd_Observation d = Some obs" "\<not> pd_Published d" "pd_PublicationError d = []" by auto
  obtain a s1 where pub: "publish_batch obs s = (a, s1)" by fastforce
  then have p: "ry_spool s1 = ry_spool s" "ry_calls s1 = ry_calls s @ [RPublish obs a]"
    by (auto simp: publish_batch_def Let_def)
  obtain r s2 where rep: "on_spool (relay_Replace e maxBytes n (after_publish d a)) s1 = (r, s2)" by fastforce
  note o = on_spool_calls [OF rep]
  have rp: "relay_Replace e maxBytes n (after_publish d a) (ry_spool s) = (r, ry_spool s2)" using o p by simp
  have "retained e jid (ry_spool s2) name"
    if "retained e jid (ry_spool s) name \<and> (n = name \<longrightarrow> same_job d jid)"
    by (rule replace_keeps [OF assms(1-3) conjunct1 [OF that] rp]) (use that in simp)
  moreover have "sound e (ry_spool s2)" by (rule replace_contents [OF assms(1,2) _ rp]) (rule TrueI)
  moreover have "s' = s2 \<and> (\<forall>d'. x = Some d' \<longrightarrow> pd_Job d' = pd_Job d)"
    using assms(4) obs unfolding publish_step_def Let_def
    by (cases r) (auto simp: pub rep split: if_splits)
  moreover have "ry_calls s2 = ry_calls s @ [RPublish obs a]" using conjunct1 [OF o] p(2) by simp
  ultimately show ?thesis by blast
qed

lemma drain_names_keeps:
  assumes "sealing_ok same_delivery e" "proper name"
  shows "sound e (ry_spool s) \<Longrightarrow> drain_names e maxBytes names s = (b, s') \<Longrightarrow> sound e (ry_spool s')
    \<and> (\<exists>xs. ry_calls s' = ry_calls s @ xs \<and> (retained e jid (ry_spool s) name \<longrightarrow> retained e jid (ry_spool s') name
         \<or> (\<exists>r. RReport r True \<in> set xs \<and> utf8_fix (rl_JobID r) = utf8_fix jid)))"
proof (induction names arbitrary: s)
  case (Cons n names)
  let ?ret = "\<lambda>s. retained e jid (ry_spool s) name"
  obtain x s1 where rd: "on_spool (relay_Read e n) s = (x, s1)" by fastforce
  note o1 = on_spool_calls [OF rd]
  have files1: "sp_files (ry_spool s1) = sp_files (ry_spool s)" using rq.read_files o1 by blast
  have sound1: "sound e (ry_spool s1)" using rq.read_contents [OF Cons.prems(1)] o1 by blast
  have ret1: "?ret s1 = ?ret s" by (simp add: retained_def files1)
  show ?case
  proof (cases x)
    case (Inl err)
    then show ?thesis using Cons.prems(2) rd sound1 ret1 o1 by simp
  next
    case (Inr d)
    have job: "same_job d jid" if "?ret s" "n = name"
    proof -
      obtain c where "map_of (sp_files (ry_spool s)) n = Some c" "decode_entry e maxRelayFileBytes c = Inr d"
        using rq.read_value [of e n "ry_spool s" d "ry_spool s1"] o1 Inr by blast
      with that show ?thesis by (auto simp: retained_def)
    qed
    obtain y s2 where ps: "publish_step e maxBytes n d s1 = (y, s2)" by fastforce
    note k2 = publish_step_keeps [OF assms(1) sound1 assms(2) ps, of jid]
    have ret2: "?ret s \<longrightarrow> ?ret s2" using k2 ret1 job by blast
    obtain xs2 where xs2: "ry_calls s2 = ry_calls s @ xs2" using k2 conjunct1 [OF o1] by metis
    show ?thesis
    proof (cases y)
      case None
      then have "s' = s2" using Cons.prems(2) rd Inr ps by simp
      then show ?thesis using k2 ret2 xs2 by blast
    next
      case (Some d2)
      have job2: "pd_Job d2 = pd_Job d" using k2 Some by blast
      obtain ok s3 where rp: "report (resultFor d2 None) s2 = (ok, s3)" by fastforce
      then have p3: "ry_spool s3 = ry_spool s2" "ry_calls s3 = ry_calls s @ xs2 @ [RReport (resultFor d2 None) ok]"
        using xs2 by (auto simp: report_def Let_def)
      show ?thesis
      proof (cases ok)
        case False
        then have "s' = s3" using Cons.prems(2) rd Inr ps Some rp by simp
        then show ?thesis using k2 ret2 p3 by auto
      next
        case True
        obtain z s4 where rm: "on_spool (relay_Remove n) s3 = (z, s4)" by fastforce
        note o4 = on_spool_calls [OF rm]
        have rem: "relay_Remove n (ry_spool s2) = (z, ry_spool s4)" using o4 p3 by simp
        have sound4: "sound e (ry_spool s4)" using rq.remove_contents [OF _ rem] k2 by blast
        have done4: "n = name \<and> ?ret s \<longrightarrow> utf8_fix (rl_JobID (resultFor d2 None)) = utf8_fix jid"
          using job job2 by (simp add: resultFor_def)
        have ret4: "n \<noteq> name \<and> ?ret s \<longrightarrow> ?ret s4"
          using ret2 rq.remove_others [OF rem, of name] retained_same [of e jid "ry_spool s2" name "ry_spool s4"] by auto
        have calls4: "ry_calls s4 = ry_calls s @ xs2 @ [RReport (resultFor d2 None) True]" using o4 p3 True by simp
        show ?thesis
        proof (cases z)
          case (Some err)
          then have "s' = s4" using Cons.prems(2) rd Inr ps \<open>y = Some d2\<close> rp True rm by simp
          then show ?thesis using sound4 calls4 done4 ret4 by (cases "n = name") auto
        next
          case None
          then have "drain_names e maxBytes names s4 = (b, s')"
            using Cons.prems(2) rd Inr ps \<open>y = Some d2\<close> rp True rm by simp
          from Cons.IH [OF sound4 this] calls4 done4 ret4 show ?thesis by (cases "n = name") auto
        qed
      qed
    qed
  qed
qed simp

lemma drain_keeps:
  assumes "sealing_ok same_delivery e" "proper name" "sound e (ry_spool s)" "drain e maxBytes s = (b, s')"
  shows "sound e (ry_spool s')
    \<and> (\<exists>xs. ry_calls s' = ry_calls s @ xs \<and> (retained e jid (ry_spool s) name \<longrightarrow> retained e jid (ry_spool s') name
         \<or> (\<exists>r. RReport r True \<in> set xs \<and> utf8_fix (rl_JobID r) = utf8_fix jid)))"
proof -
  obtain x s1 where p: "on_spool relay_Pending s = (x, s1)" by fastforce
  note o = on_spool_calls [OF p]
  have files: "sp_files (ry_spool s1) = sp_files (ry_spool s)" using rq.pending_files o by blast
  have sound1: "sound e (ry_spool s1)" using rq.pending_contents [OF assms(3)] o by blast
  have ret1: "retained e jid (ry_spool s1) name = retained e jid (ry_spool s) name" by (simp add: retained_def files)
  show ?thesis
  proof (cases x)
    case None
    then have "s' = s1" using assms(4) p by (simp add: drain_def)
    then show ?thesis using sound1 ret1 conjunct1 [OF o] by simp
  next
    case (Some names)
    then have "drain_names e maxBytes names s1 = (b, s')" using assms(4) p by (simp add: drain_def)
    from drain_names_keeps [OF assms(1,2) sound1 this, of jid] ret1 conjunct1 [OF o] show ?thesis by simp
  qed
qed

section \<open>Entries and their numbers\<close>

lemma proper_hd: "c \<noteq> CHR ''.'' \<Longrightarrow> proper (c # s)"
  by (simp add: proper_def has_prefix_def relaySpoolTmp_def)

lemma entry_name_proper: "proper (entry_name now k relaySpoolSuffix)"
  using decz_Cons [of 20 now] unfolding entry_name_def
  by (elim exE conjE) (simp only: append_Cons, erule proper_hd)

lemma seq_write [seq_kept]: assumes "relay_writeLocked e m n d k s = (r, s')" shows "sp_seq s' = sp_seq s"
proof -
  obtain x s1 where x: "next_nonce s = (x, s1)" by fastforce
  obtain y s2 where y: "ReadDir s1 = (y, s2)" by fastforce
  obtain z s3 where z: "commit_entry relaySpoolTmp n (ciphertext e (the x) d) s2 = (z, s3)" by fastforce
  from assms z have "s' = s \<or> s' = s1 \<or> s' = s2 \<or> s' = s3"
    by (cases x; cases y) (auto simp: relay_writeLocked_def x y split: if_splits)
  then show ?thesis using seq_next_nonce [OF x] seq_ReadDir [OF y] seq_commit [OF z] by auto
qed

lemma seq_Replace: assumes "relay_Replace e m n d s = (r, s')" shows "sp_seq s' = sp_seq s"
proof -
  obtain x s1 where x: "ReadFile n s = (x, s1)" by fastforce
  show ?thesis
    using assms seq_ReadFile [OF x] seq_write [of e m n d "length (the x)" s1 r s']
    by (cases x) (auto simp: relay_Replace_def x split: if_splits)
qed

lemma seq_Pending: "relay_Pending s = (x, s') \<Longrightarrow> sp_seq s' = sp_seq s"
  using seq_ReadDir [of s] by (cases "ReadDir s") (auto simp: relay_Pending_def split: option.splits)

lemma seq_Read: "relay_Read e n s = (x, s') \<Longrightarrow> sp_seq s' = sp_seq s"
  using seq_ReadFile [of n s] by (cases "ReadFile n s") (auto simp: relay_Read_def split: option.splits if_splits)

lemma seq_Remove: "relay_Remove n s = (x, s') \<Longrightarrow> sp_seq s' = sp_seq s"
  using seq_RemoveFile [of n s] by (cases "RemoveFile n s") (auto simp: relay_Remove_def split: bool.splits if_splits)

abbreviation seq_of :: "relay_state \<Rightarrow> nat" where
  "seq_of s \<equiv> sp_seq (ry_spool s)"

lemma seq_publish_step:
  assumes "publish_step e m n d s = (x, s')"
  shows "seq_of s' = seq_of s"
proof (cases "pd_Observation d = None \<or> pd_Published d \<or> pd_PublicationError d \<noteq> []")
  case True
  then show ?thesis using assms by (auto simp: publish_step_def split: option.splits)
next
  case False
  then obtain obs where obs: "pd_Observation d = Some obs" "\<not> pd_Published d" "pd_PublicationError d = []" by auto
  obtain a s1 where pub: "publish_batch obs s = (a, s1)" by fastforce
  then have p: "ry_spool s1 = ry_spool s" by (auto simp: publish_batch_def Let_def)
  obtain r s2 where rep: "on_spool (relay_Replace e m n (after_publish d a)) s1 = (r, s2)" by fastforce
  have "s' = s2"
    using assms obs unfolding publish_step_def Let_def by (cases r) (auto simp: pub rep split: if_splits)
  then show ?thesis using seq_Replace on_spool_calls [OF rep] p by metis
qed

lemma seq_drain_names: "drain_names e m names s = (b, s') \<Longrightarrow> seq_of s' = seq_of s"
proof (induction names arbitrary: s)
  case (Cons n names)
  obtain x s1 where rd: "on_spool (relay_Read e n) s = (x, s1)" by fastforce
  have q1: "seq_of s1 = seq_of s" using seq_Read on_spool_calls [OF rd] by metis
  show ?case
  proof (cases x)
    case (Inl err)
    then show ?thesis using Cons.prems rd q1 by simp
  next
    case (Inr d)
    obtain y s2 where ps: "publish_step e m n d s1 = (y, s2)" by fastforce
    have q2: "seq_of s2 = seq_of s" using seq_publish_step [OF ps] q1 by simp
    show ?thesis
    proof (cases y)
      case None
      then show ?thesis using Cons.prems rd Inr ps q2 by simp
    next
      case (Some d2)
      obtain ok s3 where rp: "report (resultFor d2 None) s2 = (ok, s3)" by fastforce
      then have q3: "seq_of s3 = seq_of s" using q2 by (auto simp: report_def Let_def)
      obtain z s4 where rm: "on_spool (relay_Remove n) s3 = (z, s4)" by fastforce
      have q4: "seq_of s4 = seq_of s" using seq_Remove on_spool_calls [OF rm] q3 by metis
      show ?thesis
      proof (cases "ok \<and> z = None")
        case True
        then have "drain_names e m names s4 = (b, s')" using Cons.prems rd Inr ps Some rp rm by simp
        from Cons.IH [OF this] q4 show ?thesis by simp
      next
        case False
        then have "s' = s3 \<or> s' = s4" using Cons.prems rd Inr ps Some rp rm by (cases ok) auto
        then show ?thesis using q3 q4 by blast
      qed
    qed
  qed
qed simp

lemma seq_drain: assumes "drain e m s = (b, s')" shows "seq_of s' = seq_of s"
proof -
  obtain x s1 where p: "on_spool relay_Pending s = (x, s1)" by fastforce
  have "seq_of s1 = seq_of s" using seq_Pending on_spool_calls [OF p] by metis
  then show ?thesis
    using assms seq_drain_names [of e m "the x" s1 b s'] by (cases x) (auto simp: drain_def p)
qed

section \<open>Whole cycles\<close>

text \<open>A fresh entry under its own name, with a sequence number that no later entry repeats.\<close>

abbreviation fresh_name :: "nat \<Rightarrow> relay_state \<Rightarrow> string" where
  "fresh_name now s \<equiv> entry_name now (seq_of s + 1) relaySpoolSuffix"

lemma enqueue_effect:
  assumes "sealing_ok same_delivery e" "sound e (ry_spool s)"
    and "on_spool (relay_Enqueue e m now d) s = (r, s')"
  shows "sound e (ry_spool s')" "ry_calls s' = ry_calls s" "seq_of s' = seq_of s + 1"
    and "r = None \<Longrightarrow> retained e (rj_JobID (pd_Job d)) (ry_spool s') (fresh_name now s)"
    and "proper n \<Longrightarrow> n \<noteq> fresh_name now s \<Longrightarrow> retained e jid (ry_spool s) n \<Longrightarrow> retained e jid (ry_spool s') n"
proof -
  note o = on_spool_calls [OF assms(3)]
  let ?sp = "(ry_spool s)\<lparr>sp_seq := sp_seq (ry_spool s) + 1\<rparr>"
  have en: "relay_Enqueue e m now d (ry_spool s) = (r, ry_spool s')" using o by simp
  have w: "relay_writeLocked e m (fresh_name now s) d 0 ?sp = (r, ry_spool s')"
    using en unfolding relay_Enqueue_def Let_def by simp
  show "sound e (ry_spool s')" by (rule enqueue_contents [OF assms(1,2) _ en]) (rule TrueI)
  show "ry_calls s' = ry_calls s" using o by simp
  show "seq_of s' = seq_of s + 1" using seq_write [OF w] by simp
  have "nonces_ok ?sp" using assms(2) unfolding contents_def by simp
  then show "retained e (rj_JobID (pd_Job d)) (ry_spool s') (fresh_name now s)" if "r = None"
    using write_entry [OF assms(1)] w that by blast
  show "retained e jid (ry_spool s') n" if "proper n" "n \<noteq> fresh_name now s" "retained e jid (ry_spool s) n"
  proof -
    have "map_of (sp_files (ry_spool s')) n = map_of (sp_files ?sp) n"
      by (rule write_other [OF w proper_tmp [OF that(1)]]) (rule disjI1 [OF that(2)])
    then show ?thesis using retained_same [OF that(3)] by simp
  qed
qed

text \<open>An entry with a sequence number already given out, and what is promised of it.\<close>

definition held :: "relay_env \<Rightarrow> string \<Rightarrow> nat \<Rightarrow> string \<Rightarrow> relay_state \<Rightarrow> bool" where
  "held e jid k name s \<longleftrightarrow> sound e (ry_spool s) \<and> k \<le> length (ry_calls s)
     \<and> (\<exists>now i. name = entry_name now i relaySpoolSuffix \<and> i \<le> seq_of s) \<and> settled e jid k name s"

lemma held_calls:
  assumes "held e jid k name s" "ry_spool s' = ry_spool s" "ry_calls s' = ry_calls s @ xs"
  shows "held e jid k name s'"
  using assms acknowledged_more [OF _ assms(3), of jid k] unfolding held_def settled_def by auto

lemma held_drain:
  assumes "sealing_ok same_delivery e" "held e jid k name s" "drain e m s = (b, s')"
  shows "held e jid k name s'"
proof -
  obtain now i where nm: "name = entry_name now i relaySpoolSuffix" "i \<le> seq_of s" and snd: "sound e (ry_spool s)"
    and k: "k \<le> length (ry_calls s)" and st: "settled e jid k name s"
    using assms(2) unfolding held_def by blast
  have pr: "proper name" unfolding nm(1) by (rule entry_name_proper)
  from drain_keeps [OF assms(1) pr snd assms(3), of jid] obtain xs where
    xs: "sound e (ry_spool s')" "ry_calls s' = ry_calls s @ xs"
      "retained e jid (ry_spool s) name \<longrightarrow> retained e jid (ry_spool s') name
        \<or> (\<exists>r. RReport r True \<in> set xs \<and> utf8_fix (rl_JobID r) = utf8_fix jid)" by blast
  have "settled e jid k name s'"
    using st
  proof (unfold settled_def, elim disjE)
    assume "acknowledged jid k s"
    then show "acknowledged jid k s' \<or> retained e jid (ry_spool s') name" using acknowledged_more [OF _ xs(2)] by blast
  next
    assume "retained e jid (ry_spool s) name"
    moreover have "set xs \<subseteq> set (drop k (ry_calls s'))" using k xs(2) by simp
    ultimately show "acknowledged jid k s' \<or> retained e jid (ry_spool s') name"
      using xs(3) unfolding acknowledged_def by blast
  qed
  then show ?thesis
    using xs(1,2) k nm seq_drain [OF assms(3)] unfolding held_def by auto
qed

lemma held_runJob:
  assumes "sealing_ok same_delivery e" "held e jid k name s"
  shows "held e jid k name (runJob e m c now a b outcome j s)"
proof -
  let ?d = "delivery_for c j a b outcome"
  obtain r s1 where en: "on_spool (relay_Enqueue e m now ?d) s = (r, s1)" by fastforce
  obtain now' i where nm: "name = entry_name now' i relaySpoolSuffix" "i \<le> seq_of s" and snd: "sound e (ry_spool s)"
    using assms(2) unfolding held_def by blast
  note f = enqueue_effect [OF assms(1) snd en]
  have pr: "proper name" unfolding nm(1) by (rule entry_name_proper)
  have ne: "name \<noteq> fresh_name now s"
  proof
    assume "name = fresh_name now s"
    then have "i = seq_of s + 1" unfolding nm(1) by (rule entry_name_seq)
    then show False using nm(2) by simp
  qed
  have "settled e jid k name s1"
    using assms(2) f(5) [OF pr ne] f(2) unfolding held_def settled_def acknowledged_def by auto
  then have h1: "held e jid k name s1"
  proof -
    have "i \<le> seq_of s1" using nm(2) f(3) by simp
    moreover have "k \<le> length (ry_calls s1)" using assms(2) f(2) unfolding held_def by simp
    ultimately show ?thesis using \<open>settled e jid k name s1\<close> f(1) nm(1) unfolding held_def by blast
  qed
  show ?thesis
  proof (cases r)
    case None
    obtain ok s2 where dr: "drain e m s1 = (ok, s2)" by fastforce
    show ?thesis using held_drain [OF assms(1) h1 dr] by (simp add: runJob_def en None dr Let_def)
  next
    case (Some err)
    obtain ok s2 where rp: "report (resultFor ?d (Some ''retain job result in encrypted spool'')) s1 = (ok, s2)" by fastforce
    then have "ry_spool s2 = ry_spool s1" "\<exists>x. ry_calls s2 = ry_calls s1 @ [x]" by (auto simp: report_def Let_def)
    then have "held e jid k name s2" using held_calls [OF h1] by blast
    then show ?thesis by (simp add: runJob_def en Some rp Let_def)
  qed
qed

lemma held_cycle:
  assumes "sealing_ok same_delivery e" "held e jid k name s"
  shows "held e jid k name (relay_cycle e m c answer s)"
proof -
  obtain ok s1 where dr: "drain e m s = (ok, s1)" by fastforce
  note h1 = held_drain [OF assms dr]
  have h2: "held e jid k name (s1\<lparr>ry_calls := ry_calls s1 @ [RPoll]\<rparr>)" by (rule held_calls [OF h1]) simp_all
  have "held e jid k name t \<Longrightarrow>
      held e jid k name (fold (\<lambda>p s. runJob e m c (po_now p) (po_started p) (po_completed p) (po_outcome p) (po_job p) s) jobs t)"
    for jobs t
    by (induction jobs arbitrary: t) (simp_all add: held_runJob [OF assms(1)])
  note h3 = this [OF h2]
  show ?thesis
  proof (cases "ok \<and> answer \<noteq> None")
    case True
    then obtain jobs where "ok" "answer = Some jobs" by auto
    then show ?thesis using h2 h3 [of jobs] dr by (simp add: relay_cycle_def Let_def)
  next
    case False
    then show ?thesis using h1 h2 dr by (cases ok) (simp_all add: relay_cycle_def Let_def)
  qed
qed

lemma held_cycles:
  "sealing_ok same_delivery e \<Longrightarrow> held e jid k name s \<Longrightarrow> held e jid k name (fold (relay_cycle e m c) answers s)"
  by (induction answers arbitrary: s) (simp_all add: held_cycle)

lemma held_after_job:
  assumes "sealing_ok same_delivery e" "sound e (ry_spool s)"
    and "on_spool (relay_Enqueue e m now (delivery_for c j a b outcome)) s = (None, s1)"
  shows "held e (rj_JobID j) (length (ry_calls s)) (fresh_name now s) (runJob e m c now a b outcome j s)"
proof -
  note f = enqueue_effect [OF assms]
  have "retained e (rj_JobID j) (ry_spool s1) (fresh_name now s)" using f(4) by (simp add: delivery_for_def)
  then have h: "held e (rj_JobID j) (length (ry_calls s)) (fresh_name now s) s1"
    using f(1-3) unfolding held_def settled_def by auto
  obtain ok s2 where dr: "drain e m s1 = (ok, s2)" by fastforce
  show ?thesis using held_drain [OF assms(1) h dr] by (simp add: runJob_def assms(3) dr Let_def)
qed

text \<open>
  C4: no result is lost. Once \<open>runJob\<close> has run a job, after any number of further cycles, whatever the
  control plane, the publisher and the files do: either a report of this job was acknowledged by the
  control plane, or the spool holds an entry that reads back as the delivery of this job, to be
  reported by a later drain; or else the spool had refused the delivery when the job had run, and then
  the only call \<open>runJob\<close> made is a report that the job failed.
\<close>

theorem relay_result_not_lost:
  assumes "sealing_ok same_delivery e" "contents e (\<lambda>_. True) (ry_spool s)"
    and "s' = runJob e maxBytes c now started completed outcome j s"
    and "t = fold (relay_cycle e maxBytes c) answers s'"
  shows "(\<exists>r. RReport r True \<in> set (drop (length (ry_calls s)) (ry_calls t)) \<and> utf8_fix (rl_JobID r) = utf8_fix (rj_JobID j))
    \<or> (\<exists>name content d. map_of (sp_files (ry_spool t)) name = Some content
         \<and> decode_entry e maxRelayFileBytes content = Inr d \<and> utf8_fix (rj_JobID (pd_Job d)) = utf8_fix (rj_JobID j))
    \<or> (fst (relay_Enqueue e maxBytes now (delivery_for c j started completed outcome) (ry_spool s)) \<noteq> None
         \<and> (\<exists>r ok. ry_calls s' = ry_calls s @ [RReport r ok] \<and> rl_JobID r = rj_JobID j \<and> \<not> rl_Success r))"
proof -
  let ?d = "delivery_for c j started completed outcome"
  obtain x s1 where en: "on_spool (relay_Enqueue e maxBytes now ?d) s = (x, s1)" by fastforce
  note o = on_spool_calls [OF en]
  show ?thesis
  proof (cases x)
    case None
    have "held e (rj_JobID j) (length (ry_calls s)) (fresh_name now s) t"
      unfolding assms(3,4)
      using held_cycles [OF assms(1) held_after_job [OF assms(1,2) en [unfolded None]]] .
    then show ?thesis unfolding held_def settled_def acknowledged_def retained_def by blast
  next
    case (Some err)
    let ?r = "resultFor ?d (Some ''retain job result in encrypted spool'')"
    obtain ok s2 where rp: "report ?r s1 = (ok, s2)" by fastforce
    then have "ry_calls s' = ry_calls s @ [RReport ?r ok]"
      using o assms(3) by (auto simp: runJob_def en Some report_def Let_def)
    moreover have "rl_JobID ?r = rj_JobID j" "\<not> rl_Success ?r" by (simp_all add: resultFor_def delivery_for_def)
    ultimately show ?thesis using o Some by auto
  qed
qed

theorem relay_result_not_lost_witness:
  "let s' = runJob demo_env 1000 demo_config 0 0 0 (Inr demo_obs) (demo_job ''j'') (start_relay [] [demo_nonce] [] [])
   in (\<exists>r. RReport r True \<in> set (ry_calls s') \<and> utf8_fix (rl_JobID r) = utf8_fix ''j'')
    \<or> (\<exists>name content d. map_of (sp_files (ry_spool s')) name = Some content
         \<and> decode_entry demo_env maxRelayFileBytes content = Inr d \<and> utf8_fix (rj_JobID (pd_Job d)) = utf8_fix ''j'')"
proof -
  let ?s = "start_relay [] [demo_nonce] [] []"
  let ?d = "delivery_for demo_config (demo_job ''j'') 0 0 (Inr demo_obs)"
  have calls: "ry_calls ?s = []" by (simp add: start_relay_def)
  have c: "contents demo_env (\<lambda>_. True) (ry_spool ?s)"
    by (simp add: start_relay_def contents_def nonceSize_def)
  have en: "fst (relay_Enqueue demo_env 1000 0 ?d (ry_spool ?s)) = None"
    by (simp add: relay_Enqueue_def Let_def start_relay_def write_works demo_lengths maxRelayEntryBytes_def
        total_bytes_def delivery_for_def)
  have job: "rj_JobID (demo_job ''j'') = ''j''" by simp
  show ?thesis
    using relay_result_not_lost [OF demo_env_ok c refl refl, where maxBytes = 1000 and c = demo_config and now = 0
        and started = 0 and completed = 0 and outcome = "Inr demo_obs" and j = "demo_job ''j''" and answers = "[]"] en
    unfolding calls job Let_def by simp
qed

end
