(* ===== verification/Relay_Authority.thy ===== *)
theory Relay_Authority
  imports Relay
begin

text \<open>
  What a job of the control plane can make the relay do: the profiles of the validated local
  configuration bound every discovery.
\<close>

lemma check_profiles_sound:
  "check_profiles pdur k seen ps = None \<Longrightarrow>
    distinct (map pf_ID ps) \<and> set (map pf_ID ps) \<inter> set seen = {} \<and> (\<forall>p \<in> set ps. safeID (pf_ID p) \<and> profile_valid pdur p)"
  by (induction pdur k seen ps rule: check_profiles.induct) (auto split: if_splits)

lemma ValidateConfig_sound:
  assumes "ValidateConfig pdur c = None"
  shows "distinct (map pf_ID (fc_Profiles c))" "p \<in> set (fc_Profiles c) \<Longrightarrow> profile_valid pdur p"
    "safeID (fc_RelayID c)" "safeID (fc_SiteID c)"
  using assms check_profiles_sound [of pdur 0 "[]" "fc_Profiles c"]
  by (auto simp: ValidateConfig_def split: if_splits)

lemma Profile_member: "Profile c pid = Some p \<Longrightarrow> p \<in> set (fc_Profiles c) \<and> pf_ID p = pid"
  unfolding Profile_def find_Some_iff by (auto simp: nth_mem)

lemma distinct_key: "distinct (map f xs) \<Longrightarrow> x \<in> set xs \<Longrightarrow> y \<in> set xs \<Longrightarrow> f x = f y \<Longrightarrow> x = y"
  by (metis distinct_map inj_onD)

lemma parseDuration_bounds:
  "parseDuration pdur raw (10 * second) = Some v \<Longrightarrow> 0 < v \<and> v \<le> 10 * minute"
  by (auto simp: parseDuration_def split: if_splits option.splits)

text \<open>A line of a targets file that names a target.\<close>

definition target_line :: "string \<Rightarrow> string \<Rightarrow> bool" where
  "target_line body t \<longleftrightarrow> t \<in> trim_space ` set (split_on (CHR 0x0A) body)
     \<and> t \<noteq> [] \<and> \<not> has_prefix t ''#'' \<and> length t \<le> maxTargetLine"

lemma collect_targets_sound:
  "collect_targets acc ls = Inr ts \<Longrightarrow> length acc \<le> maxTargets \<Longrightarrow>
    length ts \<le> maxTargets \<and> (\<forall>t \<in> set ts. t \<in> set acc \<or> t \<in> trim_space ` set ls
      \<and> t \<noteq> [] \<and> \<not> has_prefix t ''#'' \<and> length t \<le> maxTargetLine)"
  by (induction acc ls rule: collect_targets.induct) (auto simp: Let_def split: if_splits)

lemma readTargets_sound:
  assumes "readTargets body = Inr ts"
  shows "ts \<noteq> []" "length ts \<le> maxTargets" "t \<in> set ts \<Longrightarrow> target_line body t"
proof -
  from assms obtain "collect_targets [] (split_on (CHR 0x0A) body) = Inr ts" "ts \<noteq> []"
    by (auto simp: readTargets_def split: if_splits sum.splits)
  with collect_targets_sound [OF this(1)]
  show "ts \<noteq> []" "length ts \<le> maxTargets" "t \<in> set ts \<Longrightarrow> target_line body t"
    unfolding target_line_def by auto
qed

text \<open>The timeout of a job neither wraps a 64-bit duration around nor exceeds the limit.\<close>

lemma job_timeout_bounds:
  assumes "1 \<le> conc" "n \<le> maxTargets" "0 < connect" "connect \<le> 10 * minute" "0 < command" "command \<le> 10 * minute"
  shows "0 < job_timeout n conc connect command" "job_timeout n conc connect command \<le> maxDiscoveryDuration"
    "(int n div conc + 1) * (connect + 8 * command) < 2 ^ 63"
proof -
  have d: "0 \<le> int n div conc" "int n div conc \<le> 10000"
    using assms(1,2) zdiv_mono2 [of "int n" 1 conc] by (auto simp: maxTargets_def pos_imp_zdiv_nonneg_iff)
  have "0 < (int n div conc + 1) * (connect + 8 * command)" using d(1) assms(3,5) by (intro mult_pos_pos) auto
  then show "0 < job_timeout n conc connect command" "job_timeout n conc connect command \<le> maxDiscoveryDuration"
    by (auto simp: job_timeout_def Let_def maxDiscoveryDuration_def)
  have "(int n div conc + 1) * (connect + 8 * command) \<le> 10001 * (90 * minute)"
    using d assms(3-6) by (intro mult_mono) auto
  then show "(int n div conc + 1) * (connect + 8 * command) < 2 ^ 63"
    by simp
qed

lemma buildSSHPlugin_sound:
  assumes "buildSSHPlugin pdur host p = Inr (pl, ts, timeout)" "profile_valid pdur p" "pf_Plugin p = ''ssh-linux''"
  obtains h body sp where "pf_SSH p = Some h" "rh_TargetsFile host (pf_TargetsFile p) = Some body"
    "readTargets body = Inr ts" "rh_KnownHosts host (sh_KnownHostsFile h)" "pl = SSHPlugin sp"
    "1 \<le> sp_Concurrency sp" "sp_Concurrency sp \<le> 1024" "1 \<le> sp_MaxOutputBytes sp" "sp_MaxOutputBytes sp \<le> 64 * 2 ^ 20"
    "0 < sp_ConnectTimeout sp" "sp_ConnectTimeout sp \<le> 10 * minute" "0 < sp_CommandTimeout sp" "sp_CommandTimeout sp \<le> 10 * minute"
    "0 < timeout" "timeout \<le> maxDiscoveryDuration"
proof -
  from assms(1) obtain h body where h: "pf_SSH p = Some h" and b: "rh_TargetsFile host (pf_TargetsFile p) = Some body"
    and t: "readTargets body = Inr ts" and k: "rh_KnownHosts host (sh_KnownHostsFile h)"
    unfolding buildSSHPlugin_def Let_def by (auto split: option.splits sum.splits if_splits)
  have v: "0 \<le> sh_Concurrency h" "sh_Concurrency h \<le> 1024" "0 \<le> sh_MaxOutputBytes h" "sh_MaxOutputBytes h \<le> 64 * 2 ^ 20"
    using assms(2,3) h by (auto simp: profile_valid_def)
  obtain u w where u: "parseDuration pdur (sh_ConnectTimeout h) (10 * second) = Some u"
    and w: "parseDuration pdur (sh_CommandTimeout h) (10 * second) = Some w"
    using assms(2,3) h unfolding profile_valid_def by auto
  note bounds = parseDuration_bounds [OF u] parseDuration_bounds [OF w]
  let ?conc = "if sh_Concurrency h = 0 then defaultConcurrency else sh_Concurrency h"
  let ?out = "if sh_MaxOutputBytes h = 0 then 4 * 2 ^ 20 else sh_MaxOutputBytes h"
  from assms(1) obtain sp where sp: "pl = SSHPlugin sp" "sp_Concurrency sp = ?conc" "sp_MaxOutputBytes sp = ?out"
    "sp_ConnectTimeout sp = u" "sp_CommandTimeout sp = w" and time: "timeout = job_timeout (length ts) ?conc u w"
    unfolding buildSSHPlugin_def Let_def h b u w option.case or_else_def t sum.case
    by (auto simp del: if_split_asm split: option.splits sum.splits if_split_asm)
  have conc: "1 \<le> ?conc" "?conc \<le> 1024" using v by (auto simp: defaultConcurrency_def)
  show thesis
    by (rule that [OF h b t k sp(1)])
      (use sp conc v bounds time job_timeout_bounds [OF conc(1) readTargets_sound(2) [OF t], of u w] in auto)
qed

text \<open>What a profile allows a discovery to be.\<close>

definition within_profile ::
  "relay_host \<Rightarrow> file_config \<Rightarrow> relay_job \<Rightarrow> time \<Rightarrow> profile_config \<Rightarrow> relay_plugin \<Rightarrow> discovery_request \<Rightarrow> bool" where
  "within_profile host c j now p pl q \<longleftrightarrow>
     p \<in> set (fc_Profiles c) \<and> pf_ID p = rj_ProfileID j
     \<and> dr_JobID q = rj_JobID j \<and> dr_SiteID q = fc_SiteID c \<and> dr_CollectorID q = fc_RelayID c
     \<and> now < dr_Deadline q \<and> dr_Deadline q \<le> now + maxDiscoveryDuration
     \<and> (if pf_Plugin p = ''local'' then pl = LocalPlugin \<and> dr_Targets q = [''local'']
        else pf_Plugin p = ''ssh-linux'' \<and> dr_Targets q \<noteq> [] \<and> length (dr_Targets q) \<le> maxTargets
          \<and> (\<exists>h body sp. pf_SSH p = Some h \<and> rh_KnownHosts host (sh_KnownHostsFile h)
               \<and> rh_TargetsFile host (pf_TargetsFile p) = Some body
               \<and> (\<forall>t \<in> set (dr_Targets q). target_line body t \<and> parseTarget t \<noteq> None)
               \<and> pl = SSHPlugin sp \<and> (sp_Password sp \<noteq> [] \<or> sp_Signer sp \<noteq> None)
               \<and> 1 \<le> sp_Concurrency sp \<and> sp_Concurrency sp \<le> 1024
               \<and> 0 < sp_ConnectTimeout sp \<and> sp_ConnectTimeout sp \<le> 10 * minute
               \<and> 0 < sp_CommandTimeout sp \<and> sp_CommandTimeout sp \<le> 10 * minute
               \<and> 1 \<le> sp_MaxOutputBytes sp \<and> sp_MaxOutputBytes sp \<le> 64 * 2 ^ 20))"

lemma relay_Execute_cases:
  assumes "relay_Execute pdur host run now c j = (started, r)"
  obtains (none) err where "started = []" "r = Inl err"
  | (run) p pl ts timeout q where "validateJob j = None" "Profile c (rj_ProfileID j) = Some p"
      "buildPlugin pdur host p = Inr (pl, ts, timeout)"
      "q = \<lparr>dr_JobID = rj_JobID j, dr_SiteID = fc_SiteID c, dr_CollectorID = fc_RelayID c,
          dr_Targets = ts, dr_Deadline = now + timeout\<rparr>"
      "plugin_accepts pl q" "started = [(pl, q)]"
      "r = (case run pl q of Inl err \<Rightarrow> Inl (DiscoverFailed err) | Inr obs \<Rightarrow> Inr obs)"
  using assms unfolding relay_Execute_def Let_def
  by (auto split: option.splits sum.splits if_splits)

lemma built_within:
  assumes "ValidateConfig pdur c = None" "Profile c (rj_ProfileID j) = Some p"
    and "buildPlugin pdur host p = Inr (pl, ts, timeout)"
    and q: "q = \<lparr>dr_JobID = rj_JobID j, dr_SiteID = fc_SiteID c, dr_CollectorID = fc_RelayID c,
          dr_Targets = ts, dr_Deadline = now + timeout\<rparr>"
    and "plugin_accepts pl q"
  shows "within_profile host c j now p pl q"
proof -
  note m = Profile_member [OF assms(2)]
  have v: "profile_valid pdur p" using ValidateConfig_sound(2) [OF assms(1)] m by blast
  show ?thesis
  proof (cases "pf_Plugin p = ''local''")
    case True
    then show ?thesis using assms(3) m q by (auto simp: within_profile_def buildPlugin_def maxDiscoveryDuration_def)
  next
    case False
    then have ssh: "pf_Plugin p = ''ssh-linux''" using v by (simp add: profile_valid_def split: if_splits)
    then have b: "buildSSHPlugin pdur host p = Inr (pl, ts, timeout)" using assms(3) by (simp add: buildPlugin_def)
    obtain h body sp where f: "pf_SSH p = Some h" "rh_TargetsFile host (pf_TargetsFile p) = Some body"
      "readTargets body = Inr ts" "rh_KnownHosts host (sh_KnownHostsFile h)" "pl = SSHPlugin sp"
      "1 \<le> sp_Concurrency sp" "sp_Concurrency sp \<le> 1024" "1 \<le> sp_MaxOutputBytes sp" "sp_MaxOutputBytes sp \<le> 64 * 2 ^ 20"
      "0 < sp_ConnectTimeout sp" "sp_ConnectTimeout sp \<le> 10 * minute" "0 < sp_CommandTimeout sp" "sp_CommandTimeout sp \<le> 10 * minute"
      "0 < timeout" "timeout \<le> maxDiscoveryDuration"
      using buildSSHPlugin_sound [OF b v ssh] by blast
    have "\<forall>t \<in> set ts. target_line body t \<and> parseTarget t \<noteq> None" "sp_Password sp \<noteq> [] \<or> sp_Signer sp \<noteq> None"
      using assms(5) readTargets_sound(3) [OF f(3)] f(5) q by (auto simp: list_all_iff)
    then show ?thesis
      unfolding within_profile_def using m ssh False f readTargets_sound(1,2) [OF f(3)] q by auto
  qed
qed

text \<open>
  C36: a job cannot make the relay leave its local configuration. With a validated configuration
  \<open>Executor.Execute\<close> starts at most one discovery; it is the one of the unique profile the job names,
  with that profile's plugin and bounds, only targets listed in its targets file, and a deadline in the
  future but within the limit; and an observation is returned only from that discovery.
\<close>

theorem relay_execute_confined:
  assumes "ValidateConfig pdur c = None" "relay_Execute pdur host run now c j = (started, r)"
  shows "length started \<le> 1
    \<and> (\<forall>(pl, q) \<in> set started. (\<exists>!p. p \<in> set (fc_Profiles c) \<and> pf_ID p = rj_ProfileID j)
         \<and> (\<exists>p. within_profile host c j now p pl q))
    \<and> (\<forall>obs. r = Inr obs \<longrightarrow> (\<exists>pl q. started = [(pl, q)] \<and> run pl q = Inr obs))"
  using assms(2)
proof (cases rule: relay_Execute_cases)
  case (run p pl ts timeout q)
  have w: "within_profile host c j now p pl q"
    by (rule built_within [OF assms(1) run(2,3,4,5)])
  have "\<exists>!p. p \<in> set (fc_Profiles c) \<and> pf_ID p = rj_ProfileID j"
    using distinct_key [OF ValidateConfig_sound(1) [OF assms(1)]] Profile_member [OF run(2)] by metis
  with w show ?thesis using run(6,7) by (auto split: sum.splits)
qed simp

definition relay_demo_host :: relay_host where
  "relay_demo_host = \<lparr>rh_TargetsFile = (\<lambda>_. Some (''u@h:22'' @ [CHR 0x0A] @ ''# x'')), rh_KnownHosts = (\<lambda>_. True),
     rh_Resolve = (\<lambda>_. Some ''s''), rh_ParseKey = (\<lambda>_. True)\<rparr>"

definition relay_demo_config :: file_config where
  "relay_demo_config = \<lparr>fc_SchemaVersion = ''v1alpha1'', fc_RelayID = ''r'', fc_SiteID = ''s'', fc_Profiles =
     [\<lparr>pf_ID = ''p'', pf_Plugin = ''ssh-linux'', pf_TargetsFile = ''/t'',
       pf_SSH = Some \<lparr>sh_PasswordRef = ''env:P'', sh_PrivateKeyRef = [], sh_KnownHostsFile = ''/k'', sh_Concurrency = 0,
         sh_ConnectTimeout = [], sh_CommandTimeout = [], sh_MaxOutputBytes = 0\<rparr>\<rparr>]\<rparr>"

lemma relay_demo_valid: "ValidateConfig (\<lambda>_. None) relay_demo_config = None"
  by (simp add: ValidateConfig_def relay_demo_config_def RelayContractVersion_def safeID_def is_alnum_def maxProfiles_def
      profile_valid_def IsAbs_def has_prefix_def parseDuration_def)

lemma relay_demo_targets: "readTargets (''u@h:22'' @ [CHR 0x0A] @ ''# x'') = Inr [''u@h:22'']"
  by (simp add: readTargets_def maxTargetsBytes_def maxTargetLine_def maxTargets_def trim_space_def rune_chunks_ascii_all
      is_space_def has_prefix_def Let_def)

lemma relay_demo_parse: "parseTarget ''u@h:22'' \<noteq> None"
  by (simp add: parseTarget_def host_part_def last_part_def SplitHostPort_ok_def Let_def)

lemma relay_demo_execute:
  "relay_Execute (\<lambda>_. None) relay_demo_host (\<lambda>_ _. Inr obs) 0 relay_demo_config
     \<lparr>rj_JobID = ''j'', rj_Type = ''discover'', rj_ProfileID = ''p'', rj_RequestedAt = 0\<rparr> =
   (let pl = SSHPlugin \<lparr>sp_Password = ''s'', sp_Signer = None, sp_Concurrency = 32, sp_ConnectTimeout = 10 * second,
          sp_CommandTimeout = 10 * second, sp_MaxOutputBytes = 4194304\<rparr>;
        q = \<lparr>dr_JobID = ''j'', dr_SiteID = ''s'', dr_CollectorID = ''r'', dr_Targets = [''u@h:22''], dr_Deadline = 90 * second\<rparr>
    in ([(pl, q)], Inr obs))"
  using relay_demo_parse
  by (simp add: relay_Execute_def validateJob_def RelayJobTypeDiscover_def Profile_def relay_demo_config_def relay_demo_host_def
      buildPlugin_def buildSSHPlugin_def relay_demo_targets [simplified] parseDuration_def or_else_def defaultConcurrency_def job_timeout_def
      maxDiscoveryDuration_def Let_def)

theorem relay_execute_confined_witness:
  "\<exists>p. within_profile relay_demo_host relay_demo_config
      \<lparr>rj_JobID = ''j'', rj_Type = ''discover'', rj_ProfileID = ''p'', rj_RequestedAt = 0\<rparr> 0 p
      (SSHPlugin \<lparr>sp_Password = ''s'', sp_Signer = None, sp_Concurrency = 32, sp_ConnectTimeout = 10 * second,
          sp_CommandTimeout = 10 * second, sp_MaxOutputBytes = 4194304\<rparr>)
      \<lparr>dr_JobID = ''j'', dr_SiteID = ''s'', dr_CollectorID = ''r'', dr_Targets = [''u@h:22''], dr_Deadline = 90 * second\<rparr>"
  using relay_execute_confined [OF relay_demo_valid relay_demo_execute [of sample_observation, unfolded Let_def]] by simp

end
