(* ===== verification/Ecc_Contract.thy ===== *)
theory Ecc_Contract
  imports Worker_Partition Json_Codec
begin

text \<open>
  The records of the ServiceNow ECC queue (\<open>internal/mid/contract.go\<close>), their validation, the digest
  that identifies a record across a claim, and the dispatcher (\<open>internal/mid/dispatcher.go\<close>).
\<close>

section \<open>Records\<close>

definition AgentPrefix :: string where "AgentPrefix = ''mid.server.''"
definition TopicHeartbeat :: string where "TopicHeartbeat = ''Heartbeat''"
definition QueueInput :: string where "QueueInput = ''input''"
definition QueueOutput :: string where "QueueOutput = ''output''"
definition StateReady :: string where "StateReady = ''ready''"
definition StateProcessing :: string where "StateProcessing = ''processing''"
definition StateProcessed :: string where "StateProcessed = ''processed''"
definition UnsupportedCode :: string where "UnsupportedCode = ''topo_unsupported_topic''"
definition ClaimConflictCode :: string where "ClaimConflictCode = ''topo_claim_conflict''"
definition maxMIDNameBytes :: nat where "maxMIDNameBytes = 128"
definition maxShortFieldBytes :: nat where "maxShortFieldBytes = 512"
definition maxParametersBytes :: nat where "maxParametersBytes = 262144"
definition maxPayloadBytes :: nat where "maxPayloadBytes = 1048576"
definition maxErrorStringBytes :: nat where "maxErrorStringBytes = 4096"
definition maxECCRecordJSONBytes :: nat where "maxECCRecordJSONBytes = 2097152"

record ecc =
  er_SysID :: string
  er_Agent :: string
  er_Topic :: string
  er_Name :: string
  er_Source :: string
  er_Queue :: string
  er_State :: string
  er_ResponseTo :: string
  er_AgentCorrelator :: string
  er_Parameters :: string
  er_Payload :: string
  er_ErrorString :: string
  er_CreatedOn :: string

datatype ecc_error = BadMIDName | BadSysID | OtherAgent | NotOutput | BadState | NotInput | BadResponseTo
  | ShortField | EmptyTopic | ParametersTooLarge | PayloadTooLarge | ErrorStringTooLarge | RecordTooLarge

definition AgentName :: "string \<Rightarrow> ecc_error + string" where
  "AgentName midName = (if \<not> safeID midName then Inl BadMIDName else Inr (AgentPrefix @ midName))"

definition valid_sys_id :: "string \<Rightarrow> bool" where
  "valid_sys_id s \<longleftrightarrow> length s = 32 \<and> list_all is_hex_digit s"

definition hasControl :: "string \<Rightarrow> bool" where
  "hasControl s \<longleftrightarrow> \<not> list_all (\<lambda>r. \<not> (r < 0x20 \<or> r = 0x7F)) (runes s)"

text \<open>\<open>strings.Map\<close> also replaces bytes that are not UTF-8.\<close>

definition boundedText :: "string \<Rightarrow> nat \<Rightarrow> string" where
  "boundedText s limit =
     (let v = concat (map snd (filter (\<lambda>(r, c). \<not> (r < 0x20 \<or> r = 0x7F)) (rune_chunks (utf8_fix s))))
      in if length v \<le> limit then v else take limit v @ ''...'')"

text \<open>The order in which Go visits the short fields is unspecified; only whether one fails matters.\<close>

definition short_fields :: "ecc \<Rightarrow> string list" where
  "short_fields r = [er_Agent r, er_Topic r, er_Name r, er_Source r, er_Queue r, er_State r, er_ResponseTo r,
     er_AgentCorrelator r, er_CreatedOn r]"

definition validateRecordFields :: "ecc \<Rightarrow> ecc_error option" where
  "validateRecordFields r =
     (if \<not> list_all (\<lambda>v. length v \<le> maxShortFieldBytes \<and> \<not> hasControl v) (short_fields r) then Some ShortField
      else if er_Topic r = [] then Some EmptyTopic
      else if length (er_Parameters r) > maxParametersBytes then Some ParametersTooLarge
      else if length (er_Payload r) > maxPayloadBytes then Some PayloadTooLarge
      else if length (er_ErrorString r) > maxErrorStringBytes then Some ErrorStringTooLarge
      else None)"

definition validateOutputRecord :: "ecc \<Rightarrow> string \<Rightarrow> ecc_error option" where
  "validateOutputRecord r agent =
     (if \<not> valid_sys_id (er_SysID r) then Some BadSysID
      else if er_Agent r \<noteq> agent then Some OtherAgent
      else if er_Queue r \<noteq> QueueOutput then Some NotOutput
      else if er_State r \<noteq> StateReady \<and> er_State r \<noteq> StateProcessing \<and> er_State r \<noteq> StateProcessed then Some BadState
      else validateRecordFields r)"

definition validateInputRecord :: "ecc \<Rightarrow> string \<Rightarrow> ecc_error option" where
  "validateInputRecord r agent =
     (if er_SysID r \<noteq> [] \<and> \<not> valid_sys_id (er_SysID r) then Some BadSysID
      else if er_Agent r \<noteq> agent \<or> er_Queue r \<noteq> QueueInput \<or> er_State r \<noteq> StateReady then Some NotInput
      else if \<not> valid_sys_id (er_ResponseTo r) then Some BadResponseTo
      else validateRecordFields r)"

text \<open>\<open>marshal\<close> is \<open>json.Marshal\<close> of a record.\<close>

definition recordDigest :: "(string \<Rightarrow> string) \<Rightarrow> (ecc \<Rightarrow> string) \<Rightarrow> ecc \<Rightarrow> ecc_error + string" where
  "recordDigest sha marshal r =
     (let encoded = marshal (r\<lparr>er_State := [], er_CreatedOn := []\<rparr>)
      in if length encoded > maxECCRecordJSONBytes then Inl RecordTooLarge else Inr (hex (sha encoded)))"

section \<open>The dispatcher\<close>

text \<open>\<open>xml\<close> is \<open>xml.Marshal\<close> of the result payload around this item.\<close>

record result_item =
  ri_Status :: string
  ri_Code :: string
  ri_Message :: string
  ri_Version :: string

definition answer_record :: "ecc \<Rightarrow> ecc" where
  "answer_record r = \<lparr>er_SysID = [], er_Agent = er_Agent r, er_Topic = er_Topic r, er_Name = er_Name r, er_Source = er_Source r,
     er_Queue = QueueInput, er_State = StateReady, er_ResponseTo = er_SysID r, er_AgentCorrelator = er_AgentCorrelator r,
     er_Parameters = er_Parameters r, er_Payload = [], er_ErrorString = [], er_CreatedOn = []\<rparr>"

definition checked :: "ecc \<Rightarrow> string \<Rightarrow> ecc_error + ecc" where
  "checked result agent = (case validateInputRecord result agent of Some err \<Rightarrow> Inl err | None \<Rightarrow> Inr result)"

definition Dispatch :: "(result_item \<Rightarrow> string) \<Rightarrow> string \<Rightarrow> ecc \<Rightarrow> ecc_error + ecc" where
  "Dispatch xml version r =
     (let result = answer_record r
      in if er_Topic r = TopicHeartbeat
         then let item = \<lparr>ri_Status = ''success'', ri_Code = [], ri_Message = ''Topo ECC heartbeat acknowledged'',
                    ri_Version = boundedText version 128\<rparr>
              in checked (result\<lparr>er_Payload := xml item\<rparr>) (er_Agent r)
         else let message = ''Topo denied an unsupported ECC topic'';
                item = \<lparr>ri_Status = ''error'', ri_Code = UnsupportedCode, ri_Message = message, ri_Version = []\<rparr>
              in checked (result\<lparr>er_Name := ''Topo unsupported ECC topic'', er_ErrorString := message, er_Payload := xml item\<rparr>)
                   (er_Agent r))"

definition dispatchError :: "(result_item \<Rightarrow> string) \<Rightarrow> ecc \<Rightarrow> string \<Rightarrow> string \<Rightarrow> ecc_error + ecc" where
  "dispatchError xml r code message =
     (let err = boundedText message maxErrorStringBytes;
        item = \<lparr>ri_Status = ''error'', ri_Code = boundedText code 128, ri_Message = err, ri_Version = []\<rparr>
      in checked ((answer_record r)\<lparr>er_Name := ''Topo denied ECC record'', er_ErrorString := err, er_Payload := xml item\<rparr>)
           (er_Agent r))"

lemma checked_Inr: "checked result agent = Inr r \<longleftrightarrow> r = result \<and> validateInputRecord result agent = None"
  by (auto simp: checked_def split: option.splits)

end
