(* ===== verification/Ecc_Client.thy ===== *)
theory Ecc_Client
  imports Ecc_Contract
begin

text \<open>
  The SOAP client of the ECC queue (\<open>internal/mid/client.go\<close>, \<open>xml.go\<close>) talking to the instance that
  \<open>internal/mid/eccsim/server.go\<close> simulates. A text field that travels through XML becomes \<open>wire\<close> of
  it; a request may be lost before it takes effect, or its answer may be lost afterwards. An encoded
  query is kept as the list of its terms: none of the values sent contains a separator.
\<close>

section \<open>The environment\<close>

record ecc_env =
  ee_wire :: "string \<Rightarrow> string"
  ee_lower :: "string \<Rightarrow> string"
  ee_sha :: "string \<Rightarrow> string"
  ee_marshal :: "ecc \<Rightarrow> string"
  ee_xml :: "result_item \<Rightarrow> string"
  ee_created :: "nat \<Rightarrow> string"
  ee_version :: string

definition plain_char :: "char \<Rightarrow> bool" where
  "plain_char c \<longleftrightarrow> 0x20 \<le> byte c \<and> byte c < 0x7F"

text \<open>
  XML keeps printable ASCII as it is, and \<open>strings.ToLower\<close> keeps printable ASCII without capitals.
\<close>

definition ecc_env_ok :: "ecc_env \<Rightarrow> bool" where
  "ecc_env_ok v \<longleftrightarrow> (\<forall>s. list_all plain_char s \<longrightarrow> ee_wire v s = s)
     \<and> (\<forall>s. list_all (\<lambda>c. plain_char c \<and> \<not> (65 \<le> byte c \<and> byte c \<le> 90)) s \<longrightarrow> ee_lower v s = s)"

datatype fate = Delivered | Dropped | AnswerLost

record ecc_instance =
  en_records :: "ecc gomap"
  en_nextID :: nat
  en_operations :: "string list"
  en_net :: "fate list"

section \<open>The simulated instance\<close>

text \<open>\<open>fmt.Sprintf("%032x", nextID)\<close>; the counter is taken as unbounded.\<close>

definition sys_id :: "nat \<Rightarrow> string" where
  "sys_id n = zpad 32 (text16 n)"

definition AddOutput ::
  "(nat \<Rightarrow> string) \<Rightarrow> string \<Rightarrow> string \<Rightarrow> string \<Rightarrow> string \<Rightarrow> string \<Rightarrow> string \<Rightarrow> string \<Rightarrow> ecc_instance \<Rightarrow> ecc_instance" where
  "AddOutput created agent topic name source parameters payload correlator i =
     (let k = sys_id (en_nextID i);
          r = \<lparr>er_SysID = k, er_Agent = agent, er_Topic = topic, er_Name = name, er_Source = source, er_Queue = QueueOutput,
            er_State = StateReady, er_ResponseTo = [], er_AgentCorrelator = correlator, er_Parameters = parameters,
            er_Payload = payload, er_ErrorString = [], er_CreatedOn = created (en_nextID i + 1)\<rparr>
      in i\<lparr>en_nextID := en_nextID i + 1, en_records := AList.update k r (en_records i)\<rparr>)"

datatype ecc_field = FSysID | FAgent | FQueue | FState | FResponseTo

fun field_of :: "ecc_field \<Rightarrow> ecc \<Rightarrow> string" where
  "field_of FSysID r = er_SysID r"
| "field_of FAgent r = er_Agent r"
| "field_of FQueue r = er_Queue r"
| "field_of FState r = er_State r"
| "field_of FResponseTo r = er_ResponseTo r"

definition matches :: "(ecc_field \<times> string) list \<Rightarrow> ecc \<Rightarrow> bool" where
  "matches terms r \<longleftrightarrow> list_all (\<lambda>(f, v). field_of f r = v) terms"

text \<open>Ordered by creation time, then by \<open>sys_id\<close>.\<close>

definition recordsLocked :: "ecc_instance \<Rightarrow> ecc list" where
  "recordsLocked i = sort_key er_CreatedOn (sort_key er_SysID (map snd (en_records i)))"

definition log_operation :: "string \<Rightarrow> ecc_instance \<Rightarrow> ecc_instance" where
  "log_operation op i = i\<lparr>en_operations := en_operations i @ [op]\<rparr>"

definition sim_getRecords :: "(ecc_field \<times> string) list \<Rightarrow> nat \<Rightarrow> ecc_instance \<Rightarrow> ecc list option \<times> ecc_instance" where
  "sim_getRecords terms limit i =
     (Some (take limit (filter (matches terms) (recordsLocked i))), log_operation ''getRecords'' i)"

definition sim_update :: "string \<Rightarrow> string \<Rightarrow> ecc_instance \<Rightarrow> string option \<times> ecc_instance" where
  "sim_update k state i =
     (let i = log_operation ''update'' i
      in case map_of (en_records i) k of None \<Rightarrow> (None, i)
         | Some r \<Rightarrow>
             if state \<noteq> StateProcessing \<and> state \<noteq> StateProcessed then (None, i)
             else (Some k, i\<lparr>en_records := AList.update k (r\<lparr>er_State := state\<rparr>) (en_records i)\<rparr>))"

definition sim_insert :: "(nat \<Rightarrow> string) \<Rightarrow> ecc \<Rightarrow> ecc_instance \<Rightarrow> string option \<times> ecc_instance" where
  "sim_insert created r i =
     (let i = log_operation ''insert'' i; k = sys_id (en_nextID i)
      in (Some k, i\<lparr>en_nextID := en_nextID i + 1,
            en_records := AList.update k (r\<lparr>er_SysID := k, er_CreatedOn := created (en_nextID i + 1)\<rparr>) (en_records i)\<rparr>))"

section \<open>Requests\<close>

definition next_fate :: "ecc_instance \<Rightarrow> fate \<times> ecc_instance" where
  "next_fate i = (case en_net i of [] \<Rightarrow> (Delivered, i) | x # xs \<Rightarrow> (x, i\<lparr>en_net := xs\<rparr>))"

text \<open>A request fails when it or its answer is lost, and when the instance answers with a fault.\<close>

definition soap_request :: "(ecc_instance \<Rightarrow> 'a option \<times> ecc_instance) \<Rightarrow> ecc_instance \<Rightarrow> 'a option \<times> ecc_instance" where
  "soap_request f i =
     (case next_fate i of
        (Dropped, i) \<Rightarrow> (None, i)
      | (Delivered, i) \<Rightarrow> f i
      | (AnswerLost, i) \<Rightarrow> (None, snd (f i)))"

definition map_record :: "(string \<Rightarrow> string) \<Rightarrow> ecc \<Rightarrow> ecc" where
  "map_record f r = \<lparr>er_SysID = f (er_SysID r), er_Agent = f (er_Agent r), er_Topic = f (er_Topic r), er_Name = f (er_Name r),
     er_Source = f (er_Source r), er_Queue = f (er_Queue r), er_State = f (er_State r), er_ResponseTo = f (er_ResponseTo r),
     er_AgentCorrelator = f (er_AgentCorrelator r), er_Parameters = f (er_Parameters r), er_Payload = f (er_Payload r),
     er_ErrorString = f (er_ErrorString r), er_CreatedOn = f (er_CreatedOn r)\<rparr>"

definition model :: "ecc_env \<Rightarrow> ecc \<Rightarrow> ecc" where
  "model v r = r\<lparr>er_SysID := trim_space (er_SysID r), er_Queue := ee_lower v (trim_space (er_Queue r)),
     er_State := ee_lower v (trim_space (er_State r)), er_ResponseTo := trim_space (er_ResponseTo r)\<rparr>"

definition maxPollRecords :: nat where "maxPollRecords = 16"

definition queryRecords ::
  "ecc_env \<Rightarrow> (ecc_field \<times> string) list \<Rightarrow> nat \<Rightarrow> ecc_instance \<Rightarrow> ecc list option \<times> ecc_instance" where
  "queryRecords v terms limit i =
     (if limit < 1 \<or> limit > maxPollRecords then (None, i)
      else case soap_request (sim_getRecords (map (\<lambda>(f, s). (f, ee_wire v s)) terms) limit) i of
        (None, i) \<Rightarrow> (None, i)
      | (Some rs, i) \<Rightarrow>
          let rs = map (model v \<circ> map_record (ee_wire v)) rs
          in if list_all (\<lambda>r. validateRecordFields r = None) rs then (Some rs, i) else (None, i))"

definition valid_mutation :: "ecc_env \<Rightarrow> string option \<times> ecc_instance \<Rightarrow> string option \<times> ecc_instance" where
  "valid_mutation v x =
     (case x of (None, i) \<Rightarrow> (None, i)
      | (Some s, i) \<Rightarrow>
          let s = trim_space (ee_wire v s) in if valid_sys_id s then (Some (ee_lower v s), i) else (None, i))"

definition mutate_update :: "ecc_env \<Rightarrow> string \<Rightarrow> string \<Rightarrow> ecc_instance \<Rightarrow> string option \<times> ecc_instance" where
  "mutate_update v k state i = valid_mutation v (soap_request (sim_update (ee_wire v k) (ee_wire v state)) i)"

definition mutate_insert :: "ecc_env \<Rightarrow> ecc \<Rightarrow> ecc_instance \<Rightarrow> string option \<times> ecc_instance" where
  "mutate_insert v r i = valid_mutation v (soap_request (sim_insert (ee_created v) (map_record (ee_wire v) r)) i)"

section \<open>The transport\<close>

definition ecc_Poll :: "ecc_env \<Rightarrow> string \<Rightarrow> nat \<Rightarrow> ecc_instance \<Rightarrow> ecc list option \<times> ecc_instance" where
  "ecc_Poll v agent limit i =
     (if \<not> has_prefix agent AgentPrefix \<or> length agent > length AgentPrefix + maxMIDNameBytes \<or> hasControl agent then (None, i)
      else case queryRecords v [(FAgent, agent), (FQueue, QueueOutput), (FState, StateReady)] limit i of
        (None, i) \<Rightarrow> (None, i)
      | (Some rs, i) \<Rightarrow>
          if list_all (\<lambda>r. validateOutputRecord r agent = None \<and> er_State r = StateReady) rs then (Some rs, i) else (None, i))"

definition ecc_Get :: "ecc_env \<Rightarrow> string \<Rightarrow> string \<Rightarrow> ecc_instance \<Rightarrow> ecc option \<times> ecc_instance" where
  "ecc_Get v k agent i =
     (if \<not> valid_sys_id k then (None, i)
      else case queryRecords v [(FSysID, k), (FAgent, agent)] 2 i of
        (Some [r], i) \<Rightarrow> (if validateOutputRecord r agent = None then Some r else None, i)
      | (_, i) \<Rightarrow> (None, i))"

definition digest_of :: "ecc_env \<Rightarrow> ecc \<Rightarrow> string option" where
  "digest_of v r = (case recordDigest (ee_sha v) (ee_marshal v) r of Inl _ \<Rightarrow> None | Inr d \<Rightarrow> Some d)"

definition ecc_Claim :: "ecc_env \<Rightarrow> ecc \<Rightarrow> ecc_instance \<Rightarrow> ecc option \<times> ecc_instance" where
  "ecc_Claim v r i =
     (if er_State r \<noteq> StateReady then (None, i)
      else case digest_of v r of None \<Rightarrow> (None, i)
      | Some digest \<Rightarrow>
        case mutate_update v (er_SysID r) StateProcessing i of (None, i) \<Rightarrow> (None, i)
        | (Some _, i) \<Rightarrow>
          case ecc_Get v (er_SysID r) (er_Agent r) i of (None, i) \<Rightarrow> (None, i)
          | (Some claimed, i) \<Rightarrow>
              (if er_State claimed = StateProcessing \<and> digest_of v claimed = Some digest then Some claimed else None, i))"

definition ecc_MarkProcessed :: "ecc_env \<Rightarrow> ecc \<Rightarrow> ecc_instance \<Rightarrow> string option \<times> ecc_instance" where
  "ecc_MarkProcessed v r i =
     (if \<not> valid_sys_id (er_SysID r) \<or> er_State r \<noteq> StateProcessing then (None, i)
      else mutate_update v (er_SysID r) StateProcessed i)"

definition ecc_FindResponses :: "ecc_env \<Rightarrow> string \<Rightarrow> string \<Rightarrow> ecc_instance \<Rightarrow> ecc list option \<times> ecc_instance" where
  "ecc_FindResponses v responseTo agent i =
     (if \<not> valid_sys_id responseTo then (None, i)
      else case queryRecords v [(FResponseTo, responseTo), (FAgent, agent), (FQueue, QueueInput)] 2 i of
        (None, i) \<Rightarrow> (None, i)
      | (Some rs, i) \<Rightarrow> if list_all (\<lambda>r. validateInputRecord r agent = None) rs then (Some rs, i) else (None, i))"

definition ecc_InsertResult :: "ecc_env \<Rightarrow> ecc \<Rightarrow> ecc_instance \<Rightarrow> string option \<times> ecc_instance" where
  "ecc_InsertResult v r i =
     (if validateInputRecord r (er_Agent r) \<noteq> None then (None, i) else mutate_insert v (r\<lparr>er_SysID := [], er_CreatedOn := []\<rparr>) i)"

end
