(* ===== verification/Ecc_Run.thy ===== *)
theory Ecc_Run
  imports Ecc_Client Spool
begin

text \<open>
  The crash journal (\<open>internal/mid/state.go\<close>) and the run loop (\<open>internal/mid/run.go\<close>). A file
  operation takes its outcome from a stream: \<open>FailsAfter n\<close> of a write leaves \<open>n\<close> bytes behind, of a
  removal removes the file without its directory being synced. A crash between two operations is a
  cycle whose next operation fails: whatever fails, the cycle returns and the next one starts from
  the journal.
\<close>

section \<open>The journal\<close>

definition journalVersion :: int where "journalVersion = 1"
definition maxJournalBytes :: nat where "maxJournalBytes = 8388608"

record journal_entry =
  je_Version :: int
  je_RecordID :: string
  je_RecordDigest :: string
  je_Result :: "ecc option"
  je_ResponseSysID :: string

datatype journal_error = BadVersion | BadRecordID | BadDigest | BadResponseSysID | BadResult ecc_error | OtherRecord

definition validateJournalEntry :: "journal_entry \<Rightarrow> journal_error option" where
  "validateJournalEntry e =
     (if je_Version e \<noteq> journalVersion then Some BadVersion
      else if \<not> valid_sys_id (je_RecordID e) then Some BadRecordID
      else if length (je_RecordDigest e) \<noteq> 64 \<or> \<not> hex_decodable (je_RecordDigest e) then Some BadDigest
      else if je_ResponseSysID e \<noteq> [] \<and> \<not> valid_sys_id (je_ResponseSysID e) then Some BadResponseSysID
      else case je_Result e of None \<Rightarrow> None
        | Some r \<Rightarrow>
            (case validateInputRecord r (er_Agent r) of Some err \<Rightarrow> Some (BadResult err)
             | None \<Rightarrow> if er_ResponseTo r \<noteq> je_RecordID e then Some OtherRecord else None))"

text \<open>\<open>jc_encode\<close> is \<open>json.Marshal\<close>, \<open>jc_decode\<close> a strict \<open>Decode\<close> of a whole line with nothing following.\<close>

record journal_codec =
  jc_encode :: "journal_entry \<Rightarrow> string"
  jc_decode :: "string \<Rightarrow> journal_entry option"

text \<open>
  What the journal relies on, for the entries it accepts. JSON text holds no raw newline and replaces invalid UTF-8; a proper prefix
  of an encoding is no JSON value; and a line made of beginnings of encodings, which appends that were
  cut short may leave, decodes only to one of the entries it is made of.
\<close>

definition fixed_entry :: "journal_entry \<Rightarrow> journal_entry" where
  "fixed_entry e = e\<lparr>je_RecordID := utf8_fix (je_RecordID e), je_RecordDigest := utf8_fix (je_RecordDigest e),
     je_Result := map_option (map_record utf8_fix) (je_Result e), je_ResponseSysID := utf8_fix (je_ResponseSysID e)\<rparr>"

definition journal_codec_ok :: "journal_codec \<Rightarrow> bool" where
  "journal_codec_ok j \<longleftrightarrow>
     (\<forall>e. validateJournalEntry e = None \<longrightarrow> CHR 0x0A \<notin> set (jc_encode j e)
        \<and> jc_decode j (jc_encode j e) = Some (fixed_entry e)
        \<and> (\<forall>n < length (jc_encode j e). jc_decode j (take n (jc_encode j e)) = None))
     \<and> (\<forall>ps e Q. jc_decode j (concat ps) = Some e
          \<longrightarrow> (\<forall>p \<in> set ps. \<exists>e n. validateJournalEntry e = None \<and> Q e \<and> p = take n (jc_encode j e))
          \<longrightarrow> (\<exists>e0. validateJournalEntry e0 = None \<and> Q e0 \<and> e = fixed_entry e0))"

text \<open>
  The lines of the file: every piece but the last ends with a newline, and only an undecodable last
  piece is ignored.
\<close>

fun load_lines :: "journal_codec \<Rightarrow> journal_entry option \<Rightarrow> string list \<Rightarrow> journal_entry option" where
  "load_lines j acc [] = acc"
| "load_lines j acc [piece] =
     (if piece = [] then acc
      else case jc_decode j piece of None \<Rightarrow> acc
        | Some e \<Rightarrow> if validateJournalEntry e = None then Some e else None)"
| "load_lines j acc (line # lines) =
     (case jc_decode j line of None \<Rightarrow> None
      | Some e \<Rightarrow> if validateJournalEntry e = None then load_lines j (Some e) lines else None)"

definition load_text :: "journal_codec \<Rightarrow> string \<Rightarrow> journal_entry option" where
  "load_text j s = (if length s > maxJournalBytes then None else load_lines j None (split_on (CHR 0x0A) s))"

record ecc_world =
  ew_instance :: ecc_instance
  ew_journal :: "string option"
  ew_io :: "io list"

definition next_outcome :: "ecc_world \<Rightarrow> io \<times> ecc_world" where
  "next_outcome w = (case ew_io w of [] \<Rightarrow> (Works, w) | x # xs \<Rightarrow> (x, w\<lparr>ew_io := xs\<rparr>))"

text \<open>\<open>None\<close> is an error, \<open>Some None\<close> no journal.\<close>

definition Load :: "journal_codec \<Rightarrow> ecc_world \<Rightarrow> journal_entry option option \<times> ecc_world" where
  "Load j w =
     (case next_outcome w of
        (Works, w) \<Rightarrow>
          (case ew_journal w of None \<Rightarrow> (Some None, w)
           | Some s \<Rightarrow> (case load_text j s of None \<Rightarrow> None | Some e \<Rightarrow> Some (Some e), w))
      | (_, w) \<Rightarrow> (None, w))"

definition journal_text :: "ecc_world \<Rightarrow> string" where
  "journal_text w = (case ew_journal w of None \<Rightarrow> [] | Some s \<Rightarrow> s)"

definition Save :: "journal_codec \<Rightarrow> journal_entry \<Rightarrow> ecc_world \<Rightarrow> bool \<times> ecc_world" where
  "Save j e w =
     (if validateJournalEntry e \<noteq> None then (False, w)
      else let line = jc_encode j e @ [CHR 0x0A]
        in if length line > maxECCRecordJSONBytes then (False, w)
           else case next_outcome w of
             (Works, w) \<Rightarrow> (True, w\<lparr>ew_journal := Some (journal_text w @ line)\<rparr>)
           | (Fails, w) \<Rightarrow> (False, w)
           | (FailsAfter n, w) \<Rightarrow> (False, w\<lparr>ew_journal := Some (journal_text w @ take n line)\<rparr>))"

definition Clear :: "ecc_world \<Rightarrow> bool \<times> ecc_world" where
  "Clear w =
     (case next_outcome w of
        (Works, w) \<Rightarrow> (True, w\<lparr>ew_journal := None\<rparr>)
      | (Fails, w) \<Rightarrow> (False, w)
      | (FailsAfter _, w) \<Rightarrow> (False, w\<lparr>ew_journal := None\<rparr>))"

section \<open>The run loop\<close>

definition on_instance :: "(ecc_instance \<Rightarrow> 'a \<times> ecc_instance) \<Rightarrow> ecc_world \<Rightarrow> 'a \<times> ecc_world" where
  "on_instance f w = (case f (ew_instance w) of (x, i) \<Rightarrow> (x, w\<lparr>ew_instance := i\<rparr>))"

text \<open>The result of a claimed record: kept from the journal, or dispatched and journaled.\<close>

definition result_step ::
  "ecc_env \<Rightarrow> journal_codec \<Rightarrow> ecc \<Rightarrow> journal_entry \<Rightarrow> ecc_world \<Rightarrow> (journal_entry \<times> ecc) option \<times> ecc_world" where
  "result_step v j r e w =
     (case digest_of v r of None \<Rightarrow> (None, w)
      | Some digest \<Rightarrow>
        case je_Result e of Some result \<Rightarrow> (Some (e, result), w)
        | None \<Rightarrow>
          case (if digest \<noteq> je_RecordDigest e
                then dispatchError (ee_xml v) r ClaimConflictCode ''Topo denied an ECC record that changed during claim''
                else Dispatch (ee_xml v) (ee_version v) r) of
            Inl _ \<Rightarrow> (None, w)
          | Inr result \<Rightarrow>
              let e = e\<lparr>je_Result := Some result\<rparr>
              in case Save j e w of (False, w) \<Rightarrow> (None, w) | (True, w) \<Rightarrow> (Some (e, result), w))"

definition respond_step :: "ecc_env \<Rightarrow> string \<Rightarrow> ecc \<Rightarrow> ecc \<Rightarrow> ecc_world \<Rightarrow> string option \<times> ecc_world" where
  "respond_step v agent r result w =
     (case on_instance (ecc_FindResponses v (er_SysID r) agent) w of
        (None, w) \<Rightarrow> (None, w)
      | (Some rs, w) \<Rightarrow>
          if length rs > 1 then (None, w)
          else if length rs = 1 then (Some (er_SysID (hd rs)), w)
          else on_instance (ecc_InsertResult v result) w)"

definition complete_step :: "ecc_env \<Rightarrow> journal_codec \<Rightarrow> ecc \<Rightarrow> journal_entry \<Rightarrow> ecc_world \<Rightarrow> bool \<times> ecc_world" where
  "complete_step v j r e w =
     (case Save j e w of (False, w) \<Rightarrow> (False, w)
      | (True, w) \<Rightarrow>
        case on_instance (ecc_MarkProcessed v r) w of (None, w) \<Rightarrow> (False, w)
        | (Some _, w) \<Rightarrow> Clear w)"

definition process_step :: "ecc_env \<Rightarrow> journal_codec \<Rightarrow> string \<Rightarrow> ecc \<Rightarrow> journal_entry \<Rightarrow> ecc_world \<Rightarrow> bool \<times> ecc_world" where
  "process_step v j agent r e w =
     (if er_State r \<noteq> StateProcessing then (False, w)
      else case result_step v j r e w of (None, w) \<Rightarrow> (False, w)
      | (Some (e, result), w) \<Rightarrow>
        case respond_step v agent r result w of (None, w) \<Rightarrow> (False, w)
        | (Some k, w) \<Rightarrow> complete_step v j r (e\<lparr>je_ResponseSysID := k\<rparr>) w)"

definition resumeClaim :: "ecc_env \<Rightarrow> journal_codec \<Rightarrow> string \<Rightarrow> journal_entry \<Rightarrow> ecc_world \<Rightarrow> bool \<times> ecc_world" where
  "resumeClaim v j agent e w =
     (case on_instance (ecc_Get v (je_RecordID e) agent) w of
        (None, w) \<Rightarrow> (False, w)
      | (Some r, w) \<Rightarrow>
          if er_State r = StateProcessed then Clear w
          else if er_State r = StateReady
          then (case on_instance (ecc_Claim v r) w of (None, w) \<Rightarrow> (False, w)
                | (Some r, w) \<Rightarrow> process_step v j agent r e w)
          else process_step v j agent r e w)"

fun process_records :: "ecc_env \<Rightarrow> journal_codec \<Rightarrow> string \<Rightarrow> ecc list \<Rightarrow> ecc_world \<Rightarrow> ecc_world" where
  "process_records v j agent [] w = w"
| "process_records v j agent (r # rs) w =
     (case digest_of v r of None \<Rightarrow> w
      | Some digest \<Rightarrow>
        let e = \<lparr>je_Version = journalVersion, je_RecordID = er_SysID r, je_RecordDigest = digest,
              je_Result = None, je_ResponseSysID = []\<rparr>
        in case Save j e w of (False, w) \<Rightarrow> w
           | (True, w) \<Rightarrow>
             case resumeClaim v j agent e w of (False, w) \<Rightarrow> w
             | (True, w) \<Rightarrow> process_records v j agent rs w)"

definition ecc_runCycle :: "ecc_env \<Rightarrow> journal_codec \<Rightarrow> string \<Rightarrow> nat \<Rightarrow> ecc_world \<Rightarrow> ecc_world" where
  "ecc_runCycle v j agent batch w =
     (case Load j w of
        (None, w) \<Rightarrow> w
      | (Some (Some e), w) \<Rightarrow> snd (resumeClaim v j agent e w)
      | (Some None, w) \<Rightarrow>
          (case on_instance (ecc_Poll v agent batch) w of (None, w) \<Rightarrow> w
           | (Some rs, w) \<Rightarrow> process_records v j agent rs w))"

text \<open>What happens to the world: cycles of this MID, and ServiceNow queueing records for any agent.\<close>

datatype ecc_event = Cycle | Queued string string string string string string string

fun ecc_step :: "ecc_env \<Rightarrow> journal_codec \<Rightarrow> string \<Rightarrow> nat \<Rightarrow> ecc_event \<Rightarrow> ecc_world \<Rightarrow> ecc_world" where
  "ecc_step v j agent batch Cycle w = ecc_runCycle v j agent batch w"
| "ecc_step v j agent batch (Queued to_agent topic name source parameters payload correlator) w =
     w\<lparr>ew_instance := AddOutput (ee_created v) to_agent topic name source parameters payload correlator (ew_instance w)\<rparr>"

definition ecc_start :: "fate list \<Rightarrow> io list \<Rightarrow> ecc_world" where
  "ecc_start net ios = \<lparr>ew_instance = \<lparr>en_records = [], en_nextID = 1, en_operations = [], en_net = net\<rparr>,
     ew_journal = None, ew_io = ios\<rparr>"

end
