(* ===== verification/Ecc_Properties.thy ===== *)
theory Ecc_Properties
  imports Ecc_Run
begin

text \<open>
  What the run loop and the journal keep, over whole histories in which requests, answers, appends
  and removals fail anywhere: no ECC record is answered twice, and none is marked processed unanswered.
\<close>

section \<open>Texts that survive the wire\<close>

lemma plain_hex: "is_hex_digit c \<Longrightarrow> plain_char c \<and> byte c < 0x80 \<and> \<not> is_space (byte c)"
  by (auto simp: is_hex_digit_def plain_char_def is_space_def)

lemma sys_id_plain: "valid_sys_id s \<Longrightarrow> list_all plain_char s \<and> trim_space s = s"
  using trim_space_text [of s] plain_hex by (auto simp: valid_sys_id_def list_all_iff)

lemma wire_plain: "ecc_env_ok v \<Longrightarrow> list_all plain_char s \<Longrightarrow> ee_wire v s = s"
  unfolding ecc_env_ok_def by blast

lemma wire_sys_id: "ecc_env_ok v \<Longrightarrow> valid_sys_id s \<Longrightarrow> ee_wire v s = s"
  by (rule wire_plain) (auto dest: sys_id_plain)

lemma AgentName_plain: "AgentName m = Inr agent \<Longrightarrow> list_all plain_char agent"
proof -
  have alnum: "is_alnum c \<Longrightarrow> plain_char c" for c
    by (auto simp: is_alnum_def is_digit_def plain_char_def)
  assume "AgentName m = Inr agent"
  then have m: "safeID m" "agent = AgentPrefix @ m" by (auto simp: AgentName_def split: if_splits)
  have "list_all plain_char AgentPrefix" by (simp add: AgentPrefix_def plain_char_def)
  moreover have "list_all plain_char m"
  proof (cases m)
    case (Cons c cs)
    have sep: "plain_char d" if "is_alnum d \<or> d \<in> set ''._-''" for d
      using that alnum by (auto simp: plain_char_def)
    have "is_alnum c" "list_all (\<lambda>c. is_alnum c \<or> c \<in> set ''._-'') cs" using m(1) Cons unfolding safeID_def by auto
    then show ?thesis using Cons sep unfolding list_all_iff by simp
  qed simp
  ultimately show ?thesis using m(2) by simp
qed

lemma queue_words: "list_all plain_char QueueInput" "list_all plain_char QueueOutput" "list_all plain_char StateReady"
  "list_all plain_char StateProcessing" "list_all plain_char StateProcessed" "list_all plain_char TopicHeartbeat"
  by (simp_all add: QueueInput_def QueueOutput_def StateReady_def StateProcessing_def StateProcessed_def TopicHeartbeat_def
      plain_char_def)

lemma words_distinct [simp]: "QueueInput \<noteq> QueueOutput" "QueueOutput \<noteq> QueueInput" "StateReady \<noteq> StateProcessing" "StateReady \<noteq> StateProcessed" "StateProcessing \<noteq> StateProcessed"
  "StateProcessing \<noteq> StateReady"
  by (simp_all add: QueueInput_def QueueOutput_def StateReady_def StateProcessing_def StateProcessed_def)

lemma lower_words:
  assumes "ecc_env_ok v"
  shows "ee_lower v (trim_space QueueInput) = QueueInput"
proof -
  have "trim_space QueueInput = QueueInput" by (rule trim_space_text) (simp add: QueueInput_def is_space_def)
  moreover have "ee_lower v QueueInput = QueueInput"
    using assms by (simp add: ecc_env_ok_def QueueInput_def plain_char_def)
  ultimately show ?thesis by simp
qed

lemma sys_id_inj: "sys_id m = sys_id n \<Longrightarrow> m = n"
proof -
  have "read16 (replicate k (CHR ''0'') @ s) = read16 s" for k s
    by (induction k) (simp_all add: read16_def hex_value_def)
  then have "read16 (sys_id n) = n" for n by (simp add: sys_id_def zpad_def)
  then show "sys_id m = sys_id n \<Longrightarrow> m = n" by metis
qed

section \<open>The instance\<close>

definition responses :: "string \<Rightarrow> ecc_instance \<Rightarrow> ecc list" where
  "responses s i = filter (\<lambda>r. er_Queue r = QueueInput \<and> er_ResponseTo r = s) (map snd (en_records i))"

definition denial_texts :: "string set" where
  "denial_texts = {''Topo denied an unsupported ECC topic'', ''Topo denied an ECC record that changed during claim''}"

text \<open>An answer of this agent: to the Heartbeat topic, or a denial.\<close>

definition honest :: "string \<Rightarrow> ecc \<Rightarrow> bool" where
  "honest agent r \<longleftrightarrow> er_Agent r = agent \<and> er_Queue r = QueueInput \<and> (er_Topic r = TopicHeartbeat \<or> er_ErrorString r \<in> denial_texts)"

definition sane_record :: "string \<Rightarrow> nat \<Rightarrow> string \<times> ecc \<Rightarrow> bool" where
  "sane_record agent n kr \<longleftrightarrow> er_SysID (snd kr) = fst kr \<and> (\<exists>m < n. fst kr = sys_id m)
     \<and> (er_Queue (snd kr) = QueueOutput \<or> honest agent (snd kr))"

text \<open>A record of the output queue that ServiceNow addressed to this agent.\<close>

definition queued :: "string \<Rightarrow> string \<Rightarrow> ecc_instance \<Rightarrow> bool" where
  "queued agent k i \<longleftrightarrow> (\<exists>r. map_of (en_records i) k = Some r \<and> er_Queue r = QueueOutput \<and> er_Agent r = agent)"

definition sane_instance :: "string \<Rightarrow> ecc_instance \<Rightarrow> bool" where
  "sane_instance agent i \<longleftrightarrow> gm_wf (en_records i) \<and> list_all (sane_record agent (en_nextID i)) (en_records i)
     \<and> (\<forall>s. length (responses s i) \<le> 1) \<and> (\<forall>s. responses s i \<noteq> [] \<longrightarrow> queued agent s i)
     \<and> (\<forall>k r. map_of (en_records i) k = Some r \<and> er_Queue r = QueueOutput \<and> er_State r = StateProcessed
          \<longrightarrow> length (responses k i) = 1)"

definition same_core :: "ecc_instance \<Rightarrow> ecc_instance \<Rightarrow> bool" where
  "same_core i i' \<longleftrightarrow> en_records i' = en_records i \<and> en_nextID i' = en_nextID i"

lemma same_core_refl [simp]: "same_core i i"
  by (simp add: same_core_def)

lemma same_core_trans: "same_core i j \<Longrightarrow> same_core j k \<Longrightarrow> same_core i k"
  by (simp add: same_core_def)

lemma sane_core: "same_core i i' \<Longrightarrow> sane_instance agent i' = sane_instance agent i"
  by (simp add: same_core_def sane_instance_def responses_def queued_def)

lemma responses_core: "same_core i i' \<Longrightarrow> responses s i' = responses s i"
  by (simp add: same_core_def responses_def)

lemma queued_core: "same_core i i' \<Longrightarrow> queued agent k i' = queued agent k i"
  by (simp add: same_core_def queued_def)

lemma soap_request_cases:
  assumes "soap_request f i = (x, i')"
  obtains i0 where "same_core i i0" "x = None" "i' = i0"
  | i0 y where "same_core i i0" "f i0 = (y, i')" "x = None \<or> x = y"
proof -
  obtain t i0 where n: "next_fate i = (t, i0)" by fastforce
  then have c: "same_core i i0" by (auto simp: next_fate_def same_core_def split: list.splits)
  show thesis
  proof (cases t)
    case Dropped
    then show thesis using that(1) [OF c] assms n by (simp add: soap_request_def)
  next
    case Delivered
    then show thesis using that(2) [OF c, of x] assms n by (simp add: soap_request_def)
  next
    case AnswerLost
    then show thesis using that(2) [OF c, of "fst (f i0)"] assms n by (auto simp: soap_request_def)
  qed
qed

abbreviation view :: "ecc_env \<Rightarrow> ecc \<Rightarrow> ecc" where
  "view v r \<equiv> model v (map_record (ee_wire v) r)"

lemma queryRecords_result:
  assumes "queryRecords v terms limit i = (x, i')"
  shows "same_core i i' \<and> (\<forall>rs. x = Some rs \<longrightarrow>
    rs = map (view v) (take limit (filter (matches (map (\<lambda>(f, s). (f, ee_wire v s)) terms)) (recordsLocked i))))"
proof (cases "limit < 1 \<or> limit > maxPollRecords")
  case False
  let ?terms = "map (\<lambda>(f, s). (f, ee_wire v s)) terms"
  obtain y i1 where rq: "soap_request (sim_getRecords ?terms limit) i = (y, i1)" by fastforce
  have y: "same_core i i1 \<and> (\<forall>rs. y = Some rs \<longrightarrow> rs = take limit (filter (matches ?terms) (recordsLocked i)))"
    using rq by (cases rule: soap_request_cases)
      (auto simp: sim_getRecords_def log_operation_def same_core_def recordsLocked_def)
  then show ?thesis using assms rq False by (cases y) (auto simp: queryRecords_def Let_def comp_def split: if_splits)
qed (use assms in \<open>auto simp: queryRecords_def\<close>)

lemma set_recordsLocked: "set (recordsLocked i) = set (map snd (en_records i))"
  by (simp add: recordsLocked_def)

lemma sane_lookup: "sane_instance agent i \<Longrightarrow> r \<in> set (recordsLocked i) \<Longrightarrow>
    map_of (en_records i) (er_SysID r) = Some r \<and> sane_record agent (en_nextID i) (er_SysID r, r)"
  (is "_ \<Longrightarrow> _ \<Longrightarrow> ?thesis")
proof -
  assume s: "sane_instance agent i" and "r \<in> set (recordsLocked i)"
  then obtain k where k: "(k, r) \<in> set (en_records i)" by (auto simp: set_recordsLocked)
  then have "sane_record agent (en_nextID i) (k, r)" using s by (auto simp: sane_instance_def list_all_iff)
  moreover from this have "er_SysID r = k" by (simp add: sane_record_def)
  moreover have "map_of (en_records i) k = Some r" using k s by (simp add: sane_instance_def)
  ultimately show ?thesis by simp
qed

lemma ecc_Poll_core: "ecc_Poll v agent n i = (x, i') \<Longrightarrow> same_core i i'"
  using queryRecords_result [of v _ n i]
  by (auto simp: ecc_Poll_def split: if_splits prod.splits option.splits)

lemma ecc_Get_result:
  assumes "ecc_Get v k agent i = (x, i')"
  shows "same_core i i' \<and> (\<forall>r. x = Some r \<longrightarrow> valid_sys_id k
    \<and> (\<exists>r0 \<in> set (recordsLocked i). er_SysID r0 = ee_wire v k \<and> r = view v r0) \<and> er_Queue r = QueueOutput \<and> er_Agent r = agent)"
proof (cases "valid_sys_id k")
  case True
  obtain y i1 where q: "queryRecords v [(FSysID, k), (FAgent, agent)] 2 i = (y, i1)" by fastforce
  note y = queryRecords_result [OF q]
  show ?thesis
  proof (cases "\<exists>r. y = Some [r]")
    case True
    then obtain r where r: "y = Some [r]" by blast
    then have "r \<in> set (map (view v) (take 2 (filter (matches [(FSysID, ee_wire v k), (FAgent, ee_wire v agent)]) (recordsLocked i))))"
      using y by (metis (no_types, lifting) list.set_intros(1) list.map(2) case_prod_conv list.map(1))
    then obtain r0 where "r0 \<in> set (take 2 (filter (matches [(FSysID, ee_wire v k), (FAgent, ee_wire v agent)]) (recordsLocked i)))"
      and view: "r = view v r0" by auto
    then have "r0 \<in> set (filter (matches [(FSysID, ee_wire v k), (FAgent, ee_wire v agent)]) (recordsLocked i))"
      by (blast dest: in_set_takeD)
    then have "r0 \<in> set (recordsLocked i)" "er_SysID r0 = ee_wire v k" by (auto simp: matches_def)
    note this view
    with assms q r y \<open>valid_sys_id k\<close> show ?thesis
      by (auto simp: ecc_Get_def validateOutputRecord_def split: if_splits)
  next
    case False
    then have "x = None \<and> i' = i1"
      using assms q True by (auto simp: ecc_Get_def split: option.splits list.splits)
    then show ?thesis using y by blast
  qed
qed (use assms in \<open>auto simp: ecc_Get_def\<close>)

text \<open>The record that a \<open>Get\<close> returns is one of the queue for this agent, whatever the wire does to texts.\<close>

lemma ecc_Get_queued:
  assumes "ecc_env_ok v" "list_all plain_char agent" "sane_instance agent i" "ecc_Get v k agent i = (Some r, i')"
  shows "queued agent k i'"
proof -
  obtain y i1 where q: "queryRecords v [(FSysID, k), (FAgent, agent)] 2 i = (y, i1)" by fastforce
  have k: "valid_sys_id k" and y: "y = Some [r]" "i' = i1" and out: "er_Queue r = QueueOutput"
    using assms(4) q by (auto simp: ecc_Get_def validateOutputRecord_def split: if_splits option.splits list.splits)
  note res = queryRecords_result [OF q]
  have wires: "map (\<lambda>(f, s). (f, ee_wire v s)) [(FSysID, k), (FAgent, agent)] = [(FSysID, k), (FAgent, agent)]"
    using wire_sys_id [OF assms(1) k] wire_plain [OF assms(1,2)] by simp
  have "r \<in> set (map (view v) (take 2 (filter (matches [(FSysID, k), (FAgent, agent)]) (recordsLocked i))))"
    using res y(1) unfolding wires by (metis list.set_intros(1))
  then obtain r0 where "r0 \<in> set (filter (matches [(FSysID, k), (FAgent, agent)]) (recordsLocked i))" and r: "r = view v r0"
    by (auto dest: in_set_takeD)
  then have r0: "r0 \<in> set (recordsLocked i)" "er_SysID r0 = k" "er_Agent r0 = agent" by (auto simp: matches_def)
  note found = sane_lookup [OF assms(3) r0(1)]
  have "er_Queue r0 = QueueOutput"
  proof (rule ccontr)
    assume "er_Queue r0 \<noteq> QueueOutput"
    then have "er_Queue r0 = QueueInput" using found by (auto simp: sane_record_def honest_def)
    then have "er_Queue r = QueueInput"
      using r wire_plain [OF assms(1) queue_words(1)] lower_words [OF assms(1)] by (simp add: model_def map_record_def)
    then show False using out by simp
  qed
  then have "queued agent k i" using found r0 unfolding queued_def by auto
  then show ?thesis using queued_core res y(2) by blast
qed

section \<open>What a mutation does\<close>

lemma update_present: "gm_wf al \<Longrightarrow> k \<in> set (map fst al) \<Longrightarrow> AList.update k v al = map (\<lambda>p. if fst p = k then (k, v) else p) al"
proof (induction al)
  case (Cons p al)
  obtain a b where p: "p = (a, b)" by fastforce
  have "map (\<lambda>p. if fst p = k then (k, v) else p) al = al" if "k \<notin> set (map fst al)"
    using that by (intro map_idI) auto
  then show ?case using Cons p by auto
qed simp

lemma update_absent: "k \<notin> set (map fst al) \<Longrightarrow> AList.update k v al = al @ [(k, v)]"
  by (induction al) auto

definition sets_state :: "string \<Rightarrow> string \<Rightarrow> ecc_instance \<Rightarrow> ecc_instance \<Rightarrow> bool" where
  "sets_state k st i i' \<longleftrightarrow> en_nextID i' = en_nextID i
     \<and> (\<exists>r. map_of (en_records i) k = Some r \<and> en_records i' = AList.update k (r\<lparr>er_State := st\<rparr>) (en_records i))"

lemma sets_state_responses:
  assumes "sets_state k st i i'" "gm_wf (en_records i)"
  shows "length (responses s i') = length (responses s i)"
proof -
  obtain r where r: "map_of (en_records i) k = Some r" "en_records i' = AList.update k (r\<lparr>er_State := st\<rparr>) (en_records i)"
    using assms(1) unfolding sets_state_def by blast
  let ?f = "\<lambda>p. if fst p = k then (k, r\<lparr>er_State := st\<rparr>) else p"
  let ?P = "\<lambda>r. er_Queue r = QueueInput \<and> er_ResponseTo r = s"
  have "k \<in> set (map fst (en_records i))" using r(1) by (auto dest: map_of_SomeD intro: rev_image_eqI)
  then have recs: "en_records i' = map ?f (en_records i)" using update_present [OF assms(2)] r(2) by simp
  have "filter (\<lambda>p. ?P (snd (?f p))) (en_records i) = filter (\<lambda>p. ?P (snd p)) (en_records i)"
  proof (rule filter_cong [OF refl])
    fix p assume "p \<in> set (en_records i)"
    then have "map_of (en_records i) (fst p) = Some (snd p)" using assms(2) by simp
    then show "?P (snd (?f p)) = ?P (snd p)" using r(1) by auto
  qed
  then show ?thesis unfolding responses_def recs by (simp add: filter_map comp_def)
qed

lemma sets_state_queued:
  assumes "sets_state k st i i'"
  shows "queued agent s i' = queued agent s i"
proof -
  obtain r where r: "map_of (en_records i) k = Some r" "en_records i' = AList.update k (r\<lparr>er_State := st\<rparr>) (en_records i)"
    using assms unfolding sets_state_def by blast
  show ?thesis by (cases "s = k") (simp_all add: queued_def r update_conv')
qed

lemma sets_state_sane:
  assumes "sets_state k st i i'" "sane_instance agent i" "st = StateProcessed \<Longrightarrow> length (responses k i) = 1"
  shows "sane_instance agent i'"
proof -
  obtain r where r: "map_of (en_records i) k = Some r" "en_records i' = AList.update k (r\<lparr>er_State := st\<rparr>) (en_records i)"
    "en_nextID i' = en_nextID i"
    using assms(1) unfolding sets_state_def by blast
  have wf: "gm_wf (en_records i)" using assms(2) by (simp add: sane_instance_def)
  note len = sets_state_responses [OF assms(1) wf]
  have ans: "queued agent s i'" if "responses s i' \<noteq> []" for s
  proof -
    have "responses s i \<noteq> []" using that len [of s] by (metis length_0_conv)
    then show ?thesis using assms(2) unfolding sets_state_queued [OF assms(1)] sane_instance_def by blast
  qed
  have dom: "k \<in> set (map fst (en_records i))" using r(1) by (auto dest: map_of_SomeD intro: rev_image_eqI)
  have "list_all (sane_record agent (en_nextID i)) (en_records i)" using assms(2) by (simp add: sane_instance_def)
  then have s: "sane_record agent (en_nextID i) p" if "p \<in> set (en_records i)" for p using that by (simp add: list_all_iff)
  have "sane_record agent (en_nextID i) (k, r\<lparr>er_State := st\<rparr>)"
    using s [of "(k, r)"] map_of_SomeD [OF r(1)] by (simp add: sane_record_def honest_def)
  then have all: "list_all (sane_record agent (en_nextID i')) (en_records i')"
    unfolding r(2,3) update_present [OF wf dom] list_all_iff using s by auto
  have "length (responses k' i') = 1"
    if "map_of (en_records i') k' = Some r'" "er_Queue r' = QueueOutput" "er_State r' = StateProcessed" for k' r'
  proof (cases "k' = k")
    case True
    then have "r' = r\<lparr>er_State := st\<rparr>" using that(1) r(2) by (simp add: update_conv')
    then show ?thesis using that(3) assms(3) len True by simp
  next
    case False
    then have "map_of (en_records i) k' = Some r'" using that(1) r(2) by (simp add: update_conv')
    then show ?thesis using that(2,3) assms(2) len unfolding sane_instance_def by auto
  qed
  then show ?thesis using all wf assms(2) len ans unfolding sane_instance_def r(2) by (simp add: distinct_update)
qed

definition adds_record :: "string \<Rightarrow> ecc \<Rightarrow> ecc_instance \<Rightarrow> ecc_instance \<Rightarrow> bool" where
  "adds_record k r i i' \<longleftrightarrow> k = sys_id (en_nextID i) \<and> en_nextID i' = en_nextID i + 1 \<and> er_SysID r = k
     \<and> en_records i' = AList.update k r (en_records i)"

lemma adds_record_fresh:
  assumes "adds_record k r i i'" "sane_instance agent i"
  shows "k \<notin> set (map fst (en_records i))" "en_records i' = en_records i @ [(k, r)]"
proof -
  show fresh: "k \<notin> set (map fst (en_records i))"
  proof
    assume "k \<in> set (map fst (en_records i))"
    then obtain p where "p \<in> set (en_records i)" "fst p = k" by auto
    then obtain m where "m < en_nextID i" "sys_id m = k" using assms(2) by (auto simp: sane_instance_def list_all_iff sane_record_def)
    then show False using sys_id_inj [of m "en_nextID i"] assms(1) by (simp add: adds_record_def)
  qed
  then show "en_records i' = en_records i @ [(k, r)]"
    using assms(1) update_absent [of k "en_records i" r] unfolding adds_record_def by simp
qed

lemma adds_record_responses:
  assumes "adds_record k r i i'" "sane_instance agent i"
  shows "responses s i' = responses s i @ (if er_Queue r = QueueInput \<and> er_ResponseTo r = s then [r] else [])"
  unfolding responses_def adds_record_fresh(2) [OF assms] by simp

lemma adds_record_queued:
  assumes "adds_record k r i i'" "sane_instance agent i" "queued agent s i"
  shows "queued agent s i'"
  using adds_record_fresh [OF assms(1,2)] assms(3) unfolding queued_def by (auto simp: map_add_def split: option.splits dest: map_of_SomeD)

lemma adds_record_sane:
  assumes "adds_record k r i i'" "sane_instance agent i"
    and "er_Queue r = QueueOutput \<or> honest agent r \<and> responses (er_ResponseTo r) i = [] \<and> queued agent (er_ResponseTo r) i"
    and "er_State r \<noteq> StateProcessed"
  shows "sane_instance agent i'"
proof -
  note f = adds_record_fresh [OF assms(1,2)] and resp = adds_record_responses [OF assms(1,2)]
  have "sane_record agent (en_nextID i') p" if "p \<in> set (en_records i)" for p
    using that assms(1,2) by (auto simp: sane_instance_def list_all_iff sane_record_def adds_record_def less_Suc_eq)
  moreover have "sane_record agent (en_nextID i') (k, r)"
    using assms(1,3) by (auto simp: sane_record_def adds_record_def)
  ultimately have "list_all (sane_record agent (en_nextID i')) (en_records i')" unfolding f(2) by (simp add: list_all_iff)
  moreover have "gm_wf (en_records i')" using f assms(2) by (simp add: sane_instance_def)
  moreover have "length (responses s i') \<le> 1" for s
    using assms(2,3) resp [of s] by (auto simp: sane_instance_def)
  moreover have "queued agent s i'" if "responses s i' \<noteq> []" for s
  proof -
    have "responses s i \<noteq> [] \<or> er_Queue r = QueueInput \<and> er_ResponseTo r = s" using that resp [of s] by (auto split: if_splits)
    then have "queued agent s i" using assms(2,3) unfolding sane_instance_def by auto
    then show ?thesis by (rule adds_record_queued [OF assms(1,2)])
  qed
  moreover have "length (responses k' i') = 1"
    if "map_of (en_records i') k' = Some r'" "er_Queue r' = QueueOutput" "er_State r' = StateProcessed" for k' r'
  proof -
    have "map_of (en_records i) k' = Some r'"
      using that assms(4) f unfolding f(2) by (auto simp: map_add_def split: option.splits if_splits)
    then have "length (responses k' i) = 1" using that(2,3) assms(2) unfolding sane_instance_def by blast
    then show ?thesis using resp [of k'] \<open>length (responses k' i') \<le> 1\<close> by auto
  qed
  ultimately show ?thesis unfolding sane_instance_def by auto
qed

lemma sim_update_effect:
  assumes "sim_update k st i = (y, i')"
  shows "same_core i i' \<or> (st = StateProcessing \<or> st = StateProcessed) \<and> sets_state k st i i'"
  using assms by (auto simp: sim_update_def Let_def log_operation_def same_core_def sets_state_def split: option.splits if_splits)

lemma mutate_update_effect:
  assumes "mutate_update v k st i = (x, i')"
  obtains i0 where "same_core i i0"
    "same_core i0 i' \<or> (ee_wire v st = StateProcessing \<or> ee_wire v st = StateProcessed) \<and> sets_state (ee_wire v k) (ee_wire v st) i0 i'"
proof -
  obtain y where rq: "soap_request (sim_update (ee_wire v k) (ee_wire v st)) i = (y, i')"
    using assms by (cases "soap_request (sim_update (ee_wire v k) (ee_wire v st)) i")
      (auto simp: mutate_update_def valid_mutation_def Let_def split: option.splits if_splits)
  from rq show thesis
    by (cases rule: soap_request_cases) (use that sim_update_effect same_core_refl in metis)+
qed

lemma mutate_insert_effect:
  assumes "mutate_insert v r i = (x, i')"
  obtains i0 where "same_core i i0" "same_core i0 i' \<and> x = None"
  | i0 k where "same_core i i0" "adds_record k ((map_record (ee_wire v) r)\<lparr>er_SysID := k, er_CreatedOn := ee_created v (en_nextID i0 + 1)\<rparr>) i0 i'"
proof -
  obtain y where rq: "soap_request (sim_insert (ee_created v) (map_record (ee_wire v) r)) i = (y, i')" and y: "y = None \<Longrightarrow> x = None"
    using assms by (cases "soap_request (sim_insert (ee_created v) (map_record (ee_wire v) r)) i")
      (auto simp: mutate_insert_def valid_mutation_def Let_def split: option.splits if_splits)
  from rq show thesis
  proof (cases rule: soap_request_cases)
    case (1 i0)
    then show thesis using that(1) y by auto
  next
    case (2 i0 z)
    then show thesis using that(2) [of i0 "sys_id (en_nextID i0)"]
      by (auto simp: sim_insert_def Let_def log_operation_def adds_record_def)
  qed
qed

section \<open>The transport keeps the instance sane_instance\<close>

text \<open>An instance is replaced by one with at least the responses and the queued records it had.\<close>

definition advances :: "string \<Rightarrow> ecc_instance \<Rightarrow> ecc_instance \<Rightarrow> bool" where
  "advances agent i i' \<longleftrightarrow> sane_instance agent i \<longrightarrow> sane_instance agent i'
     \<and> (\<forall>s. length (responses s i) \<le> length (responses s i')) \<and> (\<forall>k. queued agent k i \<longrightarrow> queued agent k i')"

lemma advances_core: "same_core i i' \<Longrightarrow> advances agent i i'"
  unfolding advances_def using sane_core responses_core queued_core by fastforce

lemma advances_trans: "advances agent i j \<Longrightarrow> advances agent j k \<Longrightarrow> advances agent i k"
  unfolding advances_def by (meson le_trans)

lemma advances_set_state:
  assumes "sets_state k st i i'" "st = StateProcessed \<Longrightarrow> sane_instance agent i \<Longrightarrow> length (responses k i) = 1"
  shows "advances agent i i'"
  unfolding advances_def
proof (intro impI conjI allI)
  assume s: "sane_instance agent i"
  then show "sane_instance agent i'" using sets_state_sane [OF assms(1) s] assms(2) by blast
  show "length (responses x i) \<le> length (responses x i')" for x
    using sets_state_responses [OF assms(1)] s by (simp add: sane_instance_def)
  show "queued agent x i'" if "queued agent x i" for x using that sets_state_queued [OF assms(1)] by simp
qed

lemma ecc_Claim_advances:
  assumes "ecc_env_ok v" "ecc_Claim v r i = (x, i')" "list_all plain_char (er_SysID r)"
  shows "advances agent i i' \<and> (\<forall>c. x = Some c \<longrightarrow>
    (\<exists>i0 r0. r0 \<in> set (recordsLocked i0) \<and> er_SysID r0 = ee_wire v (er_SysID r) \<and> c = view v r0)
    \<and> er_Agent c = er_Agent r \<and> er_State c = StateProcessing)"
proof (cases "er_State r = StateReady \<and> digest_of v r \<noteq> None")
  case True
  then obtain digest where d: "er_State r = StateReady" "digest_of v r = Some digest" by auto
  obtain y i1 where m: "mutate_update v (er_SysID r) StateProcessing i = (y, i1)" by fastforce
  have w: "ee_wire v StateProcessing = StateProcessing" by (rule wire_plain [OF assms(1) queue_words(4)])
  from m have a1: "advances agent i i1"
  proof (rule mutate_update_effect)
    fix i0 assume c: "same_core i i0"
      "same_core i0 i1 \<or> (ee_wire v StateProcessing = StateProcessing \<or> ee_wire v StateProcessing = StateProcessed)
         \<and> sets_state (ee_wire v (er_SysID r)) (ee_wire v StateProcessing) i0 i1"
    have "advances agent i0 i1" using c(2) advances_core advances_set_state unfolding w by (metis words_distinct(5))
    then show ?thesis using advances_trans advances_core [OF c(1)] by blast
  qed
  show ?thesis
  proof (cases y)
    case None
    then show ?thesis using assms(2) d m a1 by (auto simp: ecc_Claim_def)
  next
    case (Some k)
    obtain z i2 where g: "ecc_Get v (er_SysID r) (er_Agent r) i1 = (z, i2)" by fastforce
    note gr = ecc_Get_result [OF g]
    have "i' = i2 \<and> (x = None \<or> x = z \<and> (\<forall>c. z = Some c \<longrightarrow> er_State c = StateProcessing))"
      using assms(2) d m Some g by (auto simp: ecc_Claim_def split: option.splits if_splits)
    then show ?thesis using gr a1 advances_trans advances_core by blast
  qed
qed (use assms(2) in \<open>auto simp: ecc_Claim_def advances_core split: option.splits\<close>)

lemma ecc_MarkProcessed_advances:
  assumes "ecc_env_ok v" "ecc_MarkProcessed v r i = (x, i')" "sane_instance agent i \<Longrightarrow> length (responses (er_SysID r) i) = 1"
  shows "advances agent i i'"
proof (cases "valid_sys_id (er_SysID r) \<and> er_State r = StateProcessing")
  case True
  then have m: "mutate_update v (er_SysID r) StateProcessed i = (x, i')" using assms(2) by (simp add: ecc_MarkProcessed_def)
  have w: "ee_wire v (er_SysID r) = er_SysID r" using wire_sys_id [OF assms(1)] True by blast
  from m show ?thesis
  proof (rule mutate_update_effect)
    fix i0 assume c: "same_core i i0"
      "same_core i0 i' \<or> (ee_wire v StateProcessed = StateProcessing \<or> ee_wire v StateProcessed = StateProcessed)
         \<and> sets_state (ee_wire v (er_SysID r)) (ee_wire v StateProcessed) i0 i'"
    have "length (responses (er_SysID r) i0) = 1" if "sane_instance agent i0"
      using that assms(3) sane_core [OF c(1)] responses_core [OF c(1)] by simp
    then have "advances agent i0 i'" using c(2) advances_core advances_set_state unfolding w by metis
    then show ?thesis using advances_trans advances_core [OF c(1)] by blast
  qed
qed (use assms(2) in \<open>auto simp: ecc_MarkProcessed_def advances_core\<close>)

lemma length_recordsLocked_filter: "length (filter P (recordsLocked i)) = length (filter P (map snd (en_records i)))"
proof -
  have "mset (recordsLocked i) = mset (map snd (en_records i))" by (simp add: recordsLocked_def)
  then show ?thesis by (metis mset_filter size_mset)
qed

lemma ecc_FindResponses_count:
  assumes "ecc_env_ok v" "list_all plain_char agent" "sane_instance agent i" "ecc_FindResponses v s agent i = (x, i')"
  shows "same_core i i' \<and> (\<forall>rs. x = Some rs \<longrightarrow> length rs = length (responses s i))"
proof (cases "valid_sys_id s")
  case True
  let ?terms = "[(FResponseTo, s), (FAgent, agent), (FQueue, QueueInput)]"
  obtain y i1 where q: "queryRecords v ?terms 2 i = (y, i1)" by fastforce
  note y = queryRecords_result [OF q]
  have wires: "map (\<lambda>(f, s). (f, ee_wire v s)) ?terms = ?terms"
    using wire_sys_id [OF assms(1) True] wire_plain [OF assms(1) assms(2)] wire_plain [OF assms(1) queue_words(1)] by simp
  have "filter (matches ?terms) (map snd (en_records i)) = responses s i"
    unfolding responses_def
  proof (rule filter_cong [OF refl])
    fix r assume "r \<in> set (map snd (en_records i))"
    then have "er_Queue r = QueueOutput \<or> honest agent r"
      using assms(3) by (auto simp: sane_instance_def list_all_iff sane_record_def)
    then show "matches ?terms r = (er_Queue r = QueueInput \<and> er_ResponseTo r = s)"
      by (auto simp: matches_def honest_def)
  qed
  then have len: "length (filter (matches ?terms) (recordsLocked i)) = length (responses s i)"
    by (simp add: length_recordsLocked_filter)
  have "length (responses s i) \<le> 1" using assms(3) by (simp add: sane_instance_def)
  then have "length rs = length (responses s i)" if "y = Some rs" for rs
    using y that len unfolding wires by simp
  then show ?thesis using assms(4) q True y
    by (auto simp: ecc_FindResponses_def split: option.splits if_splits)
qed (use assms(4) in \<open>simp add: ecc_FindResponses_def\<close>)

text \<open>A result of this agent that answers the record \<open>s\<close>, before it is inserted.\<close>

definition reply :: "string \<Rightarrow> string \<Rightarrow> ecc \<Rightarrow> bool" where
  "reply agent s r \<longleftrightarrow> honest agent r \<and> er_ResponseTo r = s"

lemma denials_plain: "t \<in> denial_texts \<Longrightarrow> list_all plain_char t"
  by (auto simp: denial_texts_def plain_char_def)

lemma wire_reply:
  assumes "ecc_env_ok v" "list_all plain_char agent" "valid_sys_id s" "reply agent s r"
  shows "reply agent s (map_record (ee_wire v) r)"
proof -
  have w: "ee_wire v agent = agent" "ee_wire v QueueInput = QueueInput" "ee_wire v s = s" "ee_wire v TopicHeartbeat = TopicHeartbeat"
    using wire_plain [OF assms(1)] assms(2) queue_words wire_sys_id [OF assms(1,3)] by blast+
  have "ee_wire v t = t" if "t \<in> denial_texts" for t using wire_plain [OF assms(1) denials_plain [OF that]] .
  then show ?thesis using assms(4) w unfolding reply_def honest_def by (auto simp: map_record_def)
qed

lemma ecc_InsertResult_effect:
  assumes "ecc_env_ok v" "list_all plain_char agent" "valid_sys_id s" "reply agent s r" "sane_instance agent i" "responses s i = []"
    and "queued agent s i" "ecc_InsertResult v r i = (x, i')"
  shows "advances agent i i' \<and> (x \<noteq> None \<longrightarrow> length (responses s i') = 1)"
proof (cases "validateInputRecord r (er_Agent r) = None")
  case True
  let ?r = "r\<lparr>er_SysID := [], er_CreatedOn := []\<rparr>"
  have rep: "reply agent s (map_record (ee_wire v) ?r)"
    using wire_reply [OF assms(1-3), of ?r] assms(4) by (simp add: reply_def honest_def)
  have ready: "er_State (map_record (ee_wire v) ?r) = StateReady"
    using True wire_plain [OF assms(1) queue_words(3)] by (auto simp: validateInputRecord_def map_record_def split: if_splits)
  have "mutate_insert v ?r i = (x, i')" using assms(8) True by (simp add: ecc_InsertResult_def)
  then show ?thesis
  proof (rule mutate_insert_effect)
    fix i0 assume "same_core i i0" "same_core i0 i' \<and> x = None"
    then show ?thesis using same_core_trans advances_core by blast
  next
    fix i0 :: ecc_instance and k :: string
    let ?n = "(map_record (ee_wire v) ?r)\<lparr>er_SysID := k, er_CreatedOn := ee_created v (en_nextID i0 + 1)\<rparr>"
    assume c: "same_core i i0" and add: "adds_record k ?n i0 i'"
    have s0: "sane_instance agent i0" using assms(5) sane_core [OF c] by simp
    have n: "honest agent ?n" "er_ResponseTo ?n = s" "er_Queue ?n = QueueInput" "er_State ?n = StateReady"
      using rep ready by (simp_all add: reply_def honest_def)
    have "sane_instance agent i'"
      by (rule adds_record_sane [OF add s0]) (use n assms(6,7) responses_core [OF c] queued_core [OF c] in simp_all)
    moreover have "responses q i' = responses q i @ (if q = s then [?n] else [])" for q
      unfolding adds_record_responses [OF add s0] responses_core [OF c] n(2,3) by simp
    moreover have "queued agent q i'" if "queued agent q i" for q
      using adds_record_queued [OF add s0] queued_core [OF c] that by simp
    ultimately show ?thesis using assms(6) unfolding advances_def by simp
  qed
qed (use assms(8) in \<open>auto simp: ecc_InsertResult_def advances_core\<close>)

section \<open>The journal\<close>

lemma plain_utf8: "list_all plain_char s \<Longrightarrow> utf8_fix s = s"
proof -
  assume "list_all plain_char s"
  then have "\<forall>c \<in> set s. byte c < 0x80" by (auto simp: list_all_iff plain_char_def)
  then have "valid_utf8 s" by (auto simp: valid_utf8_def rune_chunks_ascii_all)
  then show ?thesis by (rule utf8_fix_valid)
qed

lemma honest_fixed:
  assumes "list_all plain_char agent" "honest agent r"
  shows "honest agent (map_record utf8_fix r)"
  using assms(2) plain_utf8 [OF assms(1)] plain_utf8 [OF queue_words(1)] plain_utf8 [OF queue_words(6)]
    plain_utf8 [OF denials_plain, of "er_ErrorString r"]
  unfolding honest_def by (auto simp: map_record_def)

lemma split_on_nonempty [simp]: "split_on c s \<noteq> []"
  by (cases s) (auto split: list.splits)

lemma split_on_append: "split_on c (s @ t) = butlast (split_on c s) @ (last (split_on c s) @ hd (split_on c t)) # tl (split_on c t)"
proof (induction s)
  case (Cons x s)
  obtain w ws where w: "split_on c s = w # ws" using split_on_nonempty [of c s] by (cases "split_on c s") auto
  show ?case using Cons w by (cases ws) (auto split: list.splits)
qed simp

lemma split_on_none: "c \<notin> set s \<Longrightarrow> split_on c s = [s]"
  by (induction s) auto

definition honest_entry :: "string \<Rightarrow> journal_entry \<Rightarrow> bool" where
  "honest_entry agent e \<longleftrightarrow> (\<forall>r. je_Result e = Some r \<longrightarrow> honest agent r)"

definition written :: "string \<Rightarrow> journal_codec \<Rightarrow> string \<Rightarrow> bool" where
  "written agent j line \<longleftrightarrow>
     (\<exists>ps. line = concat ps \<and> (\<forall>p \<in> set ps. \<exists>e n. validateJournalEntry e = None \<and> honest_entry agent e \<and> p = take n (jc_encode j e)))"

definition written_text :: "string \<Rightarrow> journal_codec \<Rightarrow> string \<Rightarrow> bool" where
  "written_text agent j s \<longleftrightarrow> (\<forall>l \<in> set (split_on (CHR 0x0A) s). written agent j l)"

lemma written_Nil [simp]: "written agent j []"
  unfolding written_def by (rule exI [of _ "[]"]) simp

lemma written_append:
  assumes "written agent j l" "honest_entry agent e" "validateJournalEntry e = None"
  shows "written agent j (l @ take n (jc_encode j e))"
proof -
  obtain ps where "l = concat ps" "\<forall>p \<in> set ps. \<exists>e n. validateJournalEntry e = None \<and> honest_entry agent e \<and> p = take n (jc_encode j e)"
    using assms(1) unfolding written_def by blast
  then show ?thesis unfolding written_def using assms(2,3) by (intro exI [of _ "ps @ [take n (jc_encode j e)]"]) auto
qed

lemma written_text_snoc:
  assumes "written_text agent j s" "split_on (CHR 0x0A) t = [l]" "written agent j (last (split_on (CHR 0x0A) s) @ l)"
  shows "written_text agent j (s @ t)"
  unfolding written_text_def split_on_append assms(2) list.sel
proof
  fix x assume "x \<in> set (butlast (split_on (CHR 0x0A) s) @ [last (split_on (CHR 0x0A) s) @ l])"
  then have "x \<in> set (split_on (CHR 0x0A) s) \<or> x = last (split_on (CHR 0x0A) s) @ l"
    unfolding set_append list.set using in_set_butlastD by fast
  then show "written agent j x" using assms(1,3) unfolding written_text_def by blast
qed

lemma written_last: "written_text agent j s \<Longrightarrow> written agent j (last (split_on (CHR 0x0A) s))"
  unfolding written_text_def using last_in_set [OF split_on_nonempty] by blast

lemma split_on_newline: "split_on c (s @ [c]) = split_on c s @ [[]]"
proof (induction s)
  case (Cons x s)
  show ?case using Cons split_on_nonempty [of c s] by (cases "split_on c s") auto
qed simp

lemma written_text_newline:
  assumes "written_text agent j s"
  shows "written_text agent j (s @ [CHR 0x0A])"
  unfolding written_text_def split_on_newline
proof
  fix l assume "l \<in> set (split_on (CHR 0x0A) s @ [[]])"
  then consider "l \<in> set (split_on (CHR 0x0A) s)" | "l = []" by auto
  then show "written agent j l"
  proof cases
    case 1
    then show ?thesis using assms unfolding written_text_def by (rule bspec [rotated])
  next
    case 2
    then show ?thesis by (simp only: written_Nil)
  qed
qed

lemma take_line: "take n (l @ [c]) = take n l \<or> take n (l @ [c]) = l @ [c]"
  by (cases "n \<le> length l") simp_all

lemma journal_codec_valid:
  assumes "journal_codec_ok j" "validateJournalEntry e = None"
  shows "CHR 0x0A \<notin> set (jc_encode j e)" "n < length (jc_encode j e) \<Longrightarrow> jc_decode j (take n (jc_encode j e)) = None"
  using conjunct1 [OF assms(1) [unfolded journal_codec_ok_def], THEN spec, of e] assms(2) by simp_all

lemma written_text_append:
  assumes "journal_codec_ok j" "written_text agent j s" "honest_entry agent e" "validateJournalEntry e = None"
  shows "written_text agent j (s @ take n (jc_encode j e @ [CHR 0x0A]))"
proof -
  have e: "CHR 0x0A \<notin> set (jc_encode j e)" by (rule journal_codec_valid(1) [OF assms(1,4)])
  have piece: "written_text agent j (s @ take m (jc_encode j e))" for m
  proof -
    have "CHR 0x0A \<notin> set (take m (jc_encode j e))" using e in_set_takeD by fast
    then show ?thesis
      using written_text_snoc [OF assms(2) split_on_none written_append [OF written_last [OF assms(2)] assms(3,4)]] by blast
  qed
  have "written_text agent j (s @ jc_encode j e)" using piece [of "length (jc_encode j e)"] unfolding take_all [OF order_refl] .
  from written_text_newline [OF this] have "written_text agent j (s @ jc_encode j e @ [CHR 0x0A])" unfolding append_assoc .
  then show ?thesis using take_line [of n "jc_encode j e" "CHR 0x0A"] piece [of n] by metis
qed

lemma load_lines_source:
  "load_lines j acc ls = Some e \<Longrightarrow> acc = Some e \<or> (\<exists>l \<in> set ls. jc_decode j l = Some e \<and> validateJournalEntry e = None)"
  by (induction j acc ls rule: load_lines.induct) (auto split: if_splits option.splits)

lemma journal_codec_source:
  assumes "journal_codec_ok j" "jc_decode j (concat ps) = Some e"
    and "\<forall>p \<in> set ps. \<exists>e n. validateJournalEntry e = None \<and> Q e \<and> p = take n (jc_encode j e)"
  shows "\<exists>e0. Q e0 \<and> e = fixed_entry e0"
  using conjunct2 [OF assms(1) [unfolded journal_codec_ok_def], THEN spec, THEN spec, THEN spec, of ps e Q, rule_format,
    OF assms(2)] assms(3) by meson

lemma load_text_honest:
  assumes "journal_codec_ok j" "list_all plain_char agent" "written_text agent j s" "load_text j s = Some e"
  shows "validateJournalEntry e = None \<and> honest_entry agent e"
proof -
  have "load_lines j None (split_on (CHR 0x0A) s) = Some e" using assms(4) by (simp add: load_text_def split: if_splits)
  then obtain l where l: "l \<in> set (split_on (CHR 0x0A) s)" "jc_decode j l = Some e" "validateJournalEntry e = None"
    using load_lines_source by blast
  then obtain ps where "l = concat ps" "\<forall>p \<in> set ps. \<exists>e n. validateJournalEntry e = None \<and> honest_entry agent e \<and> p = take n (jc_encode j e)"
    using assms(3) unfolding written_text_def written_def by blast
  then obtain e0 where e0: "honest_entry agent e0" "e = fixed_entry e0"
    using journal_codec_source [OF assms(1), of ps e "honest_entry agent"] l(2) by blast
  have "honest agent r" if res: "je_Result e = Some r" for r
  proof -
    obtain r0 where "je_Result e0 = Some r0" "r = map_record utf8_fix r0"
      using res unfolding e0(2) fixed_entry_def by auto
    then show ?thesis using e0(1) honest_fixed [OF assms(2)] unfolding honest_entry_def by simp
  qed
  then show ?thesis using l(3) unfolding honest_entry_def by simp
qed

section \<open>The run loop keeps the world in order\<close>

definition world_ok :: "string \<Rightarrow> journal_codec \<Rightarrow> ecc_world \<Rightarrow> bool" where
  "world_ok agent j w \<longleftrightarrow> sane_instance agent (ew_instance w) \<and> (\<forall>s. ew_journal w = Some s \<longrightarrow> written_text agent j s)"

lemma next_outcome_same: "next_outcome w = (x, w') \<Longrightarrow> ew_instance w' = ew_instance w \<and> ew_journal w' = ew_journal w"
  by (auto simp: next_outcome_def split: list.splits)

lemma world_same: "ew_instance w' = ew_instance w \<Longrightarrow> ew_journal w' = ew_journal w \<Longrightarrow> world_ok agent j w' = world_ok agent j w"
  by (simp add: world_ok_def)

lemma Save_ok:
  assumes "journal_codec_ok j" "world_ok agent j w" "honest_entry agent e" "Save j e w = (b, w')"
  shows "world_ok agent j w'" "ew_instance w' = ew_instance w" "b \<Longrightarrow> validateJournalEntry e = None"
proof -
  let ?line = "jc_encode j e @ [CHR 0x0A]"
  obtain x w1 where n: "next_outcome w = (x, w1)" by fastforce
  note same = next_outcome_same [OF n]
  have old: "written_text agent j (journal_text w)"
    using assms(2) by (auto simp: world_ok_def journal_text_def written_text_def split: option.splits)
  have "w' = w \<or> w' = w1 \<or> (\<exists>k. w' = w1\<lparr>ew_journal := Some (journal_text w1 @ take k ?line)\<rparr>)"
  proof (cases "validateJournalEntry e \<noteq> None \<or> length ?line > maxECCRecordJSONBytes")
    case False
    then show ?thesis using assms(4) n
      by (cases x) (auto simp: Save_def Let_def intro: exI [of _ "length ?line"])
  qed (use assms(4) in \<open>auto simp: Save_def Let_def split: if_splits\<close>)
  moreover have "validateJournalEntry e = None \<or> w' = w" "b \<Longrightarrow> validateJournalEntry e = None"
    using assms(4) by (auto simp: Save_def split: if_splits)
  moreover have "journal_text w1 = journal_text w" using same by (simp add: journal_text_def)
  ultimately show "world_ok agent j w'" "ew_instance w' = ew_instance w" "b \<Longrightarrow> validateJournalEntry e = None"
    using assms(2) same written_text_append [OF assms(1) old assms(3)] by (auto simp: world_ok_def)
qed

lemma Clear_ok:
  assumes "world_ok agent j w" "Clear w = (b, w')"
  shows "world_ok agent j w'"
proof -
  obtain x w1 where n: "next_outcome w = (x, w1)" by fastforce
  have "w' = w1 \<or> w' = w1\<lparr>ew_journal := None\<rparr>" using assms(2) n by (cases x) (auto simp: Clear_def)
  moreover have "world_ok agent j w1" using assms(1) next_outcome_same [OF n] world_same by metis
  moreover from this have "world_ok agent j (w1\<lparr>ew_journal := None\<rparr>)" by (simp add: world_ok_def)
  ultimately show ?thesis by blast
qed

lemma Load_ok:
  assumes "journal_codec_ok j" "list_all plain_char agent" "world_ok agent j w" "Load j w = (x, w')"
  shows "world_ok agent j w'" "x = Some (Some e) \<Longrightarrow> validateJournalEntry e = None \<and> honest_entry agent e"
proof -
  obtain y w1 where n: "next_outcome w = (y, w1)" by fastforce
  note same = next_outcome_same [OF n]
  have "w' = w1" using assms(4) n by (auto simp: Load_def split: io.splits option.splits)
  then show "world_ok agent j w'" using assms(3) same world_same by metis
  assume "x = Some (Some e)"
  then obtain s where "ew_journal w = Some s" "load_text j s = Some e"
    using assms(4) n same by (auto simp: Load_def split: io.splits option.splits)
  then show "validateJournalEntry e = None \<and> honest_entry agent e"
    using load_text_honest [OF assms(1,2)] assms(3) unfolding world_ok_def by blast
qed

lemma on_instance_split: "on_instance f w = (x, w') \<Longrightarrow> f (ew_instance w) = (x, ew_instance w') \<and> ew_journal w' = ew_journal w"
  by (auto simp: on_instance_def split: prod.splits)

lemma on_instance_advances:
  "world_ok agent j w \<Longrightarrow> on_instance f w = (x, w') \<Longrightarrow> advances agent (ew_instance w) (ew_instance w') \<Longrightarrow> world_ok agent j w'"
  using on_instance_split [of f w x w'] by (simp add: world_ok_def advances_def)

lemma validated_result:
  "validateJournalEntry e = None \<Longrightarrow> je_Result e = Some r \<Longrightarrow> er_ResponseTo r = je_RecordID e"
  by (auto simp: validateJournalEntry_def split: if_splits option.splits)

lemma conflict_text:
  "boundedText ''Topo denied an ECC record that changed during claim'' maxErrorStringBytes = ''Topo denied an ECC record that changed during claim''"
proof -
  let ?m = "''Topo denied an ECC record that changed during claim''"
  have p: "list_all plain_char ?m" by (rule denials_plain) (simp add: denial_texts_def)
  then have c: "rune_chunks ?m = map (\<lambda>c. (byte c, [c])) ?m" by (intro rune_chunks_ascii_all) (auto simp: list_all_iff plain_char_def)
  have "filter (\<lambda>(r, c). \<not> (r < 0x20 \<or> r = 0x7F)) (map (\<lambda>c. (byte c, [c])) ?m) = map (\<lambda>c. (byte c, [c])) ?m"
    using p by (auto simp: list_all_iff plain_char_def filter_id_conv)
  moreover have "concat (map snd (map (\<lambda>c. (byte c, [c])) s)) = s" for s :: string by (induction s) auto
  ultimately have "concat (map snd (filter (\<lambda>(r, c). \<not> (r < 0x20 \<or> r = 0x7F)) (rune_chunks (utf8_fix ?m)))) = ?m"
    unfolding plain_utf8 [OF p] c by metis
  then show ?thesis unfolding boundedText_def Let_def by (simp add: maxErrorStringBytes_def)
qed

lemma Dispatch_reply:
  assumes "Dispatch xml version r = Inr res" shows "reply (er_Agent r) (er_SysID r) res"
  using assms by (auto simp: Dispatch_def Let_def checked_Inr reply_def honest_def answer_record_def denial_texts_def split: if_splits)

lemma conflict_reply:
  assumes "dispatchError xml r code ''Topo denied an ECC record that changed during claim'' = Inr res"
  shows "reply (er_Agent r) (er_SysID r) res"
  using assms unfolding dispatchError_def Let_def checked_Inr conflict_text
  by (auto simp: reply_def honest_def answer_record_def denial_texts_def)

lemma result_step_ok:
  assumes "journal_codec_ok j" "world_ok agent j w" "validateJournalEntry e = None" "honest_entry agent e"
    and "je_RecordID e = er_SysID r" "er_Agent r = agent" "result_step v j r e w = (x, w')"
  shows "world_ok agent j w' \<and> ew_instance w' = ew_instance w
    \<and> (\<forall>e' res. x = Some (e', res) \<longrightarrow> reply agent (er_SysID r) res \<and> honest_entry agent e')"
proof (cases "digest_of v r")
  case None
  then show ?thesis using assms(2,7) by (simp add: result_step_def)
next
  case (Some digest)
  show ?thesis
  proof (cases "je_Result e")
    case (Some res)
    then show ?thesis
      using assms validated_result [OF assms(3) Some] \<open>digest_of v r = Some digest\<close>
      by (auto simp: result_step_def reply_def honest_entry_def)
  next
    case None
    let ?d = "if digest \<noteq> je_RecordDigest e
        then dispatchError (ee_xml v) r ClaimConflictCode ''Topo denied an ECC record that changed during claim''
        else Dispatch (ee_xml v) (ee_version v) r"
    show ?thesis
    proof (cases ?d)
      case (Inl err)
      then show ?thesis using assms(2,7) Some None unfolding result_step_def by (simp only: option.case sum.case) simp
    next
      case (Inr res)
      then have rep: "reply agent (er_SysID r) res"
        using Dispatch_reply conflict_reply assms(6) by (metis (full_types))
      let ?e = "e\<lparr>je_Result := Some res\<rparr>"
      have he: "honest_entry agent ?e" using rep by (simp add: honest_entry_def reply_def)
      obtain b w1 where sv: "Save j ?e w = (b, w1)" by fastforce
      have "w' = w1 \<and> (x = None \<or> x = Some (?e, res))"
        using assms(7) Some None Inr sv unfolding result_step_def Let_def
        by (cases b) (simp_all only: option.case sum.case prod.case bool.case, auto)
      then show ?thesis using Save_ok(1,2) [OF assms(1,2) he sv] rep he by auto
    qed
  qed
qed

lemma respond_step_ok:
  assumes "ecc_env_ok v" "list_all plain_char agent" "world_ok agent j w" "valid_sys_id (er_SysID r)" "reply agent (er_SysID r) res"
    and "queued agent (er_SysID r) (ew_instance w)" "respond_step v agent r res w = (x, w')"
  shows "world_ok agent j w' \<and> (x \<noteq> None \<longrightarrow> length (responses (er_SysID r) (ew_instance w')) = 1)"
proof -
  have s: "sane_instance agent (ew_instance w)" using assms(3) by (simp add: world_ok_def)
  obtain y w1 where f: "on_instance (ecc_FindResponses v (er_SysID r) agent) w = (y, w1)" by fastforce
  note cnt = ecc_FindResponses_count [OF assms(1,2) s conjunct1 [OF on_instance_split [OF f]]]
  have w1: "world_ok agent j w1" by (rule on_instance_advances [OF assms(3) f advances_core]) (use cnt in blast)
  show ?thesis
  proof (cases y)
    case None
    then show ?thesis using assms(7) f w1 by (simp add: respond_step_def)
  next
    case (Some rs)
    have len: "length rs = length (responses (er_SysID r) (ew_instance w1))"
      using cnt Some responses_core by metis
    have s1: "sane_instance agent (ew_instance w1)" using w1 by (simp add: world_ok_def)
    consider "length rs = 1" | "length rs = 0" using len s1 by (auto simp: sane_instance_def le_Suc_eq)
    then show ?thesis
    proof cases
      case 1
      then show ?thesis using assms(7) f Some w1 len by (simp add: respond_step_def)
    next
      case 2
      then have none: "responses (er_SysID r) (ew_instance w1) = []" using len by simp
      have i: "on_instance (ecc_InsertResult v res) w1 = (x, w')" using assms(7) f Some 2 by (simp add: respond_step_def)
      have "queued agent (er_SysID r) (ew_instance w1)" using assms(6) cnt queued_core by blast
      note eff = ecc_InsertResult_effect [OF assms(1,2,4,5) s1 none this conjunct1 [OF on_instance_split [OF i]]]
      then show ?thesis using on_instance_advances [OF w1 i] by blast
    qed
  qed
qed

lemma complete_step_ok:
  assumes "ecc_env_ok v" "journal_codec_ok j" "world_ok agent j w" "honest_entry agent e"
    and "length (responses (er_SysID r) (ew_instance w)) = 1" "complete_step v j r e w = (b, w')"
  shows "world_ok agent j w'"
proof -
  obtain b1 w1 where sv: "Save j e w = (b1, w1)" by fastforce
  note s = Save_ok [OF assms(2,3,4) sv]
  obtain y w2 where m: "on_instance (ecc_MarkProcessed v r) w1 = (y, w2)" by fastforce
  have "advances agent (ew_instance w1) (ew_instance w2)"
    by (rule ecc_MarkProcessed_advances [OF assms(1) conjunct1 [OF on_instance_split [OF m]]]) (simp only: s(2) assms(5))
  then have w2: "world_ok agent j w2" by (rule on_instance_advances [OF s(1) m])
  obtain b3 w3 where cl: "Clear w2 = (b3, w3)" by fastforce
  have "w' = w1 \<or> w' = w2 \<or> w' = w3"
    using assms(6) sv m cl by (cases b1; cases y) (auto simp: complete_step_def)
  then show ?thesis using s(1) w2 Clear_ok [OF w2 cl] by blast
qed

lemma process_step_ok:
  assumes "ecc_env_ok v" "journal_codec_ok j" "list_all plain_char agent" "world_ok agent j w"
    and "validateJournalEntry e = None" "honest_entry agent e" "je_RecordID e = er_SysID r" "er_Agent r = agent"
    and "queued agent (er_SysID r) (ew_instance w)" "process_step v j agent r e w = (b, w')"
  shows "world_ok agent j w'"
proof (cases "er_State r = StateProcessing")
  case True
  obtain x w1 where rs: "result_step v j r e w = (x, w1)" by fastforce
  note r1 = result_step_ok [OF assms(2,4,5,6,7,8) rs]
  have id_ok: "valid_sys_id (er_SysID r)"
    using assms(5,7) by (auto simp: validateJournalEntry_def split: if_splits)
  show ?thesis
  proof (cases x)
    case None
    then show ?thesis using assms(10) True rs r1 by (simp add: process_step_def)
  next
    case (Some er)
    then obtain e1 res where er: "x = Some (e1, res)" by (cases er) simp
    obtain y w2 where rp: "respond_step v agent r res w1 = (y, w2)" by fastforce
    note r2 = respond_step_ok [OF assms(1,3) _ id_ok _ _ rp]
    have ok2: "world_ok agent j w2 \<and> (y \<noteq> None \<longrightarrow> length (responses (er_SysID r) (ew_instance w2)) = 1)"
      using r2 r1 er assms(9) by metis
    show ?thesis
    proof (cases y)
      case None
      then show ?thesis using assms(10) True rs er rp ok2 by (simp add: process_step_def)
    next
      case (Some k)
      have "honest_entry agent (e1\<lparr>je_ResponseSysID := k\<rparr>)" using r1 er by (simp add: honest_entry_def)
      moreover have "complete_step v j r (e1\<lparr>je_ResponseSysID := k\<rparr>) w2 = (b, w')"
        using assms(10) True rs er rp Some by (simp add: process_step_def)
      ultimately show ?thesis using complete_step_ok [OF assms(1,2)] ok2 Some by blast
    qed
  qed
qed (use assms(4,10) in \<open>simp add: process_step_def\<close>)

lemma resumeClaim_ok:
  assumes "ecc_env_ok v" "journal_codec_ok j" "list_all plain_char agent" "world_ok agent j w"
    and "validateJournalEntry e = None" "honest_entry agent e" "resumeClaim v j agent e w = (b, w')"
  shows "world_ok agent j w'"
proof -
  obtain x w1 where g: "on_instance (ecc_Get v (je_RecordID e) agent) w = (x, w1)" by fastforce
  note gr = ecc_Get_result [OF conjunct1 [OF on_instance_split [OF g]]]
  have w1: "world_ok agent j w1" by (rule on_instance_advances [OF assms(4) g advances_core]) (use gr in blast)
  have view_id: "er_SysID (view v r0) = k" if "valid_sys_id k" "er_SysID r0 = ee_wire v k" for r0 k
    using that wire_sys_id [OF assms(1) that(1)] sys_id_plain [OF that(1)] by (simp add: model_def map_record_def)
  show ?thesis
  proof (cases x)
    case None
    then show ?thesis using assms(7) g w1 by (simp add: resumeClaim_def)
  next
    case (Some r)
    then have rid: "er_SysID r = je_RecordID e" "er_Agent r = agent" "valid_sys_id (je_RecordID e)" using gr view_id by auto
    have s0: "sane_instance agent (ew_instance w)" using assms(4) by (simp add: world_ok_def)
    have qd: "queued agent (je_RecordID e) (ew_instance w1)"
      using ecc_Get_queued [OF assms(1,3) s0] conjunct1 [OF on_instance_split [OF g]] Some by blast
    consider (processed) "er_State r = StateProcessed" | (ready) "er_State r = StateReady"
      | (other) "er_State r \<noteq> StateProcessed" "er_State r \<noteq> StateReady" by blast
    then show ?thesis
    proof cases
      case processed
      then show ?thesis using assms(7) g Some Clear_ok [OF w1] by (simp add: resumeClaim_def)
    next
      case ready
      obtain y w2 where c: "on_instance (ecc_Claim v r) w1 = (y, w2)" by fastforce
      have plain: "list_all plain_char (er_SysID r)" using rid sys_id_plain by simp
      note cr = ecc_Claim_advances [OF assms(1) conjunct1 [OF on_instance_split [OF c]] plain, of agent]
      have w2: "world_ok agent j w2" by (rule on_instance_advances [OF w1 c conjunct1 [OF cr]])
      have qd2: "queued agent (je_RecordID e) (ew_instance w2)"
        using conjunct1 [OF cr] qd w1 unfolding advances_def world_ok_def by blast
      show ?thesis
      proof (cases y)
        case None
        then show ?thesis using assms(7) g Some ready c w2 by (simp add: resumeClaim_def)
      next
        case (Some r2)
        then have r2: "er_SysID r2 = je_RecordID e" "er_Agent r2 = agent" using cr rid view_id by auto
        have "process_step v j agent r2 e w2 = (b, w')"
          using assms(7) g \<open>x = Some r\<close> ready c Some by (simp add: resumeClaim_def)
        then show ?thesis using process_step_ok [OF assms(1-3) w2 assms(5,6) r2(1) [symmetric] r2(2)] qd2 r2(1) by simp
      qed
    next
      case other
      then have "process_step v j agent r e w1 = (b, w')" using assms(7) g Some by (simp add: resumeClaim_def)
      then show ?thesis using process_step_ok [OF assms(1-3) w1 assms(5,6) rid(1) [symmetric] rid(2)] qd rid(1) by simp
    qed
  qed
qed

lemma process_records_ok:
  "ecc_env_ok v \<Longrightarrow> journal_codec_ok j \<Longrightarrow> list_all plain_char agent \<Longrightarrow> world_ok agent j w
    \<Longrightarrow> world_ok agent j (process_records v j agent rs w)"
proof (induction rs arbitrary: w)
  case (Cons r rs)
  show ?case
  proof (cases "digest_of v r")
    case None
    then show ?thesis using Cons.prems by simp
  next
    case (Some digest)
    let ?e = "\<lparr>je_Version = journalVersion, je_RecordID = er_SysID r, je_RecordDigest = digest, je_Result = None, je_ResponseSysID = []\<rparr>"
    have he: "honest_entry agent ?e" by (simp add: honest_entry_def)
    obtain b w1 where sv: "Save j ?e w = (b, w1)" by fastforce
    note s = Save_ok [OF Cons.prems(2,4) he sv]
    obtain b2 w2 where rc: "resumeClaim v j agent ?e w1 = (b2, w2)" by fastforce
    have w2: "world_ok agent j w2" if b using resumeClaim_ok [OF Cons.prems(1-3) s(1) s(3) [OF that] he rc] .
    have "process_records v j agent (r # rs) w = (if b then if b2 then process_records v j agent rs w2 else w2 else w1)"
      using Some sv rc by (auto simp: Let_def)
    then show ?thesis using s(1) w2 Cons.IH [OF Cons.prems(1-3)] by (simp split: if_splits)
  qed
qed simp

lemma ecc_runCycle_ok:
  assumes "ecc_env_ok v" "journal_codec_ok j" "list_all plain_char agent" "world_ok agent j w"
  shows "world_ok agent j (ecc_runCycle v j agent batch w)"
proof -
  obtain x w1 where l: "Load j w = (x, w1)" by fastforce
  note ld = Load_ok [OF assms(2-4) l]
  show ?thesis
  proof (cases x)
    case None
    then show ?thesis using l ld(1) by (simp add: ecc_runCycle_def)
  next
    case (Some y)
    show ?thesis
    proof (cases y)
      case None
      obtain z w2 where p: "on_instance (ecc_Poll v agent batch) w1 = (z, w2)" by fastforce
      have "advances agent (ew_instance w1) (ew_instance w2)"
        using advances_core ecc_Poll_core on_instance_split [OF p] by blast
      then have "world_ok agent j w2" by (rule on_instance_advances [OF ld(1) p])
      then show ?thesis using l Some None p process_records_ok [OF assms(1-3)]
        by (cases z) (simp_all add: ecc_runCycle_def)
    next
      case (Some e)
      then have x: "x = Some (Some e)" using \<open>x = Some y\<close> by simp
      obtain b w2 where rc: "resumeClaim v j agent e w1 = (b, w2)" by fastforce
      have "world_ok agent j w2" by (rule resumeClaim_ok [OF assms(1-3) ld(1) _ _ rc]) (use ld(2) [OF x] in blast)+
      then show ?thesis using l x rc by (simp add: ecc_runCycle_def)
    qed
  qed
qed

lemma ecc_step_ok:
  assumes "ecc_env_ok v" "journal_codec_ok j" "list_all plain_char agent" "world_ok agent j w"
  shows "world_ok agent j (ecc_step v j agent batch event w)"
proof (cases event)
  case (Queued to_agent topic name source parameters payload correlator)
  let ?i = "ew_instance w"
  let ?r = "\<lparr>er_SysID = sys_id (en_nextID ?i), er_Agent = to_agent, er_Topic = topic, er_Name = name, er_Source = source,
      er_Queue = QueueOutput, er_State = StateReady, er_ResponseTo = [], er_AgentCorrelator = correlator,
      er_Parameters = parameters, er_Payload = payload, er_ErrorString = [], er_CreatedOn = ee_created v (en_nextID ?i + 1)\<rparr>"
  have "adds_record (sys_id (en_nextID ?i)) ?r ?i (AddOutput (ee_created v) to_agent topic name source parameters payload correlator ?i)"
    by (simp add: adds_record_def AddOutput_def Let_def)
  from adds_record_sane [OF this] have "sane_instance agent (AddOutput (ee_created v) to_agent topic name source parameters payload correlator ?i)"
    using assms(4) by (simp add: world_ok_def)
  then show ?thesis using assms(4) Queued by (simp add: world_ok_def)
qed (simp add: ecc_runCycle_ok [OF assms])

lemma ecc_history_ok:
  assumes "ecc_env_ok v" "journal_codec_ok j" "list_all plain_char agent"
  shows "world_ok agent j w \<Longrightarrow> world_ok agent j (fold (ecc_step v j agent batch) events w)"
  by (induction events arbitrary: w) (simp_all add: ecc_step_ok [OF assms])

lemma ecc_start_ok: "world_ok agent j (ecc_start net ios)"
  by (simp add: world_ok_def ecc_start_def sane_instance_def responses_def)

text \<open>
  C3: no ECC record is answered twice. Over any history of run cycles and queued records, in which
  any request or answer may be lost and any file operation may fail or be cut short (so also across
  crashes and restarts at any point), every record of the instance has at most one response, a
  record marked processed has exactly one, and every response answers a record of the output queue that
  is addressed to this MID, comes from this MID and either belongs to the Heartbeat topic or carries one
  of the two denials.
\<close>

theorem ecc_response_once:
  assumes "ecc_env_ok v" "journal_codec_ok j" "AgentName midName = Inr agent"
    and "i = ew_instance (fold (ecc_step v j agent batch) events (ecc_start net ios))"
  shows "length (responses s i) \<le> 1
    \<and> (\<forall>r. map_of (en_records i) s = Some r \<and> er_Queue r = QueueOutput \<and> er_State r = StateProcessed
         \<longrightarrow> length (responses s i) = 1)
    \<and> (responses s i \<noteq> [] \<longrightarrow> (\<exists>r. map_of (en_records i) s = Some r \<and> er_Queue r = QueueOutput \<and> er_Agent r = agent))
    \<and> (\<forall>a \<in> set (responses s i). er_Agent a = agent \<and> (er_Topic a = TopicHeartbeat \<or> er_ErrorString a \<in> denial_texts))"
proof -
  have "world_ok agent j (fold (ecc_step v j agent batch) events (ecc_start net ios))"
    by (rule ecc_history_ok [OF assms(1,2) AgentName_plain [OF assms(3)] ecc_start_ok])
  then have s: "sane_instance agent i" unfolding assms(4) world_ok_def by blast
  have "er_Agent a = agent \<and> (er_Topic a = TopicHeartbeat \<or> er_ErrorString a \<in> denial_texts)" if a: "a \<in> set (responses s i)" for a
  proof -
    obtain k where "(k, a) \<in> set (en_records i)" "er_Queue a = QueueInput" using a by (auto simp: responses_def)
    then have "honest agent a" using s by (auto simp: sane_instance_def list_all_iff sane_record_def)
    then show ?thesis by (auto simp: honest_def)
  qed
  then show ?thesis using s unfolding sane_instance_def queued_def by blast
qed

section \<open>A partial first entry\<close>

definition unreadable :: "journal_codec \<Rightarrow> ecc_world \<Rightarrow> bool" where
  "unreadable j w \<longleftrightarrow> ew_io w = [] \<and> (\<exists>s. ew_journal w = Some s \<and> load_text j s = None)"

lemma unreadable_cycle: "unreadable j w \<Longrightarrow> ecc_runCycle v j agent batch w = w"
  by (auto simp: unreadable_def ecc_runCycle_def Load_def next_outcome_def)

lemma unreadable_step:
  "unreadable j w \<Longrightarrow> unreadable j (ecc_step v j agent batch event w)
    \<and> en_operations (ew_instance (ecc_step v j agent batch event w)) = en_operations (ew_instance w)"
  by (cases event) (simp_all add: unreadable_cycle, simp add: unreadable_def AddOutput_def Let_def)

lemma unreadable_history:
  "unreadable j w \<Longrightarrow> en_operations (ew_instance (fold (ecc_step v j agent batch) events w)) = en_operations (ew_instance w)"
  by (induction events arbitrary: w) (simp_all add: unreadable_step)

lemma partial_unreadable:
  assumes "journal_codec_ok j" "validateJournalEntry e = None" "n < length (jc_encode j e)"
  shows "load_text j (take n (jc_encode j e)) = None"
proof -
  have "CHR 0x0A \<notin> set (take n (jc_encode j e))"
    using journal_codec_valid(1) [OF assms(1,2)] in_set_takeD by fast
  then have "split_on (CHR 0x0A) (take n (jc_encode j e)) = [take n (jc_encode j e)]" by (rule split_on_none)
  then show ?thesis using journal_codec_valid(2) [OF assms] by (simp add: load_text_def)
qed

text \<open>
  C38: one append that is cut short stops the MID for good. When the write of the first journal entry
  of a claim fails after some but not all of its bytes, possibly none, the journal that is left cannot
  be loaded: although every later file operation works, and whatever is queued, no later cycle sends
  ServiceNow another request.
\<close>

theorem ecc_partial_journal_stalls:
  assumes "journal_codec_ok j" "ew_journal w = None" "ew_io w = [Works, FailsAfter n]"
    and "ecc_Poll v agent batch (ew_instance w) = (Some (r # rs), i)" "digest_of v r = Some digest"
    and "e = \<lparr>je_Version = journalVersion, je_RecordID = er_SysID r, je_RecordDigest = digest, je_Result = None, je_ResponseSysID = []\<rparr>"
    and "validateJournalEntry e = None" "length (jc_encode j e) < maxECCRecordJSONBytes" "n < length (jc_encode j e)"
    and "w' = ecc_runCycle v j agent batch w"
  shows "en_operations (ew_instance (fold (ecc_step v j agent batch) events w')) = en_operations i"
proof -
  have "w' = w\<lparr>ew_instance := i, ew_io := [], ew_journal := Some (take n (jc_encode j e))\<rparr>"
    using assms(2-9) unfolding assms(10)
    by (simp add: ecc_runCycle_def Load_def next_outcome_def on_instance_def Save_def journal_text_def Let_def)
  then have "unreadable j w'" "ew_instance w' = i" using partial_unreadable [OF assms(1,7,9)] by (simp_all add: unreadable_def)
  then show ?thesis using unreadable_history by blast
qed

end
