(* ===== verification/Ecc_Demo.thy ===== *)
theory Ecc_Demo
  imports Ecc_Properties
begin

text \<open>
  A concrete journal format that satisfies \<open>journal_codec_ok\<close> and a concrete environment: fields are
  written in hexadecimal, each closed by a comma, between braces.
\<close>

abbreviation brace_open :: char where "brace_open \<equiv> CHR 0x7B"
abbreviation brace_close :: char where "brace_close \<equiv> CHR 0x7D"

section \<open>Fields\<close>

fun put_hex :: "string \<Rightarrow> string" where
  "put_hex [] = [CHR '','']"
| "put_hex (c # s) = digit_char (byte c div 16) # digit_char (byte c mod 16) # put_hex s"

fun get_hex :: "string \<Rightarrow> (string \<times> string) option" where
  "get_hex (x # y # r) =
     (if x = CHR '','' then Some ([], y # r)
      else if is_hex_digit x \<and> is_hex_digit y
      then map_option (map_prod ((#) (char_of (16 * hex_value x + hex_value y))) id) (get_hex r) else None)"
| "get_hex [x] = (if x = CHR '','' then Some ([], []) else None)"
| "get_hex [] = None"

definition field_char :: "char \<Rightarrow> bool" where
  "field_char c \<longleftrightarrow> is_hex_digit c \<or> c = CHR '',''"

lemma comma_no_digit: "digit_char d \<noteq> CHR '',''" if "d < 16"
  using is_hex_digit_char [OF that] by (auto simp: is_hex_digit_def)

lemma get_put_hex [simp]: "get_hex (put_hex s @ t) = Some (s, t)"
proof (induction s)
  case Nil
  then show ?case by (cases t) simp_all
next
  case (Cons c s)
  have d: "byte c div 16 < 16" "byte c mod 16 < 16" by simp_all
  then have "char_of (16 * hex_value (digit_char (byte c div 16)) + hex_value (digit_char (byte c mod 16))) = c"
    by (simp add: hex_value_digit)
  then show ?case using Cons comma_no_digit [OF d(1)] is_hex_digit_char d by simp
qed

lemma get_hex_chars: "get_hex s = Some (x, t) \<Longrightarrow> \<exists>u. s = u @ t \<and> list_all field_char u"
proof (induction s arbitrary: x t rule: get_hex.induct)
  case (1 c d r)
  show ?case
  proof (cases "c = CHR '',''")
    case True
    then show ?thesis using 1 by (intro exI [of _ "[c]"]) (simp add: field_char_def)
  next
    case False
    then obtain x' where "is_hex_digit c" "is_hex_digit d" "get_hex r = Some (x', t)" using 1(2) by (auto split: if_splits)
    moreover from this obtain u where "r = u @ t" "list_all field_char u" using 1(1) False by blast
    moreover have "field_char c" "field_char d" using calculation(1,2) by (simp_all add: field_char_def)
    ultimately show ?thesis by (intro exI [of _ "c # d # u"]) simp
  qed
qed (auto simp: field_char_def split: if_splits)

lemma put_hex_chars: "list_all field_char (put_hex s)"
proof (induction s)
  case (Cons c s)
  then show ?case using is_hex_digit_char by (simp add: field_char_def)
qed (simp add: field_char_def)

fun get_fields :: "nat \<Rightarrow> string \<Rightarrow> (string list \<times> string) option" where
  "get_fields 0 s = Some ([], s)"
| "get_fields (Suc n) s = (case get_hex s of None \<Rightarrow> None | Some (x, t) \<Rightarrow> map_option (map_prod ((#) x) id) (get_fields n t))"

lemma get_put_fields: "get_fields (length xs) (concat (map put_hex xs) @ t) = Some (xs, t)"
  by (induction xs) simp_all

lemma get_fields_chars: "get_fields n s = Some (xs, t) \<Longrightarrow> length xs = n \<and> (\<exists>u. s = u @ t \<and> list_all field_char u)"
proof (induction n arbitrary: s xs)
  case (Suc n)
  obtain x t1 ys where g: "get_hex s = Some (x, t1)" "get_fields n t1 = Some (ys, t)" "xs = x # ys"
    using Suc.prems by (auto split: option.splits)
  obtain u1 where "s = u1 @ t1" "list_all field_char u1" using get_hex_chars [OF g(1)] by blast
  moreover obtain u2 where "t1 = u2 @ t" "list_all field_char u2" "length ys = n" using Suc.IH [OF g(2)] by blast
  ultimately show ?case using g(3) by (intro conjI exI [of _ "u1 @ u2"]) simp_all
qed simp

section \<open>Entries\<close>

definition ecc_fields :: "ecc \<Rightarrow> string list" where
  "ecc_fields r = [er_SysID r, er_Agent r, er_Topic r, er_Name r, er_Source r, er_Queue r, er_State r, er_ResponseTo r,
     er_AgentCorrelator r, er_Parameters r, er_Payload r, er_ErrorString r, er_CreatedOn r]"

fun ecc_of :: "string list \<Rightarrow> ecc" where
  "ecc_of [a, b, c, d, e, f, g, h, i, j, k, l, m] = \<lparr>er_SysID = a, er_Agent = b, er_Topic = c, er_Name = d, er_Source = e,
     er_Queue = f, er_State = g, er_ResponseTo = h, er_AgentCorrelator = i, er_Parameters = j, er_Payload = k,
     er_ErrorString = l, er_CreatedOn = m\<rparr>"
| "ecc_of _ = undefined"

lemma ecc_of_fields [simp]: "ecc_of (ecc_fields r) = r"
  by (simp add: ecc_fields_def)

definition entry_fields :: "journal_entry \<Rightarrow> string list" where
  "entry_fields e = [je_RecordID e, je_RecordDigest e, je_ResponseSysID e]
     @ (case je_Result e of None \<Rightarrow> [] | Some r \<Rightarrow> ecc_fields r)"

definition demo_encode :: "journal_entry \<Rightarrow> string" where
  "demo_encode e = brace_open # concat (map put_hex (entry_fields e)) @ [brace_close]"

definition ecc_entry_of :: "string list \<Rightarrow> ecc option \<Rightarrow> journal_entry" where
  "ecc_entry_of xs r = fixed_entry \<lparr>je_Version = journalVersion, je_RecordID = xs ! 0, je_RecordDigest = xs ! 1, je_Result = r,
     je_ResponseSysID = xs ! 2\<rparr>"

definition demo_decode :: "string \<Rightarrow> journal_entry option" where
  "demo_decode s =
     (case s of [] \<Rightarrow> None
      | c # t \<Rightarrow>
          if c \<noteq> brace_open then None
          else case get_fields 3 t of None \<Rightarrow> None
          | Some (xs, t) \<Rightarrow>
              if t = [brace_close] then Some (ecc_entry_of xs None)
              else case get_fields 13 t of None \<Rightarrow> None
              | Some (ys, t) \<Rightarrow> if t = [brace_close] then Some (ecc_entry_of xs (Some (ecc_of ys))) else None)"

definition demo_codec :: journal_codec where
  "demo_codec = \<lparr>jc_encode = demo_encode, jc_decode = demo_decode\<rparr>"

lemma field_char_plain: "field_char c \<Longrightarrow> c \<noteq> brace_open \<and> c \<noteq> brace_close \<and> c \<noteq> CHR 0x0A"
  by (auto simp: field_char_def is_hex_digit_def)

lemma field_chars: "list_all field_char m \<Longrightarrow> brace_open \<notin> set m \<and> brace_close \<notin> set m \<and> CHR 0x0A \<notin> set m"
  by (induction m) (auto dest: field_char_plain)

lemma put_hex_nonempty [simp]: "put_hex s \<noteq> []"
  by (cases s) simp_all

lemma demo_roundtrip:
  assumes "validateJournalEntry e = None"
  shows "demo_decode (demo_encode e) = Some (fixed_entry e)"
proof -
  have v: "je_Version e = journalVersion" using assms by (auto simp: validateJournalEntry_def split: if_splits)
  let ?head = "[je_RecordID e, je_RecordDigest e, je_ResponseSysID e]"
  have head: "get_fields 3 (concat (map put_hex ?head) @ t) = Some (?head, t)" for t
  proof -
    have "length ?head = 3" by simp
    then show ?thesis using get_put_fields [of ?head t] by (simp only:)
  qed
  show ?thesis
  proof (cases "je_Result e")
    case None
    then have "demo_encode e = brace_open # concat (map put_hex ?head) @ [brace_close]" by (simp add: demo_encode_def entry_fields_def)
    then show ?thesis using None v head unfolding demo_decode_def by (cases e) (simp add: ecc_entry_of_def)
  next
    case (Some r)
    have "get_fields 13 (concat (map put_hex (ecc_fields r)) @ [brace_close]) = Some (ecc_fields r, [brace_close])"
    proof -
      have "length (ecc_fields r) = 13" by (simp add: ecc_fields_def)
      then show ?thesis using get_put_fields [of "ecc_fields r" "[brace_close]"] by (simp only:)
    qed
    moreover have "concat (map put_hex (ecc_fields r)) @ [brace_close] \<noteq> [brace_close]"
      by (simp add: ecc_fields_def)
    moreover have "demo_encode e = brace_open # concat (map put_hex ?head) @ concat (map put_hex (ecc_fields r)) @ [brace_close]"
      using Some by (simp add: demo_encode_def entry_fields_def)
    ultimately show ?thesis using Some v head unfolding demo_decode_def by (cases e) (simp add: ecc_entry_of_def)
  qed
qed

lemma demo_encode_shape: "\<exists>m. demo_encode e = brace_open # m @ [brace_close] \<and> list_all field_char m"
  using put_hex_chars by (auto simp: demo_encode_def list_all_iff)

lemma demo_decode_shape: "demo_decode s = Some e \<Longrightarrow> \<exists>m. s = brace_open # m @ [brace_close] \<and> list_all field_char m"
  by (auto simp: demo_decode_def split: list.splits if_splits option.splits prod.splits dest!: get_fields_chars)

lemma demo_no_close: "n < length (demo_encode e) \<Longrightarrow> brace_close \<notin> set (take n (demo_encode e))"
proof -
  assume n: "n < length (demo_encode e)"
  obtain m where m: "demo_encode e = brace_open # m @ [brace_close]" "list_all field_char m" using demo_encode_shape by blast
  have "take n (demo_encode e) = take n (brace_open # m)" using n unfolding m(1) by (simp add: take_Cons')
  moreover have "brace_close \<notin> set (brace_open # m)" using m(2) field_char_plain by (auto simp: list_all_iff)
  ultimately show "brace_close \<notin> set (take n (demo_encode e))" using in_set_takeD by metis
qed

lemma demo_no_second: "demo_decode (p @ brace_open # q) = Some e \<Longrightarrow> p = []"
proof (rule ccontr)
  assume d: "demo_decode (p @ brace_open # q) = Some e" and "p \<noteq> []"
  then obtain c p' where p: "p = c # p'" by (cases p) auto
  obtain m where m: "p @ brace_open # q = brace_open # m @ [brace_close]" "list_all field_char m" using demo_decode_shape [OF d] by blast
  then have "brace_open \<in> set (m @ [brace_close])" using p by (metis append_Cons in_set_conv_decomp list.sel(3))
  then show False using m(2) field_char_plain by (auto simp: list_all_iff)
qed

lemma demo_pieces:
  assumes "demo_decode (concat ps) = Some e" "\<forall>p \<in> set ps. \<exists>e n. P e \<and> p = take n (demo_encode e)"
  shows "\<exists>e0. P e0 \<and> concat ps = demo_encode e0"
  using assms
proof (induction ps)
  case (Cons p ps)
  then obtain e0 n where p: "P e0" "p = take n (demo_encode e0)" by auto
  show ?case
  proof (cases "p = []")
    case True
    then show ?thesis using Cons by simp
  next
    case False
    have "concat ps = []"
    proof (rule ccontr)
      assume "concat ps \<noteq> []"
      then obtain q where q: "q \<in> set ps" "q \<noteq> []" by auto
      then obtain qs rs where ps: "ps = qs @ q # rs" using split_list by metis
      obtain e1 k where "q = take k (demo_encode e1)" using Cons.prems(2) q(1) by auto
      then obtain q' where "q = brace_open # q'" using q(2) by (cases k) (auto simp: demo_encode_def)
      then have "demo_decode ((p @ concat qs) @ brace_open # (q' @ concat rs)) = Some e" using Cons.prems(1) ps by simp
      from demo_no_second [OF this] False show False by simp
    qed
    moreover have "n \<ge> length (demo_encode e0)"
    proof (rule ccontr)
      assume "\<not> n \<ge> length (demo_encode e0)"
      then have "brace_close \<notin> set p" using demo_no_close p(2) by simp
      moreover obtain m where "p = brace_open # m @ [brace_close]"
        using demo_decode_shape [of p e] Cons.prems(1) \<open>concat ps = []\<close> by auto
      ultimately show False by simp
    qed
    ultimately show ?thesis using p by auto
  qed
qed (simp add: demo_decode_def)

lemma demo_codec_ok: "journal_codec_ok demo_codec"
  unfolding journal_codec_ok_def
proof (intro conjI allI impI)
  fix e n assume "validateJournalEntry e = None" "n < length (jc_encode demo_codec e)"
  then show "jc_decode demo_codec (take n (jc_encode demo_codec e)) = None"
    using demo_no_close [of n e] demo_decode_shape [of "take n (demo_encode e)"] by (fastforce simp: demo_codec_def)
next
  fix e :: journal_entry
  show "CHR 0x0A \<notin> set (jc_encode demo_codec e)"
    using demo_encode_shape [of e] field_chars by (auto simp: demo_codec_def)
next
  fix e assume "validateJournalEntry e = None"
  then show "jc_decode demo_codec (jc_encode demo_codec e) = Some (fixed_entry e)" by (simp add: demo_codec_def demo_roundtrip)
next
  fix ps e Q
  assume d: "jc_decode demo_codec (concat ps) = Some e"
    and pieces: "\<forall>p \<in> set ps. \<exists>e n. validateJournalEntry e = None \<and> Q e \<and> p = take n (jc_encode demo_codec e)"
  have d': "demo_decode (concat ps) = Some e" using d by (simp add: demo_codec_def)
  have "\<forall>p \<in> set ps. \<exists>e n. (validateJournalEntry e = None \<and> Q e) \<and> p = take n (demo_encode e)"
    using pieces unfolding demo_codec_def by simp
  from demo_pieces [OF d' this] obtain e0 where e0: "validateJournalEntry e0 = None" "Q e0" "concat ps = demo_encode e0" by blast
  then have "e = fixed_entry e0" using d' demo_roundtrip [OF e0(1)] by simp
  then show "\<exists>e0. validateJournalEntry e0 = None \<and> Q e0 \<and> e = fixed_entry e0" using e0 by blast
qed

section \<open>Witnesses\<close>

definition ecc_demo_env :: ecc_env where
  "ecc_demo_env = \<lparr>ee_wire = (\<lambda>s. s), ee_lower = (\<lambda>s. s), ee_sha = (\<lambda>_. replicate 32 NUL), ee_marshal = (\<lambda>_. []),
     ee_xml = (\<lambda>_. ''x''), ee_created = (\<lambda>n. ''2026''), ee_version = ''v''\<rparr>"

lemma ecc_demo_env_ok: "ecc_env_ok ecc_demo_env"
  by (simp add: ecc_env_ok_def ecc_demo_env_def)

lemma demo_agent: "AgentName ''m'' = Inr ''mid.server.m''"
  by (simp add: AgentName_def safeID_def is_alnum_def is_digit_def AgentPrefix_def)

theorem ecc_response_once_witness:
  "length (responses (sys_id 1) (ew_instance (fold (ecc_step ecc_demo_env demo_codec ''mid.server.m'' 1)
     [Queued ''mid.server.m'' ''Heartbeat'' [] [] [] [] [], Cycle, Cycle]
     (ecc_start [Delivered, Delivered, Delivered, Delivered, Delivered, AnswerLost] [])))) \<le> 1"
  using ecc_response_once [OF ecc_demo_env_ok demo_codec_ok demo_agent refl] by blast

abbreviation demo_id :: string where "demo_id \<equiv> replicate 32 (CHR ''0'')"

abbreviation demo_record :: ecc where
  "demo_record \<equiv> \<lparr>er_SysID = demo_id, er_Agent = ''mid.server.m'', er_Topic = ''Heartbeat'', er_Name = [], er_Source = [],
     er_Queue = ''output'', er_State = ''ready'', er_ResponseTo = [], er_AgentCorrelator = [], er_Parameters = [],
     er_Payload = [], er_ErrorString = [], er_CreatedOn = ''2026''\<rparr>"

abbreviation demo_instance :: "string list \<Rightarrow> ecc_instance" where
  "demo_instance ops \<equiv> \<lparr>en_records = [(demo_id, demo_record)], en_nextID = 2, en_operations = ops, en_net = []\<rparr>"

lemma demo_id_valid: "valid_sys_id demo_id"
  by (simp add: valid_sys_id_def is_hex_digit_def list_all_iff)

lemma demo_trim: "trim_space demo_id = demo_id" "trim_space ''output'' = ''output''" "trim_space ''ready'' = ''ready''"
  "trim_space [] = []"
  by (rule trim_space_text, simp add: is_space_def)+

lemma demo_poll:
  "ecc_Poll ecc_demo_env ''mid.server.m'' 1 (demo_instance []) = (Some [demo_record], demo_instance [''getRecords''])"
proof -
  have view: "view ecc_demo_env demo_record = demo_record"
    by (simp only: model_def map_record_def ecc_demo_env_def ecc.select_convs ecc_env.select_convs demo_trim) simp
  have fields: "validateRecordFields demo_record = None"
    by (simp add: validateRecordFields_def short_fields_def hasControl_def runes_def maxShortFieldBytes_def)
  have out: "validateOutputRecord demo_record ''mid.server.m'' = None"
    using fields demo_id_valid by (simp add: validateOutputRecord_def QueueOutput_def StateReady_def)
  have agent: "has_prefix ''mid.server.m'' AgentPrefix" "\<not> hasControl ''mid.server.m''"
    by (simp_all add: has_prefix_def AgentPrefix_def hasControl_def runes_def)
  have recs: "soap_request (sim_getRecords [(FAgent, ''mid.server.m''), (FQueue, QueueOutput), (FState, StateReady)] 1) (demo_instance [])
      = (Some [demo_record], demo_instance [''getRecords''])"
    by (simp add: soap_request_def next_fate_def sim_getRecords_def recordsLocked_def matches_def QueueOutput_def StateReady_def log_operation_def)
  have wires: "map (\<lambda>(f, s). (f, ee_wire ecc_demo_env s)) ts = ts" for ts by (induction ts) (auto simp: ecc_demo_env_def)
  have "queryRecords ecc_demo_env [(FAgent, ''mid.server.m''), (FQueue, QueueOutput), (FState, StateReady)] 1 (demo_instance [])
      = (Some [demo_record], demo_instance [''getRecords''])"
    unfolding queryRecords_def wires recs using view fields by (simp add: maxPollRecords_def del: One_nat_def)
  then show ?thesis using agent out unfolding ecc_Poll_def by (simp add: AgentPrefix_def maxMIDNameBytes_def StateReady_def)
qed

lemma demo_digest: "digest_of ecc_demo_env demo_record = Some (hex (replicate 32 NUL))"
  by (simp add: digest_of_def recordDigest_def ecc_demo_env_def maxECCRecordJSONBytes_def)

abbreviation demo_journal_entry :: journal_entry where
  "demo_journal_entry \<equiv> \<lparr>je_Version = journalVersion, je_RecordID = demo_id, je_RecordDigest = hex (replicate 32 NUL),
     je_Result = None, je_ResponseSysID = []\<rparr>"

lemma length_put_hex: "length (put_hex s) = 2 * length s + 1"
  by (induction s) simp_all

lemma demo_journal_entry_valid: "validateJournalEntry demo_journal_entry = None"
  using demo_id_valid hex_decodable_hex by (simp add: validateJournalEntry_def)

lemma demo_journal_entry_length: "length (jc_encode demo_codec demo_journal_entry) = 197"
  by (simp add: demo_codec_def demo_encode_def entry_fields_def length_put_hex)

theorem ecc_partial_journal_stalls_witness:
  "en_operations (ew_instance (fold (ecc_step ecc_demo_env demo_codec ''mid.server.m'' 1) [Cycle, Cycle, Cycle]
     (ecc_runCycle ecc_demo_env demo_codec ''mid.server.m'' 1
        \<lparr>ew_instance = demo_instance [], ew_journal = None, ew_io = [Works, FailsAfter 3]\<rparr>))) = [''getRecords'']"
proof -
  have "en_operations (ew_instance (fold (ecc_step ecc_demo_env demo_codec ''mid.server.m'' 1) [Cycle, Cycle, Cycle]
     (ecc_runCycle ecc_demo_env demo_codec ''mid.server.m'' 1
        \<lparr>ew_instance = demo_instance [], ew_journal = None, ew_io = [Works, FailsAfter 3]\<rparr>)))
    = en_operations (demo_instance [''getRecords''])"
    by (rule ecc_partial_journal_stalls [OF demo_codec_ok _ _ _ demo_digest refl _ _ _ refl, where n = 3 and rs = "[]"])
      (use demo_poll demo_journal_entry_valid demo_journal_entry_length in \<open>simp_all add: maxECCRecordJSONBytes_def del: One_nat_def\<close>)
  then show ?thesis by simp
qed

end
