(* ===== verification/Discovery_SSH.thy ===== *)
theory Discovery_SSH
  imports Relay
begin

text \<open>
  The SSH plugin (\<open>pkg/discovery/sshlinux\<close>): the fixed commands, the parsers of their output, what one
  host is asked and how its answers become assets, and how the observation is put together. The
  SSH connection is a parameter: whether dialling a host works, and what each command does there.
\<close>

section \<open>Commands\<close>

definition CommandHostname :: string where "CommandHostname = ''hostname''"
definition CommandMachineID :: string where "CommandMachineID = ''cat /etc/machine-id''"
definition CommandOSRelease :: string where "CommandOSRelease = ''cat /etc/os-release''"
definition CommandArch :: string where "CommandArch = ''uname -m''"
definition CommandCPUCount :: string where "CommandCPUCount = ''getconf _NPROCESSORS_ONLN''"
definition CommandMemoryMB :: string where
  "CommandMemoryMB = ''awk '/MemTotal/ {print int($2/1024)}' /proc/meminfo''"
definition CommandSerial :: string where "CommandSerial = ''cat /sys/class/dmi/id/product_serial''"
definition CommandInterfaces :: string where "CommandInterfaces = ''ip -j address show''"
definition CommandPackages :: string where
  "CommandPackages = ''if command -v dpkg-query >/dev/null 2>&1; then dpkg-query -W -f='${Package}'' @ [CHR 0x5C]
     @ ''n'; elif command -v rpm >/dev/null 2>&1; then rpm -qa --qf '%{NAME}'' @ [CHR 0x5C] @ ''n'; fi''"
definition CommandServices :: string where
  "CommandServices = ''systemctl list-units --type=service --all --no-legend --no-pager''"

definition AllowedCommands :: "string list" where
  "AllowedCommands = [CommandHostname, CommandMachineID, CommandOSRelease, CommandArch, CommandCPUCount, CommandMemoryMB,
     CommandSerial, CommandInterfaces, CommandPackages, CommandServices]"

definition IsAllowedCommand :: "string \<Rightarrow> bool" where
  "IsAllowedCommand cmd = list_ex (\<lambda>allowed. cmd = allowed) AllowedCommands"

fun command_number :: "nat \<Rightarrow> string list \<Rightarrow> string \<Rightarrow> string" where
  "command_number i [] cmd = ''command''"
| "command_number i (c # cs) cmd = (if c = cmd then ''command_'' @ dec (i + 1) else command_number (i + 1) cs cmd)"

definition commandLabel :: "string \<Rightarrow> string" where
  "commandLabel cmd = command_number 0 AllowedCommands cmd"

section \<open>Parsers\<close>

text \<open>
  \<open>bufio.Scanner\<close> over lines: a line of 64 KiB or more ends the scan, a carriage return before the
  newline is dropped, and an empty last piece is no line.
\<close>

definition drop_cr :: "string \<Rightarrow> string" where
  "drop_cr s = (if s \<noteq> [] \<and> last s = CHR 0x0D then butlast s else s)"

definition scan_lines :: "string \<Rightarrow> string list" where
  "scan_lines raw =
     (let pieces = split_on (CHR 0x0A) raw;
          lines = (if last pieces = [] then butlast pieces else pieces)
      in map drop_cr (takeWhile (\<lambda>l. length l < 65536) lines))"

text \<open>\<open>strings.Trim(s, c)\<close> for one character, and \<open>strings.SplitN(s, "=", 2)\<close>.\<close>

definition trim_char :: "char \<Rightarrow> string \<Rightarrow> string" where
  "trim_char c s = rev (dropWhile (\<lambda>x. x = c) (rev (dropWhile (\<lambda>x. x = c) s)))"

definition cut_equals :: "string \<Rightarrow> (string \<times> string) option" where
  "cut_equals s =
     (if CHR ''='' \<in> set s then Some (takeWhile (\<lambda>c. c \<noteq> CHR ''='') s, tl (dropWhile (\<lambda>c. c \<noteq> CHR ''='') s)) else None)"

fun os_values :: "string gomap \<Rightarrow> string list \<Rightarrow> string gomap" where
  "os_values m [] = m"
| "os_values m (l # ls) =
     (case cut_equals l of None \<Rightarrow> os_values m ls
      | Some (k, v) \<Rightarrow> os_values (AList.update k (trim_char (CHR 0x22) v) m) ls)"

definition ParseOSRelease :: "string \<Rightarrow> string \<times> string" where
  "ParseOSRelease raw =
     (let m = os_values [] (scan_lines raw); name = gm_index m ''NAME''
      in (if name = [] then gm_index m ''ID'' else name, gm_index m ''VERSION_ID''))"

text \<open>What \<open>json.Unmarshal\<close> reads of one entry of \<open>ip -j address show\<close>.\<close>

record ip_address =
  ia_IfIndex :: int
  ia_IfName :: string
  ia_Address :: string
  ia_AddrInfo :: "(string \<times> int) list"

record ssh_interface =
  si_Index :: int
  si_Name :: string
  si_MAC :: string
  si_Addresses :: "string list"

definition ParseInterfaces :: "(string \<Rightarrow> string + ip_address list) \<Rightarrow> string \<Rightarrow> string + ssh_interface list" where
  "ParseInterfaces unmarshal raw =
     (case unmarshal raw of Inl err \<Rightarrow> Inl (''parse ip address JSON: '' @ err)
      | Inr entries \<Rightarrow> Inr (map (\<lambda>e. \<lparr>si_Index = ia_IfIndex e, si_Name = ia_IfName e, si_MAC = ia_Address e,
            si_Addresses = map (\<lambda>(local, len). local @ ''/'' @ dec_int len) (ia_AddrInfo e)\<rparr>) entries))"

text \<open>\<open>strconv.Atoi\<close> on 64 bits: an optional sign and decimal digits, in range.\<close>

definition Atoi :: "string \<Rightarrow> int option" where
  "Atoi s =
     (let sign = (if s \<noteq> [] \<and> hd s = CHR ''-'' then - 1 else 1);
          digits = (if s \<noteq> [] \<and> hd s \<in> {CHR ''-'', CHR ''+''} then tl s else s);
          v = sign * int (read_nat digits)
      in if digits = [] \<or> \<not> list_all is_digit digits \<or> v < - (2 ^ 63) \<or> 2 ^ 63 \<le> v then None else Some v)"

text \<open>\<open>quote\<close> is the verb \<open>%q\<close>.\<close>

definition ParsePositiveInt :: "(string \<Rightarrow> string) \<Rightarrow> string \<Rightarrow> string \<Rightarrow> string + int" where
  "ParsePositiveInt quote name raw =
     (case Atoi (trim_space raw) of
        Some v \<Rightarrow> if v < 1 then Inl (''invalid '' @ name @ '' '' @ quote (trim_space raw)) else Inr v
      | None \<Rightarrow> Inl (''invalid '' @ name @ '' '' @ quote (trim_space raw)))"

text \<open>The first of \<open>strings.Fields\<close> of a line that is trimmed and not empty.\<close>

definition first_field :: "string \<Rightarrow> string" where
  "first_field line = concat (map snd (takeWhile (\<lambda>(r, _). \<not> is_space r) (rune_chunks line)))"

fun distinct_fields :: "string list \<Rightarrow> string list \<Rightarrow> string list" where
  "distinct_fields out [] = out"
| "distinct_fields out (raw # ls) =
     (let line = trim_space raw
      in if line = [] then distinct_fields out ls
         else if first_field line \<in> set out then distinct_fields out ls
         else distinct_fields (out @ [first_field line]) ls)"

definition ParseLines :: "string \<Rightarrow> string list" where
  "ParseLines raw = distinct_fields [] (scan_lines raw)"

definition trim_suffix :: "string \<Rightarrow> string \<Rightarrow> string" where
  "trim_suffix s sfx = (if has_suffix s sfx then take (length s - length sfx) s else s)"

definition ParseServices :: "string \<Rightarrow> string list" where
  "ParseServices raw = map (\<lambda>s. trim_suffix s ''.service'') (ParseLines raw)"

section \<open>Inventory\<close>

record inventory =
  iv_Hostname :: string
  iv_MachineID :: string
  iv_OSName :: string
  iv_OSVersion :: string
  iv_Architecture :: string
  iv_Serial :: string
  iv_CPUCount :: int
  iv_MemoryMB :: int
  iv_Interfaces :: "ssh_interface list"
  iv_Packages :: "string list"
  iv_Services :: "string list"

definition ssh_evidence :: "time \<Rightarrow> evidence list" where
  "ssh_evidence now = [\<lparr>ev_Source = ''ssh-linux'', ev_Collected = now, ev_Path = [], ev_Confidence = 1\<rparr>]"

definition host_asset :: "time \<Rightarrow> inventory \<Rightarrow> asset" where
  "host_asset now i =
     \<lparr>as_Type = AssetHost, as_NativeID = iv_MachineID i, as_Name = iv_Hostname i,
      as_Identifiers = [(''machine_id'', iv_MachineID i), (''serial_number'', iv_Serial i), (''hostname'', iv_Hostname i)],
      as_Attributes = [(''os'', JStr ''linux''), (''os_name'', JStr (iv_OSName i)), (''os_version'', JStr (iv_OSVersion i)),
        (''architecture'', JStr (iv_Architecture i)), (''cpu_logical_count'', JNum (of_int (iv_CPUCount i))),
        (''memory_mb'', JNum (of_int (iv_MemoryMB i))), (''packages'', JArr (map JStr (iv_Packages i))),
        (''services'', JArr (map JStr (iv_Services i)))],
      as_Evidence = ssh_evidence now\<rparr>"

definition native_interface :: "inventory \<Rightarrow> ssh_interface \<Rightarrow> string" where
  "native_interface i f = iv_MachineID i @ '':interface:'' @ dec_int (si_Index f)"

definition interface_asset :: "time \<Rightarrow> inventory \<Rightarrow> ssh_interface \<Rightarrow> asset" where
  "interface_asset now i f =
     \<lparr>as_Type = AssetNetworkInterface, as_NativeID = native_interface i f, as_Name = si_Name f,
      as_Identifiers = [(''host_machine_id'', iv_MachineID i), (''mac_address'', si_MAC f)],
      as_Attributes = [(''mac_address'', JStr (si_MAC f)), (''addresses'', JArr (map JStr (si_Addresses f)))],
      as_Evidence = ssh_evidence now\<rparr>"

definition interface_relationship :: "time \<Rightarrow> inventory \<Rightarrow> ssh_interface \<Rightarrow> relationship" where
  "interface_relationship now i f =
     \<lparr>rl_Type = ''host_has_interface'', rl_FromNativeID = iv_MachineID i, rl_ToNativeID = native_interface i f,
      rl_Evidence = ssh_evidence now\<rparr>"

definition Assets :: "time \<Rightarrow> inventory \<Rightarrow> asset list \<times> relationship list" where
  "Assets now i = (host_asset now i # map (interface_asset now i) (iv_Interfaces i),
     map (interface_relationship now i) (iv_Interfaces i))"

section \<open>One command\<close>

text \<open>
  What a session does: it cannot be opened, it does not end in time, or it ends with an error or none
  after writing its output piece by piece.
\<close>

datatype ssh_outcome = NoSession string | TimedOut string | Ended "string list" "string option"

record bounded_output =
  bo_data :: string
  bo_remaining :: int
  bo_exceeded :: bool

definition Write :: "string \<Rightarrow> bounded_output \<Rightarrow> bounded_output" where
  "Write p b =
     (let cut = int (length p) > bo_remaining b; p = (if cut then take (nat (bo_remaining b)) p else p)
      in \<lparr>bo_data = bo_data b @ p, bo_remaining = bo_remaining b - int (length p), bo_exceeded = (bo_exceeded b \<or> cut)\<rparr>)"

definition runCommand :: "int \<Rightarrow> ssh_outcome \<Rightarrow> string \<Rightarrow> string + string" where
  "runCommand maxOutputBytes outcome cmd =
     (if \<not> IsAllowedCommand cmd then Inl ''command is not allowlisted''
      else case outcome of NoSession err \<Rightarrow> Inl err | TimedOut err \<Rightarrow> Inl err
      | Ended pieces err \<Rightarrow>
          let maxOutput = (if maxOutputBytes = 0 then 4 * 2 ^ 20 else maxOutputBytes);
              output = fold Write pieces \<lparr>bo_data = [], bo_remaining = maxOutput, bo_exceeded = False\<rparr>
          in if bo_exceeded output then Inl (''command output exceeded '' @ dec_int maxOutput @ '' bytes'')
             else case err of Some e \<Rightarrow> Inl e | None \<Rightarrow> Inr (bo_data output))"

section \<open>One host\<close>

record ssh_host =
  hs_Dial :: "string option"
  hs_Run :: "string \<Rightarrow> ssh_outcome"

record ssh_lib =
  sb_quote :: "string \<Rightarrow> string"
  sb_unmarshal :: "string \<Rightarrow> string + ip_address list"

datatype ssh_action = SDial string string | SRun string string

definition ssh_error :: "string \<Rightarrow> string \<Rightarrow> string \<Rightarrow> bool \<Rightarrow> collection_error" where
  "ssh_error code address msg retryable =
     \<lparr>ce_Code = code, ce_Message = address @ '': '' @ msg, ce_Retryable = retryable\<rparr>"

fun run_commands ::
  "int \<Rightarrow> ssh_host \<Rightarrow> string \<Rightarrow> string list \<Rightarrow> string gomap \<Rightarrow> collection_error list
   \<Rightarrow> ssh_action list \<times> (collection_error list + string gomap \<times> collection_error list)" where
  "run_commands maxOut h address [] outputs errs = ([], Inr (outputs, errs))"
| "run_commands maxOut h address (cmd # cmds) outputs errs =
     (case runCommand maxOut (hs_Run h cmd) cmd of
        Inl err \<Rightarrow>
          if cmd \<noteq> CommandPackages \<and> cmd \<noteq> CommandServices
          then ([SRun address cmd], Inl (errs @ [ssh_error ''ssh_command'' address (commandLabel cmd @ '': '' @ err) True]))
          else (case run_commands maxOut h address cmds outputs
              (errs @ [ssh_error ''ssh_partial'' address (commandLabel cmd @ '': '' @ err) False]) of (acts, x) \<Rightarrow>
            (SRun address cmd # acts, x))
      | Inr out \<Rightarrow>
          (case run_commands maxOut h address cmds (AList.update cmd out outputs) errs of (acts, x) \<Rightarrow>
            (SRun address cmd # acts, x)))"

definition inventory_of :: "ssh_lib \<Rightarrow> string gomap \<Rightarrow> string + inventory" where
  "inventory_of l outputs =
     (case ParsePositiveInt (sb_quote l) ''CPU count'' (gm_index outputs CommandCPUCount) of Inl err \<Rightarrow> Inl err
      | Inr cpu \<Rightarrow>
        case ParsePositiveInt (sb_quote l) ''memory'' (gm_index outputs CommandMemoryMB) of Inl err \<Rightarrow> Inl err
        | Inr memory \<Rightarrow>
          case ParseInterfaces (sb_unmarshal l) (gm_index outputs CommandInterfaces) of Inl err \<Rightarrow> Inl err
          | Inr ifaces \<Rightarrow>
            let os = ParseOSRelease (gm_index outputs CommandOSRelease);
                i = \<lparr>iv_Hostname = trim_space (gm_index outputs CommandHostname),
                  iv_MachineID = trim_space (gm_index outputs CommandMachineID), iv_OSName = fst os, iv_OSVersion = snd os,
                  iv_Architecture = trim_space (gm_index outputs CommandArch),
                  iv_Serial = trim_space (gm_index outputs CommandSerial), iv_CPUCount = cpu, iv_MemoryMB = memory,
                  iv_Interfaces = ifaces, iv_Packages = ParseLines (gm_index outputs CommandPackages),
                  iv_Services = ParseServices (gm_index outputs CommandServices)\<rparr>
            in if iv_Hostname i = [] \<or> iv_MachineID i = [] then Inl ''empty hostname or machine ID'' else Inr i)"

definition discoverTarget ::
  "ssh_lib \<Rightarrow> int \<Rightarrow> ssh_host \<Rightarrow> string \<times> string \<Rightarrow> ssh_action list \<times> inventory option \<times> collection_error list" where
  "discoverTarget l maxOut h t =
     (case t of (username, address) \<Rightarrow>
        case hs_Dial h of Some err \<Rightarrow> ([SDial username address], None, [ssh_error ''ssh_connect'' address err True])
        | None \<Rightarrow>
          case run_commands maxOut h address AllowedCommands [] [] of
            (acts, Inl errs) \<Rightarrow> (SDial username address # acts, None, errs)
          | (acts, Inr (outputs, errs)) \<Rightarrow>
              (case inventory_of l outputs of
                 Inl err \<Rightarrow> (SDial username address # acts, None, errs @ [ssh_error ''ssh_parse'' address err False])
               | Inr i \<Rightarrow> (SDial username address # acts, Some i, errs)))"

section \<open>Discover\<close>

text \<open>
  \<open>hosts\<close> is what the host of each job answers, \<open>order\<close> the jobs in the order in which the goroutines
  finish; when the context ends first, some jobs are missing and an error is returned. The log lists
  the actions job by job.
\<close>

datatype ssh_failure = SSHInvalid | SSHCancelled

definition defaultValue :: "string \<Rightarrow> string \<Rightarrow> string" where
  "defaultValue v d = (if v = [] then d else v)"

definition add_target :: "time \<Rightarrow> ssh_action list \<times> inventory option \<times> collection_error list \<Rightarrow> observation \<Rightarrow> observation" where
  "add_target now x obs =
     (case x of (_, found, errs) \<Rightarrow>
        let obs = (case found of None \<Rightarrow> obs
              | Some i \<Rightarrow> obs\<lparr>ob_Assets := ob_Assets obs @ fst (Assets now i),
                    ob_Relationships := ob_Relationships obs @ snd (Assets now i)\<rparr>)
        in obs\<lparr>ob_Errors := ob_Errors obs @ errs\<rparr>)"

definition ssh_Discover ::
  "ssh_lib \<Rightarrow> ssh_plugin \<Rightarrow> discovery_request \<Rightarrow> time \<Rightarrow> string \<Rightarrow> (nat \<Rightarrow> ssh_host) \<Rightarrow> nat list
   \<Rightarrow> ssh_action list \<times> (ssh_failure + observation)" where
  "ssh_Discover l c r now oid hosts order =
     (if \<not> plugin_accepts (SSHPlugin c) r then ([], Inl SSHInvalid)
      else let runs = map (\<lambda>i. discoverTarget l (sp_MaxOutputBytes c) (hosts i) (the (parseTarget (dr_Targets r ! i)))) order;
          obs = \<lparr>ob_SchemaVersion = SchemaVersion, ob_ObservationID = oid, ob_SiteID = defaultValue (dr_SiteID r) ''default'',
            ob_CollectorID = defaultValue (dr_CollectorID r) ''ssh-relay'', ob_Plugin = ''ssh-linux'', ob_JobID = dr_JobID r,
            ob_ObservedAt = now, ob_Assets = [], ob_Relationships = [], ob_Errors = [], ob_Labels = []\<rparr>
        in (concat (map fst runs),
            if length order < length (dr_Targets r) then Inl SSHCancelled else Inr (fold (add_target now) runs obs)))"

end
