(* ===== verification/Discovery_Properties.thy ===== *)
theory Discovery_Properties
  imports Discovery_SSH
begin

text \<open>
  What an SSH discovery does to the network and what it reports: only fixed commands on the requested
  hosts, no more output than the bound, every target accounted for, and a closed graph of assets.
\<close>

section \<open>Bounded output\<close>

text \<open>The pieces written add up to a prefix of the output, and the flag tells whether it was cut.\<close>

lemma bounded_writes:
  assumes "0 \<le> bo_remaining b"
  shows "bo_data (fold Write ps b) = bo_data b @ take (nat (bo_remaining b)) (concat ps)
    \<and> bo_exceeded (fold Write ps b) = (bo_exceeded b \<or> int (length (concat ps)) > bo_remaining b)"
  using assms
proof (induction ps arbitrary: b)
  case (Cons p ps)
  obtain m where m: "bo_remaining b = int m" using Cons.prems nonneg_int_cases by blast
  have w: "bo_remaining (Write p b) = int (m - length p)" "bo_data (Write p b) = bo_data b @ take m p"
    "bo_exceeded (Write p b) = (bo_exceeded b \<or> length p > m)"
    by (auto simp: Write_def Let_def m)
  have "nat (int m - int (length p)) = m - length p" by simp
  then show ?case using Cons.IH [of "Write p b"] by (cases "length p \<le> m") (auto simp: w m)
qed simp

lemma runCommand_output:
  assumes "runCommand m outcome cmd = Inr out" "0 \<le> m"
  shows "IsAllowedCommand cmd \<and> (\<exists>ps. outcome = Ended ps None \<and> out = concat ps)
    \<and> int (length out) \<le> (if m = 0 then 4 * 2 ^ 20 else m)"
proof -
  let ?m = "if m = 0 then 4 * 2 ^ 20 else m"
  obtain ps where ps: "outcome = Ended ps None" "IsAllowedCommand cmd"
      "\<not> bo_exceeded (fold Write ps \<lparr>bo_data = [], bo_remaining = ?m, bo_exceeded = False\<rparr>)"
      "out = bo_data (fold Write ps \<lparr>bo_data = [], bo_remaining = ?m, bo_exceeded = False\<rparr>)"
    using assms(1) by (auto simp: runCommand_def Let_def split: if_splits ssh_outcome.splits option.splits)
  moreover have "0 \<le> ?m" using assms(2) by simp
  ultimately show ?thesis
    using bounded_writes [of "\<lparr>bo_data = [], bo_remaining = ?m, bo_exceeded = False\<rparr>" ps] by (simp split del: if_split)
qed

section \<open>One host\<close>

definition about :: "string \<Rightarrow> collection_error \<Rightarrow> bool" where
  "about address err \<longleftrightarrow> has_prefix (ce_Message err) (address @ '': '')"

lemma about_error [simp]: "about address (ssh_error code address msg retryable)"
  unfolding about_def ssh_error_def using has_prefix_append [of "address @ '': ''" msg] by simp

lemma run_commands_actions:
  "run_commands m h ad cmds outputs errs = (acts, x) \<Longrightarrow> set acts \<subseteq> SRun ad ` set cmds"
proof (induction cmds arbitrary: outputs errs acts)
  case (Cons cmd cmds)
  show ?case
  proof (cases "\<exists>outputs' errs' acts'. run_commands m h ad cmds outputs' errs' = (acts', x) \<and> acts = SRun ad cmd # acts'")
    case True
    then show ?thesis using Cons.IH by fastforce
  next
    case False
    then have "acts = [SRun ad cmd]" using Cons.prems by (auto split: sum.splits prod.splits if_splits)
    then show ?thesis by simp
  qed
qed simp

lemma run_commands_errors:
  "run_commands m h ad cmds outputs errs = (acts, x) \<Longrightarrow> \<forall>e \<in> set errs. about ad e \<Longrightarrow>
    (case x of Inl es \<Rightarrow> es \<noteq> [] \<and> (\<forall>e \<in> set es. about ad e) | Inr (_, es) \<Rightarrow> \<forall>e \<in> set es. about ad e)"
proof (induction cmds arbitrary: outputs errs acts)
  case (Cons cmd cmds)
  show ?case
  proof (cases "runCommand m (hs_Run h cmd) cmd")
    case (Inl err)
    let ?e = "ssh_error ''ssh_partial'' ad (commandLabel cmd @ '': '' @ err) False"
    show ?thesis
    proof (cases "cmd \<noteq> CommandPackages \<and> cmd \<noteq> CommandServices")
      case True
      then show ?thesis using Cons.prems Inl by auto
    next
      case False
      obtain acts' where "run_commands m h ad cmds outputs (errs @ [?e]) = (acts', x)"
        using Cons.prems(1) Inl False by (auto split: prod.splits)
      from Cons.IH [OF this] Cons.prems(2) show ?thesis by simp
    qed
  next
    case (Inr out)
    obtain acts' where "run_commands m h ad cmds (AList.update cmd out outputs) errs = (acts', x)"
      using Cons.prems(1) Inr by (auto split: prod.splits)
    from Cons.IH [OF this Cons.prems(2)] show ?thesis .
  qed
qed auto

lemma inventory_named: "inventory_of l outputs = Inr i \<Longrightarrow> iv_MachineID i \<noteq> [] \<and> iv_Hostname i \<noteq> [] \<and> 1 \<le> iv_CPUCount i \<and> 1 \<le> iv_MemoryMB i"
  by (auto simp: inventory_of_def Let_def ParsePositiveInt_def split: sum.splits option.splits if_splits)

text \<open>A run that says so of its errors, and that either found a named host or reports an error.\<close>

definition good_run :: "string \<Rightarrow> ssh_action list \<times> inventory option \<times> collection_error list \<Rightarrow> bool" where
  "good_run address x \<longleftrightarrow> (case x of (_, found, errs) \<Rightarrow> (\<forall>e \<in> set errs. about address e)
     \<and> (case found of None \<Rightarrow> errs \<noteq> [] | Some v \<Rightarrow> iv_MachineID v \<noteq> []))"

lemma discoverTarget_sound:
  "set (fst (discoverTarget l m h (user, ad))) \<subseteq> insert (SDial user ad) (SRun ad ` set AllowedCommands)
    \<and> good_run ad (discoverTarget l m h (user, ad))"
proof (cases "hs_Dial h")
  case None
  obtain acts x where r: "run_commands m h ad AllowedCommands [] [] = (acts, x)" by fastforce
  note a = run_commands_actions [OF r] and e = run_commands_errors [OF r]
  show ?thesis
  proof (cases x)
    case (Inl errs)
    then show ?thesis using a e None by (auto simp: discoverTarget_def r good_run_def)
  next
    case (Inr p)
    obtain outputs errs where p: "p = (outputs, errs)" by fastforce
    show ?thesis
      using a e None inventory_named [of l outputs]
      by (cases "inventory_of l outputs") (auto simp: discoverTarget_def r good_run_def Inr p)
  qed
qed (simp add: discoverTarget_def good_run_def)

section \<open>The observation\<close>

lemma add_targets:
  "ob_Assets (fold (add_target now) runs obs)
     = ob_Assets obs @ concat (map (\<lambda>(_, found, _). case found of None \<Rightarrow> [] | Some i \<Rightarrow> fst (Assets now i)) runs)"
  "ob_Relationships (fold (add_target now) runs obs)
     = ob_Relationships obs @ concat (map (\<lambda>(_, found, _). case found of None \<Rightarrow> [] | Some i \<Rightarrow> snd (Assets now i)) runs)"
  "ob_Errors (fold (add_target now) runs obs) = ob_Errors obs @ concat (map (\<lambda>(_, _, errs). errs) runs)"
  by (induction runs arbitrary: obs) (auto simp: add_target_def Let_def split: option.splits)

text \<open>How an observation accounts for one run, and that its relationships stay among its assets.\<close>

definition accounts_for ::
  "time \<Rightarrow> string \<Rightarrow> observation \<Rightarrow> ssh_action list \<times> inventory option \<times> collection_error list \<Rightarrow> bool" where
  "accounts_for now address obs x \<longleftrightarrow> (case x of (_, found, _) \<Rightarrow> case found of
      Some v \<Rightarrow> host_asset now v \<in> set (ob_Assets obs) \<and> iv_MachineID v \<noteq> []
    | None \<Rightarrow> \<exists>e \<in> set (ob_Errors obs). has_prefix (ce_Message e) (address @ '': ''))"

definition closed_graph :: "observation \<Rightarrow> bool" where
  "closed_graph obs \<longleftrightarrow> (\<forall>a \<in> set (ob_Assets obs). as_NativeID a \<noteq> [] \<and> as_Type a \<in> {AssetHost, AssetNetworkInterface})
    \<and> (\<forall>x \<in> set (ob_Relationships obs). rl_Type x = ''host_has_interface''
        \<and> (\<exists>a \<in> set (ob_Assets obs). as_Type a = AssetHost \<and> as_NativeID a = rl_FromNativeID x)
        \<and> (\<exists>b \<in> set (ob_Assets obs). as_Type b = AssetNetworkInterface \<and> as_NativeID b = rl_ToNativeID x))"

lemma assets_of_host:
  "a \<in> set (fst (Assets now i)) \<Longrightarrow> iv_MachineID i \<noteq> [] \<Longrightarrow> as_NativeID a \<noteq> [] \<and> as_Type a \<in> {AssetHost, AssetNetworkInterface}"
  by (auto simp: Assets_def host_asset_def interface_asset_def native_interface_def)

lemma relationships_of_host:
  assumes "r \<in> set (snd (Assets now i))" "set (fst (Assets now i)) \<subseteq> A"
  shows "rl_Type r = ''host_has_interface'' \<and> (\<exists>a \<in> A. as_Type a = AssetHost \<and> as_NativeID a = rl_FromNativeID r)
    \<and> (\<exists>b \<in> A. as_Type b = AssetNetworkInterface \<and> as_NativeID b = rl_ToNativeID r)"
proof -
  obtain f where f: "f \<in> set (iv_Interfaces i)" "r = interface_relationship now i f"
    using assms(1) by (auto simp: Assets_def)
  have "host_asset now i \<in> A" "interface_asset now i f \<in> A" using assms(2) f(1) by (auto simp: Assets_def)
  moreover have "rl_Type r = ''host_has_interface''" "as_Type (host_asset now i) = AssetHost"
      "as_NativeID (host_asset now i) = rl_FromNativeID r" "as_Type (interface_asset now i f) = AssetNetworkInterface"
      "as_NativeID (interface_asset now i f) = rl_ToNativeID r"
    by (simp_all add: f(2) interface_relationship_def host_asset_def interface_asset_def)
  ultimately show ?thesis by blast
qed

lemma collected:
  assumes "x \<in> set runs" "good_run address x"
  shows "accounts_for now address (fold (add_target now) runs obs) x"
proof -
  obtain acts found errs where x: "x = (acts, found, errs)" by (metis prod_cases3)
  show ?thesis
  proof (cases found)
    case None
    then have "hd errs \<in> set errs" "has_prefix (ce_Message (hd errs)) (address @ '': '')"
      using assms(2) unfolding x good_run_def about_def by auto
    moreover have "set errs \<subseteq> set (ob_Errors (fold (add_target now) runs obs))"
      using assms(1) unfolding x add_targets by force
    ultimately show ?thesis unfolding x None accounts_for_def by auto
  next
    case (Some v)
    have "set (fst (Assets now v)) \<subseteq> set (ob_Assets (fold (add_target now) runs obs))"
      using assms(1) unfolding x Some add_targets by force
    then show ?thesis using assms(2) unfolding x Some accounts_for_def good_run_def by (simp add: Assets_def)
  qed
qed

lemma collected_graph:
  assumes "\<forall>x \<in> set runs. \<exists>address. good_run address x" "ob_Assets obs = []" "ob_Relationships obs = []"
  shows "closed_graph (fold (add_target now) runs obs)"
proof -
  let ?obs = "fold (add_target now) runs obs"
  have a: "\<exists>acts v errs. (acts, Some v, errs) \<in> set runs \<and> a \<in> set (fst (Assets now v))" if ha: "a \<in> set (ob_Assets ?obs)" for a
    using ha unfolding add_targets assms(2) by (fastforce split: option.splits)
  have r: "\<exists>acts v errs. (acts, Some v, errs) \<in> set runs \<and> x \<in> set (snd (Assets now v))" if hr: "x \<in> set (ob_Relationships ?obs)" for x
    using hr unfolding add_targets assms(3) by (fastforce split: option.splits)
  have v: "iv_MachineID v \<noteq> [] \<and> set (fst (Assets now v)) \<subseteq> set (ob_Assets ?obs)"
    if hv: "(acts, Some v, errs) \<in> set runs" for acts v errs
    using assms(1) hv unfolding good_run_def add_targets by force
  show ?thesis
    unfolding closed_graph_def
  proof (intro conjI ballI)
    fix x assume "x \<in> set (ob_Relationships ?obs)"
    then obtain acts w errs where w: "(acts, Some w, errs) \<in> set runs" "x \<in> set (snd (Assets now w))" using r by blast
    note s = relationships_of_host [OF w(2) conjunct2 [OF v [OF w(1)]]]
    show "rl_Type x = ''host_has_interface''"
      "\<exists>a \<in> set (ob_Assets ?obs). as_Type a = AssetHost \<and> as_NativeID a = rl_FromNativeID x"
      "\<exists>b \<in> set (ob_Assets ?obs). as_Type b = AssetNetworkInterface \<and> as_NativeID b = rl_ToNativeID x"
      using s by blast+
  next
    fix x assume "x \<in> set (ob_Assets ?obs)"
    then obtain acts w errs where w: "(acts, Some w, errs) \<in> set runs" "x \<in> set (fst (Assets now w))" using a by blast
    show "as_NativeID x \<noteq> []" "as_Type x \<in> {AssetHost, AssetNetworkInterface}"
      using assets_of_host [OF w(2) conjunct1 [OF v [OF w(1)]]] by blast+
  qed
qed

text \<open>
  C40: an SSH discovery stays within its request and accounts for every target. Whatever the hosts answer
  and in whichever order their jobs finish: each action is a connection to a requested target or one of
  the fixed commands on it. When an observation is returned, every target contributed the host that its
  answers describe, or an error that names the target's address; every asset has one of the two types
  and a native ID; and every relationship connects a reported host with a reported interface.
\<close>

theorem ssh_discovery_sound:
  assumes "ssh_Discover l c r now oid hosts order = (acts, outcome)"
    and "distinct order" "set order \<subseteq> {..<length (dr_Targets r)}"
  shows "(\<forall>a \<in> set acts. \<exists>t \<in> set (dr_Targets r). \<exists>user address. parseTarget t = Some (user, address)
      \<and> a \<in> insert (SDial user address) (SRun address ` set AllowedCommands))
    \<and> (\<forall>obs. outcome = Inr obs \<longrightarrow> closed_graph obs \<and> (\<forall>i < length (dr_Targets r).
      \<exists>user address. parseTarget (dr_Targets r ! i) = Some (user, address)
        \<and> accounts_for now address obs (discoverTarget l (sp_MaxOutputBytes c) (hosts i) (user, address))))"
proof (cases "plugin_accepts (SSHPlugin c) r")
  case True
  let ?job = "\<lambda>i. discoverTarget l (sp_MaxOutputBytes c) (hosts i) (the (parseTarget (dr_Targets r ! i)))"
  have parse: "\<exists>user address. parseTarget (dr_Targets r ! i) = Some (user, address)" if lt: "i < length (dr_Targets r)" for i
    using True lt by (auto simp: list_all_length)
  have good: "\<exists>user address. parseTarget (dr_Targets r ! i) = Some (user, address)
      \<and> set (fst (?job i)) \<subseteq> insert (SDial user address) (SRun address ` set AllowedCommands) \<and> good_run address (?job i)"
    if ord: "i < length (dr_Targets r)" for i
    using parse [OF ord] discoverTarget_sound by fastforce
  have acts: "acts = concat (map (fst \<circ> ?job) order)"
    using assms(1) True by (simp add: ssh_Discover_def Let_def del: plugin_accepts.simps)
  have "\<exists>t \<in> set (dr_Targets r). \<exists>user address. parseTarget t = Some (user, address)
      \<and> a \<in> insert (SDial user address) (SRun address ` set AllowedCommands)" if act: "a \<in> set acts" for a
  proof -
    obtain i where i: "i \<in> set order" "a \<in> set (fst (?job i))" using act acts by auto
    then have lt: "i < length (dr_Targets r)" using assms(3) by auto
    show ?thesis using good [OF lt] i(2) nth_mem [OF lt] by blast
  qed
  moreover have "closed_graph obs \<and> (\<forall>i < length (dr_Targets r). \<exists>user address. parseTarget (dr_Targets r ! i) = Some (user, address)
        \<and> accounts_for now address obs (discoverTarget l (sp_MaxOutputBytes c) (hosts i) (user, address)))"
    if out: "outcome = Inr obs" for obs
  proof -
    obtain obs0 where obs: "obs = fold (add_target now) (map ?job order) obs0" "ob_Assets obs0 = []" "ob_Relationships obs0 = []"
        and len: "length (dr_Targets r) \<le> length order"
      using assms(1) True out by (auto simp: ssh_Discover_def Let_def simp del: plugin_accepts.simps split: if_splits)
    have "card (set order) \<le> length (dr_Targets r)" using card_mono [OF _ assms(3)] by simp
    then have all: "set order = {..<length (dr_Targets r)}"
      using len assms(2,3) by (intro card_subset_eq) (simp_all add: distinct_card)
    have "\<forall>x \<in> set (map ?job order). \<exists>address. good_run address x" using good unfolding set_map all by blast
    then have "closed_graph obs" unfolding obs(1) by (rule collected_graph [OF _ obs(2,3)])
    moreover have "\<exists>user address. parseTarget (dr_Targets r ! i) = Some (user, address)
        \<and> accounts_for now address obs (discoverTarget l (sp_MaxOutputBytes c) (hosts i) (user, address))"
      if lt: "i < length (dr_Targets r)" for i
    proof -
      obtain user address where g: "parseTarget (dr_Targets r ! i) = Some (user, address)" "good_run address (?job i)"
        using good [OF lt] by blast
      have "?job i \<in> set (map ?job order)" using lt all by simp
      from collected [OF this g(2), of now obs0] show ?thesis using g(1) unfolding obs(1) by auto
    qed
    ultimately show ?thesis by blast
  qed
  ultimately show ?thesis by blast
qed (use assms(1) in \<open>auto simp: ssh_Discover_def simp del: plugin_accepts.simps\<close>)

text \<open>Two targets, of which one is unreachable and the other answers, in the opposite order.\<close>

definition demo_ssh_hosts :: "nat \<Rightarrow> ssh_host" where
  "demo_ssh_hosts i = (if i = 0 then \<lparr>hs_Dial = Some ''refused'', hs_Run = (\<lambda>_. NoSession [])\<rparr>
     else \<lparr>hs_Dial = None, hs_Run = (\<lambda>_. Ended [''4''] None)\<rparr>)"

theorem ssh_discovery_sound_witness:
  "\<exists>acts obs. ssh_Discover \<lparr>sb_quote = (\<lambda>s. s), sb_unmarshal = (\<lambda>_. Inr [])\<rparr>
      \<lparr>sp_Password = ''p'', sp_Signer = None, sp_Concurrency = 1, sp_ConnectTimeout = 1, sp_CommandTimeout = 1, sp_MaxOutputBytes = 0\<rparr>
      \<lparr>dr_JobID = ''j'', dr_SiteID = [], dr_CollectorID = [], dr_Targets = [''u@a:22'', ''u@b:22''], dr_Deadline = 1\<rparr>
      1 ''o'' demo_ssh_hosts [1, 0] = (acts, Inr obs)
    \<and> closed_graph obs \<and> (\<exists>e \<in> set (ob_Errors obs). has_prefix (ce_Message e) ''a:22: '')"
proof -
  let ?l = "\<lparr>sb_quote = (\<lambda>s :: string. s), sb_unmarshal = (\<lambda>_. Inr [])\<rparr>"
  let ?c = "\<lparr>sp_Password = ''p'', sp_Signer = None, sp_Concurrency = 1, sp_ConnectTimeout = 1, sp_CommandTimeout = 1, sp_MaxOutputBytes = 0\<rparr>"
  let ?r = "\<lparr>dr_JobID = ''j'', dr_SiteID = [], dr_CollectorID = [], dr_Targets = [''u@a:22'', ''u@b:22''], dr_Deadline = 1\<rparr>"
  have targets: "parseTarget ''u@a:22'' = Some (''u'', ''a:22'')" "parseTarget ''u@b:22'' = Some (''u'', ''b:22'')"
    by (simp_all add: parseTarget_def host_part_def last_part_def SplitHostPort_ok_def)
  obtain acts out where d: "ssh_Discover ?l ?c ?r 1 ''o'' demo_ssh_hosts [1, 0] = (acts, out)" by fastforce
  then obtain obs where obs: "out = Inr obs" by (auto simp: ssh_Discover_def targets Let_def)
  have "distinct [1 :: nat, 0]" "set [1 :: nat, 0] \<subseteq> {..<length (dr_Targets ?r)}" by auto
  note sound = ssh_discovery_sound [OF d this, THEN conjunct2, rule_format, OF obs]
  from conjunct2 [OF sound, rule_format, of 0]
  have "accounts_for 1 ''a:22'' obs (discoverTarget ?l 0 (demo_ssh_hosts 0) (''u'', ''a:22''))" by (simp add: targets)
  then have "\<exists>e \<in> set (ob_Errors obs). has_prefix (ce_Message e) ''a:22: ''"
    by (simp add: accounts_for_def discoverTarget_def demo_ssh_hosts_def)
  then show ?thesis using d obs conjunct1 [OF sound] by blast
qed

end
