(* ===== verification/Enrollment.thy ===== *)
theory Enrollment
  imports Model
begin

text \<open>
  Package \<open>internal/enrollment\<close>: collector identifiers, single-use enrollment tokens
  (\<open>tokens.go\<close>), certificate serials (\<open>tls.go\<close>) and the part of \<open>ca.go\<close> that decides what is
  signed. A certificate is the record of the fields the code sets and reads; X.509 encoding and
  signing are the standard library's and appear as arguments (the random serial, whether signing
  succeeds). A PEM text stands for the certificate it encodes.
\<close>

section \<open>Collector identifiers\<close>

definition maxCollectorIDBytes :: nat where "maxCollectorIDBytes = 253"

definition ValidCollectorID :: "string \<Rightarrow> bool" where
  "ValidCollectorID cid =
     (if cid = [] \<or> length cid > maxCollectorIDBytes then False
      else if trim_space cid \<noteq> cid then False
      else \<not> list_ex is_control (runes cid))"

section \<open>Enrollment tokens\<close>

record token_record =
  tk_collectorID :: string
  tk_expiresAt :: time
  tk_redeemed :: bool

type_synonym token_store = "token_record gomap"

definition NewTokenStore :: token_store where "NewTokenStore = []"

datatype token_error = BadCollectorID | BadTTL | NoRandomness | ErrInvalidToken

text \<open>\<open>Issue\<close>: \<open>random\<close> is what \<open>rand.Read\<close> delivers (\<open>None\<close>: it failed), \<open>now\<close> the clock.\<close>

definition Issue ::
  "string option \<Rightarrow> time \<Rightarrow> string \<Rightarrow> duration \<Rightarrow> token_store \<Rightarrow>
   (token_error + string \<times> time) \<times> token_store" where
  "Issue random now collectorID ttl s =
     (if \<not> ValidCollectorID collectorID then (Inl BadCollectorID, s)
      else if ttl \<le> 0 then (Inl BadTTL, s)
      else case random of
        None \<Rightarrow> (Inl NoRandomness, s)
      | Some buf \<Rightarrow>
          let token = hex buf; expiresAt = now + ttl
          in (Inr (token, expiresAt),
              AList.update token \<lparr>tk_collectorID = collectorID, tk_expiresAt = expiresAt,
                                  tk_redeemed = False\<rparr> s))"

definition Redeem :: "time \<Rightarrow> string \<Rightarrow> string \<Rightarrow> token_store \<Rightarrow> token_error option \<times> token_store" where
  "Redeem now token collectorID s =
     (case map_of s token of
        None \<Rightarrow> (Some ErrInvalidToken, s)
      | Some r \<Rightarrow>
          if tk_redeemed r \<or> now > tk_expiresAt r \<or> tk_collectorID r \<noteq> collectorID
          then (Some ErrInvalidToken, s)
          else (None, AList.update token (r\<lparr>tk_redeemed := True\<rparr>) s))"

section \<open>Certificates and serials\<close>

record certificate =
  crt_CommonName :: string
  crt_SerialNumber :: nat
  crt_NotBefore :: time
  crt_NotAfter :: time

definition CertificateSerial :: "certificate \<Rightarrow> string" where
  "CertificateSerial c = text16 (crt_SerialNumber c)"

text \<open>\<open>big.Int.SetString(s, 16)\<close>: an optional sign and at least one hexadecimal digit.\<close>

definition SetString16 :: "string \<Rightarrow> int option" where
  "SetString16 s =
     (let (neg, ds) = (case s of
            c # r \<Rightarrow> if c = CHR ''-'' then (True, r) else if c = CHR ''+'' then (False, r) else (False, s)
          | [] \<Rightarrow> (False, []))
      in if ds \<noteq> [] \<and> list_all is_hex_digit ds
         then Some (if neg then - int (read16 ds) else int (read16 ds)) else None)"

datatype serial_error = BadSerial

definition NormalizeCertificateSerial :: "string \<Rightarrow> serial_error + string" where
  "NormalizeCertificateSerial raw =
     (let serial = trim_space raw;
          serial = (if has_prefix serial ''0x'' \<or> has_prefix serial ''0X'' then drop 2 serial else serial);
          serial = filter (\<lambda>c. c \<noteq> CHR '':'') serial
      in if serial = [] \<or> length serial > 40 then Inl BadSerial
         else case SetString16 serial of
                None \<Rightarrow> Inl BadSerial
              | Some v \<Rightarrow> if v \<le> 0 then Inl BadSerial else Inr (text16 (nat v)))"

section \<open>Signing\<close>

definition DefaultCertificateTTL :: duration where "DefaultCertificateTTL = 90 * 24 * hour"
definition clockSkewTolerance :: duration where "clockSkewTolerance = 5 * minute"

datatype sign_error = BadCertTTL | NoSerial | SignFailed

text \<open>
  \<open>CA.Sign\<close>: \<open>serial\<close> is the result of \<open>randomSerial\<close> (128 random bits), \<open>signs\<close> tells whether
  \<open>x509.CreateCertificate\<close> succeeds.
\<close>

definition Sign :: "nat option \<Rightarrow> bool \<Rightarrow> time \<Rightarrow> string \<Rightarrow> duration \<Rightarrow> sign_error + certificate" where
  "Sign serial signs now commonName ttl =
     (if ttl \<le> 0 then Inl BadCertTTL
      else case serial of
        None \<Rightarrow> Inl NoSerial
      | Some n \<Rightarrow>
          if signs then Inr \<lparr>crt_CommonName = commonName, crt_SerialNumber = n mod 2 ^ 128,
            crt_NotBefore = now - clockSkewTolerance, crt_NotAfter = now + ttl\<rparr>
          else Inl SignFailed)"

text \<open>Requests and responses of the enrollment endpoints; a CSR arrives as text.\<close>

datatype csr_input = NotBase64 | NotCSR | CSR string

record enroll_request =
  er_Token :: string
  er_CollectorID :: string
  er_CSR :: csr_input

record enroll_response =
  ep_Certificate :: certificate
  ep_SerialNumber :: string
  ep_ExpiresAt :: time

record token_request =
  tq_CollectorID :: string

record token_response =
  tp_Token :: string
  tp_CollectorID :: string
  tp_ExpiresAt :: time

record rotate_request =
  rt_CSR :: csr_input

section \<open>Tokens are single use\<close>

datatype token_call = CallIssue "string option" time string duration | CallRedeem time string string

fun token_step :: "token_call \<Rightarrow> token_store \<Rightarrow> token_store" where
  "token_step (CallIssue random now c ttl) s = snd (Issue random now c ttl s)"
| "token_step (CallRedeem now t c) s = snd (Redeem now t c s)"

text \<open>A call that does not happen to draw the same 256 random bits again.\<close>

fun fresh_for :: "string \<Rightarrow> token_call \<Rightarrow> bool" where
  "fresh_for token (CallIssue random now c ttl) \<longleftrightarrow> (\<forall>buf. random = Some buf \<longrightarrow> hex buf \<noteq> token)"
| "fresh_for token (CallRedeem now t c) \<longleftrightarrow> True"

lemma token_spent_step:
  assumes "map_of s token = Some r" "tk_redeemed r" "fresh_for token c"
  shows "\<exists>r. map_of (token_step c s) token = Some r \<and> tk_redeemed r"
  using assms by (cases c) (auto simp: Issue_def Redeem_def Let_def split: option.splits)

lemma token_spent:
  "map_of s token = Some r \<Longrightarrow> tk_redeemed r \<Longrightarrow> list_all (fresh_for token) cs \<Longrightarrow>
     \<exists>r. map_of (fold token_step cs s) token = Some r \<and> tk_redeemed r"
proof (induction cs arbitrary: s r)
  case (Cons c cs)
  then show ?case using token_spent_step [of s token r c] by auto
qed auto

text \<open>
  An enrollment token works at most once and only for the collector it was issued to. If
  \<open>Redeem\<close> accepts a token, it was on record for exactly that collector, unexpired and unspent;
  and however many tokens are issued or redeemed afterwards, by anyone and at any time, that
  token is never accepted again.
\<close>

theorem token_single_use:
  assumes "Redeem now token collectorID s = (None, s')" "list_all (fresh_for token) calls"
  shows "(\<exists>r. map_of s token = Some r \<and> tk_collectorID r = collectorID \<and> \<not> tk_redeemed r
           \<and> now \<le> tk_expiresAt r)
    \<and> fst (Redeem now' token collectorID' (fold token_step calls s')) = Some ErrInvalidToken"
proof -
  obtain r where r: "map_of s token = Some r" "tk_collectorID r = collectorID" "\<not> tk_redeemed r"
    "now \<le> tk_expiresAt r" "s' = AList.update token (r\<lparr>tk_redeemed := True\<rparr>) s"
    using assms(1) by (auto simp: Redeem_def not_less split: option.splits if_splits)
  then obtain q where "map_of (fold token_step calls s') token = Some q" "tk_redeemed q"
    using token_spent [of s' token "r\<lparr>tk_redeemed := True\<rparr>" calls] assms(2) by auto
  then show ?thesis using r by (simp add: Redeem_def)
qed

theorem token_single_use_witness:
  "fst (Redeem 7 (hex ''ab'') ''c'' (token_step (CallRedeem 6 (hex ''ab'') ''d'')
     (snd (Redeem 5 (hex ''ab'') ''c''
       [(hex ''ab'', \<lparr>tk_collectorID = ''c'', tk_expiresAt = 9, tk_redeemed = False\<rparr>)])))) =
   Some ErrInvalidToken"
proof -
  let ?s = "[(hex ''ab'', \<lparr>tk_collectorID = ''c'', tk_expiresAt = 9, tk_redeemed = False\<rparr>)]"
  have "Redeem 5 (hex ''ab'') ''c'' ?s =
      (None, [(hex ''ab'', \<lparr>tk_collectorID = ''c'', tk_expiresAt = 9, tk_redeemed = True\<rparr>)])"
    by (simp add: Redeem_def)
  from token_single_use [OF this, of "[CallRedeem 6 (hex ''ab'') ''d'']" 7 "''c''"] this
  show ?thesis by simp
qed

section \<open>Serials are canonical\<close>

lemma no_prefix: "c \<notin> set s \<Longrightarrow> \<not> has_prefix s [d, c]"
  by (metis has_prefix_def in_set_takeD list.set_intros(1,2))

lemma normalize_text16:
  assumes "0 < n" "n < 2 ^ 160"
  shows "NormalizeCertificateSerial (text16 n) = Inr (text16 n)"
proof -
  let ?s = "text16 n"
  have len: "length ?s \<le> 40" using length_text16 [of n 40] assms(2) by simp
  have plain: "\<forall>x \<in> set ?s. byte x < 0x80 \<and> \<not> is_space (byte x)" using text16_digits by blast
  have pre: "\<not> has_prefix ?s ''0x''" "\<not> has_prefix ?s ''0X''"
    using text16_digits by (blast intro!: no_prefix)+
  have colon: "filter (\<lambda>c. c \<noteq> CHR '':'') ?s = ?s"
    using text16_digits by (intro filter_True) blast
  have digits: "list_all is_hex_digit ?s" using text16_digits by (auto simp: list_all_iff)
  obtain a r where ar: "?s = a # r" by (cases ?s) auto
  then have "a \<noteq> CHR ''-''" "a \<noteq> CHR ''+''" using text16_digits [of a n] by auto
  then have "SetString16 ?s = Some (int (read16 ?s))"
    using digits ar by (simp add: SetString16_def)
  then show ?thesis using assms(1) len
    by (simp add: NormalizeCertificateSerial_def trim_space_text [OF plain] pre colon)
qed

text \<open>
  C27: the serial the controller prints, checks and stores is canonical: normalising the serial of
  any certificate with a positive serial of at most 20 bytes returns it unchanged, so revoking the
  serial an operator copies from the issuing response hits exactly the serial that
  authorisation and rotation look up; and normalising is idempotent on whatever it accepts.
\<close>

theorem serial_canonical:
  assumes "0 < crt_SerialNumber c" "crt_SerialNumber c < 2 ^ 160"
    and "NormalizeCertificateSerial raw = Inr s"
  shows "NormalizeCertificateSerial (CertificateSerial c) = Inr (CertificateSerial c)
    \<and> NormalizeCertificateSerial s = Inr s"
proof -
  obtain ds v where v: "SetString16 ds = Some v" "0 < v" "s = text16 (nat v)" "length ds \<le> 40"
    using assms(3) by (auto simp: NormalizeCertificateSerial_def Let_def split: if_splits option.splits)
  then have "\<exists>es. nat v = read16 es \<and> list_all is_hex_digit es \<and> length es \<le> 40"
    by (cases ds) (auto simp: SetString16_def split: if_splits intro: exI [of _ "[]"])
  then obtain es where es: "nat v = read16 es" "list_all is_hex_digit es" "length es \<le> 40" by blast
  have "nat v < 16 ^ length es" using read16_bound [OF es(2)] es(1) by simp
  also have "\<dots> \<le> 16 ^ 40" using es(3) by (intro power_increasing) simp_all
  also have "(16 :: nat) ^ 40 = 2 ^ 160" by simp
  finally have "NormalizeCertificateSerial s = Inr s" using v(2,3) normalize_text16 [of "nat v"] by simp
  then show ?thesis using normalize_text16 [OF assms(1,2)] by (simp add: CertificateSerial_def)
qed

lemma normalize_BEEF: "NormalizeCertificateSerial ''0xBE:EF'' = Inr (text16 48879)"
  by (simp add: NormalizeCertificateSerial_def trim_space_text is_space_def has_prefix_def
    SetString16_def is_hex_digit_def read16_def hex_value_def)

theorem serial_canonical_witness:
  "NormalizeCertificateSerial (CertificateSerial \<lparr>crt_CommonName = ''c'', crt_SerialNumber = 48879,
     crt_NotBefore = 0, crt_NotAfter = 9\<rparr>) = Inr (text16 48879)"
  using serial_canonical [OF _ _ normalize_BEEF, of "\<lparr>crt_CommonName = ''c'', crt_SerialNumber = 48879,
     crt_NotBefore = 0, crt_NotAfter = 9\<rparr>"] by (simp add: CertificateSerial_def)

end
