(* ===== verification/Jobs.thy ===== *)
theory Jobs
  imports Enrollment
begin

text \<open>
  The in-memory stores of the controller: the job queue (\<open>internal/controller/jobs.go\<close>) and the
  heartbeats (\<open>heartbeat.go\<close>). Each method holds the store's mutex, so it is one function on the
  store; the clock and the random bytes it draws are arguments.
\<close>

section \<open>The job queue\<close>

datatype job_status = jobPending | jobDispatched | jobSucceeded | jobFailed

fun status_text :: "job_status \<Rightarrow> string" where
  "status_text jobPending = ''pending''"
| "status_text jobDispatched = ''dispatched''"
| "status_text jobSucceeded = ''succeeded''"
| "status_text jobFailed = ''failed''"

record job_record =
  jc_collectorID :: string
  jc_jobType :: job_type
  jc_status :: job_status
  jc_createdAt :: time
  jc_completedAt :: time
  jc_resultError :: string

type_synonym job_store = "job_record gomap"

datatype job_error = ErrJobNotFound | WrongCollector | NotAwaitingResult | NoJobID

definition NewJobStore :: job_store where "NewJobStore = []"

definition Enqueue ::
  "string option \<Rightarrow> time \<Rightarrow> string \<Rightarrow> job_type \<Rightarrow> job_store \<Rightarrow> (job_error + job) \<times> job_store" where
  "Enqueue random now collectorID jobType s =
     (case random of
        None \<Rightarrow> (Inl NoJobID, s)
      | Some buf \<Rightarrow>
          let jid = hex buf
          in (Inr \<lparr>jb_JobID = jid, jb_CollectorID = collectorID, jb_Type = jobType, jb_CreatedAt = now\<rparr>,
              AList.update jid \<lparr>jc_collectorID = collectorID, jc_jobType = jobType,
                jc_status = jobPending, jc_createdAt = now, jc_completedAt = zero_time,
                jc_resultError = []\<rparr> s))"

definition due_for :: "string \<Rightarrow> job_record \<Rightarrow> bool" where
  "due_for collectorID r \<longleftrightarrow> jc_collectorID r = collectorID \<and> jc_status r = jobPending"

definition job_of :: "string \<Rightarrow> job_record \<Rightarrow> job" where
  "job_of jid r = \<lparr>jb_JobID = jid, jb_CollectorID = jc_collectorID r, jb_Type = jc_jobType r,
     jb_CreatedAt = jc_createdAt r\<rparr>"

definition Poll :: "string \<Rightarrow> job_store \<Rightarrow> job list \<times> job_store" where
  "Poll collectorID s =
     (sort_slice (\<lambda>a b. jb_CreatedAt a < jb_CreatedAt b)
        (map (\<lambda>(jid, r). job_of jid r) (filter (\<lambda>(jid, r). due_for collectorID r) s)),
      map (\<lambda>(jid, r). (jid, if due_for collectorID r then r\<lparr>jc_status := jobDispatched\<rparr> else r)) s)"

definition Result :: "time \<Rightarrow> string \<Rightarrow> string \<Rightarrow> job_result \<Rightarrow> job_store \<Rightarrow> job_error option \<times> job_store" where
  "Result now jobID collectorID result s =
     (case map_of s jobID of
        None \<Rightarrow> (Some ErrJobNotFound, s)
      | Some r \<Rightarrow>
          if jc_collectorID r \<noteq> collectorID then (Some WrongCollector, s)
          else if jc_status r \<noteq> jobDispatched then (Some NotAwaitingResult, s)
          else (None, AList.update jobID
                 (r\<lparr>jc_status := (if jr_Success result then jobSucceeded else jobFailed),
                    jc_completedAt := now, jc_resultError := jr_Error result\<rparr>) s))"

definition HasOutstanding :: "string \<Rightarrow> job_type \<Rightarrow> job_store \<Rightarrow> bool" where
  "HasOutstanding collectorID jobType s =
     list_ex (\<lambda>(jid, r). jc_collectorID r = collectorID \<and> jc_jobType r = jobType
       \<and> (jc_status r = jobPending \<or> jc_status r = jobDispatched)) s"

definition Status :: "string \<Rightarrow> job_store \<Rightarrow> job_error + job_status_view" where
  "Status jobID s =
     (case map_of s jobID of
        None \<Rightarrow> Inl ErrJobNotFound
      | Some r \<Rightarrow> Inr \<lparr>js_JobID = jobID, js_CollectorID = jc_collectorID r, js_Type = jc_jobType r,
          js_Status = status_text (jc_status r), js_CreatedAt = jc_createdAt r,
          js_CompletedAt = jc_completedAt r, js_Error = jc_resultError r\<rparr>)"

section \<open>Heartbeats\<close>

definition DefaultHeartbeatStaleAfter :: duration where "DefaultHeartbeatStaleAfter = 3 * minute"

record heartbeat_record =
  hb_siteID :: string
  hb_lastSeen :: time

record heartbeat_store =
  hs_records :: "heartbeat_record gomap"
  hs_staleAfter :: duration

definition NewHeartbeatStore :: "duration \<Rightarrow> heartbeat_store" where
  "NewHeartbeatStore staleAfter = \<lparr>hs_records = [], hs_staleAfter = staleAfter\<rparr>"

definition Record :: "time \<Rightarrow> string \<Rightarrow> string \<Rightarrow> heartbeat_store \<Rightarrow> heartbeat_store" where
  "Record now collectorID siteID s =
     s\<lparr>hs_records := AList.update collectorID \<lparr>hb_siteID = siteID, hb_lastSeen = now\<rparr> (hs_records s)\<rparr>"

definition List :: "time \<Rightarrow> heartbeat_store \<Rightarrow> collector_status list" where
  "List now s = sort_slice (\<lambda>a b. cs_CollectorID a < cs_CollectorID b)
     (map (\<lambda>(cid, r). \<lparr>cs_CollectorID = cid, cs_SiteID = hb_siteID r, cs_LastHeartbeat = hb_lastSeen r,
        cs_Alive = (now - hb_lastSeen r < hs_staleAfter s)\<rparr>) (hs_records s))"

section \<open>Lookups after the operations\<close>

lemma map_of_Poll:
  "map_of (snd (Poll c s)) jid =
     map_option (\<lambda>r. if due_for c r then r\<lparr>jc_status := jobDispatched\<rparr> else r) (map_of s jid)"
  by (induction s) (auto simp: Poll_def)

lemma gm_wf_Poll: "gm_wf s \<Longrightarrow> gm_wf (snd (Poll c s))"
  by (simp add: Poll_def comp_def case_prod_unfold)

lemma Poll_jobs:
  "gm_wf s \<Longrightarrow> set (fst (Poll c s)) = {job_of jid r | jid r. map_of s jid = Some r \<and> due_for c r}"
  by (auto simp: Poll_def map_of_eq_Some_iff image_iff)

lemma gm_wf_jobs [topo_inv]:
  "gm_wf s \<Longrightarrow> gm_wf (snd (Enqueue random now c ty s))"
  "gm_wf s \<Longrightarrow> gm_wf (snd (Result now' jid c' res s))"
  by (auto simp: Enqueue_def Result_def Let_def split: option.splits)

section \<open>The life of a job\<close>

datatype job_call = JEnqueue "string option" time string job_type | JPoll string
  | JResult time string string job_result

fun job_step :: "job_call \<Rightarrow> job_store \<Rightarrow> job_store" where
  "job_step (JEnqueue random now c ty) s = snd (Enqueue random now c ty s)"
| "job_step (JPoll c) s = snd (Poll c s)"
| "job_step (JResult now jid c res) s = snd (Result now jid c res s)"

fun new_id :: "string \<Rightarrow> job_call \<Rightarrow> bool" where
  "new_id jid (JEnqueue random now c ty) \<longleftrightarrow> (\<forall>buf. random = Some buf \<longrightarrow> hex buf \<noteq> jid)"
| "new_id jid _ \<longleftrightarrow> True"

text \<open>A job only moves forward: pending, dispatched, then a result, which is final.\<close>

fun stage :: "job_status \<Rightarrow> nat" where
  "stage jobPending = 0" | "stage jobDispatched = 1" | "stage jobSucceeded = 2" | "stage jobFailed = 2"

definition moves_on :: "job_record \<Rightarrow> job_record \<Rightarrow> bool" where
  "moves_on r r' \<longleftrightarrow> jc_collectorID r' = jc_collectorID r \<and> jc_jobType r' = jc_jobType r
     \<and> jc_createdAt r' = jc_createdAt r \<and> stage (jc_status r) \<le> stage (jc_status r')
     \<and> (stage (jc_status r) = 2 \<longrightarrow> r' = r)"

lemma moves_on_trans: "moves_on a b \<Longrightarrow> moves_on b c \<Longrightarrow> moves_on a c"
  by (cases "stage (jc_status a) = 2") (auto simp: moves_on_def)

lemma job_step_moves:
  assumes "map_of s jid = Some r" "new_id jid c"
  shows "\<exists>r'. map_of (job_step c s) jid = Some r' \<and> moves_on r r'"
  using assms by (cases c) (auto simp: Enqueue_def Result_def map_of_Poll due_for_def moves_on_def
    Let_def split: option.splits)

lemma job_steps_move:
  "map_of s jid = Some r \<Longrightarrow> list_all (new_id jid) cs \<Longrightarrow>
     \<exists>r'. map_of (fold job_step cs s) jid = Some r' \<and> moves_on r r'"
proof (induction cs arbitrary: s r)
  case Nil
  then show ?case by (simp add: moves_on_def)
next
  case (Cons c cs)
  then obtain q where q: "map_of (job_step c s) jid = Some q" "moves_on r q"
    using job_step_moves [of s jid r c] by auto
  then obtain r' where "map_of (fold job_step cs (job_step c s)) jid = Some r'" "moves_on q r'"
    using Cons.IH [of "job_step c s" q] Cons.prems by auto
  then show ?case using q(2) moves_on_trans by auto
qed

lemma gm_wf_job_steps: "gm_wf s \<Longrightarrow> gm_wf (fold job_step cs s)"
proof (induction cs arbitrary: s)
  case (Cons c cs)
  then show ?case by (cases c) (auto simp: gm_wf_jobs gm_wf_Poll)
qed simp

text \<open>
  C28: a job is handed out exactly once. \<open>Poll\<close> returns precisely the pending jobs of the polling
  collector, oldest first; and a job it returned is never returned again by any poll, whatever
  is enqueued, polled or reported in between.
\<close>

theorem job_dispatched_once:
  assumes "gm_wf s" "Poll c s = (jobs, s')" "j \<in> set jobs" "list_all (new_id (jb_JobID j)) calls"
  shows "set jobs = {job_of jid r | jid r. map_of s jid = Some r \<and> jc_collectorID r = c
           \<and> jc_status r = jobPending}
    \<and> sorted (map jb_CreatedAt jobs)
    \<and> jb_JobID j \<notin> jb_JobID ` set (fst (Poll c' (fold job_step calls s')))"
proof -
  have jobs: "jobs = fst (Poll c s)" "s' = snd (Poll c s)" using assms(2) by simp_all
  then have set: "set jobs = {job_of jid r | jid r. map_of s jid = Some r \<and> due_for c r}"
    using Poll_jobs [OF assms(1)] by simp
  then obtain r where r: "map_of s (jb_JobID j) = Some r" "due_for c r"
    using assms(3) by (auto simp: job_of_def)
  then have "map_of s' (jb_JobID j) = Some (r\<lparr>jc_status := jobDispatched\<rparr>)"
    by (simp add: jobs map_of_Poll)
  then obtain q where q: "map_of (fold job_step calls s') (jb_JobID j) = Some q"
    "moves_on (r\<lparr>jc_status := jobDispatched\<rparr>) q"
    using job_steps_move assms(4) by blast
  then have "jc_status q \<noteq> jobPending" by (auto simp: moves_on_def)
  moreover have "gm_wf (fold job_step calls s')"
    using gm_wf_Poll [OF assms(1)] jobs(2) by (simp add: gm_wf_job_steps)
  ultimately have "jb_JobID j \<notin> jb_JobID ` set (fst (Poll c' (fold job_step calls s')))"
    using q(1) by (auto simp: Poll_jobs job_of_def due_for_def simp del: map_of_eq_Some_iff)
  moreover have "sorted (map jb_CreatedAt jobs)"
    unfolding jobs(1) Poll_def fst_conv by (rule sorted_sort_slice_key)
  ultimately show ?thesis using set by (auto simp: due_for_def)
qed

definition demo_jobs :: job_store where
  "demo_jobs = [(hex ''a'', \<lparr>jc_collectorID = ''c'', jc_jobType = JobTypeDiscover, jc_status = jobPending,
     jc_createdAt = 5, jc_completedAt = zero_time, jc_resultError = []\<rparr>)]"

theorem job_dispatched_once_witness:
  "jb_JobID ` set (fst (Poll ''c'' demo_jobs)) = {hex ''a''}
   \<and> hex ''a'' \<notin> jb_JobID ` set (fst (Poll ''c'' (job_step (JPoll ''d'') (snd (Poll ''c'' demo_jobs)))))"
proof -
  let ?j = "job_of (hex ''a'') (snd (hd demo_jobs))"
  have poll: "fst (Poll ''c'' demo_jobs) = [?j]"
    by (simp add: Poll_def demo_jobs_def due_for_def sort_slice_def)
  have "gm_wf demo_jobs" by (simp add: demo_jobs_def)
  from job_dispatched_once [OF this surjective_pairing [of "Poll ''c'' demo_jobs"], of ?j "[JPoll ''d'']" "''c''"]
  have "jb_JobID ?j \<notin> jb_JobID ` set (fst (Poll ''c'' (job_step (JPoll ''d'') (snd (Poll ''c'' demo_jobs)))))"
    using poll by simp
  then show ?thesis using poll by (simp add: job_of_def)
qed

text \<open>
  C29: a result is accepted only for a job that was dispatched to the reporting collector and has
  no result yet; the accepted result is final: any later report for the job is refused and
  \<open>Status\<close> keeps returning the recorded outcome.
\<close>

theorem job_result_final:
  assumes "Result now jid c res s = (None, s')" "list_all (new_id jid) calls"
  shows "(\<exists>r. map_of s jid = Some r \<and> jc_collectorID r = c \<and> jc_status r = jobDispatched)
    \<and> fst (Result now' jid c' res' (fold job_step calls s')) \<noteq> None
    \<and> Status jid (fold job_step calls s') = Status jid s'
    \<and> (\<exists>v. Status jid s' = Inr v \<and> js_CompletedAt v = now \<and> js_Error v = jr_Error res
          \<and> js_Status v = (if jr_Success res then ''succeeded'' else ''failed''))"
proof -
  obtain r where r: "map_of s jid = Some r" "jc_collectorID r = c" "jc_status r = jobDispatched"
    and s': "s' = AList.update jid (r\<lparr>jc_status := (if jr_Success res then jobSucceeded else jobFailed),
                    jc_completedAt := now, jc_resultError := jr_Error res\<rparr>) s"
    using assms(1) by (auto simp: Result_def split: option.splits if_splits)
  let ?r = "r\<lparr>jc_status := (if jr_Success res then jobSucceeded else jobFailed),
                    jc_completedAt := now, jc_resultError := jr_Error res\<rparr>"
  have new: "map_of s' jid = Some ?r" by (simp add: s')
  then obtain q where q: "map_of (fold job_step calls s') jid = Some q" "moves_on ?r q"
    using job_steps_move assms(2) by blast
  moreover have "stage (jc_status ?r) = 2" by simp
  ultimately have "q = ?r" by (simp add: moves_on_def)
  then show ?thesis using q(1) new r by (auto simp: Result_def Status_def)
qed

theorem job_result_final_witness:
  "fst (Result 9 (hex ''a'') ''c'' \<lparr>jr_CollectorID = ''c'', jr_Success = False, jr_Error = [], jr_CompletedAt = 0\<rparr>
     (snd (Result 8 (hex ''a'') ''c'' \<lparr>jr_CollectorID = ''c'', jr_Success = True, jr_Error = [], jr_CompletedAt = 0\<rparr>
       (snd (Poll ''c'' demo_jobs))))) \<noteq> None"
proof -
  let ?res = "\<lparr>jr_CollectorID = ''c'', jr_Success = True, jr_Error = [], jr_CompletedAt = 0\<rparr>"
  have "fst (Result 8 (hex ''a'') ''c'' ?res (snd (Poll ''c'' demo_jobs))) = None"
    by (simp add: Result_def map_of_Poll due_for_def) (simp add: demo_jobs_def)
  then have "Result 8 (hex ''a'') ''c'' ?res (snd (Poll ''c'' demo_jobs)) =
      (None, snd (Result 8 (hex ''a'') ''c'' ?res (snd (Poll ''c'' demo_jobs))))"
    by (metis prod.collapse)
  from job_result_final [OF this, of "[]"] show ?thesis by simp
qed

end
