(* ===== verification/Audit_Log.thy ===== *)
theory Audit_Log
  imports Model
begin

text \<open>
  Package \<open>internal/audit\<close>: the append-only, hash-chained log of controller actions. The digest
  \<open>sha256\<close> and the rendering of an instant by \<open>UTC().Format(time.RFC3339Nano)\<close> are the
  parameters \<open>sha\<close> and \<open>tfmt\<close>.
\<close>

section \<open>Entries and the chain\<close>

record event =
  evt_Action :: string
  evt_Actor :: string
  evt_Detail :: "string gomap"

record entry =
  en_Sequence :: int
  en_RecordedAt :: time
  en_Action :: string
  en_Actor :: string
  en_Detail :: "string gomap"
  en_PrevHash :: string
  en_Hash :: string

definition entry_text :: "(time \<Rightarrow> string) \<Rightarrow> entry \<Rightarrow> string" where
  "entry_text tfmt e =
     dec_int (en_Sequence e) @ [NUL] @ tfmt (en_RecordedAt e) @ [NUL] @ en_Action e @ [NUL]
     @ en_Actor e @ [NUL]
     @ concat (map (\<lambda>k. k @ ''='' @ gm_index (en_Detail e) k @ [NUL])
                 (sort (map fst (en_Detail e))))
     @ en_PrevHash e"

definition hashEntry :: "(string \<Rightarrow> string) \<Rightarrow> (time \<Rightarrow> string) \<Rightarrow> entry \<Rightarrow> string" where
  "hashEntry sha tfmt e = hex (sha (entry_text tfmt e))"

definition Chain ::
  "(string \<Rightarrow> string) \<Rightarrow> (time \<Rightarrow> string) \<Rightarrow> string \<Rightarrow> int \<Rightarrow> time \<Rightarrow> event \<Rightarrow> entry" where
  "Chain sha tfmt prevHash sequence recordedAt e =
     (let ent = \<lparr>en_Sequence = sequence, en_RecordedAt = recordedAt, en_Action = evt_Action e,
                 en_Actor = evt_Actor e, en_Detail = evt_Detail e, en_PrevHash = prevHash,
                 en_Hash = []\<rparr>
      in ent\<lparr>en_Hash := hashEntry sha tfmt ent\<rparr>)"

datatype chain_error = BadSequence nat int | BadPrevHash int | BadHash int

fun verify_from :: "(string \<Rightarrow> string) \<Rightarrow> (time \<Rightarrow> string) \<Rightarrow> nat \<Rightarrow> string \<Rightarrow> entry list \<Rightarrow>
    chain_error option" where
  "verify_from sha tfmt i prevHash [] = None"
| "verify_from sha tfmt i prevHash (e # es) =
     (if en_Sequence e \<noteq> int (i + 1) then Some (BadSequence i (en_Sequence e))
      else if en_PrevHash e \<noteq> prevHash then Some (BadPrevHash (en_Sequence e))
      else if hashEntry sha tfmt e \<noteq> en_Hash e then Some (BadHash (en_Sequence e))
      else verify_from sha tfmt (Suc i) (en_Hash e) es)"

definition VerifyChain :: "(string \<Rightarrow> string) \<Rightarrow> (time \<Rightarrow> string) \<Rightarrow> entry list \<Rightarrow>
    chain_error option" where
  "VerifyChain sha tfmt es = verify_from sha tfmt 0 [] es"

text \<open>The hash the next entry refers to: the last entry's, or the empty string.\<close>

definition tip_from :: "string \<Rightarrow> entry list \<Rightarrow> string" where
  "tip_from p es = (if es = [] then p else en_Hash (last es))"

section \<open>Growing and cutting a chain\<close>

lemma tip_from_Cons [simp]: "tip_from p (e # es) = tip_from (en_Hash e) es"
  by (simp add: tip_from_def)

lemma tip_from_Nil [simp]: "tip_from p [] = p"
  by (simp add: tip_from_def)

lemma verify_from_append:
  "verify_from sha tfmt i p (es @ fs) =
     (case verify_from sha tfmt i p es of
        Some err \<Rightarrow> Some err
      | None \<Rightarrow> verify_from sha tfmt (i + length es) (tip_from p es) fs)"
  by (induction es arbitrary: i p) (auto split: option.splits)

lemma hashEntry_Hash [simp]: "hashEntry sha tfmt (e\<lparr>en_Hash := h\<rparr>) = hashEntry sha tfmt e"
  by (simp add: hashEntry_def entry_text_def)

lemma Chain_simps [simp]:
  "en_Sequence (Chain sha tfmt p s t e) = s"
  "en_PrevHash (Chain sha tfmt p s t e) = p"
  "hashEntry sha tfmt (Chain sha tfmt p s t e) = en_Hash (Chain sha tfmt p s t e)"
  by (simp_all add: Chain_def Let_def hashEntry_def entry_text_def)

lemma VerifyChain_snoc:
  "VerifyChain sha tfmt es = None \<Longrightarrow>
   VerifyChain sha tfmt (es @ [Chain sha tfmt (tip_from [] es) (int (length es) + 1) t ev]) = None"
  by (simp add: VerifyChain_def verify_from_append)

lemma VerifyChain_nth_Sequence:
  "verify_from sha tfmt i p es = None \<Longrightarrow> j < length es \<Longrightarrow> en_Sequence (es ! j) = int (i + j + 1)"
  by (induction es arbitrary: i p j) (auto simp: nth_Cons' split: if_splits)

section \<open>Tamper evidence\<close>

text \<open>
  The fields of an entry that the hash covers unambiguously: no NUL byte in any text and no
  \<open>=\<close> in a detail key.
\<close>

definition plain_entry :: "entry \<Rightarrow> bool" where
  "plain_entry e \<longleftrightarrow> NUL \<notin> set (en_Action e) \<and> NUL \<notin> set (en_Actor e)
     \<and> NUL \<notin> set (en_PrevHash e) \<and> plain_map (en_Detail e)"

text \<open>Two entries are the same up to the order in which the detail map lists its keys.\<close>

definition same_entry :: "entry \<Rightarrow> entry \<Rightarrow> bool" where
  "same_entry e f \<longleftrightarrow> en_Sequence e = en_Sequence f \<and> en_RecordedAt e = en_RecordedAt f
     \<and> en_Action e = en_Action f \<and> en_Actor e = en_Actor f
     \<and> map_of (en_Detail e) = map_of (en_Detail f)
     \<and> en_PrevHash e = en_PrevHash f \<and> en_Hash e = en_Hash f"

lemma entry_text_fields:
  "entry_text tfmt e =
     nul_fields ([dec_int (en_Sequence e), tfmt (en_RecordedAt e), en_Action e, en_Actor e]
                  @ key_value_parts (en_Detail e)) @ en_PrevHash e"
  by (simp add: entry_text_def key_value_parts_def nul_fields_def comp_def)


lemma entry_text_inj:
  assumes "plain_entry e" "plain_entry f" and "inj tfmt" and "\<And>t. NUL \<notin> set (tfmt t)"
    and "entry_text tfmt e = entry_text tfmt f"
  shows "en_Sequence e = en_Sequence f \<and> en_RecordedAt e = en_RecordedAt f
     \<and> en_Action e = en_Action f \<and> en_Actor e = en_Actor f
     \<and> map_of (en_Detail e) = map_of (en_Detail f) \<and> en_PrevHash e = en_PrevHash f"
proof -
  let ?xs = "\<lambda>e. [dec_int (en_Sequence e), tfmt (en_RecordedAt e), en_Action e, en_Actor e]
                  @ key_value_parts (en_Detail e)"
  have nul: "\<forall>x \<in> set (?xs g). NUL \<notin> set x" if "plain_entry g" for g
    using that key_value_parts_nul [of "en_Detail g"] assms(4)
    by (auto simp: plain_entry_def dec_int_nul)
  have "?xs e = ?xs f \<and> en_PrevHash e = en_PrevHash f"
    using assms(1,2,5) nul [OF assms(1)] nul [OF assms(2)]
    by (intro nul_fields_inj) (auto simp: entry_text_fields plain_entry_def)
  then have "dec_int (en_Sequence e) = dec_int (en_Sequence f)"
    "tfmt (en_RecordedAt e) = tfmt (en_RecordedAt f)" "en_Action e = en_Action f"
    "en_Actor e = en_Actor f" "key_value_parts (en_Detail e) = key_value_parts (en_Detail f)"
    "en_PrevHash e = en_PrevHash f"
    by simp_all
  moreover from this(5) have "map_of (en_Detail e) = map_of (en_Detail f)"
    using assms(1,2) by (intro key_value_parts_inj) (simp_all add: plain_entry_def)
  ultimately show ?thesis
    using injD [OF dec_int_inj] injD [OF assms(3)] by blast
qed

text \<open>
  Backwards along two verified chains: equal tips force equal last entries, whose
  \<open>PrevHash\<close> fields are the tips of the shorter chains.
\<close>

lemma verified_snocD:
  assumes "VerifyChain sha tfmt (es @ [e]) = None"
  shows "VerifyChain sha tfmt es = None" "en_PrevHash e = tip_from [] es"
    "hashEntry sha tfmt e = en_Hash e" "en_Sequence e = int (length es) + 1"
  using assms by (auto simp: VerifyChain_def verify_from_append split: option.splits if_splits)

lemma tamper_evident_rev:
  assumes "inj tfmt" "\<forall>t. NUL \<notin> set (tfmt t)"
  shows "length es = length fs \<Longrightarrow> VerifyChain sha tfmt es = None \<Longrightarrow> VerifyChain sha tfmt fs = None \<Longrightarrow>
    tip_from [] es = tip_from [] fs \<Longrightarrow> \<forall>e \<in> set es \<union> set fs. plain_entry e \<Longrightarrow>
    inj_on sha (entry_text tfmt ` (set es \<union> set fs)) \<Longrightarrow> list_all2 same_entry es fs"
proof (induction es arbitrary: fs rule: rev_induct)
  case Nil
  then show ?case by simp
next
  case (snoc e es)
  then obtain f fs' where fs: "fs = fs' @ [f]" by (cases fs rule: rev_cases) auto
  note e = verified_snocD [OF snoc.prems(2)]
  note f = verified_snocD [OF snoc.prems(3) [unfolded fs]]
  have hash: "en_Hash e = en_Hash f" using snoc.prems(4) fs by (simp add: tip_from_def)
  then have "sha (entry_text tfmt e) = sha (entry_text tfmt f)"
    using e(3) f(3) by (metis hashEntry_def hex_inj)
  then have "entry_text tfmt e = entry_text tfmt f"
    by (rule inj_onD [OF snoc.prems(6)]) (simp_all add: fs)
  then have same: "same_entry e f"
    using entry_text_inj [of e f tfmt] snoc.prems(5) assms hash fs by (simp add: same_entry_def)
  then have "tip_from [] es = tip_from [] fs'" using e(2) f(2) by (simp add: same_entry_def)
  moreover have "inj_on sha (entry_text tfmt ` (set es \<union> set fs'))"
    using snoc.prems(6) fs by (auto intro: inj_on_subset)
  ultimately have "list_all2 same_entry es fs'"
    using snoc.prems(1,5) e(1) f(1) fs by (intro snoc.IH) auto
  then show ?case using same fs by (simp add: list_all2_appendI)
qed

text \<open>
  C15: the audit log is tamper evident, for entries whose texts hold no NUL byte and whose detail keys
  hold no \<open>=\<close>. Take two logs of such entries, of the same length, that both pass
  \<open>VerifyChain\<close> and end in the same hash; if SHA-256 does not collide on the texts they hash
  and the rendering of instants is injective and without NUL, the logs agree entry by entry. So replacing
  entries by other such entries, or reordering them, forces a different final hash. Without the
  restriction it fails: see \<open>VerifyChain_detail_ambiguous\<close>.
\<close>

theorem VerifyChain_tamper_evident:
  assumes "VerifyChain sha tfmt es = None" "VerifyChain sha tfmt fs = None"
    and "length es = length fs" "tip_from [] es = tip_from [] fs"
    and "\<forall>e \<in> set es \<union> set fs. plain_entry e"
    and "inj_on sha (entry_text tfmt ` (set es \<union> set fs))"
    and "inj tfmt" and "\<forall>t. NUL \<notin> set (tfmt t)"
  shows "list_all2 same_entry es fs"
  using assms tamper_evident_rev [of tfmt es fs sha] by blast

text \<open>
  Two renderings of one log, which list the keys of a detail map in different orders; the digest
  is the identity and instants are rendered in decimal.
\<close>

definition demo_log :: "(string \<Rightarrow> string) \<Rightarrow> string gomap \<Rightarrow> entry list" where
  "demo_log sha d =
     (let e1 = Chain sha dec_int [] 1 5
                 \<lparr>evt_Action = ''job_created'', evt_Actor = ''api-key'', evt_Detail = d\<rparr>
      in [e1, Chain sha dec_int (en_Hash e1) 2 7
                \<lparr>evt_Action = ''schedule_deleted'', evt_Actor = ''api-key'', evt_Detail = []\<rparr>])"

lemma demo_log_verifies: "VerifyChain sha dec_int (demo_log sha d) = None"
  by (simp add: demo_log_def VerifyChain_def Let_def)

lemma demo_log_plain: "plain_map d \<Longrightarrow> \<forall>e \<in> set (demo_log sha d). plain_entry e"
  by (simp add: demo_log_def Let_def plain_entry_def Chain_def hashEntry_def)
    (simp add: plain_map_def)

lemma demo_log_tip:
  assumes "gm_wf d" "mset d = mset d'"
  shows "tip_from [] (demo_log sha d) = tip_from [] (demo_log sha d')"
  using key_value_parts_perm [OF assms]
  by (simp add: demo_log_def Let_def Chain_def hashEntry_def entry_text_fields)

theorem VerifyChain_tamper_evident_witness:
  "list_all2 same_entry (demo_log (\<lambda>s. s) [(''a'', ''1''), (''b'', ''2'')])
                        (demo_log (\<lambda>s. s) [(''b'', ''2''), (''a'', ''1'')])"
proof (rule VerifyChain_tamper_evident [of "\<lambda>s. s" dec_int])
  let ?d = "[(''a'', ''1''), (''b'', ''2'')]" and ?d' = "[(''b'', ''2''), (''a'', ''1'')]"
  have "plain_map ?d" "plain_map ?d'" by (simp_all add: plain_map_def)
  then show "\<forall>e \<in> set (demo_log (\<lambda>s. s) ?d) \<union> set (demo_log (\<lambda>s. s) ?d'). plain_entry e"
    using demo_log_plain by blast
  show "tip_from [] (demo_log (\<lambda>s. s) ?d) = tip_from [] (demo_log (\<lambda>s. s) ?d')"
    by (rule demo_log_tip) simp_all
  show "length (demo_log (\<lambda>s. s) ?d) = length (demo_log (\<lambda>s. s) ?d')"
    by (simp add: demo_log_def Let_def)
qed (simp_all add: demo_log_verifies dec_int_inj dec_int_nul)

text \<open>
  A detail key with an equals sign is ambiguous: the detail \<open>{"a=b": "c"}\<close> of the last entry can be
  replaced by \<open>{"a": "b=c"}\<close>, and the log still verifies with the same final hash.
\<close>

lemma VerifyChain_detail_ambiguous:
  assumes "VerifyChain sha tfmt (es @ [e]) = None" "en_Detail e = [(''a=b'', ''c'')]"
  shows "VerifyChain sha tfmt (es @ [e\<lparr>en_Detail := [(''a'', ''b=c'')]\<rparr>]) = None
    \<and> tip_from [] (es @ [e\<lparr>en_Detail := [(''a'', ''b=c'')]\<rparr>]) = tip_from [] (es @ [e])
    \<and> map_of (en_Detail e) \<noteq> map_of [(''a'', ''b=c'')]"
proof -
  have hash: "hashEntry sha tfmt (e\<lparr>en_Detail := [(''a'', ''b=c'')]\<rparr>) = hashEntry sha tfmt e"
    using assms(2) by (simp add: hashEntry_def entry_text_fields key_value_parts_def gm_index_def)
  have "map_of (en_Detail e) ''a'' \<noteq> map_of [(''a'', ''b=c'')] ''a''" using assms(2) by simp
  then have "map_of (en_Detail e) \<noteq> map_of [(''a'', ''b=c'')]" by metis
  then show ?thesis using assms(1) hash
    by (auto simp: VerifyChain_def verify_from_append tip_from_def split: option.splits if_splits)
qed

text \<open>
  Cutting a verified log at any point leaves a log that still verifies. \<open>VerifyChain\<close> alone
  therefore detects edits, but not the removal of the most recent entries.
\<close>

theorem VerifyChain_accepts_truncation:
  assumes "VerifyChain sha tfmt es = None"
  shows "VerifyChain sha tfmt (take n es) = None"
  using assms verify_from_append [of sha tfmt 0 "[]" "take n es" "drop n es"]
  by (auto simp: VerifyChain_def split: option.splits)

theorem VerifyChain_accepts_truncation_witness:
  "VerifyChain (take 1) dec_int (take 1 (demo_log (take 1) [])) = None"
  by (rule VerifyChain_accepts_truncation) (rule demo_log_verifies)

end
