(* ===== verification/Resolution.thy ===== *)
theory Resolution
  imports Json_Text
begin

text \<open>
  Claims and their resolution: the claim types of \<open>internal/store/store.go\<close> and the whole of
  \<open>internal/store/resolution.go\<close>. Every discovery source keeps its own latest claim about an
  asset; \<open>ResolveAssetClaims\<close> picks a winner per asset by plugin precedence and reports the
  fields on which the sources disagree.
\<close>

section \<open>Claims\<close>

record asset_source =
  src_SiteID :: string
  src_CollectorID :: string
  src_Plugin :: string
  src_FirstObservationID :: string
  src_LastObservationID :: string
  src_FirstObservedAt :: time
  src_LastObservedAt :: time
  src_PrecedenceRank :: int
  src_ExplicitPrecedence :: bool

record asset_claim =
  cl_AssetID :: string
  cl_Asset :: asset
  cl_Source :: asset_source

record conflict_claim =
  cc_Source :: asset_source
  cc_Present :: bool
  cc_Value :: json

record asset_conflict =
  cf_Field :: string
  cf_Claims :: "conflict_claim list"

record resolved_asset =
  ra_ID :: string
  ra_Asset :: asset
  ra_FirstObservationID :: string
  ra_LastObservationID :: string
  ra_FirstObservedAt :: time
  ra_LastObservedAt :: time
  ra_WinningSource :: asset_source
  ra_Sources :: "asset_source list"
  ra_Conflicts :: "asset_conflict list"

section \<open>Source precedence\<close>

definition maxSourcePrecedenceEntries :: nat where "maxSourcePrecedenceEntries = 64"
definition maxPluginNameBytes :: nat where "maxPluginNameBytes = 128"

datatype precedence_error = TooManyPlugins nat | EmptyPlugin | PluginTooLong string
  | PluginBadRune string | PluginRepeated string

definition bad_plugin_rune :: "nat \<Rightarrow> bool" where
  "bad_plugin_rune r \<longleftrightarrow> is_control r \<or> is_space r \<or> r = byte (CHR '','')"

fun validate_plugins :: "string list \<Rightarrow> string list \<Rightarrow> precedence_error option" where
  "validate_plugins seen [] = None"
| "validate_plugins seen (p # ps) =
     (if p = [] then Some EmptyPlugin
      else if length p > maxPluginNameBytes then Some (PluginTooLong p)
      else if list_ex bad_plugin_rune (runes p) then Some (PluginBadRune p)
      else if p \<in> set seen then Some (PluginRepeated p)
      else validate_plugins (p # seen) ps)"

definition ValidateSourcePrecedence :: "string list \<Rightarrow> precedence_error option" where
  "ValidateSourcePrecedence plugins =
     (if length plugins > maxSourcePrecedenceEntries then Some (TooManyPlugins (length plugins))
      else validate_plugins [] plugins)"

definition AssetSourceKey :: "(string \<Rightarrow> string) \<Rightarrow> string \<Rightarrow> string \<Rightarrow> string \<Rightarrow> string" where
  "AssetSourceKey sha siteID collectorID plugin = hex (sha (json_triple siteID collectorID plugin))"

definition source_key :: "(string \<Rightarrow> string) \<Rightarrow> asset_source \<Rightarrow> string" where
  "source_key sha s = AssetSourceKey sha (src_SiteID s) (src_CollectorID s) (src_Plugin s)"

definition claimPrecedes :: "(string \<Rightarrow> string) \<Rightarrow> asset_claim \<Rightarrow> asset_claim \<Rightarrow> bool" where
  "claimPrecedes sha a b =
     (if src_PrecedenceRank (cl_Source a) \<noteq> src_PrecedenceRank (cl_Source b)
      then src_PrecedenceRank (cl_Source a) < src_PrecedenceRank (cl_Source b)
      else if src_LastObservedAt (cl_Source a) \<noteq> src_LastObservedAt (cl_Source b)
      then src_LastObservedAt (cl_Source a) > src_LastObservedAt (cl_Source b)
      else source_key sha (cl_Source a) < source_key sha (cl_Source b))"

section \<open>Conflicts\<close>

definition assetField :: "asset \<Rightarrow> string \<Rightarrow> json \<times> bool" where
  "assetField a field =
     (if field = ''name'' then (JStr (as_Name a), True)
      else if has_prefix field ''identifiers.'' then
        (let key = drop (length ''identifiers.'') field in
         case map_of (as_Identifiers a) key of
           Some v \<Rightarrow> (JStr v, True) | None \<Rightarrow> (JStr [], False))
      else
        (let key = (if has_prefix field ''attributes.'' then drop (length ''attributes.'') field
                    else field) in
         case map_of (as_Attributes a) key of
           Some v \<Rightarrow> (v, True) | None \<Rightarrow> (JNull, False)))"

definition prefixedSortedKeys :: "string \<Rightarrow> string list \<Rightarrow> string list" where
  "prefixedSortedKeys pre keys = sort (map ((@) pre) keys)"

definition conflict_fields :: "asset_claim list \<Rightarrow> string list" where
  "conflict_fields claims =
     ''name''
     # prefixedSortedKeys ''identifiers.''
         (remdups (concat (map (\<lambda>c. map fst (as_Identifiers (cl_Asset c))) claims)))
     @ prefixedSortedKeys ''attributes.''
         (remdups (concat (map (\<lambda>c. map fst (as_Attributes (cl_Asset c))) claims)))"

definition field_form :: "string \<Rightarrow> asset_claim \<Rightarrow> bool \<times> json" where
  "field_form field c = (let (v, present) = assetField (cl_Asset c) field in (present, json_form v))"

definition assetConflicts :: "asset_claim list \<Rightarrow> asset_conflict list" where
  "assetConflicts claims =
     (if length claims < 2 then []
      else concat (map (\<lambda>field.
        (if length (remdups (map (field_form field) claims)) > 1
         then [\<lparr>cf_Field = field,
                cf_Claims = map (\<lambda>c. let (v, present) = assetField (cl_Asset c) field in
                   \<lparr>cc_Source = cl_Source c, cc_Present = present, cc_Value = v\<rparr>) claims\<rparr>]
         else [])) (conflict_fields claims)))"

section \<open>Resolution\<close>

definition ranks_of :: "string list \<Rightarrow> int gomap" where
  "ranks_of precedence =
     fold (\<lambda>(i, p) m. AList.update p (int i) m) (zip [0..<length precedence] precedence) []"

definition ranked :: "string list \<Rightarrow> asset_claim \<Rightarrow> asset_claim" where
  "ranked precedence c =
     (case map_of (ranks_of precedence) (src_Plugin (cl_Source c)) of
        Some r \<Rightarrow> c\<lparr>cl_Source := (cl_Source c)\<lparr>src_PrecedenceRank := r,
                     src_ExplicitPrecedence := True\<rparr>\<rparr>
      | None \<Rightarrow> c\<lparr>cl_Source := (cl_Source c)\<lparr>src_PrecedenceRank := int (length precedence),
                     src_ExplicitPrecedence := False\<rparr>\<rparr>)"

definition by_asset :: "string list \<Rightarrow> asset_claim list \<Rightarrow> asset_claim list gomap" where
  "by_asset precedence claims =
     fold (\<lambda>c m. AList.update (cl_AssetID c)
             ((case map_of m (cl_AssetID c) of None \<Rightarrow> [] | Some cs \<Rightarrow> cs) @ [ranked precedence c]) m)
       claims []"

definition fold_source :: "resolved_asset \<Rightarrow> asset_claim \<Rightarrow> resolved_asset" where
  "fold_source r c =
     (let s = cl_Source c;
          r = r\<lparr>ra_Sources := ra_Sources r @ [s]\<rparr>;
          r = (if src_FirstObservedAt s < ra_FirstObservedAt r
               then r\<lparr>ra_FirstObservedAt := src_FirstObservedAt s,
                      ra_FirstObservationID := src_FirstObservationID s\<rparr> else r)
      in (if src_LastObservedAt s > ra_LastObservedAt r
          then r\<lparr>ra_LastObservedAt := src_LastObservedAt s,
                 ra_LastObservationID := src_LastObservationID s\<rparr> else r))"

definition resolve_one :: "(string \<Rightarrow> string) \<Rightarrow> string \<Rightarrow> asset_claim list \<Rightarrow> resolved_asset" where
  "resolve_one sha aid cs =
     (let ordered = sort_slice (claimPrecedes sha) cs;
          winner = hd ordered;
          r = \<lparr>ra_ID = aid, ra_Asset = cl_Asset winner,
               ra_FirstObservationID = src_FirstObservationID (cl_Source winner),
               ra_LastObservationID = src_LastObservationID (cl_Source winner),
               ra_FirstObservedAt = src_FirstObservedAt (cl_Source winner),
               ra_LastObservedAt = src_LastObservedAt (cl_Source winner),
               ra_WinningSource = cl_Source winner, ra_Sources = [], ra_Conflicts = []\<rparr>
      in (foldl fold_source r ordered)\<lparr>ra_Conflicts := assetConflicts ordered\<rparr>)"

definition ResolveAssetClaims ::
  "(string \<Rightarrow> string) \<Rightarrow> asset_claim list \<Rightarrow> string list \<Rightarrow> resolved_asset list" where
  "ResolveAssetClaims sha claims precedence =
     (let byAsset = by_asset precedence claims;
          assetIDs = sort (map fst byAsset)
      in map (\<lambda>aid. resolve_one sha aid (case map_of byAsset aid of None \<Rightarrow> [] | Some cs \<Rightarrow> cs))
           assetIDs)"

section \<open>The comparator and the ranks\<close>

interpretation claim_order: slice_less "claimPrecedes sha" for sha
  by unfold_locales (auto simp: claimPrecedes_def split: if_splits)

lemma claimPrecedes_total:
  assumes "source_key sha (cl_Source a) \<noteq> source_key sha (cl_Source b)"
  shows "claimPrecedes sha a b \<or> claimPrecedes sha b a"
  using assms by (auto simp: claimPrecedes_def)

lemma validate_plugins_None:
  "validate_plugins seen ps = None \<Longrightarrow>
     distinct ps \<and> set ps \<inter> set seen = {} \<and> [] \<notin> set ps
     \<and> (\<forall>p \<in> set ps. length p \<le> maxPluginNameBytes \<and> \<not> list_ex bad_plugin_rune (runes p))"
proof (induction ps arbitrary: seen)
  case Nil
  then show ?case by simp
next
  case (Cons p ps)
  then have *: "p \<noteq> []" "length p \<le> maxPluginNameBytes" "\<not> list_ex bad_plugin_rune (runes p)"
    "p \<notin> set seen" "validate_plugins (p # seen) ps = None"
    by (simp_all split: if_splits)
  show ?case using *(1-4) Cons.IH [OF *(5)] by (simp add: disjoint_iff) blast
qed

lemma ranks_of_snoc:
  "ranks_of (ps @ [p]) = AList.update p (int (length ps)) (ranks_of ps)"
  by (simp add: ranks_of_def)

lemma ranks_of_None: "map_of (ranks_of ps) p = None \<longleftrightarrow> p \<notin> set ps"
  by (induction ps rule: rev_induct) (auto simp: ranks_of_snoc, simp add: ranks_of_def)

lemma ranks_of_nth:
  "distinct ps \<Longrightarrow> i < length ps \<Longrightarrow> map_of (ranks_of ps) (ps ! i) = Some (int i)"
proof (induction ps rule: rev_induct)
  case Nil
  then show ?case by simp
next
  case (snoc p ps)
  then show ?case by (cases "i < length ps") (auto simp: ranks_of_snoc nth_append)
qed

lemma ranked_simps [simp]:
  "cl_AssetID (ranked ps c) = cl_AssetID c" "cl_Asset (ranked ps c) = cl_Asset c"
  "source_key sha (cl_Source (ranked ps c)) = source_key sha (cl_Source c)"
  "src_LastObservedAt (cl_Source (ranked ps c)) = src_LastObservedAt (cl_Source c)"
  "src_FirstObservedAt (cl_Source (ranked ps c)) = src_FirstObservedAt (cl_Source c)"
  "src_Plugin (cl_Source (ranked ps c)) = src_Plugin (cl_Source c)"
  by (auto simp: ranked_def source_key_def split: option.splits)

section \<open>Grouping by asset\<close>

lemma by_asset_snoc:
  "by_asset ps (cs @ [c]) =
     AList.update (cl_AssetID c)
       ((case map_of (by_asset ps cs) (cl_AssetID c) of None \<Rightarrow> [] | Some xs \<Rightarrow> xs) @ [ranked ps c])
       (by_asset ps cs)"
  by (simp add: by_asset_def)

lemma gm_wf_by_asset: "gm_wf (by_asset ps cs)"
  by (induction cs rule: rev_induct) (auto simp: by_asset_snoc distinct_update, simp add: by_asset_def)

definition claims_for :: "string \<Rightarrow> asset_claim list \<Rightarrow> asset_claim list" where
  "claims_for aid cs = filter (\<lambda>c. cl_AssetID c = aid) cs"

lemma map_of_by_asset:
  "map_of (by_asset ps cs) aid =
     (if claims_for aid cs = [] then None else Some (map (ranked ps) (claims_for aid cs)))"
proof (induction cs rule: rev_induct)
  case Nil
  then show ?case by (simp add: by_asset_def claims_for_def)
next
  case (snoc c cs)
  then show ?case by (auto simp: by_asset_snoc claims_for_def)
qed

lemma keys_by_asset: "fst ` set (by_asset ps cs) = cl_AssetID ` set cs"
proof -
  have "fst ` set (by_asset ps cs) = {aid. claims_for aid cs \<noteq> []}"
    by (auto simp: dom_keys dom_def map_of_by_asset split: if_splits)
  also have "\<dots> = cl_AssetID ` set cs" by (auto simp: claims_for_def filter_empty_conv)
  finally show ?thesis .
qed

lemma ResolveAssetClaims_alt:
  "ResolveAssetClaims sha cs ps =
     map (\<lambda>aid. resolve_one sha aid (map (ranked ps) (claims_for aid cs)))
       (sorted_list_of_set (cl_AssetID ` set cs))"
proof -
  have "sort (map fst (by_asset ps cs)) = sorted_list_of_set (cl_AssetID ` set cs)"
    using gm_wf_by_asset [of ps cs] keys_by_asset [of ps cs]
    by (metis distinct_remdups_id list.set_map sorted_list_of_set_sort_remdups)
  then show ?thesis
    by (auto simp: ResolveAssetClaims_def map_of_by_asset intro!: map_cong)
qed


section \<open>The fold over the sources\<close>

lemma foldl_fold_source:
  "ra_ID (foldl fold_source r cs) = ra_ID r"
  "ra_Asset (foldl fold_source r cs) = ra_Asset r"
  "ra_WinningSource (foldl fold_source r cs) = ra_WinningSource r"
  "ra_Sources (foldl fold_source r cs) = ra_Sources r @ map cl_Source cs"
  "ra_FirstObservedAt (foldl fold_source r cs) =
     Min (insert (ra_FirstObservedAt r) ((src_FirstObservedAt \<circ> cl_Source) ` set cs))"
  "ra_LastObservedAt (foldl fold_source r cs) =
     Max (insert (ra_LastObservedAt r) ((src_LastObservedAt \<circ> cl_Source) ` set cs))"
proof (induction cs arbitrary: r)
  case (Cons c cs)
  have min: "Min (insert (a :: int) (insert b A)) = Min (insert (min a b) A)"
    and max: "Max (insert a (insert b A)) = Max (insert (max a b) A)" if "finite A" for a b A
    using that by (cases "A = {}"; simp add: min.assoc max.assoc)+
  { case 1 then show ?case using Cons by (simp add: fold_source_def Let_def) }
  { case 2 then show ?case using Cons by (simp add: fold_source_def Let_def) }
  { case 3 then show ?case using Cons by (simp add: fold_source_def Let_def) }
  { case 4 then show ?case using Cons by (simp add: fold_source_def Let_def) }
  { case 5
    have "ra_FirstObservedAt (fold_source r c) =
        min (ra_FirstObservedAt r) (src_FirstObservedAt (cl_Source c))"
      by (simp add: fold_source_def Let_def)
    then show ?case using Cons by (simp add: min del: Min_insert) }
  { case 6
    have "ra_LastObservedAt (fold_source r c) =
        max (ra_LastObservedAt r) (src_LastObservedAt (cl_Source c))"
      by (simp add: fold_source_def Let_def)
    then show ?case using Cons by (simp add: max del: Max_insert) }
qed simp_all

lemma resolve_one_parts:
  fixes sha :: "string \<Rightarrow> string"
  assumes "cs \<noteq> []"
  defines "w \<equiv> hd (sort_slice (claimPrecedes sha) cs)"
  shows "ra_ID (resolve_one sha aid cs) = aid"
    "ra_Asset (resolve_one sha aid cs) = cl_Asset w"
    "ra_WinningSource (resolve_one sha aid cs) = cl_Source w"
    "w \<in> set cs" "\<forall>c \<in> set cs. \<not> claimPrecedes sha c w"
    "mset (ra_Sources (resolve_one sha aid cs)) = mset (map cl_Source cs)"
    "ra_FirstObservedAt (resolve_one sha aid cs) = Min ((src_FirstObservedAt \<circ> cl_Source) ` set cs)"
    "ra_LastObservedAt (resolve_one sha aid cs) = Max ((src_LastObservedAt \<circ> cl_Source) ` set cs)"
proof -
  let ?o = "sort_slice (claimPrecedes sha) cs"
  have ne: "?o \<noteq> []" using assms(1) by (metis length_sort_slice length_0_conv)
  show w: "w \<in> set cs" using ne hd_in_set [OF ne] by (simp add: w_def)
  have "sorted_wrt (\<lambda>a b. \<not> claimPrecedes sha b a) ?o" by (rule claim_order.sorted_sort_slice)
  moreover have "?o = w # tl ?o" using ne by (simp add: w_def)
  ultimately have "\<forall>c \<in> set (tl ?o). \<not> claimPrecedes sha c w" by (metis sorted_wrt.simps(2))
  moreover have "\<not> claimPrecedes sha w w" using claim_order.less_asym by blast
  moreover have "set cs = insert w (set (tl ?o))" using \<open>?o = w # tl ?o\<close>
    by (metis list.simps(15) set_sort_slice)
  ultimately show "\<forall>c \<in> set cs. \<not> claimPrecedes sha c w" by simp
  have ins: "insert (f w) (f ` set cs) = f ` set cs" for f :: "asset_claim \<Rightarrow> int" using w by blast
  show "mset (ra_Sources (resolve_one sha aid cs)) = mset (map cl_Source cs)"
    by (simp add: resolve_one_def Let_def foldl_fold_source)
  show "ra_FirstObservedAt (resolve_one sha aid cs) = Min ((src_FirstObservedAt \<circ> cl_Source) ` set cs)"
    using ins [of "src_FirstObservedAt \<circ> cl_Source"]
    by (simp add: resolve_one_def Let_def foldl_fold_source flip: w_def)
  show "ra_LastObservedAt (resolve_one sha aid cs) = Max ((src_LastObservedAt \<circ> cl_Source) ` set cs)"
    using ins [of "src_LastObservedAt \<circ> cl_Source"]
    by (simp add: resolve_one_def Let_def foldl_fold_source flip: w_def)
qed (simp_all add: resolve_one_def Let_def foldl_fold_source w_def)

lemma resolved_in:
  assumes "r \<in> set (ResolveAssetClaims sha cs ps)"
  shows "r = resolve_one sha (ra_ID r) (map (ranked ps) (claims_for (ra_ID r) cs))"
    "claims_for (ra_ID r) cs \<noteq> []"
proof -
  from assms obtain aid where aid: "r = resolve_one sha aid (map (ranked ps) (claims_for aid cs))"
    and "aid \<in> cl_AssetID ` set cs" by (auto simp: ResolveAssetClaims_alt)
  then have ne: "claims_for aid cs \<noteq> []" by (auto simp: claims_for_def filter_empty_conv)
  then have "ra_ID r = aid" using aid by (simp add: resolve_one_parts)
  then show "r = resolve_one sha (ra_ID r) (map (ranked ps) (claims_for (ra_ID r) cs))"
    "claims_for (ra_ID r) cs \<noteq> []" using aid ne by simp_all
qed

section \<open>Precedence of the winner\<close>

text \<open>The position of a plugin in the configured order; an unlisted plugin comes after all.\<close>

definition plugin_rank :: "string list \<Rightarrow> string \<Rightarrow> nat" where
  "plugin_rank ps p = length (takeWhile (\<lambda>q. q \<noteq> p) ps)"

lemma plugin_rank_nth:
  assumes "distinct ps" "i < length ps"
  shows "plugin_rank ps (ps ! i) = i"
  using assms by (simp add: plugin_rank_def takeWhile_eq_take_P_nth [of i] nth_eq_iff_index_eq)

lemma plugin_rank_notin: "p \<notin> set ps \<Longrightarrow> plugin_rank ps p = length ps"
  by (auto simp: plugin_rank_def intro!: arg_cong [of _ ps length] takeWhile_eq_all_conv [THEN iffD2])

lemma ranked_rank:
  assumes "distinct ps"
  shows "src_PrecedenceRank (cl_Source (ranked ps c)) = int (plugin_rank ps (src_Plugin (cl_Source c)))"
    "src_ExplicitPrecedence (cl_Source (ranked ps c)) \<longleftrightarrow> src_Plugin (cl_Source c) \<in> set ps"
proof -
  let ?p = "src_Plugin (cl_Source c)"
  have in_set: "map_of (ranks_of ps) ?p = Some (int (plugin_rank ps ?p))" if "?p \<in> set ps"
  proof -
    from that obtain i where "i < length ps" "?p = ps ! i" by (metis in_set_conv_nth)
    then show ?thesis using assms by (simp add: ranks_of_nth plugin_rank_nth)
  qed
  show "src_PrecedenceRank (cl_Source (ranked ps c)) = int (plugin_rank ps ?p)"
    "src_ExplicitPrecedence (cl_Source (ranked ps c)) \<longleftrightarrow> ?p \<in> set ps"
    using in_set ranks_of_None [of ps ?p]
    by (cases "?p \<in> set ps"; simp add: ranked_def plugin_rank_notin)+
qed

text \<open>The claims that come before a claim, in terms of the configured order of plugins.\<close>

definition preferred :: "(string \<Rightarrow> string) \<Rightarrow> string list \<Rightarrow> asset_claim \<Rightarrow> asset_claim \<Rightarrow> bool" where
  "preferred sha ps a b \<longleftrightarrow>
     (let ra = plugin_rank ps (src_Plugin (cl_Source a));
          rb = plugin_rank ps (src_Plugin (cl_Source b));
          ta = src_LastObservedAt (cl_Source a); tb = src_LastObservedAt (cl_Source b)
      in ra < rb \<or> ra = rb \<and> (ta > tb \<or>
           ta = tb \<and> source_key sha (cl_Source a) \<le> source_key sha (cl_Source b)))"

lemma claimPrecedes_ranked:
  assumes "distinct ps"
  shows "\<not> claimPrecedes sha (ranked ps b) (ranked ps a) \<longleftrightarrow> preferred sha ps a b"
  using ranked_rank [OF assms, of a] ranked_rank [OF assms, of b]
  by (auto simp: claimPrecedes_def preferred_def Let_def)

text \<open>
  C16: with a valid precedence list every resolved asset takes its content from a claim about that
  asset which is preferred to every other claim about it: a plugin listed earlier wins over one
  listed later or not at all; within one rank the latest observation wins, and the source key
  breaks the remaining ties.
\<close>

theorem ResolveAssetClaims_winner:
  assumes "ValidateSourcePrecedence ps = None" "r \<in> set (ResolveAssetClaims sha cs ps)"
  shows "\<exists>w \<in> set cs. cl_AssetID w = ra_ID r \<and> ra_Asset r = cl_Asset w
    \<and> ra_WinningSource r = cl_Source (ranked ps w)
    \<and> (\<forall>c \<in> set cs. cl_AssetID c = ra_ID r \<longrightarrow> preferred sha ps w c)"
proof -
  have dist: "distinct ps"
    using assms(1) validate_plugins_None [of "[]" ps]
    by (simp add: ValidateSourcePrecedence_def split: if_splits)
  let ?cs = "claims_for (ra_ID r) cs"
  let ?w = "hd (sort_slice (claimPrecedes sha) (map (ranked ps) ?cs))"
  have ne: "map (ranked ps) ?cs \<noteq> []" using resolved_in(2) [OF assms(2)] by simp
  note parts = resolve_one_parts(2,3) [OF ne, of sha "ra_ID r", folded resolved_in(1) [OF assms(2)]]
  from resolve_one_parts(4) [OF ne, of sha] obtain w where w: "w \<in> set ?cs" "?w = ranked ps w" by auto
  have "preferred sha ps w c" if "c \<in> set ?cs" for c
    using resolve_one_parts(5) [OF ne, of sha] that w(2) claimPrecedes_ranked [OF dist] by auto
  then show ?thesis using w parts by (auto simp: claims_for_def intro!: bexI [of _ w])
qed

text \<open>
  C20: resolution yields exactly one asset per asset ID that has a claim, in ascending order of
  ID; its sources are those of all its claims, and its first and last observation times are the
  earliest and the latest over all sources, not only over the winner.
\<close>

theorem ResolveAssetClaims_complete:
  "map ra_ID (ResolveAssetClaims sha cs ps) = sorted_list_of_set (cl_AssetID ` set cs)
   \<and> list_all (\<lambda>r.
       let xs = claims_for (ra_ID r) cs in
       mset (ra_Sources r) = mset (map (\<lambda>c. cl_Source (ranked ps c)) xs)
       \<and> ra_FirstObservedAt r = Min ((src_FirstObservedAt \<circ> cl_Source) ` set xs)
       \<and> ra_LastObservedAt r = Max ((src_LastObservedAt \<circ> cl_Source) ` set xs))
     (ResolveAssetClaims sha cs ps)"
proof
  have ne: "map (ranked ps) (claims_for aid cs) \<noteq> []" if "aid \<in> cl_AssetID ` set cs" for aid
    using that by (auto simp: claims_for_def filter_empty_conv)
  have "map (ra_ID \<circ> (\<lambda>aid. resolve_one sha aid (map (ranked ps) (claims_for aid cs))))
      (sorted_list_of_set (cl_AssetID ` set cs)) = map (\<lambda>x. x) (sorted_list_of_set (cl_AssetID ` set cs))"
    using ne by (intro map_cong) (auto simp: resolve_one_parts(1))
  then show "map ra_ID (ResolveAssetClaims sha cs ps) = sorted_list_of_set (cl_AssetID ` set cs)"
    by (simp add: ResolveAssetClaims_alt)
next
  have "mset (ra_Sources r) = mset (map (\<lambda>c. cl_Source (ranked ps c)) (claims_for (ra_ID r) cs))
     \<and> ra_FirstObservedAt r = Min ((src_FirstObservedAt \<circ> cl_Source) ` set (claims_for (ra_ID r) cs))
     \<and> ra_LastObservedAt r = Max ((src_LastObservedAt \<circ> cl_Source) ` set (claims_for (ra_ID r) cs))"
    if r: "r \<in> set (ResolveAssetClaims sha cs ps)" for r
  proof -
    have ne: "map (ranked ps) (claims_for (ra_ID r) cs) \<noteq> []" using resolved_in(2) [OF r] by simp
    note parts = resolve_one_parts(6,7,8) [OF ne, of sha "ra_ID r", folded resolved_in(1) [OF r]]
    show ?thesis using parts by (simp add: image_comp comp_def)
  qed
  then show "list_all (\<lambda>r.
       let xs = claims_for (ra_ID r) cs in
       mset (ra_Sources r) = mset (map (\<lambda>c. cl_Source (ranked ps c)) xs)
       \<and> ra_FirstObservedAt r = Min ((src_FirstObservedAt \<circ> cl_Source) ` set xs)
       \<and> ra_LastObservedAt r = Max ((src_LastObservedAt \<circ> cl_Source) ` set xs))
     (ResolveAssetClaims sha cs ps)"
    by (simp add: list_all_iff Let_def)
qed

text \<open>
  C21: resolution does not depend on the order in which the claims are listed (a Go map or a
  table scan), provided no two claims about one asset share a source key, which the stores
  guarantee.
\<close>

theorem ResolveAssetClaims_order_independent:
  assumes "mset cs = mset cs'"
    and "inj_on (\<lambda>c. (cl_AssetID c, source_key sha (cl_Source c))) (set cs)"
  shows "ResolveAssetClaims sha cs ps = ResolveAssetClaims sha cs' ps"
proof -
  have one: "resolve_one sha aid (map (ranked ps) (claims_for aid cs)) =
      resolve_one sha aid (map (ranked ps) (claims_for aid cs'))" for aid
  proof -
    have "sort_slice (claimPrecedes sha) (map (ranked ps) (claims_for aid cs)) =
        sort_slice (claimPrecedes sha) (map (ranked ps) (claims_for aid cs'))"
    proof (rule claim_order.sort_slice_perm)
      show "mset (map (ranked ps) (claims_for aid cs)) = mset (map (ranked ps) (claims_for aid cs'))"
        using assms(1) by (simp add: claims_for_def)
    next
      fix a b assume "a \<in> set (map (ranked ps) (claims_for aid cs))"
        "b \<in> set (map (ranked ps) (claims_for aid cs))" and neq: "a \<noteq> b"
      then obtain x y where xy: "a = ranked ps x" "b = ranked ps y" "x \<in> set cs" "y \<in> set cs"
        "cl_AssetID x = aid" "cl_AssetID y = aid" by (auto simp: claims_for_def)
      have "source_key sha (cl_Source x) \<noteq> source_key sha (cl_Source y)"
        using inj_onD [OF assms(2), of x y] neq xy by auto
      then have "source_key sha (cl_Source a) \<noteq> source_key sha (cl_Source b)" by (simp add: xy)
      then show "claimPrecedes sha a b \<or> claimPrecedes sha b a" by (rule claimPrecedes_total)
    qed
    then show ?thesis by (simp add: resolve_one_def)
  qed
  have "set cs = set cs'" using assms(1) by (rule mset_eq_setD)
  then show ?thesis by (simp add: ResolveAssetClaims_alt one)
qed

section \<open>Conflicts are exactly the disagreements\<close>

lemma length_remdups_gt1: "1 < length (remdups xs) \<longleftrightarrow> (\<exists>a \<in> set xs. \<exists>b \<in> set xs. a \<noteq> b)"
proof -
  have "1 < card (set xs) \<longleftrightarrow> (\<exists>a \<in> set xs. \<exists>b \<in> set xs. a \<noteq> b)"
    using card_le_Suc0_iff_eq [of "set xs"] by (auto simp: not_le [symmetric])
  then show ?thesis by (simp add: length_remdups_card_conv)
qed

lemma map_concat_select:
  "(\<And>f. h (g f) = f) \<Longrightarrow> map h (concat (map (\<lambda>f. if P f then [g f] else []) fs)) = filter P fs"
  by (induction fs) auto

lemma cf_Field_assetConflicts:
  "map cf_Field (assetConflicts cs) =
     filter (\<lambda>f. \<exists>a \<in> set cs. \<exists>b \<in> set cs. field_form f a \<noteq> field_form f b) (conflict_fields cs)"
proof (cases "length cs < 2")
  case True
  then have "cs = [] \<or> (\<exists>c. cs = [c])" by (cases cs; cases "tl cs") auto
  then show ?thesis using True by (auto simp: assetConflicts_def)
next
  case False
  then show ?thesis
    unfolding assetConflicts_def length_remdups_gt1
    by (simp only: if_False set_map bex_simps) (rule map_concat_select, simp)
qed

lemma field_form_simps:
  "field_form ''name'' c = (True, JStr (json_quote (as_Name (cl_Asset c))))"
  "field_form (''identifiers.'' @ k) c =
     (case map_of (as_Identifiers (cl_Asset c)) k of
        None \<Rightarrow> (False, JStr (json_quote [])) | Some v \<Rightarrow> (True, JStr (json_quote v)))"
  "field_form (''attributes.'' @ k) c =
     (case map_of (as_Attributes (cl_Asset c)) k of
        None \<Rightarrow> (False, JNull) | Some v \<Rightarrow> (True, json_form v))"
  by (simp_all add: field_form_def assetField_def has_prefix_def split: option.splits)

lemma conflict_fields_mem:
  "''name'' \<in> set (conflict_fields cs)"
  "''identifiers.'' @ k \<in> set (conflict_fields cs) \<longleftrightarrow>
     (\<exists>c \<in> set cs. k \<in> dom (map_of (as_Identifiers (cl_Asset c))))"
  "''attributes.'' @ k \<in> set (conflict_fields cs) \<longleftrightarrow>
     (\<exists>c \<in> set cs. k \<in> dom (map_of (as_Attributes (cl_Asset c))))"
proof -
  have pre: "p @ k \<in> (@) p ` A \<longleftrightarrow> k \<in> A" for p :: string and A by auto
  have "''identifiers.'' @ k \<notin> (@) ''attributes.'' ` A" "''attributes.'' @ k \<notin> (@) ''identifiers.'' ` A"
    for A by auto
  then show "''identifiers.'' @ k \<in> set (conflict_fields cs) \<longleftrightarrow>
     (\<exists>c \<in> set cs. k \<in> dom (map_of (as_Identifiers (cl_Asset c))))"
    "''attributes.'' @ k \<in> set (conflict_fields cs) \<longleftrightarrow>
     (\<exists>c \<in> set cs. k \<in> dom (map_of (as_Attributes (cl_Asset c))))"
    unfolding conflict_fields_def prefixedSortedKeys_def set_sort set_map set_append list.set pre
      insert_iff Un_iff set_remdups set_concat dom_keys [symmetric] by auto
qed (simp add: conflict_fields_def)

lemma conflict_fields_forms:
  "set (conflict_fields cs) \<subseteq> {''name''} \<union> range ((@) ''identifiers.'') \<union> range ((@) ''attributes.'')"
  unfolding conflict_fields_def prefixedSortedKeys_def by auto

lemma some_differs:
  "(\<exists>c \<in> S. k \<in> dom (f c)) \<and>
     (\<exists>a \<in> S. \<exists>b \<in> S. map_option g (f a k) \<noteq> map_option g (f b k)) \<longleftrightarrow>
   (\<exists>a \<in> S. \<exists>b \<in> S. map_option g (f a k) \<noteq> map_option g (f b k))"
proof -
  have "\<exists>c \<in> S. k \<in> dom (f c)" if "a \<in> S" "b \<in> S" "map_option g (f a k) \<noteq> map_option g (f b k)" for a b
    using that by (cases "f a k"; cases "f b k") auto
  then show ?thesis by blast
qed

lemma distinct_conflict_fields: "distinct (conflict_fields cs)"
  by (auto simp: conflict_fields_def prefixedSortedKeys_def distinct_map inj_on_def)

text \<open>
  C22: a resolved asset lists a conflict for the name, for an identifier or for an attribute
  exactly when two of the claims disagree on it (as the JSON text compares them, a missing entry
  being different from an empty one), for no other field, and it lists no field twice.
\<close>

theorem assetConflicts_exact:
  "(''name'' \<in> cf_Field ` set (assetConflicts cs) \<longleftrightarrow>
      (\<exists>a \<in> set cs. \<exists>b \<in> set cs.
         json_quote (as_Name (cl_Asset a)) \<noteq> json_quote (as_Name (cl_Asset b))))
   \<and> (''identifiers.'' @ k \<in> cf_Field ` set (assetConflicts cs) \<longleftrightarrow>
      (\<exists>a \<in> set cs. \<exists>b \<in> set cs.
         map_option json_quote (map_of (as_Identifiers (cl_Asset a)) k)
         \<noteq> map_option json_quote (map_of (as_Identifiers (cl_Asset b)) k)))
   \<and> (''attributes.'' @ k \<in> cf_Field ` set (assetConflicts cs) \<longleftrightarrow>
      (\<exists>a \<in> set cs. \<exists>b \<in> set cs.
         map_option json_form (map_of (as_Attributes (cl_Asset a)) k)
         \<noteq> map_option json_form (map_of (as_Attributes (cl_Asset b)) k)))
   \<and> cf_Field ` set (assetConflicts cs) \<subseteq> {''name''} \<union> range ((@) ''identifiers.'') \<union> range ((@) ''attributes.'')
   \<and> distinct (map cf_Field (assetConflicts cs))"
proof -
  have mem: "f \<in> cf_Field ` set (assetConflicts cs) \<longleftrightarrow> f \<in> set (conflict_fields cs)
      \<and> (\<exists>a \<in> set cs. \<exists>b \<in> set cs. field_form f a \<noteq> field_form f b)" for f
    unfolding list.set_map [symmetric] cf_Field_assetConflicts by simp
  have ids: "field_form (''identifiers.'' @ k) a \<noteq> field_form (''identifiers.'' @ k) b \<longleftrightarrow>
      map_option json_quote (map_of (as_Identifiers (cl_Asset a)) k)
      \<noteq> map_option json_quote (map_of (as_Identifiers (cl_Asset b)) k)" for a b
    unfolding field_form_simps(2) by (auto split: option.splits)
  have attrs: "field_form (''attributes.'' @ k) a \<noteq> field_form (''attributes.'' @ k) b \<longleftrightarrow>
      map_option json_form (map_of (as_Attributes (cl_Asset a)) k)
      \<noteq> map_option json_form (map_of (as_Attributes (cl_Asset b)) k)" for a b
    unfolding field_form_simps(3) by (auto split: option.splits)
  have "distinct (map cf_Field (assetConflicts cs))"
    by (simp add: cf_Field_assetConflicts distinct_conflict_fields)
  moreover have "''name'' \<in> cf_Field ` set (assetConflicts cs) \<longleftrightarrow> (\<exists>a \<in> set cs. \<exists>b \<in> set cs.
         json_quote (as_Name (cl_Asset a)) \<noteq> json_quote (as_Name (cl_Asset b)))"
    unfolding mem field_form_simps(1) using conflict_fields_mem(1) by auto
  moreover have "''identifiers.'' @ k \<in> cf_Field ` set (assetConflicts cs) \<longleftrightarrow>
      (\<exists>a \<in> set cs. \<exists>b \<in> set cs.
         map_option json_quote (map_of (as_Identifiers (cl_Asset a)) k)
         \<noteq> map_option json_quote (map_of (as_Identifiers (cl_Asset b)) k))"
    unfolding mem conflict_fields_mem(2) ids by (rule some_differs)
  moreover have "''attributes.'' @ k \<in> cf_Field ` set (assetConflicts cs) \<longleftrightarrow>
      (\<exists>a \<in> set cs. \<exists>b \<in> set cs.
         map_option json_form (map_of (as_Attributes (cl_Asset a)) k)
         \<noteq> map_option json_form (map_of (as_Attributes (cl_Asset b)) k))"
    unfolding mem conflict_fields_mem(3) attrs by (rule some_differs)
  moreover have "cf_Field ` set (assetConflicts cs) \<subseteq> {''name''} \<union> range ((@) ''identifiers.'') \<union> range ((@) ''attributes.'')"
    using mem conflict_fields_forms [of cs] by blast
  ultimately show ?thesis by (intro conjI)
qed

section \<open>Source keys\<close>

text \<open>
  C23: the source key identifies its source: two triples of valid UTF-8 strings with the same key
  are equal, if SHA-256 does not collide on their encodings. The JSON tuple leaves no delimiter
  ambiguity.
\<close>

theorem AssetSourceKey_inj:
  assumes "AssetSourceKey sha a b c = AssetSourceKey sha a' b' c'"
    and "\<forall>x \<in> {a, b, c, a', b', c'}. valid_utf8 x"
    and "inj_on sha {json_triple a b c, json_triple a' b' c'}"
  shows "(a, b, c) = (a', b', c')"
proof -
  have "sha (json_triple a b c) = sha (json_triple a' b' c')"
    using assms(1) by (simp add: AssetSourceKey_def hex_inj)
  then have "json_triple a b c = json_triple a' b' c'" by (rule inj_onD [OF assms(3)]) simp_all
  then show ?thesis using json_triple_inj [OF assms(2)] by simp
qed

section \<open>A concrete resolution\<close>

definition demo_claim :: "string \<Rightarrow> string \<Rightarrow> string \<Rightarrow> time \<Rightarrow> asset_claim" where
  "demo_claim site plugin name t =
     \<lparr>cl_AssetID = ''x'',
      cl_Asset = \<lparr>as_Type = AssetHost, as_NativeID = ''n'', as_Name = name, as_Identifiers = [],
                  as_Attributes = [], as_Evidence = []\<rparr>,
      cl_Source = \<lparr>src_SiteID = site, src_CollectorID = ''c'', src_Plugin = plugin,
                   src_FirstObservationID = ''o'', src_LastObservationID = ''o'',
                   src_FirstObservedAt = t, src_LastObservedAt = t,
                   src_PrecedenceRank = 0, src_ExplicitPrecedence = False\<rparr>\<rparr>"

lemma demo_precedence: "ValidateSourcePrecedence [''p''] = None"
  by (simp add: ValidateSourcePrecedence_def maxSourcePrecedenceEntries_def maxPluginNameBytes_def
    runes_def bad_plugin_rune_def is_control_def is_space_def)

lemma valid_utf8_ascii1: "byte c < 0x80 \<Longrightarrow> valid_utf8 [c]"
  by (simp add: valid_utf8_def)

text \<open>The older claim of the listed plugin wins over the newer claim of an unlisted one.\<close>

theorem ResolveAssetClaims_winner_witness:
  "let cs = [demo_claim ''s'' ''q'' ''new'' 9, demo_claim ''s'' ''p'' ''old'' 1] in
   as_Name (ra_Asset (hd (ResolveAssetClaims (\<lambda>s. s) cs [''p'']))) = ''old''"
proof -
  let ?cs = "[demo_claim ''s'' ''q'' ''new'' 9, demo_claim ''s'' ''p'' ''old'' 1]"
  let ?r = "hd (ResolveAssetClaims (\<lambda>s. s) ?cs [''p''])"
  have "?r \<in> set (ResolveAssetClaims (\<lambda>s. s) ?cs [''p''])"
    by (rule hd_in_set) (simp add: ResolveAssetClaims_alt)
  from ResolveAssetClaims_winner [OF demo_precedence this] obtain w where w: "w \<in> set ?cs"
    "ra_Asset ?r = cl_Asset w"
    "\<forall>c \<in> set ?cs. cl_AssetID c = ra_ID ?r \<longrightarrow> preferred (\<lambda>s. s) [''p''] w c"
    "cl_AssetID w = ra_ID ?r" by blast
  have "w \<noteq> demo_claim ''s'' ''q'' ''new'' 9"
    using w(3,4) by (auto simp: preferred_def Let_def plugin_rank_def demo_claim_def)
  then show ?thesis using w(1,2) by (auto simp: demo_claim_def)
qed

theorem ResolveAssetClaims_order_independent_witness:
  "ResolveAssetClaims (\<lambda>s. s) [demo_claim ''s'' ''p'' ''a'' 1, demo_claim ''t'' ''p'' ''b'' 1] [] =
   ResolveAssetClaims (\<lambda>s. s) [demo_claim ''t'' ''p'' ''b'' 1, demo_claim ''s'' ''p'' ''a'' 1] []"
proof (rule ResolveAssetClaims_order_independent)
  have "json_triple ''s'' ''c'' ''p'' \<noteq> json_triple ''t'' ''c'' ''p''"
    using json_triple_inj [of "''s''" "''c''" "''p''" "''t''" "''c''" "''p''"]
    by (auto simp: valid_utf8_ascii1)
  then show "inj_on (\<lambda>c. (cl_AssetID c, source_key (\<lambda>s. s) (cl_Source c)))
      (set [demo_claim ''s'' ''p'' ''a'' 1, demo_claim ''t'' ''p'' ''b'' 1])"
    by (simp add: source_key_def AssetSourceKey_def hex_inj demo_claim_def)
qed simp

theorem AssetSourceKey_inj_witness:
  "AssetSourceKey (\<lambda>s. s) ''s'' ''c'' ''p'' \<noteq> AssetSourceKey (\<lambda>s. s) ''t'' ''c'' ''p''"
  using AssetSourceKey_inj [of "\<lambda>s. s" "''s''" "''c''" "''p''" "''t''" "''c''" "''p''"]
  by (auto simp: valid_utf8_ascii1)

end
