(* ===== verification/Repository.thy ===== *)
theory Repository
  imports Audit_Log Resolution "HOL-Library.Product_Lexorder"
begin

text \<open>
  The storage abstraction of \<open>internal/store/store.go\<close>. The Go interface \<open>Repository\<close> is a
  record of operations over a state type \<open>'r\<close>, so that the controller is modelled once for every
  backend. \<open>repo_view\<close> is the abstract state the interface talks about, the \<open>spec_\<close> functions
  are what each method promises of it, and the locale \<open>repository_contract\<close> is the contract
  \<open>Memory\<close> and the SQLite store both discharge.
\<close>

section \<open>Records\<close>

record schedule =
  sc_CollectorID :: string
  sc_JobType :: job_type
  sc_IntervalSeconds :: int
  sc_NextRunAt :: time
  sc_CreatedAt :: time
  sc_UpdatedAt :: time

record certificate_revocation =
  rv_SerialNumber :: string
  rv_Reason :: string
  rv_RevokedAt :: time

record resolved_relationship =
  rr_ID :: string
  rr_Relationship :: relationship
  rr_FirstObservationID :: string
  rr_LastObservationID :: string

datatype store_error = ErrNotFound | StoreFailure string

text \<open>
  The interface. A method takes its arguments and the current state and returns its result and
  the new state; the instant \<open>time.Now()\<close> read by \<open>AppendAuditEvent\<close> is an argument.
\<close>

record 'r repository =
  SaveObservation :: "observation \<Rightarrow> 'r \<Rightarrow> store_error option \<times> 'r"
  ListObservations :: "'r \<Rightarrow> (store_error + observation list) \<times> 'r"
  ListAssetClaims :: "'r \<Rightarrow> (store_error + asset_claim list) \<times> 'r"
  ListAssets :: "'r \<Rightarrow> (store_error + resolved_asset list) \<times> 'r"
  ListRelationships :: "'r \<Rightarrow> (store_error + resolved_relationship list) \<times> 'r"
  AppendAuditEvent :: "time \<Rightarrow> event \<Rightarrow> 'r \<Rightarrow> (store_error + entry) \<times> 'r"
  ListAuditEntries :: "'r \<Rightarrow> (store_error + entry list) \<times> 'r"
  UpsertSchedule :: "schedule \<Rightarrow> 'r \<Rightarrow> store_error option \<times> 'r"
  ListSchedules :: "'r \<Rightarrow> (store_error + schedule list) \<times> 'r"
  GetSchedule :: "string \<Rightarrow> 'r \<Rightarrow> (store_error + schedule) \<times> 'r"
  DeleteSchedule :: "string \<Rightarrow> 'r \<Rightarrow> store_error option \<times> 'r"
  RevokeCertificate :: "certificate_revocation \<Rightarrow> 'r \<Rightarrow> (store_error + bool) \<times> 'r"
  ListCertificateRevocations :: "'r \<Rightarrow> (store_error + certificate_revocation list) \<times> 'r"
  IsCertificateRevoked :: "string \<Rightarrow> 'r \<Rightarrow> (store_error + bool) \<times> 'r"

section \<open>The abstract state\<close>

record repo_view =
  v_observations :: "observation list"
  v_claims :: "string \<times> string \<rightharpoonup> asset_claim"
  v_relationships :: "string \<rightharpoonup> resolved_relationship"
  v_audit :: "entry list"
  v_schedules :: "string \<rightharpoonup> schedule"
  v_revocations :: "string \<rightharpoonup> certificate_revocation"

definition empty_view :: repo_view where
  "empty_view = \<lparr>v_observations = [], v_claims = Map.empty, v_relationships = Map.empty,
     v_audit = [], v_schedules = Map.empty, v_revocations = Map.empty\<rparr>"

text \<open>The values of a map in ascending order of their keys.\<close>

definition sorted_values :: "('k :: linorder \<rightharpoonup> 'v) \<Rightarrow> 'v list" where
  "sorted_values m = map (\<lambda>k. the (m k)) (sorted_list_of_set (dom m))"

definition zero_asset :: asset where
  "zero_asset = \<lparr>as_Type = [], as_NativeID = [], as_Name = [], as_Identifiers = [],
     as_Attributes = [], as_Evidence = []\<rparr>"

text \<open>
  How one report of an asset changes the claim of its source: the earliest report sets the first
  observation, and the asset's content is replaced unless the stored content is newer.
\<close>

definition merge_claim :: "observation \<Rightarrow> string \<Rightarrow> asset \<Rightarrow> asset_claim option \<Rightarrow> asset_claim" where
  "merge_claim e aid a prev =
     (let exists = (prev \<noteq> None);
          claim = (case prev of Some c \<Rightarrow> c
            | None \<Rightarrow> \<lparr>cl_AssetID = aid, cl_Asset = zero_asset,
                cl_Source = \<lparr>src_SiteID = ob_SiteID e, src_CollectorID = ob_CollectorID e,
                  src_Plugin = ob_Plugin e, src_FirstObservationID = ob_ObservationID e,
                  src_LastObservationID = [], src_FirstObservedAt = ob_ObservedAt e,
                  src_LastObservedAt = zero_time, src_PrecedenceRank = 0,
                  src_ExplicitPrecedence = False\<rparr>\<rparr>);
          claim = (if \<not> exists \<or> ob_ObservedAt e < src_FirstObservedAt (cl_Source claim)
            then claim\<lparr>cl_Source := (cl_Source claim)
                   \<lparr>src_FirstObservationID := ob_ObservationID e,
                    src_FirstObservedAt := ob_ObservedAt e\<rparr>\<rparr> else claim)
      in (if \<not> exists \<or> \<not> ob_ObservedAt e < src_LastObservedAt (cl_Source claim)
          then claim\<lparr>cl_Asset := a,
                 cl_Source := (cl_Source claim)
                   \<lparr>src_LastObservationID := ob_ObservationID e,
                    src_LastObservedAt := ob_ObservedAt e\<rparr>\<rparr> else claim))"

definition merge_relationship ::
  "observation \<Rightarrow> string \<Rightarrow> relationship \<Rightarrow> resolved_relationship option \<Rightarrow> resolved_relationship" where
  "merge_relationship e rid rel prev =
     (let r = (case prev of Some r \<Rightarrow> r
        | None \<Rightarrow> \<lparr>rr_ID = rid, rr_Relationship = rel, rr_FirstObservationID = ob_ObservationID e,
                   rr_LastObservationID = []\<rparr>)
      in r\<lparr>rr_Relationship := rel, rr_LastObservationID := ob_ObservationID e\<rparr>)"

definition observation_key :: "(string \<Rightarrow> string) \<Rightarrow> observation \<Rightarrow> string" where
  "observation_key sha e = AssetSourceKey sha (ob_SiteID e) (ob_CollectorID e) (ob_Plugin e)"

definition put_observation :: "observation \<Rightarrow> observation list \<Rightarrow> observation list" where
  "put_observation e os =
     (if ob_ObservationID e \<in> ob_ObservationID ` set os
      then map (\<lambda>x. if ob_ObservationID x = ob_ObservationID e then e else x) os
      else os @ [e])"

definition put_claim ::
  "(string \<Rightarrow> string) \<Rightarrow> observation \<Rightarrow> asset \<Rightarrow> (string \<times> string \<rightharpoonup> asset_claim) \<Rightarrow>
   (string \<times> string \<rightharpoonup> asset_claim)" where
  "put_claim sha e a m =
     (let k = (StableAssetID sha a, observation_key sha e)
      in m(k \<mapsto> merge_claim e (StableAssetID sha a) a (m k)))"

definition put_relationship ::
  "(string \<Rightarrow> string) \<Rightarrow> observation \<Rightarrow> relationship \<Rightarrow> (string \<rightharpoonup> resolved_relationship) \<Rightarrow>
   (string \<rightharpoonup> resolved_relationship)" where
  "put_relationship sha e rel m =
     (let k = StableRelationshipID sha rel in m(k \<mapsto> merge_relationship e k rel (m k)))"

definition spec_save :: "(string \<Rightarrow> string) \<Rightarrow> observation \<Rightarrow> repo_view \<Rightarrow> repo_view" where
  "spec_save sha e v =
     v\<lparr>v_observations := put_observation e (v_observations v),
       v_claims := fold (put_claim sha e) (ob_Assets e) (v_claims v),
       v_relationships := fold (put_relationship sha e) (ob_Relationships e) (v_relationships v)\<rparr>"

definition next_entry ::
  "(string \<Rightarrow> string) \<Rightarrow> (time \<Rightarrow> string) \<Rightarrow> time \<Rightarrow> event \<Rightarrow> repo_view \<Rightarrow> entry" where
  "next_entry sha tfmt now ev v =
     Chain sha tfmt (tip_from [] (v_audit v)) (int (length (v_audit v)) + 1) now ev"

definition spec_upsert :: "schedule \<Rightarrow> repo_view \<Rightarrow> repo_view" where
  "spec_upsert s v = v\<lparr>v_schedules := (v_schedules v)(sc_CollectorID s \<mapsto> s)\<rparr>"

definition spec_delete :: "string \<Rightarrow> repo_view \<Rightarrow> repo_view" where
  "spec_delete c v = v\<lparr>v_schedules := (v_schedules v)(c := None)\<rparr>"

definition spec_revoke :: "certificate_revocation \<Rightarrow> repo_view \<Rightarrow> repo_view" where
  "spec_revoke rv v =
     (case v_revocations v (rv_SerialNumber rv) of
        Some _ \<Rightarrow> v
      | None \<Rightarrow> v\<lparr>v_revocations := (v_revocations v)(rv_SerialNumber rv \<mapsto> rv)\<rparr>)"

text \<open>An upsert that keeps the creation time of the schedule it replaces.\<close>

definition keeps_created :: "schedule \<Rightarrow> repo_view \<Rightarrow> bool" where
  "keeps_created s v \<longleftrightarrow>
     (case v_schedules v (sc_CollectorID s) of None \<Rightarrow> True
      | Some old \<Rightarrow> sc_CreatedAt old = sc_CreatedAt s)"

text \<open>The schedule with the creation time of the one it replaces.\<close>

definition kept :: "schedule \<Rightarrow> repo_view \<Rightarrow> schedule" where
  "kept s v = (case v_schedules v (sc_CollectorID s) of None \<Rightarrow> s
     | Some old \<Rightarrow> s\<lparr>sc_CreatedAt := sc_CreatedAt old\<rparr>)"

lemma kept_CollectorID [simp]: "sc_CollectorID (kept s v) = sc_CollectorID s"
  by (simp add: kept_def split: option.splits)

lemma kept_same [simp]: "keeps_created s v \<Longrightarrow> kept s v = s"
  by (cases s) (auto simp: kept_def keeps_created_def split: option.splits)

section \<open>Merging reports\<close>

lemma merge_claim_None:
  "merge_claim e aid a None =
     \<lparr>cl_AssetID = aid, cl_Asset = a,
      cl_Source = \<lparr>src_SiteID = ob_SiteID e, src_CollectorID = ob_CollectorID e,
        src_Plugin = ob_Plugin e, src_FirstObservationID = ob_ObservationID e,
        src_LastObservationID = ob_ObservationID e, src_FirstObservedAt = ob_ObservedAt e,
        src_LastObservedAt = ob_ObservedAt e, src_PrecedenceRank = 0,
        src_ExplicitPrecedence = False\<rparr>\<rparr>"
  by (simp add: merge_claim_def)

lemma merge_claim_Some:
  fixes c :: asset_claim
  defines "s \<equiv> cl_Source c"
  shows "cl_AssetID (merge_claim e aid a (Some c)) = cl_AssetID c"
    "source_key sha (cl_Source (merge_claim e aid a (Some c))) = source_key sha s"
    "src_FirstObservedAt (cl_Source (merge_claim e aid a (Some c))) =
       min (ob_ObservedAt e) (src_FirstObservedAt s)"
    "src_LastObservedAt (cl_Source (merge_claim e aid a (Some c))) =
       max (ob_ObservedAt e) (src_LastObservedAt s)"
    "cl_Asset (merge_claim e aid a (Some c)) =
       (if src_LastObservedAt s \<le> ob_ObservedAt e then a else cl_Asset c)"
  by (auto simp: merge_claim_def Let_def source_key_def s_def)

text \<open>A report that is merged twice in a row changes nothing the second time.\<close>

lemma merge_claim_again:
  "merge_claim e aid b (Some (merge_claim e aid a prev)) = merge_claim e aid b prev"
  by (cases prev) (auto simp: merge_claim_def Let_def)

lemma merge_relationship_again:
  "merge_relationship e rid b (Some (merge_relationship e rid a m)) = merge_relationship e rid b m"
  by (cases m) (simp_all add: merge_relationship_def Let_def)

section \<open>Folds of single-key updates\<close>

text \<open>
  A fold of updates \<open>m(k x \<mapsto> g x (m (k x)))\<close> seen at one key: only the elements with that key
  matter. Saving an observation is two such folds.
\<close>

lemma fold_upd_at:
  "fold (\<lambda>x m. m(k x \<mapsto> g x (m (k x)))) xs m q =
     fold (\<lambda>x v. Some (g x v)) (filter (\<lambda>x. k x = q) xs) (m q)"
  by (induction xs arbitrary: m) auto

lemma fold_last:
  assumes "\<And>a b v. g b (Some (g a v)) = g b v"
  shows "xs \<noteq> [] \<Longrightarrow> fold (\<lambda>x v. Some (g x v)) xs v = Some (g (last xs) v)"
proof (induction xs arbitrary: v)
  case (Cons x xs)
  then show ?case using assms by (cases "xs = []") simp_all
qed simp

lemma put_claim_fold:
  "fold (put_claim sha e) as m (aid, k) =
     (let ws = filter (\<lambda>a. StableAssetID sha a = aid) as in
      if k = observation_key sha e \<and> ws \<noteq> []
      then Some (merge_claim e aid (last ws) (m (aid, k))) else m (aid, k))"
proof -
  let ?k = "\<lambda>a. (StableAssetID sha a, observation_key sha e)"
  have "fold (put_claim sha e) as m (aid, k) =
      fold (\<lambda>a v. Some (merge_claim e (StableAssetID sha a) a v))
        (filter (\<lambda>a. ?k a = (aid, k)) as) (m (aid, k))"
    unfolding put_claim_def Let_def by (rule fold_upd_at)
  also have "\<dots> = fold (\<lambda>a v. Some (merge_claim e aid a v))
        (filter (\<lambda>a. ?k a = (aid, k)) as) (m (aid, k))"
    by (rule fold_cong) auto
  also have "\<dots> = (if filter (\<lambda>a. ?k a = (aid, k)) as = [] then m (aid, k)
      else Some (merge_claim e aid (last (filter (\<lambda>a. ?k a = (aid, k)) as)) (m (aid, k))))"
    using fold_last [where g = "merge_claim e aid", OF merge_claim_again] by auto
  finally show ?thesis
    by (cases "k = observation_key sha e") (auto simp: Let_def cong: conj_cong)
qed

lemma put_relationship_fold:
  "fold (put_relationship sha e) rs m rid =
     (let ws = filter (\<lambda>r. StableRelationshipID sha r = rid) rs in
      if ws \<noteq> [] then Some (merge_relationship e rid (last ws) (m rid)) else m rid)"
proof -
  have "fold (put_relationship sha e) rs m rid =
      fold (\<lambda>r v. Some (merge_relationship e (StableRelationshipID sha r) r v))
        (filter (\<lambda>r. StableRelationshipID sha r = rid) rs) (m rid)"
    unfolding put_relationship_def Let_def by (rule fold_upd_at)
  also have "\<dots> = fold (\<lambda>r v. Some (merge_relationship e rid r v))
        (filter (\<lambda>r. StableRelationshipID sha r = rid) rs) (m rid)"
    by (rule fold_cong) auto
  finally show ?thesis
    using fold_last [where g = "merge_relationship e rid", OF merge_relationship_again]
    by (auto simp: Let_def)
qed

section \<open>What the claims say after any number of observations\<close>

text \<open>
  The observations of one source that report an asset, and the asset they report (the last one,
  should an envelope list the same asset twice).
\<close>

definition reports_of :: "(string \<Rightarrow> string) \<Rightarrow> string \<Rightarrow> string \<Rightarrow> observation list \<Rightarrow> observation list" where
  "reports_of sha aid k es =
     filter (\<lambda>e. observation_key sha e = k \<and> aid \<in> StableAssetID sha ` set (ob_Assets e)) es"

definition report_asset :: "(string \<Rightarrow> string) \<Rightarrow> string \<Rightarrow> observation \<Rightarrow> asset" where
  "report_asset sha aid e = last (filter (\<lambda>a. StableAssetID sha a = aid) (ob_Assets e))"

definition summarises :: "(string \<Rightarrow> string) \<Rightarrow> string \<Rightarrow> asset_claim option \<Rightarrow> observation list \<Rightarrow> bool" where
  "summarises sha aid claim rs \<longleftrightarrow>
     (case claim of None \<Rightarrow> rs = []
      | Some c \<Rightarrow> rs \<noteq> []
          \<and> src_FirstObservedAt (cl_Source c) = Min (ob_ObservedAt ` set rs)
          \<and> src_LastObservedAt (cl_Source c) = Max (ob_ObservedAt ` set rs)
          \<and> cl_Asset c = report_asset sha aid
              (last (filter (\<lambda>e. ob_ObservedAt e = Max (ob_ObservedAt ` set rs)) rs)))"

lemma summarises_snoc:
  assumes "summarises sha aid claim rs"
  shows "summarises sha aid (Some (merge_claim e aid (report_asset sha aid e) claim)) (rs @ [e])"
proof (cases claim)
  case None
  then show ?thesis using assms by (simp add: summarises_def merge_claim_None)
next
  case (Some c)
  let ?T = "ob_ObservedAt ` set rs" and ?t = "ob_ObservedAt e"
  have c: "rs \<noteq> []" "src_FirstObservedAt (cl_Source c) = Min ?T"
    "src_LastObservedAt (cl_Source c) = Max ?T"
    "cl_Asset c = report_asset sha aid (last (filter (\<lambda>e. ob_ObservedAt e = Max ?T) rs))"
    using assms Some by (simp_all add: summarises_def)
  have new: "ob_ObservedAt ` set (rs @ [e]) = insert ?t ?T" by simp
  have T: "finite ?T" "?T \<noteq> {}" using c(1) by simp_all
  then have mm: "Min (insert ?t ?T) = min ?t (Min ?T)" "Max (insert ?t ?T) = max ?t (Max ?T)"
    by simp_all
  have "cl_Asset (merge_claim e aid (report_asset sha aid e) (Some c)) =
      report_asset sha aid (last (filter (\<lambda>x. ob_ObservedAt x = max ?t (Max ?T)) (rs @ [e])))"
  proof (cases "Max ?T \<le> ?t")
    case True
    then have "max ?t (Max ?T) = ?t" by (rule max_absorb1)
    then show ?thesis using c(3) True by (simp add: merge_claim_Some del: Max_le_iff)
  next
    case False
    then have "max ?t (Max ?T) = Max ?T" "?t \<noteq> Max ?T" by simp_all
    then show ?thesis using c(3,4) False by (simp add: merge_claim_Some del: Max_le_iff)
  qed
  then show ?thesis using Some c unfolding summarises_def new mm
    by (simp add: merge_claim_Some)
qed

lemma summarises_saved:
  "summarises sha aid (v_claims (fold (spec_save sha) es empty_view) (aid, k)) (reports_of sha aid k es)"
proof (induction es rule: rev_induct)
  case Nil
  then show ?case by (simp add: empty_view_def reports_of_def summarises_def)
next
  case (snoc e es)
  let ?v = "fold (spec_save sha) es empty_view"
  let ?ws = "filter (\<lambda>a. StableAssetID sha a = aid) (ob_Assets e)"
  have ws: "?ws \<noteq> [] \<longleftrightarrow> aid \<in> StableAssetID sha ` set (ob_Assets e)"
    by (auto simp: filter_empty_conv)
  have "v_claims (spec_save sha e ?v) (aid, k) =
      (if k = observation_key sha e \<and> ?ws \<noteq> []
       then Some (merge_claim e aid (report_asset sha aid e) (v_claims ?v (aid, k)))
       else v_claims ?v (aid, k))"
    by (simp add: spec_save_def put_claim_fold Let_def report_asset_def)
  then show ?case using snoc summarises_snoc [OF snoc] ws
    by (auto simp: reports_of_def)
qed

section \<open>The abstract invariant\<close>

definition view_ok :: "(string \<Rightarrow> string) \<Rightarrow> (time \<Rightarrow> string) \<Rightarrow> repo_view \<Rightarrow> bool" where
  "view_ok sha tfmt v \<longleftrightarrow>
     distinct (map ob_ObservationID (v_observations v))
     \<and> (\<forall>aid k c. v_claims v (aid, k) = Some c \<longrightarrow>
          cl_AssetID c = aid \<and> source_key sha (cl_Source c) = k
          \<and> src_FirstObservedAt (cl_Source c) \<le> src_LastObservedAt (cl_Source c))
     \<and> (\<forall>rid r. v_relationships v rid = Some r \<longrightarrow> rr_ID r = rid)
     \<and> VerifyChain sha tfmt (v_audit v) = None
     \<and> (\<forall>c s. v_schedules v c = Some s \<longrightarrow> sc_CollectorID s = c)
     \<and> (\<forall>n r. v_revocations v n = Some r \<longrightarrow> rv_SerialNumber r = n)"

lemma view_ok_empty: "view_ok sha tfmt empty_view"
  by (simp add: view_ok_def empty_view_def VerifyChain_def)

lemma put_observation_ids:
  "map ob_ObservationID (put_observation e os) =
     (if ob_ObservationID e \<in> ob_ObservationID ` set os then map ob_ObservationID os
      else map ob_ObservationID os @ [ob_ObservationID e])"
  by (auto simp: put_observation_def)

lemma put_observation_again [simp]: "put_observation e (put_observation e os) = put_observation e os"
proof (cases "ob_ObservationID e \<in> ob_ObservationID ` set os")
  case False
  then have "map (\<lambda>x. if ob_ObservationID x = ob_ObservationID e then e else x) os = os"
    by (intro map_idI) (metis imageI)
  then show ?thesis using False by (simp add: put_observation_def)
qed (auto simp: put_observation_def image_iff)

lemma filter_put_observation:
  assumes "distinct (map ob_ObservationID os)"
  shows "filter (\<lambda>x. ob_ObservationID x = ob_ObservationID e) (put_observation e os) = [e]"
proof -
  have one: "filter (\<lambda>x. ob_ObservationID x = ob_ObservationID e) xs = [e]"
    if "e \<in> set xs" "distinct (map ob_ObservationID xs)" for xs
  proof -
    obtain ys zs where xs: "xs = ys @ e # zs" using \<open>e \<in> set xs\<close> by (metis split_list)
    then have "ob_ObservationID e \<notin> ob_ObservationID ` set ys"
      "ob_ObservationID e \<notin> ob_ObservationID ` set zs" using that(2) by simp_all
    then have "filter (\<lambda>x. ob_ObservationID x = ob_ObservationID e) ys = []"
      "filter (\<lambda>x. ob_ObservationID x = ob_ObservationID e) zs = []"
      by (metis (mono_tags, lifting) filter_False imageI)+
    then show ?thesis using xs by simp
  qed
  have "e \<in> set (put_observation e os)" by (auto simp: put_observation_def)
  moreover have "distinct (map ob_ObservationID (put_observation e os))"
    using assms by (simp add: put_observation_ids)
  ultimately show ?thesis by (rule one)
qed

lemma spec_save_claim_ok:
  assumes "view_ok sha tfmt v" "v_claims (spec_save sha e v) (aid, k) = Some c"
  shows "cl_AssetID c = aid \<and> source_key sha (cl_Source c) = k
    \<and> src_FirstObservedAt (cl_Source c) \<le> src_LastObservedAt (cl_Source c)"
proof -
  let ?ws = "filter (\<lambda>a. StableAssetID sha a = aid) (ob_Assets e)"
  show ?thesis
  proof (cases "k = observation_key sha e \<and> ?ws \<noteq> []")
    case True
    then have c: "c = merge_claim e aid (last ?ws) (v_claims v (aid, k))"
      using assms(2) by (simp add: spec_save_def put_claim_fold Let_def)
    show ?thesis
    proof (cases "v_claims v (aid, k)")
      case None
      then show ?thesis using c True
        by (simp add: merge_claim_None source_key_def observation_key_def)
    next
      case (Some d)
      then show ?thesis using c assms(1) by (auto simp: merge_claim_Some view_ok_def)
    qed
  next
    case False
    then show ?thesis using assms
      by (auto simp: spec_save_def put_claim_fold Let_def view_ok_def)
  qed
qed

lemma view_ok_save [topo_inv]: "view_ok sha tfmt v \<Longrightarrow> view_ok sha tfmt (spec_save sha e v)"
proof -
  assume v: "view_ok sha tfmt v"
  have "rr_ID r = rid" if "v_relationships (spec_save sha e v) rid = Some r" for rid r
    using that v
    by (cases "v_relationships v rid")
      (auto simp: spec_save_def put_relationship_fold view_ok_def merge_relationship_def Let_def
        split: if_splits)
  then show ?thesis using v spec_save_claim_ok [OF v]
    by (auto simp: view_ok_def put_observation_ids spec_save_def)
qed

lemma view_ok_append [topo_inv]:
  "view_ok sha tfmt v \<Longrightarrow> view_ok sha tfmt (v\<lparr>v_audit := v_audit v @ [next_entry sha tfmt now ev v]\<rparr>)"
  by (simp add: view_ok_def next_entry_def VerifyChain_snoc)

lemma view_ok_upsert [topo_inv]: "view_ok sha tfmt v \<Longrightarrow> view_ok sha tfmt (spec_upsert s v)"
  by (simp add: view_ok_def spec_upsert_def)

lemma view_ok_delete [topo_inv]: "view_ok sha tfmt v \<Longrightarrow> view_ok sha tfmt (spec_delete c v)"
  by (simp add: view_ok_def spec_delete_def)

lemma view_ok_revoke [topo_inv]: "view_ok sha tfmt v \<Longrightarrow> view_ok sha tfmt (spec_revoke r v)"
  by (simp add: view_ok_def spec_revoke_def split: option.splits)

lemma spec_revoke_keeps:
  "v_revocations v n = Some r \<Longrightarrow> v_revocations (spec_revoke x v) n = Some r"
  by (auto simp: spec_revoke_def split: option.splits)

text \<open>Sorting the values of a table by the key they carry lists the map it stands for.\<close>

lemma sort_slice_values:
  fixes f :: "'v \<Rightarrow> 'k :: linorder"
  assumes "distinct (map fst t)" "\<forall>(k, v) \<in> set t. f v = k"
  shows "sort_slice (\<lambda>a b. f a < f b) (map snd t) = sorted_values (map_of t)"
proof (rule slice_less.sorted_unique [OF slice_less_key [of f]])
  have fst_snd: "map f (map snd t) = map fst t" using assms(2) by auto
  let ?ks = "sorted_list_of_set (dom (map_of t))"
  have ks: "set ?ks = fst ` set t" "distinct ?ks" by (simp_all add: dom_map_of_conv_image_fst)
  have "mset (map fst t) = mset ?ks"
    using assms(1) ks by (intro iffD1 [OF set_eq_iff_mset_eq_distinct]) simp_all
  then have "mset (map (\<lambda>k. the (map_of t k)) (map fst t)) = mset (sorted_values (map_of t))"
    unfolding sorted_values_def by (simp only: mset_map)
  moreover have "map (\<lambda>k. the (map_of t k)) (map fst t) = map snd t"
    using assms(1) by (auto simp: map_of_is_SomeI)
  ultimately show "mset (sort_slice (\<lambda>a b. f a < f b) (map snd t)) = mset (sorted_values (map_of t))"
    by (metis mset_sort_slice)
  have key: "f (the (map_of t k)) = k" if "k \<in> set ?ks" for k
    using that assms ks(1) by (auto simp: map_of_is_SomeI)
  have "map f (sorted_values (map_of t)) = ?ks"
    unfolding sorted_values_def by (simp add: map_idI key)
  then have "sorted (map f (sorted_values (map_of t)))" by simp
  then show "sorted_wrt (\<lambda>a b. \<not> f b < f a) (sorted_values (map_of t))"
    by (simp add: sorted_map not_less)
  show "sorted_wrt (\<lambda>a b. \<not> f b < f a) (sort_slice (\<lambda>a b. f a < f b) (map snd t))"
    by (rule slice_less.sorted_sort_slice [OF slice_less_key])
  fix a b assume "a \<in> set (sort_slice (\<lambda>a b. f a < f b) (map snd t))"
    "b \<in> set (sort_slice (\<lambda>a b. f a < f b) (map snd t))" "a \<noteq> b"
  moreover have "inj_on f (snd ` set t)"
    using assms(1) fst_snd by (metis distinct_map list.set_map)
  ultimately have "f a \<noteq> f b" by (auto simp: inj_on_eq_iff)
  then show "f a < f b \<or> f b < f a" by (simp add: neq_iff)
qed

lemma sort_slice_map:
  fixes f :: "'v \<Rightarrow> 'k :: linorder"
  assumes "distinct (map fst t)" "\<And>k v. map_of t k = Some v \<Longrightarrow> f v = k"
  shows "sort_slice (\<lambda>a b. f a < f b) (map snd t) = sorted_values (map_of t)"
proof (rule sort_slice_values [OF assms(1)])
  show "\<forall>(k, v) \<in> set t. f v = k" using assms by (auto simp: map_of_is_SomeI)
qed

text \<open>Delivering the same envelope again changes nothing.\<close>

lemma spec_save_again: "spec_save sha e (spec_save sha e v) = spec_save sha e v"
proof -
  have "fold (put_claim sha e) (ob_Assets e) (fold (put_claim sha e) (ob_Assets e) m) =
      fold (put_claim sha e) (ob_Assets e) m" for m
  proof
    fix p :: "string \<times> string"
    obtain aid k where p: "p = (aid, k)" by (cases p)
    show "fold (put_claim sha e) (ob_Assets e) (fold (put_claim sha e) (ob_Assets e) m) p =
      fold (put_claim sha e) (ob_Assets e) m p"
      unfolding p by (simp add: put_claim_fold Let_def merge_claim_again)
  qed
  moreover have "fold (put_relationship sha e) (ob_Relationships e)
      (fold (put_relationship sha e) (ob_Relationships e) m) =
      fold (put_relationship sha e) (ob_Relationships e) m" for m
    by (rule ext) (simp add: put_relationship_fold Let_def merge_relationship_again)
  ultimately show ?thesis by (simp add: spec_save_def)
qed

section \<open>The contract\<close>

text \<open>
  A method that only writes either fails and leaves the view alone or succeeds and applies the
  abstract operation; a method with a result answers from the view it started in.
\<close>

definition writes ::
  "('r \<Rightarrow> bool) \<Rightarrow> ('r \<Rightarrow> repo_view) \<Rightarrow> (repo_view \<Rightarrow> repo_view) \<Rightarrow> 'r \<Rightarrow> store_error option \<times> 'r \<Rightarrow> bool"
  where
  "writes okr view f r out \<longleftrightarrow> okr (snd out)
     \<and> view (snd out) = (if fst out = None then f (view r) else view r)"

definition answers ::
  "('r \<Rightarrow> bool) \<Rightarrow> ('r \<Rightarrow> repo_view) \<Rightarrow> (repo_view \<Rightarrow> 'a) \<Rightarrow> (repo_view \<Rightarrow> repo_view) \<Rightarrow> 'r \<Rightarrow>
   (store_error + 'a) \<times> 'r \<Rightarrow> bool" where
  "answers okr view g f r out \<longleftrightarrow> okr (snd out)
     \<and> (case fst out of Inl _ \<Rightarrow> view (snd out) = view r
        | Inr x \<Rightarrow> x = g (view r) \<and> view (snd out) = f (view r))"

lemmas contract_defs = writes_def answers_def

lemma writes_view:
  "writes okr view f r out \<Longrightarrow> okr (snd out) \<and> view (snd out) \<in> {view r, f (view r)}"
  by (auto simp: writes_def)

lemma answers_view:
  "answers okr view g f r out \<Longrightarrow> okr (snd out) \<and> view (snd out) \<in> {view r, f (view r)}"
  by (auto simp: answers_def split: sum.splits)

text \<open>The operations of a client, to speak about arbitrary sequences of calls.\<close>

datatype repo_call = CallSave observation | CallAppend time event | CallUpsert schedule
  | CallDelete string | CallRevoke certificate_revocation | CallListAudit | CallIsRevoked string

fun call :: "'r repository \<Rightarrow> repo_call \<Rightarrow> 'r \<Rightarrow> 'r" where
  "call R (CallSave e) r = snd (SaveObservation R e r)"
| "call R (CallAppend now ev) r = snd (AppendAuditEvent R now ev r)"
| "call R (CallUpsert s) r = snd (UpsertSchedule R s r)"
| "call R (CallDelete c) r = snd (DeleteSchedule R c r)"
| "call R (CallRevoke rv) r = snd (RevokeCertificate R rv r)"
| "call R CallListAudit r = snd (ListAuditEntries R r)"
| "call R (CallIsRevoked n) r = snd (IsCertificateRevoked R n r)"

fun spec_call :: "(string \<Rightarrow> string) \<Rightarrow> (time \<Rightarrow> string) \<Rightarrow> repo_call \<Rightarrow> repo_view \<Rightarrow> repo_view" where
  "spec_call sha tfmt (CallSave e) v = spec_save sha e v"
| "spec_call sha tfmt (CallAppend now ev) v =
     v\<lparr>v_audit := v_audit v @ [next_entry sha tfmt now ev v]\<rparr>"
| "spec_call sha tfmt (CallUpsert s) v = spec_upsert s v"
| "spec_call sha tfmt (CallDelete c) v = spec_delete c v"
| "spec_call sha tfmt (CallRevoke rv) v = spec_revoke rv v"
| "spec_call sha tfmt _ v = v"

lemma spec_call_audit: "prefix (v_audit v) (v_audit (spec_call sha tfmt c v))"
  by (cases c) (auto simp: spec_save_def spec_upsert_def spec_delete_def spec_revoke_def
    split: option.splits)

lemma spec_call_revocation:
  "v_revocations v n = Some x \<Longrightarrow> v_revocations (spec_call sha tfmt c v) n = Some x"
  by (cases c) (auto simp: spec_save_def spec_upsert_def spec_delete_def spec_revoke_keeps)

text \<open>Calls whose arguments the backend can represent, in a state.\<close>

fun callable ::
  "('r \<Rightarrow> repo_view) \<Rightarrow> (observation \<Rightarrow> bool) \<Rightarrow> (time \<Rightarrow> event \<Rightarrow> bool) \<Rightarrow> (schedule \<Rightarrow> bool) \<Rightarrow>
   (certificate_revocation \<Rightarrow> bool) \<Rightarrow> repo_call \<Rightarrow> 'r \<Rightarrow> bool" where
  "callable view ok_obs ok_event ok_sched ok_rev (CallSave e) r \<longleftrightarrow> ok_obs e"
| "callable view ok_obs ok_event ok_sched ok_rev (CallAppend now ev) r \<longleftrightarrow> ok_event now ev"
| "callable view ok_obs ok_event ok_sched ok_rev (CallUpsert s) r \<longleftrightarrow>
     ok_sched s \<and> keeps_created s (view r)"
| "callable view ok_obs ok_event ok_sched ok_rev (CallRevoke rv) r \<longleftrightarrow> ok_rev rv"
| "callable view ok_obs ok_event ok_sched ok_rev _ r \<longleftrightarrow> True"

inductive calls :: "'r repository \<Rightarrow> (repo_call \<Rightarrow> 'r \<Rightarrow> bool) \<Rightarrow> 'r \<Rightarrow> 'r \<Rightarrow> bool"
  for R able where
  calls_refl: "calls R able r r"
| calls_step: "calls R able r s \<Longrightarrow> able c s \<Longrightarrow> calls R able r (call R c s)"

locale repository_contract =
  fixes R :: "'r repository"
    and sha :: "string \<Rightarrow> string" and tfmt :: "time \<Rightarrow> string"
    and okr :: "'r \<Rightarrow> bool" and view :: "'r \<Rightarrow> repo_view"
    and ok_obs :: "observation \<Rightarrow> bool" and ok_event :: "time \<Rightarrow> event \<Rightarrow> bool"
    and ok_sched :: "schedule \<Rightarrow> bool" and ok_rev :: "certificate_revocation \<Rightarrow> bool"
  assumes okr_view: "okr r \<Longrightarrow> view_ok sha tfmt (view r)"
    and save: "okr r \<Longrightarrow> ok_obs e \<Longrightarrow>
      writes okr view (spec_save sha e) r (SaveObservation R e r)"
    and list_observations: "okr r \<Longrightarrow>
      answers okr view v_observations (\<lambda>v. v) r (ListObservations R r)"
    and list_claims: "okr r \<Longrightarrow>
      answers okr view (\<lambda>v. sorted_values (v_claims v)) (\<lambda>v. v) r (ListAssetClaims R r)"
    and list_assets: "okr r \<Longrightarrow>
      answers okr view (\<lambda>v. ResolveAssetClaims sha (sorted_values (v_claims v)) []) (\<lambda>v. v) r
        (ListAssets R r)"
    and list_relationships: "okr r \<Longrightarrow>
      answers okr view (\<lambda>v. sorted_values (v_relationships v)) (\<lambda>v. v) r (ListRelationships R r)"
    and append_audit: "okr r \<Longrightarrow> ok_event now ev \<Longrightarrow>
      answers okr view (next_entry sha tfmt now ev)
        (\<lambda>v. v\<lparr>v_audit := v_audit v @ [next_entry sha tfmt now ev v]\<rparr>) r (AppendAuditEvent R now ev r)"
    and list_audit: "okr r \<Longrightarrow> answers okr view v_audit (\<lambda>v. v) r (ListAuditEntries R r)"
    and upsert: "okr r \<Longrightarrow> ok_sched s \<Longrightarrow> keeps_created s (view r) \<Longrightarrow>
      writes okr view (spec_upsert s) r (UpsertSchedule R s r)"
    and list_schedules: "okr r \<Longrightarrow>
      answers okr view (\<lambda>v. sorted_values (v_schedules v)) (\<lambda>v. v) r (ListSchedules R r)"
    and get_schedule: "okr r \<Longrightarrow>
      answers okr view (\<lambda>v. the (v_schedules v c)) (\<lambda>v. v) r (GetSchedule R c r)"
    and get_schedule_found: "okr r \<Longrightarrow>
      (case fst (GetSchedule R c r) of Inr _ \<Rightarrow> v_schedules (view r) c \<noteq> None
       | Inl e \<Rightarrow> e = ErrNotFound \<longrightarrow> v_schedules (view r) c = None)"
    and delete: "okr r \<Longrightarrow> writes okr view (spec_delete c) r (DeleteSchedule R c r)"
    and revoke: "okr r \<Longrightarrow> ok_rev rv \<Longrightarrow>
      answers okr view (\<lambda>v. v_revocations v (rv_SerialNumber rv) = None) (spec_revoke rv) r
        (RevokeCertificate R rv r)"
    and list_revocations: "okr r \<Longrightarrow>
      answers okr view (\<lambda>v. sorted_values (v_revocations v)) (\<lambda>v. v) r
        (ListCertificateRevocations R r)"
    and is_revoked: "okr r \<Longrightarrow>
      answers okr view (\<lambda>v. v_revocations v n \<noteq> None) (\<lambda>v. v) r (IsCertificateRevoked R n r)"
begin

abbreviation able :: "repo_call \<Rightarrow> 'r \<Rightarrow> bool" where
  "able \<equiv> callable view ok_obs ok_event ok_sched ok_rev"

lemma call_view:
  assumes "okr r" "able c r"
  shows "okr (call R c r) \<and> view (call R c r) \<in> {view r, spec_call sha tfmt c (view r)}"
proof (cases c)
  case (CallSave e)
  then show ?thesis using writes_view [OF save [OF assms(1)]] assms(2) by simp
next
  case (CallAppend now ev)
  then show ?thesis using answers_view [OF append_audit [OF assms(1)]] assms(2) by simp
next
  case (CallUpsert s)
  then show ?thesis using writes_view [OF upsert [OF assms(1)]] assms(2) by simp
next
  case (CallDelete x)
  then show ?thesis using writes_view [OF delete [OF assms(1)]] by simp
next
  case (CallRevoke rv)
  then show ?thesis using answers_view [OF revoke [OF assms(1)]] assms(2) by simp
next
  case CallListAudit
  then show ?thesis using answers_view [OF list_audit [OF assms(1)]] by simp
next
  case (CallIsRevoked n)
  then show ?thesis using answers_view [OF is_revoked [OF assms(1)]] by simp
qed

lemma audit_grows:
  "okr r \<Longrightarrow> able c r \<Longrightarrow> prefix (v_audit (view r)) (v_audit (view (call R c r)))"
  using call_view [of r c] spec_call_audit [of "view r" sha tfmt c] by auto

lemma revocation_kept:
  "okr r \<Longrightarrow> able c r \<Longrightarrow> v_revocations (view r) n = Some x \<Longrightarrow>
   v_revocations (view (call R c r)) n = Some x"
  using call_view [of r c] spec_call_revocation [of "view r" n x sha tfmt c] by auto

lemma calls_okr: "calls R able r s \<Longrightarrow> okr r \<Longrightarrow> okr s"
  by (induction rule: calls.induct) (auto dest: call_view)

lemma calls_audit: "calls R able r s \<Longrightarrow> okr r \<Longrightarrow> prefix (v_audit (view r)) (v_audit (view s))"
  by (induction rule: calls.induct) (auto intro: audit_grows calls_okr prefix_order.trans)

lemma calls_revocation:
  "calls R able r s \<Longrightarrow> okr r \<Longrightarrow> v_revocations (view r) n = Some x \<Longrightarrow> v_revocations (view s) n = Some x"
  by (induction rule: calls.induct) (auto intro: revocation_kept calls_okr)

text \<open>What a client can rely on after any sequence of calls.\<close>

lemma calls_audit_verifies:
  assumes "calls R able r s" "okr r" "fst (ListAuditEntries R s) = Inr es"
  shows "VerifyChain sha tfmt es = None"
  using list_audit [OF calls_okr [OF assms(1,2)]] okr_view [OF calls_okr [OF assms(1,2)]] assms(3)
  by (auto simp: contract_defs view_ok_def)

lemma revoked_stays_revoked:
  assumes "okr r" "ok_rev rv" "fst (RevokeCertificate R rv r) = Inr b"
    and "calls R able (snd (RevokeCertificate R rv r)) s"
    and "fst (IsCertificateRevoked R (rv_SerialNumber rv) s) = Inr x"
  shows "x"
proof -
  let ?s = "snd (RevokeCertificate R rv r)" and ?n = "rv_SerialNumber rv"
  have "okr ?s" "v_revocations (view ?s) ?n \<noteq> None"
    using revoke [OF assms(1,2)] assms(3)
    by (auto simp: contract_defs spec_revoke_def split: option.splits)
  then have "okr s" "v_revocations (view s) ?n \<noteq> None"
    using calls_okr [OF assms(4)] calls_revocation [OF assms(4)] by auto
  then show ?thesis using is_revoked [of s ?n] assms(5) by (auto simp: contract_defs)
qed

lemma save_then_list:
  assumes "okr r" "ok_obs e" "fst (SaveObservation R e r) = None"
    and "fst (ListObservations R (snd (SaveObservation R e r))) = Inr es"
  shows "filter (\<lambda>x. ob_ObservationID x = ob_ObservationID e) es = [e]"
proof -
  let ?s = "snd (SaveObservation R e r)"
  have s: "okr ?s" "view ?s = spec_save sha e (view r)"
    using save [OF assms(1,2)] assms(3) by (auto simp: contract_defs)
  then have es: "es = put_observation e (v_observations (view r))"
    using list_observations [of ?s] assms(4) by (auto simp: contract_defs spec_save_def)
  have "distinct (map ob_ObservationID (v_observations (view r)))"
    using okr_view [OF assms(1)] by (simp add: view_ok_def)
  then show ?thesis unfolding es by (rule filter_put_observation)
qed

end

end
