(* ===== verification/Server.thy ===== *)
theory Server
  imports Jobs Repository
begin

text \<open>
  The controller's HTTP API: \<open>internal/controller/server.go\<close> and \<open>schedule.go\<close>. The server is
  modelled over any repository \<open>R\<close>; a handler maps a request and the server state to a response
  and the new state. A request body is what \<open>json.Decoder\<close> made of it: \<open>Inl\<close> the error (also for a
  body beyond its size limit), or the decoded struct. The clock readings, random bytes, fresh
  certificate serial and the success of signing are the \<open>world\<close> of the request.
\<close>

section \<open>State, requests and responses\<close>

record lib =
  lb_sha :: "string \<Rightarrow> string"
  lb_sfmt :: "time \<Rightarrow> string"

record world =
  w_clock :: "nat \<Rightarrow> time"
  w_random :: "string option"
  w_serial :: "nat option"
  w_signs :: bool

record 'r server =
  sv_Store :: 'r
  sv_APIKey :: string
  sv_SourcePrecedence :: "string list"
  sv_CA :: bool
  sv_Tokens :: "token_store option"
  sv_Heartbeats :: heartbeat_store
  sv_Jobs :: job_store
  sv_started :: time

definition New :: "'r \<Rightarrow> string \<Rightarrow> time \<Rightarrow> 'r server" where
  "New repo apiKey now = \<lparr>sv_Store = repo, sv_APIKey = apiKey, sv_SourcePrecedence = [],
     sv_CA = False, sv_Tokens = None,
     sv_Heartbeats = NewHeartbeatStore DefaultHeartbeatStaleAfter, sv_Jobs = NewJobStore,
     sv_started = now\<rparr>"

record peer =
  p_cert :: "certificate option"
  p_auth :: string

record revocation_request =
  rvq_SerialNumber :: string
  rvq_Reason :: string

record schedule_request =
  sq_CollectorID :: string
  sq_Type :: job_type
  sq_IntervalSeconds :: int

datatype request = GetHealth | GetAssets | GetRelationships | GetAudit | GetObservations
  | PostObservation "string + observation" | PostToken "string + token_request"
  | PostEnroll "string + enroll_request" | PostRotate "string + rotate_request"
  | PostRevocation "string + revocation_request" | GetRevocations
  | PostHeartbeat "string + heartbeat_request" | GetCollectors
  | PostJob "string + job_request" | GetJobs string | GetJob string
  | PostJobResult string "string + job_result"
  | PostSchedule "string + schedule_request" | GetSchedules | DeleteScheduleOf string

datatype payload = PError string | PFields "(string \<times> string) list" | PHealth string duration
  | PAssets "resolved_asset list" | PRelationships "resolved_relationship list"
  | PAudit "entry list" | PObservations "observation list" | PToken token_response
  | PEnroll enroll_response | PRevocation certificate_revocation
  | PRevocations "certificate_revocation list" | PCollectors "collector_status list"
  | PJob job | PJobs "job list" | PJobStatus job_status_view | PSchedule schedule
  | PSchedules "schedule list"

datatype response = Response (status: nat) (payload: payload)

fun err_text :: "store_error \<Rightarrow> string" where
  "err_text ErrNotFound = ''not found''"
| "err_text (StoreFailure m) = m"

definition writeError :: "nat \<Rightarrow> string \<Rightarrow> response" where
  "writeError code msg = Response code (PError msg)"

type_synonym 'r handler = "'r server \<Rightarrow> response \<times> 'r server"

section \<open>Identity and authorisation\<close>

definition collectorIdentity :: "string option \<Rightarrow> string \<Rightarrow> string" where
  "collectorIdentity identity fallback = (case identity of Some i \<Rightarrow> i | None \<Rightarrow> fallback)"

definition hasVerifiedCollectorCertificate :: "peer \<Rightarrow> bool" where
  "hasVerifiedCollectorCertificate p \<longleftrightarrow> p_cert p \<noteq> None"

definition bearer :: "string \<Rightarrow> string" where "bearer key = ''Bearer '' @ key"

definition collectorAuth ::
  "'r repository \<Rightarrow> peer \<Rightarrow> (string option \<Rightarrow> 'r handler) \<Rightarrow> 'r handler" where
  "collectorAuth R p next sv =
     (case p_cert p of
        Some cert \<Rightarrow>
          (let (revoked, r) = IsCertificateRevoked R (CertificateSerial cert) (sv_Store sv);
               sv = sv\<lparr>sv_Store := r\<rparr>
           in case revoked of
                Inl err \<Rightarrow> (writeError 503 ''certificate revocation check unavailable'', sv)
              | Inr True \<Rightarrow>
                  (if sv_APIKey sv \<noteq> [] \<and> p_auth p = bearer (sv_APIKey sv) then next None sv
                   else (writeError 401 ''certificate revoked'', sv))
              | Inr False \<Rightarrow> next (Some (crt_CommonName cert)) sv)
      | None \<Rightarrow>
          if sv_APIKey sv \<noteq> [] \<and> p_auth p \<noteq> bearer (sv_APIKey sv)
          then (writeError 401 ''unauthorized'', sv) else next None sv)"

definition adminAuth :: "peer \<Rightarrow> 'r handler \<Rightarrow> 'r handler" where
  "adminAuth p next sv =
     (if sv_APIKey sv = [] then next sv
      else if p_auth p = bearer (sv_APIKey sv) then next sv
      else if hasVerifiedCollectorCertificate p
      then (writeError 403 ''collector certificate is not authorized for administrative endpoints'', sv)
      else (writeError 401 ''unauthorized'', sv))"

definition recordAudit ::
  "'r repository \<Rightarrow> world \<Rightarrow> string \<Rightarrow> string \<Rightarrow> string gomap \<Rightarrow> 'r server \<Rightarrow> 'r server" where
  "recordAudit R w action actor detail sv =
     sv\<lparr>sv_Store := snd (AppendAuditEvent R (w_clock w 2)
          \<lparr>evt_Action = action, evt_Actor = actor, evt_Detail = detail\<rparr> (sv_Store sv))\<rparr>"

definition tokenFingerprint :: "lib \<Rightarrow> string \<Rightarrow> string" where
  "tokenFingerprint L token = hex (take 8 (lb_sha L token))"

text \<open>A read of the repository followed by a response, with 500 for a storage error.\<close>

definition reply_with ::
  "('r \<Rightarrow> (store_error + 'a) \<times> 'r) \<Rightarrow> ('a \<Rightarrow> payload) \<Rightarrow> 'r handler" where
  "reply_with op f sv =
     (let (res, r) = op (sv_Store sv); sv = sv\<lparr>sv_Store := r\<rparr>
      in case res of Inl err \<Rightarrow> (writeError 500 (err_text err), sv) | Inr x \<Rightarrow> (Response 200 (f x), sv))"

section \<open>Reads\<close>

definition health :: "world \<Rightarrow> 'r handler" where
  "health w sv = (Response 200 (PHealth SchemaVersion (w_clock w 0 - sv_started sv)), sv)"

definition assets :: "lib \<Rightarrow> 'r repository \<Rightarrow> 'r handler" where
  "assets L R sv = reply_with (ListAssetClaims R)
     (\<lambda>claims. PAssets (ResolveAssetClaims (lb_sha L) claims (sv_SourcePrecedence sv))) sv"

definition relationships :: "'r repository \<Rightarrow> 'r handler" where
  "relationships R = reply_with (ListRelationships R) PRelationships"

definition auditLog :: "'r repository \<Rightarrow> 'r handler" where
  "auditLog R = reply_with (ListAuditEntries R) PAudit"

definition observations :: "'r repository \<Rightarrow> 'r handler" where
  "observations R = reply_with (ListObservations R) PObservations"

definition listCertificateRevocations :: "'r repository \<Rightarrow> 'r handler" where
  "listCertificateRevocations R = reply_with (ListCertificateRevocations R) PRevocations"

definition listSchedules :: "'r repository \<Rightarrow> 'r handler" where
  "listSchedules R = reply_with (ListSchedules R) PSchedules"

definition collectors :: "world \<Rightarrow> 'r handler" where
  "collectors w sv = (Response 200 (PCollectors (List (w_clock w 0) (sv_Heartbeats sv))), sv)"

definition jobStatus :: "string \<Rightarrow> 'r handler" where
  "jobStatus jid sv = (case Status jid (sv_Jobs sv) of
     Inl _ \<Rightarrow> (writeError 404 ''job not found'', sv)
   | Inr v \<Rightarrow> (Response 200 (PJobStatus v), sv))"

section \<open>Observations\<close>

datatype observation_error = UnsupportedSchema | NoObservationID | NoObservedAt | BadAsset

definition validateObservation :: "observation \<Rightarrow> observation_error option" where
  "validateObservation e =
     (if ob_SchemaVersion e \<noteq> SchemaVersion then Some UnsupportedSchema
      else if trim_space (ob_ObservationID e) = [] then Some NoObservationID
      else if ob_ObservedAt e = zero_time then Some NoObservedAt
      else if list_ex (\<lambda>a. as_Type a = [] \<or> as_NativeID a = []) (ob_Assets e) then Some BadAsset
      else None)"

fun observation_error_text :: "observation_error \<Rightarrow> string" where
  "observation_error_text UnsupportedSchema = ''unsupported schema_version''"
| "observation_error_text NoObservationID = ''observation_id is required''"
| "observation_error_text NoObservedAt = ''observed_at is required''"
| "observation_error_text BadAsset = ''each asset requires type and native_id''"

definition ingest :: "'r repository \<Rightarrow> string + observation \<Rightarrow> string option \<Rightarrow> 'r handler" where
  "ingest R body identity sv =
     (case body of
        Inl err \<Rightarrow> (writeError 400 (''invalid observation: '' @ err), sv)
      | Inr e \<Rightarrow>
          let e = e\<lparr>ob_CollectorID := collectorIdentity identity (ob_CollectorID e)\<rparr>
          in case validateObservation e of
               Some err \<Rightarrow> (writeError 422 (observation_error_text err), sv)
             | None \<Rightarrow>
                 let (res, r) = SaveObservation R e (sv_Store sv); sv = sv\<lparr>sv_Store := r\<rparr>
                 in case res of
                      Some err \<Rightarrow> (writeError 500 (err_text err), sv)
                    | None \<Rightarrow> (Response 202 (PFields [(''observation_id'', ob_ObservationID e),
                                                    (''status'', ''accepted'')]), sv))"

section \<open>Certificate revocation\<close>

definition validRevocationReason :: "string \<Rightarrow> bool" where
  "validRevocationReason reason =
     (if reason = [] \<or> length reason > 512 \<or> trim_space reason \<noteq> reason then False
      else \<not> list_ex is_control (runes reason))"

definition createCertificateRevocation ::
  "'r repository \<Rightarrow> world \<Rightarrow> string + revocation_request \<Rightarrow> 'r handler" where
  "createCertificateRevocation R w body sv =
     (case body of
        Inl err \<Rightarrow> (writeError 400 (''invalid certificate revocation request: '' @ err), sv)
      | Inr req \<Rightarrow>
          (case NormalizeCertificateSerial (rvq_SerialNumber req) of
             Inl _ \<Rightarrow> (writeError 400 ''serial_number must be a non-zero hexadecimal certificate serial'', sv)
           | Inr serial \<Rightarrow>
               if \<not> validRevocationReason (rvq_Reason req)
               then (writeError 400 ''reason must be 1 to 512 bytes'', sv)
               else
                 let revocation = \<lparr>rv_SerialNumber = serial, rv_Reason = rvq_Reason req,
                                   rv_RevokedAt = w_clock w 0\<rparr>;
                     (created, r) = RevokeCertificate R revocation (sv_Store sv);
                     sv = sv\<lparr>sv_Store := r\<rparr>
                 in case created of
                      Inl err \<Rightarrow> (writeError 500 (err_text err), sv)
                    | Inr True \<Rightarrow>
                        (Response 201 (PRevocation revocation),
                         recordAudit R w ''certificate_revoked'' ''api-key''
                           [(''serial_number'', serial), (''reason'', rvq_Reason req)] sv)
                    | Inr False \<Rightarrow>
                        let (items, r) = ListCertificateRevocations R (sv_Store sv);
                            sv = sv\<lparr>sv_Store := r\<rparr>
                        in case items of
                             Inl err \<Rightarrow> (writeError 500 (err_text err), sv)
                           | Inr items \<Rightarrow>
                               (case find (\<lambda>x. rv_SerialNumber x = serial) items of
                                  Some existing \<Rightarrow> (Response 200 (PRevocation existing), sv)
                                | None \<Rightarrow> (writeError 500
                                    ''certificate revocation was not found after idempotent write'', sv))))"

section \<open>Enrollment and rotation\<close>

definition enrollmentTokenTTL :: duration where "enrollmentTokenTTL = hour"

definition createEnrollmentToken ::
  "lib \<Rightarrow> 'r repository \<Rightarrow> world \<Rightarrow> string + token_request \<Rightarrow> 'r handler" where
  "createEnrollmentToken L R w body sv =
     (case sv_Tokens sv of
        None \<Rightarrow> (writeError 501 ''collector enrollment is not enabled'', sv)
      | Some tokens \<Rightarrow>
          if \<not> sv_CA sv then (writeError 501 ''collector enrollment is not enabled'', sv)
          else case body of
            Inl err \<Rightarrow> (writeError 400 (''invalid enrollment token request: '' @ err), sv)
          | Inr req \<Rightarrow>
              if \<not> ValidCollectorID (tq_CollectorID req)
              then (writeError 400 ''collector_id is empty, too long, or contains control characters'', sv)
              else
                let (res, tokens) = Issue (w_random w) (w_clock w 0) (tq_CollectorID req)
                                      enrollmentTokenTTL tokens;
                    sv = sv\<lparr>sv_Tokens := Some tokens\<rparr>
                in case res of
                     Inl _ \<Rightarrow> (writeError 500 ''generate enrollment token'', sv)
                   | Inr (token, expiresAt) \<Rightarrow>
                       (Response 201 (PToken \<lparr>tp_Token = token, tp_CollectorID = tq_CollectorID req,
                          tp_ExpiresAt = expiresAt\<rparr>),
                        recordAudit R w ''enrollment_token_issued'' ''api-key''
                          [(''collector_id'', tq_CollectorID req),
                           (''token_fingerprint'', tokenFingerprint L token),
                           (''expires_at'', lb_sfmt L expiresAt)] sv))"

text \<open>Decoding and checking the CSR of an enrollment or rotation request.\<close>

fun parse_csr :: "csr_input \<Rightarrow> response + string" where
  "parse_csr NotBase64 = Inl (writeError 400 ''csr is not valid base64'')"
| "parse_csr NotCSR = Inl (writeError 400 ''parse certificate signing request'')"
| "parse_csr (CSR key) = Inr key"

definition enroll ::
  "lib \<Rightarrow> 'r repository \<Rightarrow> world \<Rightarrow> string + enroll_request \<Rightarrow> 'r handler" where
  "enroll L R w body sv =
     (case sv_Tokens sv of
        None \<Rightarrow> (writeError 501 ''collector enrollment is not enabled'', sv)
      | Some tokens \<Rightarrow>
          if \<not> sv_CA sv then (writeError 501 ''collector enrollment is not enabled'', sv)
          else case body of
            Inl err \<Rightarrow> (writeError 400 (''invalid enrollment request: '' @ err), sv)
          | Inr req \<Rightarrow>
              if \<not> ValidCollectorID (er_CollectorID req)
              then (writeError 400 ''collector_id is empty, too long, or contains control characters'', sv)
              else case parse_csr (er_CSR req) of
                Inl resp \<Rightarrow> (resp, sv)
              | Inr key \<Rightarrow>
                  let (res, tokens) = Redeem (w_clock w 0) (er_Token req) (er_CollectorID req) tokens;
                      sv = sv\<lparr>sv_Tokens := Some tokens\<rparr>
                  in case res of
                       Some _ \<Rightarrow> (writeError 401
                         ''enrollment token is invalid, expired, or already used'', sv)
                     | None \<Rightarrow>
                         (case Sign (w_serial w) (w_signs w) (w_clock w 1) (er_CollectorID req)
                                 DefaultCertificateTTL of
                            Inl _ \<Rightarrow> (writeError 500 ''sign certificate'', sv)
                          | Inr cert \<Rightarrow>
                              let serial = CertificateSerial cert;
                                  expiresAt = w_clock w 1 + DefaultCertificateTTL
                              in (Response 200 (PEnroll \<lparr>ep_Certificate = cert,
                                    ep_SerialNumber = serial, ep_ExpiresAt = expiresAt\<rparr>),
                                  recordAudit R w ''collector_enrolled'' (er_CollectorID req)
                                    [(''serial_number'', serial),
                                     (''expires_at'', lb_sfmt L expiresAt)] sv)))"

definition rotate ::
  "lib \<Rightarrow> 'r repository \<Rightarrow> world \<Rightarrow> peer \<Rightarrow> string + rotate_request \<Rightarrow> 'r handler" where
  "rotate L R w p body sv =
     (if \<not> sv_CA sv then (writeError 501 ''collector enrollment is not enabled'', sv)
      else case p_cert p of
        None \<Rightarrow> (writeError 401
          ''certificate rotation requires an already-verified client certificate'', sv)
      | Some old \<Rightarrow>
          let collectorID = crt_CommonName old
          in if \<not> ValidCollectorID collectorID
             then (writeError 401 ''peer certificate has an invalid collector ID'', sv)
             else case body of
               Inl err \<Rightarrow> (writeError 400 (''invalid rotation request: '' @ err), sv)
             | Inr req \<Rightarrow>
                 (case parse_csr (rt_CSR req) of
                    Inl resp \<Rightarrow> (resp, sv)
                  | Inr key \<Rightarrow>
                      let oldSerial = CertificateSerial old;
                          (revoked, r) = IsCertificateRevoked R oldSerial (sv_Store sv);
                          sv = sv\<lparr>sv_Store := r\<rparr>
                      in case revoked of
                           Inl _ \<Rightarrow> (writeError 503 ''certificate revocation check unavailable'', sv)
                         | Inr True \<Rightarrow> (writeError 401 ''certificate revoked'', sv)
                         | Inr False \<Rightarrow>
                             (case Sign (w_serial w) (w_signs w) (w_clock w 0) collectorID
                                     DefaultCertificateTTL of
                                Inl _ \<Rightarrow> (writeError 500 ''sign certificate'', sv)
                              | Inr cert \<Rightarrow>
                                  let newSerial = CertificateSerial cert;
                                      expiresAt = w_clock w 1 + DefaultCertificateTTL
                                  in (Response 200 (PEnroll \<lparr>ep_Certificate = cert,
                                        ep_SerialNumber = newSerial, ep_ExpiresAt = expiresAt\<rparr>),
                                      recordAudit R w ''certificate_rotated'' collectorID
                                        [(''previous_serial_number'', oldSerial),
                                         (''serial_number'', newSerial),
                                         (''expires_at'', lb_sfmt L expiresAt)] sv))))"

section \<open>Heartbeats and jobs\<close>

definition bad_id :: "'r server \<Rightarrow> response \<times> 'r server" where
  "bad_id sv = (writeError 400 ''collector_id is empty, too long, or contains control characters'', sv)"

definition heartbeat :: "world \<Rightarrow> string + heartbeat_request \<Rightarrow> string option \<Rightarrow> 'r handler" where
  "heartbeat w body identity sv =
     (case body of
        Inl err \<Rightarrow> (writeError 400 (''invalid heartbeat: '' @ err), sv)
      | Inr req \<Rightarrow>
          if hr_SchemaVersion req \<noteq> SchemaVersion then (writeError 400 ''unsupported schema_version'', sv)
          else
            let collectorID = collectorIdentity identity (hr_CollectorID req)
            in if \<not> ValidCollectorID collectorID then bad_id sv
               else (Response 202 (PFields [(''status'', ''ok'')]),
                     sv\<lparr>sv_Heartbeats := Record (w_clock w 0) collectorID (hr_SiteID req) (sv_Heartbeats sv)\<rparr>))"

definition createJob :: "'r repository \<Rightarrow> world \<Rightarrow> string + job_request \<Rightarrow> 'r handler" where
  "createJob R w body sv =
     (case body of
        Inl err \<Rightarrow> (writeError 400 (''invalid job request: '' @ err), sv)
      | Inr req \<Rightarrow>
          if \<not> ValidCollectorID (jq_CollectorID req) then bad_id sv
          else if jq_Type req \<noteq> JobTypeDiscover then (writeError 400 ''unsupported job type'', sv)
          else
            let (res, jobs) = Enqueue (w_random w) (w_clock w 0) (jq_CollectorID req) (jq_Type req) (sv_Jobs sv);
                sv = sv\<lparr>sv_Jobs := jobs\<rparr>
            in case res of
                 Inl _ \<Rightarrow> (writeError 500 ''generate job id'', sv)
               | Inr job \<Rightarrow>
                   (Response 201 (PJob job),
                    recordAudit R w ''job_created'' ''api-key''
                      [(''collector_id'', jq_CollectorID req), (''job_id'', jb_JobID job),
                       (''job_type'', jq_Type req)] sv))"

definition maybeEnqueueScheduledJob :: "'r repository \<Rightarrow> world \<Rightarrow> string \<Rightarrow> 'r server \<Rightarrow> 'r server" where
  "maybeEnqueueScheduledJob R w collectorID sv =
     (let (found, r) = GetSchedule R collectorID (sv_Store sv); sv = sv\<lparr>sv_Store := r\<rparr>
      in case found of
           Inl _ \<Rightarrow> sv
         | Inr sched \<Rightarrow>
             if sc_NextRunAt sched > w_clock w 0 then sv
             else if HasOutstanding collectorID (sc_JobType sched) (sv_Jobs sv) then sv
             else
               let (res, jobs) = Enqueue (w_random w) (w_clock w 1) collectorID (sc_JobType sched) (sv_Jobs sv);
                   sv = sv\<lparr>sv_Jobs := jobs\<rparr>
               in case res of
                    Inl _ \<Rightarrow> sv
                  | Inr job \<Rightarrow>
                      let sched = sched\<lparr>sc_NextRunAt := w_clock w 2 + sc_IntervalSeconds sched * second,
                                        sc_UpdatedAt := w_clock w 3\<rparr>
                      in sv\<lparr>sv_Store := snd (UpsertSchedule R sched (sv_Store sv))\<rparr>)"

definition pollJobs :: "'r repository \<Rightarrow> world \<Rightarrow> string \<Rightarrow> string option \<Rightarrow> 'r handler" where
  "pollJobs R w queryID identity sv =
     (let collectorID = collectorIdentity identity queryID
      in if \<not> ValidCollectorID collectorID then bad_id sv
         else
           let sv = maybeEnqueueScheduledJob R w collectorID sv;
               (jobs, store) = Poll collectorID (sv_Jobs sv)
           in (Response 200 (PJobs jobs), sv\<lparr>sv_Jobs := store\<rparr>))"

fun job_error_status :: "job_error \<Rightarrow> nat" where
  "job_error_status ErrJobNotFound = 404"
| "job_error_status _ = 400"

definition reportJobResult ::
  "world \<Rightarrow> string \<Rightarrow> string + job_result \<Rightarrow> string option \<Rightarrow> 'r handler" where
  "reportJobResult w jid body identity sv =
     (case body of
        Inl err \<Rightarrow> (writeError 400 (''invalid job result: '' @ err), sv)
      | Inr req \<Rightarrow>
          let collectorID = collectorIdentity identity (jr_CollectorID req)
          in if \<not> ValidCollectorID collectorID then bad_id sv
             else
               let (res, jobs) = Result (w_clock w 0) jid collectorID req (sv_Jobs sv);
                   sv = sv\<lparr>sv_Jobs := jobs\<rparr>
               in case res of
                    Some err \<Rightarrow> (writeError (job_error_status err) ''job result refused'', sv)
                  | None \<Rightarrow> (Response 200 (PFields [(''status'', ''ok'')]), sv))"

section \<open>Schedules\<close>

definition minScheduleIntervalSeconds :: int where "minScheduleIntervalSeconds = 60"
definition maxScheduleIntervalSeconds :: int where "maxScheduleIntervalSeconds = 7 * 24 * 60 * 60"

definition createOrUpdateSchedule ::
  "'r repository \<Rightarrow> world \<Rightarrow> string + schedule_request \<Rightarrow> 'r handler" where
  "createOrUpdateSchedule R w body sv =
     (case body of
        Inl err \<Rightarrow> (writeError 400 (''invalid schedule request: '' @ err), sv)
      | Inr req \<Rightarrow>
          if \<not> ValidCollectorID (sq_CollectorID req) then bad_id sv
          else
            let ty = (if sq_Type req = [] then JobTypeDiscover else sq_Type req)
            in if ty \<noteq> JobTypeDiscover then (writeError 400 ''unsupported job type'', sv)
               else if sq_IntervalSeconds req < minScheduleIntervalSeconds
                    \<or> sq_IntervalSeconds req > maxScheduleIntervalSeconds
               then (writeError 400 ''interval_seconds is out of range'', sv)
               else
                 let now = w_clock w 0;
                     sched = \<lparr>sc_CollectorID = sq_CollectorID req, sc_JobType = ty,
                       sc_IntervalSeconds = sq_IntervalSeconds req, sc_NextRunAt = now,
                       sc_CreatedAt = now, sc_UpdatedAt = now\<rparr>;
                     (found, r) = GetSchedule R (sq_CollectorID req) (sv_Store sv);
                     (sched, action) = (case found of
                         Inr existing \<Rightarrow> (sched\<lparr>sc_CreatedAt := sc_CreatedAt existing\<rparr>, ''schedule_updated'')
                       | Inl _ \<Rightarrow> (sched, ''schedule_created''));
                     (res, r) = UpsertSchedule R sched r;
                     sv = sv\<lparr>sv_Store := r\<rparr>
                 in case res of
                      Some err \<Rightarrow> (writeError 500 (err_text err), sv)
                    | None \<Rightarrow>
                        (Response 200 (PSchedule sched),
                         recordAudit R w action ''api-key''
                           [(''collector_id'', sc_CollectorID sched), (''job_type'', sc_JobType sched),
                            (''interval_seconds'', dec_int (sc_IntervalSeconds sched))] sv))"

definition deleteSchedule :: "'r repository \<Rightarrow> world \<Rightarrow> string \<Rightarrow> 'r handler" where
  "deleteSchedule R w collectorID sv =
     (if \<not> ValidCollectorID collectorID then bad_id sv
      else
        let (found, r) = GetSchedule R collectorID (sv_Store sv); sv = sv\<lparr>sv_Store := r\<rparr>
        in case found of
             Inl ErrNotFound \<Rightarrow> (writeError 404 ''no schedule for this collector'', sv)
           | Inl err \<Rightarrow> (writeError 500 (err_text err), sv)
           | Inr _ \<Rightarrow>
               let (res, r) = DeleteSchedule R collectorID (sv_Store sv); sv = sv\<lparr>sv_Store := r\<rparr>
               in case res of
                    Some err \<Rightarrow> (writeError 500 (err_text err), sv)
                  | None \<Rightarrow> (Response 200 (PFields [(''status'', ''ok'')]),
                       recordAudit R w ''schedule_deleted'' ''api-key''
                         [(''collector_id'', collectorID)] sv))"

section \<open>The router\<close>

definition Handler :: "lib \<Rightarrow> 'r repository \<Rightarrow> world \<Rightarrow> peer \<Rightarrow> request \<Rightarrow> 'r handler" where
  "Handler L R w p req =
     (case req of
        GetHealth \<Rightarrow> health w
      | GetAssets \<Rightarrow> adminAuth p (assets L R)
      | GetRelationships \<Rightarrow> adminAuth p (relationships R)
      | GetAudit \<Rightarrow> adminAuth p (auditLog R)
      | GetObservations \<Rightarrow> adminAuth p (observations R)
      | PostObservation body \<Rightarrow> collectorAuth R p (ingest R body)
      | PostToken body \<Rightarrow> adminAuth p (createEnrollmentToken L R w body)
      | PostEnroll body \<Rightarrow> enroll L R w body
      | PostRotate body \<Rightarrow> rotate L R w p body
      | PostRevocation body \<Rightarrow> adminAuth p (createCertificateRevocation R w body)
      | GetRevocations \<Rightarrow> adminAuth p (listCertificateRevocations R)
      | PostHeartbeat body \<Rightarrow> collectorAuth R p (heartbeat w body)
      | GetCollectors \<Rightarrow> adminAuth p (collectors w)
      | PostJob body \<Rightarrow> adminAuth p (createJob R w body)
      | GetJobs cid \<Rightarrow> collectorAuth R p (pollJobs R w cid)
      | GetJob jid \<Rightarrow> adminAuth p (jobStatus jid)
      | PostJobResult jid body \<Rightarrow> collectorAuth R p (reportJobResult w jid body)
      | PostSchedule body \<Rightarrow> adminAuth p (createOrUpdateSchedule R w body)
      | GetSchedules \<Rightarrow> adminAuth p (listSchedules R)
      | DeleteScheduleOf cid \<Rightarrow> adminAuth p (deleteSchedule R w cid))"

text \<open>Requests served one after the other; the store and the queues serialise them.\<close>

inductive serves ::
  "lib \<Rightarrow> 'r repository \<Rightarrow> (world \<Rightarrow> peer \<Rightarrow> request \<Rightarrow> 'r server \<Rightarrow> bool) \<Rightarrow> 'r server \<Rightarrow> 'r server \<Rightarrow> bool"
  for L R legal where
  serves_none: "serves L R legal sv sv"
| serves_one: "serves L R legal sv sv' \<Longrightarrow> legal w p req sv' \<Longrightarrow>
     serves L R legal sv (snd (Handler L R w p req sv'))"

end
