(* ===== verification/Sqlite_Store.thy ===== *)
theory Sqlite_Store
  imports Repository Json_Codec
begin

text \<open>
  The SQLite backend, \<open>internal/store/sqlite/sqlite.go\<close>. A table is an association list in
  \<open>rowid\<close> order, keyed by its primary key; the single connection makes each method run alone.
  Every statement the driver executes may fail: the database state carries a list of verdicts
  (\<open>True\<close> is a failure) consumed one per statement, so that the methods are total functions and
  every error path of the code is reachable. A transaction that does not commit leaves the tables
  as they were. \<open>Result.RowsAffected\<close> is taken not to fail: the driver has the count when a statement returns.
\<close>

section \<open>Rows and tables\<close>

record observation_row =
  tr_envelope :: json
  tr_observed_at :: string
  tr_received_at :: string

record resolved_row =
  tr_json :: json
  tr_first :: string
  tr_last :: string

record claim_row =
  tc_asset :: json
  tc_site :: string
  tc_collector :: string
  tc_plugin :: string
  tc_first_id :: string
  tc_last_id :: string
  tc_first_at :: string
  tc_last_at :: string

record audit_row =
  ta_recorded_at :: string
  ta_action :: string
  ta_actor :: string
  ta_detail :: json
  ta_prev_hash :: string
  ta_hash :: string

record schedule_row =
  ts_job_type :: string
  ts_interval :: int
  ts_next_run :: string
  ts_created :: string
  ts_updated :: string

record revocation_row =
  tv_reason :: string
  tv_revoked_at :: string

record tables =
  t_version :: int
  t_migrated :: "int list"
  t_observations :: "(string \<times> observation_row) list"
  t_assets :: "(string \<times> resolved_row) list"
  t_relationships :: "(string \<times> resolved_row) list"
  t_claims :: "((string \<times> string) \<times> claim_row) list"
  t_audit :: "(int \<times> audit_row) list"
  t_schedules :: "(string \<times> schedule_row) list"
  t_revocations :: "(string \<times> revocation_row) list"

record db =
  db_tables :: tables
  db_faults :: "bool list"
  db_now :: string

type_synonym 'a query = "db \<Rightarrow> (store_error + 'a) \<times> db"

section \<open>Statements and transactions\<close>

text \<open>One statement: it fails with the code's message, or runs on the tables.\<close>

definition stmt :: "string \<Rightarrow> (tables \<Rightarrow> (string + 'a) \<times> tables) \<Rightarrow> 'a query" where
  "stmt msg f d =
     (let fails = (case db_faults d of [] \<Rightarrow> False | b # _ \<Rightarrow> b);
          d = d\<lparr>db_faults := tl (db_faults d)\<rparr>
      in if fails then (Inl (StoreFailure msg), d)
         else (case f (db_tables d) of
                 (Inl _, _) \<Rightarrow> (Inl (StoreFailure msg), d)
               | (Inr x, t) \<Rightarrow> (Inr x, d\<lparr>db_tables := t\<rparr>)))"

definition exec :: "string \<Rightarrow> (tables \<Rightarrow> tables) \<Rightarrow> unit query" where
  "exec msg f = stmt msg (\<lambda>t. (Inr (), f t))"

definition select :: "string \<Rightarrow> (tables \<Rightarrow> 'a) \<Rightarrow> 'a query" where
  "select msg f = stmt msg (\<lambda>t. (Inr (f t), t))"

definition return :: "'a \<Rightarrow> 'a query" where "return x d = (Inr x, d)"
definition fail :: "string \<Rightarrow> 'a query" where "fail msg d = (Inl (StoreFailure msg), d)"

definition andThen :: "'a query \<Rightarrow> ('a \<Rightarrow> 'b query) \<Rightarrow> 'b query" where
  "andThen q f d = (case q d of (Inl err, d) \<Rightarrow> (Inl err, d) | (Inr x, d) \<Rightarrow> f x d)"

fun forEach :: "('a \<Rightarrow> unit query) \<Rightarrow> 'a list \<Rightarrow> unit query" where
  "forEach f [] = return ()"
| "forEach f (x # xs) = andThen (f x) (\<lambda>_. forEach f xs)"

definition in_tx :: "string \<Rightarrow> string \<Rightarrow> 'a query \<Rightarrow> 'a query" where
  "in_tx begin_msg commit_msg body d =
     (case exec begin_msg (\<lambda>t. t) d of
        (Inl err, d1) \<Rightarrow> (Inl err, d1)
      | (Inr _, d1) \<Rightarrow>
          (case andThen body (\<lambda>x. andThen (exec commit_msg (\<lambda>t. t)) (\<lambda>_. return x)) d1 of
             (Inl err, d2) \<Rightarrow> (Inl err, d2\<lparr>db_tables := db_tables d1\<rparr>)
           | (Inr x, d2) \<Rightarrow> (Inr x, d2)))"

text \<open>Decoding a value read from a row, with the error the code wraps it in.\<close>

definition decode :: "string \<Rightarrow> 'a option \<Rightarrow> 'a query" where
  "decode msg v = (case v of None \<Rightarrow> fail msg | Some x \<Rightarrow> return x)"

fun decode_rows :: "('row \<Rightarrow> 'a query) \<Rightarrow> 'row list \<Rightarrow> 'a list query" where
  "decode_rows f [] = return []"
| "decode_rows f (r # rs) = andThen (f r) (\<lambda>x. andThen (decode_rows f rs) (\<lambda>xs. return (x # xs)))"

section \<open>Saving an observation\<close>

definition insertClaim ::
  "(time \<Rightarrow> string) \<Rightarrow> observation \<Rightarrow> string \<times> string \<Rightarrow> json \<Rightarrow> unit query" where
  "insertClaim tfmt e key assetJSON =
     exec ''insert asset claim'' (\<lambda>t. t\<lparr>t_claims := t_claims t @ [(key,
       \<lparr>tc_asset = assetJSON, tc_site = ob_SiteID e, tc_collector = ob_CollectorID e,
        tc_plugin = ob_Plugin e, tc_first_id = ob_ObservationID e,
        tc_last_id = ob_ObservationID e, tc_first_at = tfmt (ob_ObservedAt e),
        tc_last_at = tfmt (ob_ObservedAt e)\<rparr>)]\<rparr>)"

definition merged_row ::
  "(time \<Rightarrow> string) \<Rightarrow> observation \<Rightarrow> json \<Rightarrow> time \<Rightarrow> time \<Rightarrow> claim_row \<Rightarrow> claim_row" where
  "merged_row tfmt e assetJSON firstObserved lastObserved row =
     (let observed = ob_ObservedAt e;
          (firstObserved, firstID) = (if observed < firstObserved
            then (observed, ob_ObservationID e) else (firstObserved, tc_first_id row));
          (lastObserved, lastID, currentJSON) = (if \<not> observed < lastObserved
            then (observed, ob_ObservationID e, assetJSON)
            else (lastObserved, tc_last_id row, tc_asset row))
      in row\<lparr>tc_asset := currentJSON, tc_first_id := firstID, tc_last_id := lastID,
             tc_first_at := tfmt firstObserved, tc_last_at := tfmt lastObserved\<rparr>)"

definition updateClaim ::
  "(time \<Rightarrow> string) \<Rightarrow> (string \<Rightarrow> time option) \<Rightarrow> observation \<Rightarrow> string \<times> string \<Rightarrow> json \<Rightarrow>
   claim_row \<Rightarrow> unit query" where
  "updateClaim tfmt tparse e key assetJSON row =
     andThen (decode ''decode asset claim first_observed_at'' (tparse (tc_first_at row)))
       (\<lambda>firstObserved.
     andThen (decode ''decode asset claim last_observed_at'' (tparse (tc_last_at row)))
       (\<lambda>lastObserved.
     exec ''update asset claim'' (\<lambda>t. t\<lparr>t_claims := AList.update key
       (merged_row tfmt e assetJSON firstObserved lastObserved row) (t_claims t)\<rparr>)))"

definition saveAssetClaim ::
  "(string \<Rightarrow> string) \<Rightarrow> (time \<Rightarrow> string) \<Rightarrow> (string \<Rightarrow> time option) \<Rightarrow> observation \<Rightarrow> string \<Rightarrow> json \<Rightarrow>
   unit query" where
  "saveAssetClaim sha tfmt tparse e assetID assetJSON =
     (let key = (assetID, AssetSourceKey sha (ob_SiteID e) (ob_CollectorID e) (ob_Plugin e))
      in andThen (select ''read asset claim'' (\<lambda>t. map_of (t_claims t) key))
        (\<lambda>row. case row of
           None \<Rightarrow> insertClaim tfmt e key assetJSON
         | Some r \<Rightarrow> updateClaim tfmt tparse e key assetJSON r))"

definition upsert_resolved :: "string \<Rightarrow> json \<Rightarrow> string \<Rightarrow> (string \<times> resolved_row) list \<Rightarrow>
    (string \<times> resolved_row) list" where
  "upsert_resolved k j oid rows =
     (case map_of rows k of
        None \<Rightarrow> rows @ [(k, \<lparr>tr_json = j, tr_first = oid, tr_last = oid\<rparr>)]
      | Some row \<Rightarrow> AList.update k (row\<lparr>tr_json := j, tr_last := oid\<rparr>) rows)"

definition saveAsset ::
  "(string \<Rightarrow> string) \<Rightarrow> (time \<Rightarrow> string) \<Rightarrow> (string \<Rightarrow> time option) \<Rightarrow> observation \<Rightarrow> asset \<Rightarrow> unit query"
  where
  "saveAsset sha tfmt tparse e a =
     (let aid = StableAssetID sha a; assetJSON = enc_asset tfmt a
      in andThen (exec ''save asset'' (\<lambda>t. t\<lparr>t_assets :=
           upsert_resolved aid assetJSON (ob_ObservationID e) (t_assets t)\<rparr>))
         (\<lambda>_. saveAssetClaim sha tfmt tparse e aid assetJSON))"

definition saveRelationship ::
  "(string \<Rightarrow> string) \<Rightarrow> (time \<Rightarrow> string) \<Rightarrow> observation \<Rightarrow> relationship \<Rightarrow> unit query" where
  "saveRelationship sha tfmt e r =
     exec ''save relationship'' (\<lambda>t. t\<lparr>t_relationships :=
       upsert_resolved (StableRelationshipID sha r) (enc_relationship tfmt r) (ob_ObservationID e)
         (t_relationships t)\<rparr>)"

definition upsert_observation ::
  "(time \<Rightarrow> string) \<Rightarrow> string \<Rightarrow> observation \<Rightarrow> (string \<times> observation_row) list \<Rightarrow>
   (string \<times> observation_row) list" where
  "upsert_observation tfmt now e rows =
     (case map_of rows (ob_ObservationID e) of
        None \<Rightarrow> rows @ [(ob_ObservationID e, \<lparr>tr_envelope = enc_observation tfmt e,
                    tr_observed_at = tfmt (ob_ObservedAt e), tr_received_at = now\<rparr>)]
      | Some row \<Rightarrow> AList.update (ob_ObservationID e)
                    (row\<lparr>tr_envelope := enc_observation tfmt e,
                         tr_observed_at := tfmt (ob_ObservedAt e)\<rparr>) rows)"

definition sqlSaveObservation ::
  "(string \<Rightarrow> string) \<Rightarrow> (time \<Rightarrow> string) \<Rightarrow> (string \<Rightarrow> time option) \<Rightarrow> observation \<Rightarrow> db \<Rightarrow>
   store_error option \<times> db" where
  "sqlSaveObservation sha tfmt tparse e d =
     (case in_tx ''begin save observation'' ''commit save observation''
        (andThen (exec ''save observation'' (\<lambda>t. t\<lparr>t_observations :=
             upsert_observation tfmt (db_now d) e (t_observations t)\<rparr>)) (\<lambda>_.
         andThen (forEach (saveAsset sha tfmt tparse e) (ob_Assets e)) (\<lambda>_.
         forEach (saveRelationship sha tfmt e) (ob_Relationships e)))) d of
        (Inl err, d) \<Rightarrow> (Some err, d) | (Inr _, d) \<Rightarrow> (None, d))"

section \<open>Listing\<close>

definition order_by :: "('k :: linorder \<times> 'row) list \<Rightarrow> ('k \<times> 'row) list" where
  "order_by rows = sort_slice (\<lambda>a b. fst a < fst b) rows"

definition read_observation :: "(string \<Rightarrow> time option) \<Rightarrow> string \<times> observation_row \<Rightarrow> observation query" where
  "read_observation tparse r =
     decode ''decode observation'' (dec_observation tparse (tr_envelope (snd r)))"

definition sqlListObservations :: "(string \<Rightarrow> time option) \<Rightarrow> db \<Rightarrow> (store_error + observation list) \<times> db" where
  "sqlListObservations tparse =
     andThen (select ''list observations'' t_observations)
       (decode_rows (read_observation tparse))"

definition read_claim :: "(string \<Rightarrow> time option) \<Rightarrow> (string \<times> string) \<times> claim_row \<Rightarrow> asset_claim query" where
  "read_claim tparse r = (let ((aid, k), row) = r in
     andThen (decode ''decode asset claim first_observed_at'' (tparse (tc_first_at row))) (\<lambda>f.
     andThen (decode ''decode asset claim last_observed_at'' (tparse (tc_last_at row))) (\<lambda>l.
     andThen (decode ''decode asset claim'' (dec_asset tparse (tc_asset row))) (\<lambda>a.
     return \<lparr>cl_AssetID = aid, cl_Asset = a, cl_Source =
       \<lparr>src_SiteID = tc_site row, src_CollectorID = tc_collector row, src_Plugin = tc_plugin row,
        src_FirstObservationID = tc_first_id row, src_LastObservationID = tc_last_id row,
        src_FirstObservedAt = f, src_LastObservedAt = l, src_PrecedenceRank = 0,
        src_ExplicitPrecedence = False\<rparr>\<rparr>))))"

definition sqlListAssetClaims :: "(string \<Rightarrow> time option) \<Rightarrow> db \<Rightarrow> (store_error + asset_claim list) \<times> db" where
  "sqlListAssetClaims tparse =
     andThen (select ''list asset claims'' (\<lambda>t. order_by (t_claims t))) (decode_rows (read_claim tparse))"

definition sqlListAssets ::
  "(string \<Rightarrow> string) \<Rightarrow> (string \<Rightarrow> time option) \<Rightarrow> db \<Rightarrow> (store_error + resolved_asset list) \<times> db" where
  "sqlListAssets sha tparse =
     andThen (sqlListAssetClaims tparse) (\<lambda>claims. return (ResolveAssetClaims sha claims []))"

definition read_relationship :: "(string \<Rightarrow> time option) \<Rightarrow> string \<times> resolved_row \<Rightarrow> resolved_relationship query" where
  "read_relationship tparse r = (let (rid, row) = r in
     andThen (decode ''decode relationship'' (dec_relationship tparse (tr_json row))) (\<lambda>rel.
     return \<lparr>rr_ID = rid, rr_Relationship = rel, rr_FirstObservationID = tr_first row,
             rr_LastObservationID = tr_last row\<rparr>))"

definition sqlListRelationships ::
  "(string \<Rightarrow> time option) \<Rightarrow> db \<Rightarrow> (store_error + resolved_relationship list) \<times> db" where
  "sqlListRelationships tparse =
     andThen (select ''list relationships'' (\<lambda>t. order_by (t_relationships t)))
       (decode_rows (read_relationship tparse))"

section \<open>The audit log\<close>

definition sqlAppendAuditEvent ::
  "(string \<Rightarrow> string) \<Rightarrow> (time \<Rightarrow> string) \<Rightarrow> time \<Rightarrow> event \<Rightarrow> db \<Rightarrow> (store_error + entry) \<times> db" where
  "sqlAppendAuditEvent sha tfmt now e =
     in_tx ''begin append audit event'' ''commit audit entry''
       (andThen (select ''read last audit entry'' (\<lambda>t. rev (order_by (t_audit t)))) (\<lambda>rows.
          let (lastSeq, prevHash) =
                (case rows of [] \<Rightarrow> (0, []) | (s, row) # _ \<Rightarrow> (s, ta_hash row));
              ent = Chain sha tfmt prevHash (lastSeq + 1) now e
          in andThen (stmt ''save audit entry'' (\<lambda>t.
               if en_Sequence ent \<in> fst ` set (t_audit t)
                  \<or> en_Hash ent \<in> (ta_hash \<circ> snd) ` set (t_audit t)
               then (Inl ''UNIQUE constraint failed'', t)
               else (Inr (), t\<lparr>t_audit := t_audit t @ [(en_Sequence ent,
                 \<lparr>ta_recorded_at = tfmt (en_RecordedAt ent), ta_action = en_Action ent,
                  ta_actor = en_Actor ent, ta_detail = enc_gomap enc_string (evt_Detail e),
                  ta_prev_hash = en_PrevHash ent, ta_hash = en_Hash ent\<rparr>)]\<rparr>)))
             (\<lambda>_. return ent)))"

definition read_audit :: "(string \<Rightarrow> time option) \<Rightarrow> int \<times> audit_row \<Rightarrow> entry query" where
  "read_audit tparse r = (let (s, row) = r in
     andThen (decode ''decode audit entry recorded_at'' (tparse (ta_recorded_at row))) (\<lambda>t.
     andThen (decode ''decode audit entry detail'' (dec_gomap dec_string (ta_detail row))) (\<lambda>d.
     return \<lparr>en_Sequence = s, en_RecordedAt = t, en_Action = ta_action row, en_Actor = ta_actor row,
             en_Detail = d, en_PrevHash = ta_prev_hash row, en_Hash = ta_hash row\<rparr>)))"

definition sqlListAuditEntries :: "(string \<Rightarrow> time option) \<Rightarrow> db \<Rightarrow> (store_error + entry list) \<times> db" where
  "sqlListAuditEntries tparse =
     andThen (select ''list audit entries'' (\<lambda>t. order_by (t_audit t))) (decode_rows (read_audit tparse))"

section \<open>Schedules\<close>

definition sqlUpsertSchedule :: "(time \<Rightarrow> string) \<Rightarrow> schedule \<Rightarrow> db \<Rightarrow> store_error option \<times> db" where
  "sqlUpsertSchedule tfmt s d =
     (let new = \<lparr>ts_job_type = sc_JobType s, ts_interval = sc_IntervalSeconds s,
                 ts_next_run = tfmt (sc_NextRunAt s), ts_created = tfmt (sc_CreatedAt s),
                 ts_updated = tfmt (sc_UpdatedAt s)\<rparr>
      in case exec ''upsert schedule'' (\<lambda>t. t\<lparr>t_schedules :=
           (case map_of (t_schedules t) (sc_CollectorID s) of
              None \<Rightarrow> t_schedules t @ [(sc_CollectorID s, new)]
            | Some old \<Rightarrow> AList.update (sc_CollectorID s) (new\<lparr>ts_created := ts_created old\<rparr>)
                            (t_schedules t))\<rparr>) d of
           (Inl err, d) \<Rightarrow> (Some err, d) | (Inr _, d) \<Rightarrow> (None, d))"

definition scanSchedule :: "(string \<Rightarrow> time option) \<Rightarrow> string \<times> schedule_row \<Rightarrow> schedule query" where
  "scanSchedule tparse r = (let (c, row) = r in
     andThen (decode ''decode next_run_at'' (tparse (ts_next_run row))) (\<lambda>n.
     andThen (decode ''decode created_at'' (tparse (ts_created row))) (\<lambda>cr.
     andThen (decode ''decode updated_at'' (tparse (ts_updated row))) (\<lambda>u.
     return \<lparr>sc_CollectorID = c, sc_JobType = ts_job_type row, sc_IntervalSeconds = ts_interval row,
             sc_NextRunAt = n, sc_CreatedAt = cr, sc_UpdatedAt = u\<rparr>))))"

definition sqlListSchedules :: "(string \<Rightarrow> time option) \<Rightarrow> db \<Rightarrow> (store_error + schedule list) \<times> db" where
  "sqlListSchedules tparse =
     andThen (select ''list schedules'' (\<lambda>t. order_by (t_schedules t))) (decode_rows (scanSchedule tparse))"

definition sqlGetSchedule ::
  "(string \<Rightarrow> time option) \<Rightarrow> string \<Rightarrow> db \<Rightarrow> (store_error + schedule) \<times> db" where
  "sqlGetSchedule tparse collectorID d =
     (case select ''get schedule'' (\<lambda>t. map_of (t_schedules t) collectorID) d of
        (Inl err, d) \<Rightarrow> (Inl err, d)
      | (Inr None, d) \<Rightarrow> (Inl ErrNotFound, d)
      | (Inr (Some row), d) \<Rightarrow> scanSchedule tparse (collectorID, row) d)"

definition sqlDeleteSchedule :: "string \<Rightarrow> db \<Rightarrow> store_error option \<times> db" where
  "sqlDeleteSchedule collectorID d =
     (case exec ''delete schedule'' (\<lambda>t. t\<lparr>t_schedules := AList.delete collectorID (t_schedules t)\<rparr>) d of
        (Inl err, d) \<Rightarrow> (Some err, d) | (Inr _, d) \<Rightarrow> (None, d))"

section \<open>Revocations\<close>

definition sqlRevokeCertificate ::
  "(time \<Rightarrow> string) \<Rightarrow> certificate_revocation \<Rightarrow> db \<Rightarrow> (store_error + bool) \<times> db" where
  "sqlRevokeCertificate tfmt rv =
     andThen (stmt ''revoke certificate'' (\<lambda>t.
        (case map_of (t_revocations t) (rv_SerialNumber rv) of
           Some _ \<Rightarrow> (Inr (0 :: int), t)
         | None \<Rightarrow> (Inr 1, t\<lparr>t_revocations := t_revocations t @ [(rv_SerialNumber rv,
             \<lparr>tv_reason = rv_Reason rv, tv_revoked_at = tfmt (rv_RevokedAt rv)\<rparr>)]\<rparr>))))
       (\<lambda>rows. return (rows = 1))"

definition read_revocation :: "(string \<Rightarrow> time option) \<Rightarrow> string \<times> revocation_row \<Rightarrow> certificate_revocation query" where
  "read_revocation tparse r = (let (n, row) = r in
     andThen (decode ''decode certificate revocation revoked_at'' (tparse (tv_revoked_at row))) (\<lambda>t.
     return \<lparr>rv_SerialNumber = n, rv_Reason = tv_reason row, rv_RevokedAt = t\<rparr>))"

definition sqlListCertificateRevocations ::
  "(string \<Rightarrow> time option) \<Rightarrow> db \<Rightarrow> (store_error + certificate_revocation list) \<times> db" where
  "sqlListCertificateRevocations tparse =
     andThen (select ''list certificate revocations'' (\<lambda>t. order_by (t_revocations t)))
       (decode_rows (read_revocation tparse))"

definition sqlIsCertificateRevoked :: "string \<Rightarrow> db \<Rightarrow> (store_error + bool) \<times> db" where
  "sqlIsCertificateRevoked serial =
     select ''check certificate revocation'' (\<lambda>t. map_of (t_revocations t) serial \<noteq> None)"

definition Sqlite ::
  "(string \<Rightarrow> string) \<Rightarrow> (time \<Rightarrow> string) \<Rightarrow> (string \<Rightarrow> time option) \<Rightarrow> db repository" where
  "Sqlite sha tfmt tparse =
     \<lparr>SaveObservation = sqlSaveObservation sha tfmt tparse,
      ListObservations = sqlListObservations tparse,
      ListAssetClaims = sqlListAssetClaims tparse, ListAssets = sqlListAssets sha tparse,
      ListRelationships = sqlListRelationships tparse,
      AppendAuditEvent = sqlAppendAuditEvent sha tfmt,
      ListAuditEntries = sqlListAuditEntries tparse, UpsertSchedule = sqlUpsertSchedule tfmt,
      ListSchedules = sqlListSchedules tparse, GetSchedule = sqlGetSchedule tparse,
      DeleteSchedule = sqlDeleteSchedule, RevokeCertificate = sqlRevokeCertificate tfmt,
      ListCertificateRevocations = sqlListCertificateRevocations tparse,
      IsCertificateRevoked = sqlIsCertificateRevoked\<rparr>"

section \<open>Schema migration\<close>

definition schemaVersion :: int where "schemaVersion = 5"

definition migration_versions :: "int list" where "migration_versions = [1, 2, 3, 4, 5]"

text \<open>Running a migration script creates its tables; a table that already exists is an error.\<close>

definition run_migration :: "int \<Rightarrow> unit query" where
  "run_migration v = stmt ''apply schema migration'' (\<lambda>t.
     if v \<in> set (t_migrated t) then (Inl ''table already exists'', t)
     else (Inr (), t\<lparr>t_migrated := t_migrated t @ [v]\<rparr>))"

definition backfillAssetClaims ::
  "(string \<Rightarrow> string) \<Rightarrow> (time \<Rightarrow> string) \<Rightarrow> (string \<Rightarrow> time option) \<Rightarrow> unit query" where
  "backfillAssetClaims sha tfmt tparse =
     andThen (select ''list observations'' t_observations) (\<lambda>rows.
     andThen (decode_rows (read_observation tparse) rows) (\<lambda>envelopes.
     forEach (\<lambda>e. forEach (\<lambda>a. saveAssetClaim sha tfmt tparse e (StableAssetID sha a)
                (enc_asset tfmt a)) (ob_Assets e)) envelopes))"

definition migrate_to ::
  "(string \<Rightarrow> string) \<Rightarrow> (time \<Rightarrow> string) \<Rightarrow> (string \<Rightarrow> time option) \<Rightarrow> int \<Rightarrow> unit query" where
  "migrate_to sha tfmt tparse v =
     (if v \<notin> set migration_versions then fail ''schema migration is missing''
      else andThen (run_migration v) (\<lambda>_.
           andThen (if v = 5 then backfillAssetClaims sha tfmt tparse else return ()) (\<lambda>_.
           exec ''set schema version'' (\<lambda>t. t\<lparr>t_version := v\<rparr>))))"

definition migrate ::
  "(string \<Rightarrow> string) \<Rightarrow> (time \<Rightarrow> string) \<Rightarrow> (string \<Rightarrow> time option) \<Rightarrow> unit query" where
  "migrate sha tfmt tparse =
     andThen (select ''read schema version'' t_version) (\<lambda>version.
       if version > schemaVersion then fail ''database schema version is newer than this binary supports''
       else if version = schemaVersion then return ()
       else in_tx ''begin schema migration'' ''commit schema migration''
              (forEach (migrate_to sha tfmt tparse) [version + 1..schemaVersion]))"

end
