(* ===== verification/Sqlite_Contract.thy ===== *)
theory Sqlite_Contract
  imports Sqlite_Store
begin

text \<open>
  The SQLite store discharges the repository contract. Queries are reasoned about by triples over
  the tables; a failed statement changes no table and a failed transaction is rolled back, so a
  method either has its abstract effect or none, whatever statement fails.
\<close>

section \<open>Reasoning about queries\<close>

definition hoare :: "(tables \<Rightarrow> bool) \<Rightarrow> 'a query \<Rightarrow> ('a \<Rightarrow> tables \<Rightarrow> bool) \<Rightarrow> bool" where
  "hoare P q Q \<longleftrightarrow>
     (\<forall>d x d'. P (db_tables d) \<longrightarrow> q d = (Inr x, d') \<longrightarrow> Q x (db_tables d'))"

definition keeps :: "'a query \<Rightarrow> bool" where
  "keeps q \<longleftrightarrow> (\<forall>d. db_tables (snd (q d)) = db_tables d)"

definition atomic :: "'a query \<Rightarrow> bool" where
  "atomic q \<longleftrightarrow> (\<forall>d e d'. q d = (Inl e, d') \<longrightarrow> db_tables d' = db_tables d)"

lemma hoareD: "hoare P q Q \<Longrightarrow> P (db_tables d) \<Longrightarrow> q d = (Inr x, d') \<Longrightarrow> Q x (db_tables d')"
  unfolding hoare_def by blast

lemma hoare_weaken: "hoare P q Q \<Longrightarrow> (\<And>t. P' t \<Longrightarrow> P t) \<Longrightarrow> (\<And>x t. Q x t \<Longrightarrow> Q' x t) \<Longrightarrow> hoare P' q Q'"
  unfolding hoare_def by blast

lemma hoare_stmt:
  "(\<And>t x t'. P t \<Longrightarrow> f t = (Inr x, t') \<Longrightarrow> Q x t') \<Longrightarrow> hoare P (stmt msg f) Q"
  by (auto simp: hoare_def stmt_def Let_def split: if_splits sum.splits prod.splits)

lemma hoare_exec: "(\<And>t. P t \<Longrightarrow> Q () (f t)) \<Longrightarrow> hoare P (exec msg f) Q"
  unfolding exec_def by (rule hoare_stmt) auto

lemma hoare_select: "(\<And>t. P t \<Longrightarrow> Q (f t) t) \<Longrightarrow> hoare P (select msg f) Q"
  unfolding select_def by (rule hoare_stmt) auto

lemma hoare_return: "(\<And>t. P t \<Longrightarrow> Q x t) \<Longrightarrow> hoare P (return x) Q"
  by (auto simp: hoare_def return_def)

lemma hoare_fail: "hoare P (fail msg) Q"
  by (auto simp: hoare_def fail_def)

lemma hoare_decode: "(\<And>t x. P t \<Longrightarrow> v = Some x \<Longrightarrow> Q x t) \<Longrightarrow> hoare P (decode msg v) Q"
  by (cases v) (auto simp: decode_def hoare_fail intro: hoare_return)

lemma hoare_andThen:
  assumes "hoare P q M" "\<And>x. hoare (M x) (f x) Q"
  shows "hoare P (andThen q f) Q"
  unfolding hoare_def
proof (intro allI impI)
  fix d y d' assume P: "P (db_tables d)" and run: "andThen q f d = (Inr y, d')"
  then obtain x d1 where "q d = (Inr x, d1)" "f x d1 = (Inr y, d')"
    by (auto simp: andThen_def split: prod.splits sum.splits)
  then show "Q y (db_tables d')" using assms P unfolding hoare_def by blast
qed

lemma hoare_forEach:
  assumes "\<And>x v. x \<in> set xs \<Longrightarrow> hoare (\<lambda>t. I t \<and> w t = v) (f x) (\<lambda>_ t. I t \<and> w t = g x v)"
  shows "hoare (\<lambda>t. I t \<and> w t = v) (forEach f xs) (\<lambda>_ t. I t \<and> w t = fold g xs v)"
  using assms
proof (induction xs arbitrary: v)
  case Nil
  then show ?case by (auto intro: hoare_return)
next
  case (Cons x xs)
  have "hoare (\<lambda>t. I t \<and> w t = v) (f x) (\<lambda>_ t. I t \<and> w t = g x v)"
    using Cons.prems [of x v] by simp
  then show ?case using Cons.IH [of "g x v"] Cons.prems by (auto intro: hoare_andThen)
qed

lemma stmt_fails: "stmt msg f d = (Inl e, d') \<Longrightarrow> db_tables d' = db_tables d"
  by (auto simp: stmt_def Let_def split: if_splits sum.splits prod.splits)

lemma atomic_stmt: "atomic (stmt msg f)" "atomic (exec msg g)" "atomic (select msg h)"
  by (auto simp: atomic_def exec_def select_def dest: stmt_fails)

lemma keeps_basic: "keeps (select msg f)" "keeps (return x)" "keeps (fail msg)" "keeps (decode msg v)"
  by (auto simp: keeps_def select_def stmt_def return_def fail_def decode_def Let_def
    split: option.splits)

lemma keeps_andThen: "keeps q \<Longrightarrow> (\<And>x. keeps (f x)) \<Longrightarrow> keeps (andThen q f)"
  by (auto simp: keeps_def andThen_def split: prod.splits sum.splits) (metis snd_conv)+

lemma keeps_decode_rows: "(\<And>r. keeps (f r)) \<Longrightarrow> keeps (decode_rows f rs)"
  by (induction rs) (simp_all add: keeps_basic keeps_andThen)

lemma atomic_in_tx: "atomic (in_tx b c body)"
  unfolding atomic_def
proof (intro allI impI)
  fix d e d' assume run: "in_tx b c body d = (Inl e, d')"
  obtain r1 d1 where e1: "exec b (\<lambda>t. t) d = (r1, d1)" by (cases "exec b (\<lambda>t. t) d")
  have t1: "db_tables d1 = db_tables d"
    using e1 by (auto simp: exec_def stmt_def Let_def split: if_splits)
  then show "db_tables d' = db_tables d"
    using run e1 by (auto simp: in_tx_def split: sum.splits prod.splits)
qed

lemma hoare_in_tx:
  assumes "hoare P body Q"
  shows "hoare P (in_tx b c body) Q"
  unfolding hoare_def
proof (intro allI impI)
  fix d x d' assume P: "P (db_tables d)" and run: "in_tx b c body d = (Inr x, d')"
  obtain r1 d1 where e1: "exec b (\<lambda>t. t) d = (r1, d1)" by (cases "exec b (\<lambda>t. t) d")
  have "db_tables d1 = db_tables d"
    using e1 by (auto simp: exec_def stmt_def Let_def split: if_splits)
  moreover have "hoare P (andThen body (\<lambda>x. andThen (exec c (\<lambda>t. t)) (\<lambda>_. return x))) Q"
    by (rule hoare_andThen [OF assms], rule hoare_andThen [of _ _ "\<lambda>_. Q x" for x],
      auto intro!: hoare_exec hoare_return)
  moreover have "andThen body (\<lambda>x. andThen (exec c (\<lambda>t. t)) (\<lambda>_. return x)) d1 = (Inr x, d')"
    using run e1 by (auto simp: in_tx_def split: sum.splits prod.splits)
  ultimately show "Q x (db_tables d')" using P hoareD by metis
qed

text \<open>From triples to the contract.\<close>

lemma writes_query:
  assumes "ok (db_tables d)" "atomic q"
    and "hoare (\<lambda>t. ok t \<and> view t = v) q (\<lambda>_ t. ok t \<and> view t = f v)" "v = view (db_tables d)"
    and "out = (case q d of (Inl err, d) \<Rightarrow> (Some err, d) | (Inr _, d) \<Rightarrow> (None, d))"
  shows "writes (\<lambda>d. ok (db_tables d)) (\<lambda>d. view (db_tables d)) f d out"
proof (cases "q d")
  case (Pair r d')
  show ?thesis
  proof (cases r)
    case (Inl err)
    then have "db_tables d' = db_tables d" using Pair assms(2) by (auto simp: atomic_def)
    then show ?thesis using Pair Inl assms(1,5) by (simp add: writes_def)
  next
    case (Inr x)
    then have "ok (db_tables d') \<and> view (db_tables d') = f v"
      using Pair assms(1,3,4) unfolding hoare_def by blast
    then show ?thesis using Pair Inr assms(4,5) by (simp add: writes_def)
  qed
qed

lemma answers_query:
  assumes "ok (db_tables d)" "atomic q"
    and "hoare (\<lambda>t. ok t \<and> view t = v) q (\<lambda>x t. x = g v \<and> ok t \<and> view t = f v)"
    and "v = view (db_tables d)"
  shows "answers (\<lambda>d. ok (db_tables d)) (\<lambda>d. view (db_tables d)) g f d (q d)"
proof (cases "q d")
  case (Pair r d')
  show ?thesis
  proof (cases r)
    case (Inl err)
    then have "db_tables d' = db_tables d" using Pair assms(2) by (auto simp: atomic_def)
    then show ?thesis using Pair Inl assms(1) by (simp add: answers_def)
  next
    case (Inr x)
    then have "x = g v \<and> ok (db_tables d') \<and> view (db_tables d') = f v"
      using Pair assms(1,3,4) unfolding hoare_def by blast
    then show ?thesis using Pair Inr assms(4) by (simp add: answers_def)
  qed
qed

lemma answers_reader:
  assumes "ok (db_tables d)" "keeps q"
    and "\<And>x d'. q d = (Inr x, d') \<Longrightarrow> x = g (view (db_tables d))"
  shows "answers (\<lambda>d. ok (db_tables d)) (\<lambda>d. view (db_tables d)) g (\<lambda>v. v) d (q d)"
proof (cases "q d")
  case (Pair r d')
  then have "db_tables d' = db_tables d" using assms(2) by (metis keeps_def snd_conv)
  then show ?thesis using Pair assms(1,3) by (auto simp: answers_def split: sum.splits)
qed

section \<open>What the rows mean\<close>

definition claim_of :: "(string \<Rightarrow> time option) \<Rightarrow> (string \<times> string) \<times> claim_row \<Rightarrow> asset_claim option" where
  "claim_of tparse r = (let ((aid, k), row) = r in
     case (tparse (tc_first_at row), tparse (tc_last_at row), dec_asset tparse (tc_asset row)) of
       (Some f, Some l, Some a) \<Rightarrow> Some \<lparr>cl_AssetID = aid, cl_Asset = a, cl_Source =
         \<lparr>src_SiteID = tc_site row, src_CollectorID = tc_collector row, src_Plugin = tc_plugin row,
          src_FirstObservationID = tc_first_id row, src_LastObservationID = tc_last_id row,
          src_FirstObservedAt = f, src_LastObservedAt = l, src_PrecedenceRank = 0,
          src_ExplicitPrecedence = False\<rparr>\<rparr>
     | _ \<Rightarrow> None)"

definition relationship_of :: "(string \<Rightarrow> time option) \<Rightarrow> string \<times> resolved_row \<Rightarrow> resolved_relationship option" where
  "relationship_of tparse r = map_option (\<lambda>rel. \<lparr>rr_ID = fst r, rr_Relationship = rel,
     rr_FirstObservationID = tr_first (snd r), rr_LastObservationID = tr_last (snd r)\<rparr>)
     (dec_relationship tparse (tr_json (snd r)))"

definition entry_of :: "(string \<Rightarrow> time option) \<Rightarrow> int \<times> audit_row \<Rightarrow> entry option" where
  "entry_of tparse r = (let (s, row) = r in
     case (tparse (ta_recorded_at row), dec_gomap dec_string (ta_detail row)) of
       (Some t, Some d) \<Rightarrow> Some \<lparr>en_Sequence = s, en_RecordedAt = t, en_Action = ta_action row,
          en_Actor = ta_actor row, en_Detail = d, en_PrevHash = ta_prev_hash row,
          en_Hash = ta_hash row\<rparr>
     | _ \<Rightarrow> None)"

definition schedule_of :: "(string \<Rightarrow> time option) \<Rightarrow> string \<times> schedule_row \<Rightarrow> schedule option" where
  "schedule_of tparse r = (let (c, row) = r in
     case (tparse (ts_next_run row), tparse (ts_created row), tparse (ts_updated row)) of
       (Some n, Some cr, Some u) \<Rightarrow> Some \<lparr>sc_CollectorID = c, sc_JobType = ts_job_type row,
          sc_IntervalSeconds = ts_interval row, sc_NextRunAt = n, sc_CreatedAt = cr,
          sc_UpdatedAt = u\<rparr>
     | _ \<Rightarrow> None)"

definition revocation_of :: "(string \<Rightarrow> time option) \<Rightarrow> string \<times> revocation_row \<Rightarrow> certificate_revocation option" where
  "revocation_of tparse r = map_option (\<lambda>t. \<lparr>rv_SerialNumber = fst r,
     rv_Reason = tv_reason (snd r), rv_RevokedAt = t\<rparr>) (tparse (tv_revoked_at (snd r)))"

definition envelope_of :: "(string \<Rightarrow> time option) \<Rightarrow> string \<times> observation_row \<Rightarrow> observation option" where
  "envelope_of tparse r = dec_observation tparse (tr_envelope (snd r))"

text \<open>The decoded rows of a table as a map.\<close>

definition decoded :: "('k \<times> 'row \<Rightarrow> 'v option) \<Rightarrow> ('k \<times> 'row) list \<Rightarrow> 'k \<rightharpoonup> 'v" where
  "decoded f t k = Option.bind (map_of t k) (\<lambda>row. f (k, row))"

definition sql_view :: "(string \<Rightarrow> time option) \<Rightarrow> tables \<Rightarrow> repo_view" where
  "sql_view tparse t =
     \<lparr>v_observations = map (the \<circ> envelope_of tparse) (t_observations t),
      v_claims = decoded (claim_of tparse) (t_claims t),
      v_relationships = decoded (relationship_of tparse) (t_relationships t),
      v_audit = map (the \<circ> entry_of tparse) (t_audit t),
      v_schedules = decoded (schedule_of tparse) (t_schedules t),
      v_revocations = decoded (revocation_of tparse) (t_revocations t)\<rparr>"

text \<open>A table is readable if its keys are distinct and every row decodes.\<close>

definition readable :: "('k \<times> 'row \<Rightarrow> 'v option) \<Rightarrow> ('k \<times> 'row) list \<Rightarrow> bool" where
  "readable f t \<longleftrightarrow> distinct (map fst t) \<and> (\<forall>r \<in> set t. f r \<noteq> None)"

definition rows_ok :: "(time \<Rightarrow> string) \<Rightarrow> (string \<Rightarrow> time option) \<Rightarrow> tables \<Rightarrow> bool" where
  "rows_ok tfmt tparse t \<longleftrightarrow>
     readable (envelope_of tparse) (t_observations t)
     \<and> (\<forall>r \<in> set (t_observations t). ob_ObservationID (the (envelope_of tparse r)) = fst r)
     \<and> readable (claim_of tparse) (t_claims t)
     \<and> (\<forall>r \<in> set (t_claims t).
          time_ok tfmt tparse (the (tparse (tc_first_at (snd r))))
          \<and> time_ok tfmt tparse (the (tparse (tc_last_at (snd r)))))
     \<and> readable (relationship_of tparse) (t_relationships t)
     \<and> readable (entry_of tparse) (t_audit t) \<and> readable (schedule_of tparse) (t_schedules t)
     \<and> readable (revocation_of tparse) (t_revocations t)"

definition sql_ok ::
  "(string \<Rightarrow> string) \<Rightarrow> (time \<Rightarrow> string) \<Rightarrow> (string \<Rightarrow> time option) \<Rightarrow> tables \<Rightarrow> bool" where
  "sql_ok sha tfmt tparse t \<longleftrightarrow> rows_ok tfmt tparse t \<and> view_ok sha tfmt (sql_view tparse t)"

section \<open>Tables and their decoded maps\<close>

lemma decoded_append:
  "k \<notin> fst ` set t \<Longrightarrow> decoded f (t @ [(k, row)]) = (decoded f t)(k := f (k, row))"
  by (auto simp: decoded_def fun_eq_iff map_add_def map_of_eq_None_iff [THEN iffD2] split: option.splits)

lemma decoded_update:
  "decoded f (AList.update k row t) = (decoded f t)(k := f (k, row))"
  by (auto simp: decoded_def fun_eq_iff)

lemma readable_append:
  "readable f t \<Longrightarrow> k \<notin> fst ` set t \<Longrightarrow> f (k, row) \<noteq> None \<Longrightarrow> readable f (t @ [(k, row)])"
  by (auto simp: readable_def)

lemma set_update: "distinct (map fst t) \<Longrightarrow>
  set (AList.update k v t) = insert (k, v) {r \<in> set t. fst r \<noteq> k}"
  by (induction t) (auto simp: rev_image_eqI)

lemma readable_update: "readable f t \<Longrightarrow> f (k, row) \<noteq> None \<Longrightarrow> readable f (AList.update k row t)"
  by (auto simp: readable_def set_update distinct_update)

lemma readable_delete: "readable f t \<Longrightarrow> readable f (AList.delete k t)"
proof -
  assume "readable f t"
  moreover have "set (AList.delete k t) \<subseteq> set t" by (auto simp: AList.delete_eq)
  ultimately show ?thesis using distinct_delete [of t k] by (auto simp: readable_def)
qed

lemma decoded_None: "readable f t \<Longrightarrow> decoded f t k = None \<longleftrightarrow> k \<notin> fst ` set t"
  by (auto simp: decoded_def readable_def map_of_eq_None_iff bind_eq_None_conv dest: map_of_SomeD)

lemma decoded_row: "readable f t \<Longrightarrow> (k, row) \<in> set t \<Longrightarrow> decoded f t k = f (k, row)"
  by (simp add: decoded_def readable_def)

section \<open>Saving\<close>

text \<open>
  The claims table is readable and the instants in it survive being written again.
\<close>

definition claims_ok :: "(time \<Rightarrow> string) \<Rightarrow> (string \<Rightarrow> time option) \<Rightarrow>
    ((string \<times> string) \<times> claim_row) list \<Rightarrow> bool" where
  "claims_ok tfmt tparse cs \<longleftrightarrow> readable (claim_of tparse) cs \<and> (\<forall>r \<in> set cs.
     time_ok tfmt tparse (the (tparse (tc_first_at (snd r))))
     \<and> time_ok tfmt tparse (the (tparse (tc_last_at (snd r)))))"

definition claims_mean ::
  "(time \<Rightarrow> string) \<Rightarrow> (string \<Rightarrow> time option) \<Rightarrow> tables \<Rightarrow> (string \<times> string \<rightharpoonup> asset_claim) \<Rightarrow> tables \<Rightarrow> bool"
  where
  "claims_mean tfmt tparse u m t \<longleftrightarrow> claims_ok tfmt tparse (t_claims t)
     \<and> t\<lparr>t_claims := [], t_assets := []\<rparr> = u \<and> decoded (claim_of tparse) (t_claims t) = m"

lemma claim_row_merged:
  assumes "claim_of tparse ((aid, k), row) = Some c"
    and "tparse (tc_first_at row) = Some f" "tparse (tc_last_at row) = Some l"
    and "time_ok tfmt tparse f" "time_ok tfmt tparse l"
    and "time_ok tfmt tparse (ob_ObservedAt e)" "valid_asset tfmt tparse a"
  shows "claim_of tparse ((aid, k), merged_row tfmt e (enc_asset tfmt a) f l row) =
      Some (merge_claim e aid a (Some c))"
    "time_ok tfmt tparse (the (tparse (tc_first_at (merged_row tfmt e (enc_asset tfmt a) f l row))))"
    "time_ok tfmt tparse (the (tparse (tc_last_at (merged_row tfmt e (enc_asset tfmt a) f l row))))"
  using assms
  by (auto simp: claim_of_def merged_row_def time_ok_def dec_enc_asset merge_claim_def Let_def
    split: option.splits)

lemma hoare_insertClaim:
  assumes "time_ok tfmt tparse (ob_ObservedAt e)" "valid_asset tfmt tparse a"
  shows "hoare (\<lambda>t. claims_mean tfmt tparse u m t \<and> map_of (t_claims t) (aid, k) = None)
      (insertClaim tfmt e (aid, k) (enc_asset tfmt a))
      (\<lambda>_. claims_mean tfmt tparse u (m((aid, k) \<mapsto> merge_claim e aid a (m (aid, k)))))"
  unfolding insertClaim_def
proof (rule hoare_exec)
  let ?row = "\<lparr>tc_asset = enc_asset tfmt a, tc_site = ob_SiteID e, tc_collector = ob_CollectorID e,
     tc_plugin = ob_Plugin e, tc_first_id = ob_ObservationID e, tc_last_id = ob_ObservationID e,
     tc_first_at = tfmt (ob_ObservedAt e), tc_last_at = tfmt (ob_ObservedAt e)\<rparr>"
  fix t assume t: "claims_mean tfmt tparse u m t \<and> map_of (t_claims t) (aid, k) = None"
  then have notin: "(aid, k) \<notin> fst ` set (t_claims t)" by (metis map_of_eq_None_iff)
  have new: "claim_of tparse ((aid, k), ?row) = Some (merge_claim e aid a None)"
    using assms by (simp add: claim_of_def time_ok_def dec_enc_asset merge_claim_None)
  have r: "readable (claim_of tparse) (t_claims t)" using t by (simp add: claims_mean_def claims_ok_def)
  then have "m (aid, k) = None" using t notin by (auto simp: claims_mean_def decoded_None)
  then show "claims_mean tfmt tparse u (m((aid, k) \<mapsto> merge_claim e aid a (m (aid, k))))
      (t\<lparr>t_claims := t_claims t @ [((aid, k), ?row)]\<rparr>)"
    using t assms(1) new readable_append [OF r notin, of ?row] decoded_append [OF notin, of "claim_of tparse" ?row]
    by (simp add: claims_mean_def claims_ok_def time_ok_def)
qed

lemma hoare_updateClaim:
  assumes "time_ok tfmt tparse (ob_ObservedAt e)" "valid_asset tfmt tparse a"
  shows "hoare (\<lambda>t. claims_mean tfmt tparse u m t \<and> map_of (t_claims t) (aid, k) = Some row)
      (updateClaim tfmt tparse e (aid, k) (enc_asset tfmt a) row)
      (\<lambda>_. claims_mean tfmt tparse u (m((aid, k) \<mapsto> merge_claim e aid a (m (aid, k)))))"
    (is "hoare ?P _ ?Q")
  unfolding updateClaim_def
proof (rule hoare_andThen [where M = "\<lambda>f t. ?P t \<and> tparse (tc_first_at row) = Some f"])
  fix f
  show "hoare (\<lambda>t. ?P t \<and> tparse (tc_first_at row) = Some f)
    (andThen (decode ''decode asset claim last_observed_at'' (tparse (tc_last_at row)))
      (\<lambda>l. exec ''update asset claim'' (\<lambda>t. t\<lparr>t_claims := AList.update (aid, k)
        (merged_row tfmt e (enc_asset tfmt a) f l row) (t_claims t)\<rparr>))) ?Q"
  proof (rule hoare_andThen [where M = "\<lambda>l t. ?P t \<and> tparse (tc_first_at row) = Some f
        \<and> tparse (tc_last_at row) = Some l"])
    fix l
    let ?row = "merged_row tfmt e (enc_asset tfmt a) f l row"
    show "hoare (\<lambda>t. ?P t \<and> tparse (tc_first_at row) = Some f \<and> tparse (tc_last_at row) = Some l)
      (exec ''update asset claim'' (\<lambda>t. t\<lparr>t_claims := AList.update (aid, k) ?row (t_claims t)\<rparr>)) ?Q"
    proof (rule hoare_exec)
      fix t assume t: "?P t \<and> tparse (tc_first_at row) = Some f \<and> tparse (tc_last_at row) = Some l"
      then have mem: "((aid, k), row) \<in> set (t_claims t)"
        and r: "readable (claim_of tparse) (t_claims t)"
        by (auto simp: claims_mean_def claims_ok_def dest: map_of_SomeD)
      then obtain c where c: "claim_of tparse ((aid, k), row) = Some c"
        by (auto simp: readable_def)
      then have mk: "m (aid, k) = Some c" using decoded_row [OF r mem] t by (simp add: claims_mean_def)
      have times: "time_ok tfmt tparse f" "time_ok tfmt tparse l"
        using mem t by (auto simp: claims_mean_def claims_ok_def)
      have set: "set (AList.update (aid, k) ?row (t_claims t)) \<subseteq>
          insert ((aid, k), ?row) (set (t_claims t))"
        using r by (auto simp: readable_def set_update)
      show "?Q () (t\<lparr>t_claims := AList.update (aid, k) ?row (t_claims t)\<rparr>)"
        using t mk claim_row_merged [OF c _ _ times assms] set
          readable_update [OF r, of "(aid, k)" ?row] decoded_update [of "claim_of tparse" "(aid, k)" ?row "t_claims t"]
        by (auto simp: claims_mean_def claims_ok_def)
    qed
  qed (rule hoare_decode, simp)
qed (rule hoare_decode, simp)

lemma hoare_saveAssetClaim:
  assumes "time_ok tfmt tparse (ob_ObservedAt e)" "valid_asset tfmt tparse a"
  shows "hoare (claims_mean tfmt tparse u m)
      (saveAssetClaim sha tfmt tparse e (StableAssetID sha a) (enc_asset tfmt a))
      (\<lambda>_. claims_mean tfmt tparse u (put_claim sha e a m))"
  unfolding saveAssetClaim_def Let_def put_claim_def observation_key_def
proof (rule hoare_andThen [where M = "\<lambda>row t. claims_mean tfmt tparse u m t \<and>
    map_of (t_claims t) (StableAssetID sha a,
      AssetSourceKey sha (ob_SiteID e) (ob_CollectorID e) (ob_Plugin e)) = row"], rule hoare_select, simp)
  fix row :: "claim_row option"
  show "hoare (\<lambda>t. claims_mean tfmt tparse u m t \<and>
      map_of (t_claims t) (StableAssetID sha a,
        AssetSourceKey sha (ob_SiteID e) (ob_CollectorID e) (ob_Plugin e)) = row)
     (case row of
        None \<Rightarrow> insertClaim tfmt e (StableAssetID sha a,
          AssetSourceKey sha (ob_SiteID e) (ob_CollectorID e) (ob_Plugin e)) (enc_asset tfmt a)
      | Some r \<Rightarrow> updateClaim tfmt tparse e (StableAssetID sha a,
          AssetSourceKey sha (ob_SiteID e) (ob_CollectorID e) (ob_Plugin e)) (enc_asset tfmt a) r)
     (\<lambda>_. claims_mean tfmt tparse u
       (m((StableAssetID sha a, AssetSourceKey sha (ob_SiteID e) (ob_CollectorID e) (ob_Plugin e)) \<mapsto>
          merge_claim e (StableAssetID sha a) a (m (StableAssetID sha a,
            AssetSourceKey sha (ob_SiteID e) (ob_CollectorID e) (ob_Plugin e))))))"
    using hoare_insertClaim [OF assms] hoare_updateClaim [OF assms] by (cases row) simp_all
qed

lemma hoare_each: "(\<And>u. hoare (\<lambda>t. P t \<and> F t = u) q Q) \<Longrightarrow> hoare P q Q"
  unfolding hoare_def by blast

text \<open>The parts of the invariant and of the view that the claims and assets tables do not touch.\<close>

lemma rows_ok_claims:
  assumes "claims_mean tfmt tparse (t0\<lparr>t_claims := [], t_assets := []\<rparr>) m t" "rows_ok tfmt tparse t0"
  shows "rows_ok tfmt tparse t \<and> sql_view tparse t = (sql_view tparse t0)\<lparr>v_claims := m\<rparr>"
proof -
  have eq: "t\<lparr>t_claims := [], t_assets := []\<rparr> = t0\<lparr>t_claims := [], t_assets := []\<rparr>"
    using assms(1) by (simp add: claims_mean_def)
  have "t_observations t = t_observations t0" "t_relationships t = t_relationships t0"
    "t_audit t = t_audit t0" "t_schedules t = t_schedules t0" "t_revocations t = t_revocations t0"
    using arg_cong [OF eq, of t_observations] arg_cong [OF eq, of t_relationships]
      arg_cong [OF eq, of t_audit] arg_cong [OF eq, of t_schedules] arg_cong [OF eq, of t_revocations]
    by simp_all
  then show ?thesis using assms
    by (simp add: rows_ok_def sql_view_def claims_mean_def claims_ok_def)
qed

lemma hoare_saveAsset:
  assumes "time_ok tfmt tparse (ob_ObservedAt e)" "valid_asset tfmt tparse a"
  shows "hoare (\<lambda>t. rows_ok tfmt tparse t \<and> sql_view tparse t = v) (saveAsset sha tfmt tparse e a)
      (\<lambda>_ t. rows_ok tfmt tparse t
         \<and> sql_view tparse t = v\<lparr>v_claims := put_claim sha e a (v_claims v)\<rparr>)"
proof (rule hoare_each [where F = "\<lambda>t. t"])
  fix t0 :: tables
  let ?u = "t0\<lparr>t_claims := [], t_assets := []\<rparr>" and ?m = "decoded (claim_of tparse) (t_claims t0)"
  show "hoare (\<lambda>t. (rows_ok tfmt tparse t \<and> sql_view tparse t = v) \<and> t = t0)
      (saveAsset sha tfmt tparse e a)
      (\<lambda>_ t. rows_ok tfmt tparse t
         \<and> sql_view tparse t = v\<lparr>v_claims := put_claim sha e a (v_claims v)\<rparr>)"
  proof (cases "rows_ok tfmt tparse t0 \<and> sql_view tparse t0 = v")
    case True
    then have v: "v_claims v = ?m" by (auto simp: sql_view_def)
    show ?thesis unfolding saveAsset_def Let_def
    proof (rule hoare_weaken [OF hoare_andThen [where M = "\<lambda>_. claims_mean tfmt tparse ?u ?m"]])
      show "hoare (\<lambda>t. t = t0) (exec ''save asset'' (\<lambda>t. t\<lparr>t_assets :=
          upsert_resolved (StableAssetID sha a) (enc_asset tfmt a) (ob_ObservationID e) (t_assets t)\<rparr>))
        (\<lambda>_. claims_mean tfmt tparse ?u ?m)"
        using True by (intro hoare_exec) (simp add: claims_mean_def claims_ok_def rows_ok_def)
      show "hoare (claims_mean tfmt tparse ?u ?m)
          (saveAssetClaim sha tfmt tparse e (StableAssetID sha a) (enc_asset tfmt a))
          (\<lambda>_. claims_mean tfmt tparse ?u (put_claim sha e a ?m))" for x :: unit
        by (rule hoare_saveAssetClaim [OF assms])
    qed (use True v rows_ok_claims in auto)
  next
    case False
    then show ?thesis by (auto simp: hoare_def)
  qed
qed

lemma upsert_resolved_mean:
  fixes e :: observation and k :: string
  assumes "readable (relationship_of tparse) rows" "valid_relationship tfmt tparse rel"
  defines "rows' \<equiv> upsert_resolved k (enc_relationship tfmt rel) (ob_ObservationID e) rows"
  shows "readable (relationship_of tparse) rows'"
    "decoded (relationship_of tparse) rows' = (decoded (relationship_of tparse) rows)
       (k \<mapsto> merge_relationship e k rel (decoded (relationship_of tparse) rows k))"
proof -
  have dec: "dec_relationship tparse (enc_relationship tfmt rel) = Some rel"
    by (rule dec_enc_relationship [OF assms(2)])
  have "readable (relationship_of tparse) rows' \<and>
    decoded (relationship_of tparse) rows' = (decoded (relationship_of tparse) rows)
       (k \<mapsto> merge_relationship e k rel (decoded (relationship_of tparse) rows k))"
  proof (cases "map_of rows k")
    case None
    let ?row = "\<lparr>tr_json = enc_relationship tfmt rel, tr_first = ob_ObservationID e,
      tr_last = ob_ObservationID e\<rparr>"
    have notin: "k \<notin> fst ` set rows" using None by (simp add: map_of_eq_None_iff)
    have "relationship_of tparse (k, ?row) = Some (merge_relationship e k rel None)"
      by (simp add: relationship_of_def dec merge_relationship_def)
    then show ?thesis
      using None readable_append [OF assms(1) notin, of ?row]
        decoded_append [OF notin, of "relationship_of tparse" ?row] decoded_None [OF assms(1), of k] notin
      by (simp add: rows'_def upsert_resolved_def)
  next
    case (Some row)
    let ?row = "row\<lparr>tr_json := enc_relationship tfmt rel, tr_last := ob_ObservationID e\<rparr>"
    have mem: "(k, row) \<in> set rows" using Some by (rule map_of_SomeD)
    then obtain r where r: "relationship_of tparse (k, row) = Some r"
      using assms(1) by (auto simp: readable_def)
    then have "relationship_of tparse (k, ?row) = Some (merge_relationship e k rel (Some r))"
      by (auto simp: relationship_of_def dec merge_relationship_def)
    then show ?thesis
      using Some readable_update [OF assms(1), of k ?row] decoded_row [OF assms(1) mem] r
        decoded_update [of "relationship_of tparse" k ?row rows]
      by (simp add: rows'_def upsert_resolved_def)
  qed
  then show "readable (relationship_of tparse) rows'"
    "decoded (relationship_of tparse) rows' = (decoded (relationship_of tparse) rows)
       (k \<mapsto> merge_relationship e k rel (decoded (relationship_of tparse) rows k))" by blast+
qed

lemma hoare_saveRelationship:
  assumes "valid_relationship tfmt tparse rel"
  shows "hoare (\<lambda>t. rows_ok tfmt tparse t \<and> sql_view tparse t = v) (saveRelationship sha tfmt e rel)
      (\<lambda>_ t. rows_ok tfmt tparse t
         \<and> sql_view tparse t = v\<lparr>v_relationships := put_relationship sha e rel (v_relationships v)\<rparr>)"
  unfolding saveRelationship_def
proof (rule hoare_exec)
  fix t assume t: "rows_ok tfmt tparse t \<and> sql_view tparse t = v"
  then have "readable (relationship_of tparse) (t_relationships t)" by (simp add: rows_ok_def)
  note up = upsert_resolved_mean [OF this assms]
  show "rows_ok tfmt tparse (t\<lparr>t_relationships := upsert_resolved (StableRelationshipID sha rel)
        (enc_relationship tfmt rel) (ob_ObservationID e) (t_relationships t)\<rparr>)
      \<and> sql_view tparse (t\<lparr>t_relationships := upsert_resolved (StableRelationshipID sha rel)
        (enc_relationship tfmt rel) (ob_ObservationID e) (t_relationships t)\<rparr>) =
        v\<lparr>v_relationships := put_relationship sha e rel (v_relationships v)\<rparr>"
    using t up(1) up(2) [where k = "StableRelationshipID sha rel"]
    by (auto simp: rows_ok_def sql_view_def put_relationship_def Let_def)
qed

lemma map_alist_update:
  "distinct (map fst t) \<Longrightarrow> k \<in> fst ` set t \<Longrightarrow>
   map f (AList.update k v t) = map (\<lambda>r. if fst r = k then f (k, v) else f r) t"
proof (induction t)
  case (Cons r t)
  show ?case
  proof (cases "fst r = k")
    case True
    then have "\<forall>r \<in> set t. fst r \<noteq> k" using Cons.prems(1) by (auto simp: image_iff)
    then show ?thesis using True by (cases r) (auto intro!: map_cong)
  next
    case False
    then show ?thesis using Cons by (cases r) auto
  qed
qed simp

lemma upsert_observation_mean:
  fixes now :: string
  assumes "readable (envelope_of tparse) rows" "valid_observation tfmt tparse e"
    and "\<forall>r \<in> set rows. ob_ObservationID (the (envelope_of tparse r)) = fst r"
  defines "rows' \<equiv> upsert_observation tfmt now e rows"
  shows "readable (envelope_of tparse) rows'
    \<and> (\<forall>r \<in> set rows'. ob_ObservationID (the (envelope_of tparse r)) = fst r)
    \<and> map (the \<circ> envelope_of tparse) rows' = put_observation e (map (the \<circ> envelope_of tparse) rows)"
proof -
  let ?k = "ob_ObservationID e" and ?es = "map (the \<circ> envelope_of tparse) rows"
  have dec: "dec_observation tparse (enc_observation tfmt e) = Some e"
    by (rule dec_enc_observation [OF assms(2)])
  have ids: "?k \<in> ob_ObservationID ` set ?es \<longleftrightarrow> ?k \<in> fst ` set rows"
    using assms(3) by (force simp: image_iff)
  show ?thesis
  proof (cases "map_of rows ?k")
    case None
    let ?row = "\<lparr>tr_envelope = enc_observation tfmt e, tr_observed_at = tfmt (ob_ObservedAt e),
      tr_received_at = now\<rparr>"
    have notin: "?k \<notin> fst ` set rows" using None by (simp add: map_of_eq_None_iff)
    have "envelope_of tparse (?k, ?row) = Some e" by (simp add: envelope_of_def dec)
    then show ?thesis
      using None assms(3) readable_append [OF assms(1) notin, of ?row] ids notin
      by (auto simp: rows'_def upsert_observation_def put_observation_def)
  next
    case (Some row)
    let ?row = "row\<lparr>tr_envelope := enc_observation tfmt e, tr_observed_at := tfmt (ob_ObservedAt e)\<rparr>"
    have mem: "?k \<in> fst ` set rows" using map_of_SomeD [OF Some] by force
    have d: "distinct (map fst rows)" using assms(1) by (simp add: readable_def)
    have row: "envelope_of tparse (?k, ?row) = Some e" by (simp add: envelope_of_def dec)
    have rows': "rows' = AList.update ?k ?row rows"
      using Some by (simp add: rows'_def upsert_observation_def)
    have "map (the \<circ> envelope_of tparse) rows' =
        map (\<lambda>r. if fst r = ?k then e else the (envelope_of tparse r)) rows"
      unfolding rows' map_alist_update [OF d mem] by (simp add: row)
    also have "\<dots> = map (\<lambda>x. if ob_ObservationID x = ?k then e else x) ?es"
      using assms(3) by simp
    finally have "map (the \<circ> envelope_of tparse) rows' = put_observation e ?es"
      using ids mem by (simp add: put_observation_def)
    moreover have "\<forall>r \<in> set rows'. ob_ObservationID (the (envelope_of tparse r)) = fst r"
      using assms(3) row by (auto simp: rows' set_update [OF d])
    ultimately show ?thesis using readable_update [OF assms(1), of ?k ?row] row by (simp add: rows')
  qed
qed

lemma fold_view_claims:
  "fold (\<lambda>a v. v\<lparr>v_claims := f a (v_claims v)\<rparr>) as v = v\<lparr>v_claims := fold f as (v_claims v)\<rparr>"
  by (induction as arbitrary: v) simp_all

lemma fold_view_relationships:
  "fold (\<lambda>a v. v\<lparr>v_relationships := f a (v_relationships v)\<rparr>) as v =
     v\<lparr>v_relationships := fold f as (v_relationships v)\<rparr>"
  by (induction as arbitrary: v) simp_all

lemma hoare_saveObservation:
  assumes "valid_observation tfmt tparse e"
  shows "hoare (\<lambda>t. rows_ok tfmt tparse t \<and> sql_view tparse t = v)
    (andThen (exec ''save observation'' (\<lambda>t. t\<lparr>t_observations :=
             upsert_observation tfmt now e (t_observations t)\<rparr>)) (\<lambda>_.
         andThen (forEach (saveAsset sha tfmt tparse e) (ob_Assets e)) (\<lambda>_.
         forEach (saveRelationship sha tfmt e) (ob_Relationships e))))
    (\<lambda>_ t. rows_ok tfmt tparse t \<and> sql_view tparse t = spec_save sha e v)"
proof -
  let ?I = "rows_ok tfmt tparse" and ?w = "sql_view tparse"
  let ?v1 = "v\<lparr>v_observations := put_observation e (v_observations v)\<rparr>"
  let ?v2 = "?v1\<lparr>v_claims := fold (put_claim sha e) (ob_Assets e) (v_claims v)\<rparr>"
  have ok: "time_ok tfmt tparse (ob_ObservedAt e)"
    "\<And>a. a \<in> set (ob_Assets e) \<Longrightarrow> valid_asset tfmt tparse a"
    "\<And>r. r \<in> set (ob_Relationships e) \<Longrightarrow> valid_relationship tfmt tparse r"
    using assms by (auto simp: valid_observation_def list_all_iff)
  have one: "hoare (\<lambda>t. ?I t \<and> ?w t = v) (exec ''save observation'' (\<lambda>t. t\<lparr>t_observations :=
      upsert_observation tfmt now e (t_observations t)\<rparr>)) (\<lambda>_ t. ?I t \<and> ?w t = ?v1)"
  proof (rule hoare_exec)
    fix t assume t: "?I t \<and> ?w t = v"
    then show "?I (t\<lparr>t_observations := upsert_observation tfmt now e (t_observations t)\<rparr>)
        \<and> ?w (t\<lparr>t_observations := upsert_observation tfmt now e (t_observations t)\<rparr>) = ?v1"
      using upsert_observation_mean [of tparse "t_observations t" tfmt e now] assms
      by (auto simp: rows_ok_def sql_view_def)
  qed
  have two: "hoare (\<lambda>t. ?I t \<and> ?w t = ?v1) (forEach (saveAsset sha tfmt tparse e) (ob_Assets e))
      (\<lambda>_ t. ?I t \<and> ?w t = ?v2)"
  proof -
    have "fold (\<lambda>a v. v\<lparr>v_claims := put_claim sha e a (v_claims v)\<rparr>) (ob_Assets e) ?v1 = ?v2"
      by (simp add: fold_view_claims)
    moreover have "hoare (\<lambda>t. ?I t \<and> ?w t = ?v1) (forEach (saveAsset sha tfmt tparse e) (ob_Assets e))
      (\<lambda>_ t. ?I t \<and> ?w t =
         fold (\<lambda>a v. v\<lparr>v_claims := put_claim sha e a (v_claims v)\<rparr>) (ob_Assets e) ?v1)"
      by (rule hoare_forEach) (rule hoare_saveAsset [OF ok(1) ok(2)])
    ultimately show ?thesis by simp
  qed
  have "hoare (\<lambda>t. ?I t \<and> ?w t = ?v2) (forEach (saveRelationship sha tfmt e) (ob_Relationships e))
      (\<lambda>_ t. ?I t \<and> ?w t = spec_save sha e v)"
  proof -
    have "fold (\<lambda>r v. v\<lparr>v_relationships := put_relationship sha e r (v_relationships v)\<rparr>)
        (ob_Relationships e) ?v2 = spec_save sha e v"
      by (simp add: fold_view_relationships spec_save_def)
    moreover have "hoare (\<lambda>t. ?I t \<and> ?w t = ?v2)
      (forEach (saveRelationship sha tfmt e) (ob_Relationships e))
      (\<lambda>_ t. ?I t \<and> ?w t =
         fold (\<lambda>r v. v\<lparr>v_relationships := put_relationship sha e r (v_relationships v)\<rparr>)
           (ob_Relationships e) ?v2)"
      by (rule hoare_forEach) (rule hoare_saveRelationship [OF ok(3)])
    ultimately show ?thesis by simp
  qed
  then show ?thesis by (intro hoare_andThen [OF one] hoare_andThen [OF two])
qed

abbreviation "sqok sha tfmt tparse \<equiv> (\<lambda>d :: db. sql_ok sha tfmt tparse (db_tables d))"
abbreviation "sqview tparse \<equiv> (\<lambda>d :: db. sql_view tparse (db_tables d))"

text \<open>A triple about rows becomes one about the whole invariant where the effect keeps \<open>view_ok\<close>.\<close>

lemma hoare_sql_ok:
  assumes "hoare (\<lambda>t. rows_ok tfmt tparse t \<and> sql_view tparse t = v) q
      (\<lambda>x t. R x \<and> rows_ok tfmt tparse t \<and> sql_view tparse t = f v)"
    and "view_ok sha tfmt v \<Longrightarrow> view_ok sha tfmt (f v)"
  shows "hoare (\<lambda>t. sql_ok sha tfmt tparse t \<and> sql_view tparse t = v) q
      (\<lambda>x t. R x \<and> sql_ok sha tfmt tparse t \<and> sql_view tparse t = f v)"
  unfolding hoare_def
proof (intro allI impI)
  fix d x d' assume P: "sql_ok sha tfmt tparse (db_tables d) \<and> sql_view tparse (db_tables d) = v"
    and run: "q d = (Inr x, d')"
  then have "rows_ok tfmt tparse (db_tables d) \<and> sql_view tparse (db_tables d) = v" "view_ok sha tfmt v"
    by (auto simp: sql_ok_def)
  then have "R x \<and> rows_ok tfmt tparse (db_tables d') \<and> sql_view tparse (db_tables d') = f v"
    "view_ok sha tfmt (f v)"
    using hoareD [OF assms(1) _ run] assms(2) by simp_all
  then show "R x \<and> sql_ok sha tfmt tparse (db_tables d') \<and> sql_view tparse (db_tables d') = f v"
    by (simp add: sql_ok_def)
qed

lemma sqlSave_ok:
  assumes "sqok sha tfmt tparse d" "valid_observation tfmt tparse e"
  shows "writes (sqok sha tfmt tparse) (sqview tparse) (spec_save sha e) d
    (sqlSaveObservation sha tfmt tparse e d)"
proof -
  let ?q = "in_tx ''begin save observation'' ''commit save observation''
        (andThen (exec ''save observation'' (\<lambda>t. t\<lparr>t_observations :=
             upsert_observation tfmt (db_now d) e (t_observations t)\<rparr>)) (\<lambda>_.
         andThen (forEach (saveAsset sha tfmt tparse e) (ob_Assets e)) (\<lambda>_.
         forEach (saveRelationship sha tfmt e) (ob_Relationships e))))"
  have "hoare (\<lambda>t. sql_ok sha tfmt tparse t \<and> sql_view tparse t = v) ?q
      (\<lambda>_ t. sql_ok sha tfmt tparse t \<and> sql_view tparse t = spec_save sha e v)" for v
    using hoare_sql_ok [where R = "\<lambda>_. True" and f = "spec_save sha e" and q = ?q and v = v
        and tfmt = tfmt and tparse = tparse and sha = sha]
      hoare_in_tx [OF hoare_saveObservation [OF assms(2)]] view_ok_save by simp
  from writes_query [where ok = "sql_ok sha tfmt tparse" and view = "sql_view tparse" and
      f = "spec_save sha e", OF assms(1) atomic_in_tx this refl refl]
  show ?thesis by (simp add: sqlSaveObservation_def)
qed

section \<open>Reading\<close>

lemma decode_rows_all:
  "(\<And>r d. r \<in> set rs \<Longrightarrow> f r d = (Inr (g r), d)) \<Longrightarrow> decode_rows f rs d = (Inr (map g rs), d)"
  by (induction rs arbitrary: d) (simp_all add: return_def andThen_def)

lemma read_simps:
  "claim_of tparse r = Some c \<Longrightarrow> read_claim tparse r d = (Inr c, d)"
  "relationship_of tparse r' = Some c' \<Longrightarrow> read_relationship tparse r' d = (Inr c', d)"
  "entry_of tparse r2 = Some c2 \<Longrightarrow> read_audit tparse r2 d = (Inr c2, d)"
  "schedule_of tparse r3 = Some c3 \<Longrightarrow> scanSchedule tparse r3 d = (Inr c3, d)"
  "revocation_of tparse r4 = Some c4 \<Longrightarrow> read_revocation tparse r4 d = (Inr c4, d)"
  by (auto simp: claim_of_def read_claim_def relationship_of_def read_relationship_def entry_of_def
    read_audit_def schedule_of_def scanSchedule_def revocation_of_def read_revocation_def
    andThen_def decode_def return_def split: option.splits prod.splits)

lemma set_order_by: "set (order_by t) = set t"
  by (simp add: order_by_def)

lemma order_by_values:
  fixes t :: "('k :: linorder \<times> 'row) list"
  assumes "readable f t"
  shows "map (the \<circ> f) (order_by t) = sorted_values (decoded f t)"
proof -
  let ?t = "map (\<lambda>r. (fst r, r)) t"
  have of: "map_of ?t k = map_option (Pair k) (map_of t k)" for k
    by (induction t) auto
  have "order_by t = sort_slice (\<lambda>a b. fst a < fst b) (map snd ?t)"
    by (simp add: order_by_def comp_def)
  also have "\<dots> = sorted_values (map_of ?t)"
    using assms by (intro sort_slice_values) (auto simp: readable_def comp_def)
  finally have ord: "order_by t = sorted_values (map_of ?t)" .
  have dom: "dom (map_of ?t) = dom (decoded f t)"
    using assms decoded_None [OF assms] by (auto simp: of dom_def map_of_eq_None_iff)
  have "the (f (the (map_of ?t k))) = the (decoded f t k)" if "k \<in> dom (map_of t)" for k
    using that by (auto simp: of decoded_def)
  moreover have "dom (map_of ?t) = dom (map_of t)" by (auto simp: of)
  moreover have "set (sorted_list_of_set (dom (map_of t))) = dom (map_of t)"
    by (intro set_sorted_list_of_set finite_dom_map_of)
  ultimately show ?thesis unfolding ord sorted_values_def by (simp flip: dom)
qed

lemma select_run:
  "select msg f d = (Inr x, d') \<Longrightarrow> x = f (db_tables d) \<and> db_tables d' = db_tables d"
  by (auto simp: select_def stmt_def Let_def split: if_splits)

lemma reader_ok:
  assumes "sqok sha tfmt tparse d" "\<And>r. keeps (f r)"
    and "\<And>r d'. r \<in> set (sel (db_tables d)) \<Longrightarrow> f r d' = (Inr (g r), d')"
    and "map g (sel (db_tables d)) = G (sqview tparse d)"
  shows "answers (sqok sha tfmt tparse) (sqview tparse) G (\<lambda>v. v) d
    (andThen (select msg sel) (decode_rows f) d)"
proof (rule answers_reader [where ok = "sql_ok sha tfmt tparse" and view = "sql_view tparse"
    and q = "andThen (select msg sel) (decode_rows f)" and d = d and g = G])
  show "keeps (andThen (select msg sel) (decode_rows f))"
    by (intro keeps_andThen keeps_basic keeps_decode_rows assms(2))
  fix x d' assume "andThen (select msg sel) (decode_rows f) d = (Inr x, d')"
  then obtain rows d1 where sel: "select msg sel d = (Inr rows, d1)" "decode_rows f rows d1 = (Inr x, d')"
    by (auto simp: andThen_def split: prod.splits sum.splits)
  have rows: "rows = sel (db_tables d)" using select_run [OF sel(1)] by simp
  have "decode_rows f rows d1 = (Inr (map g rows), d1)"
    by (rule decode_rows_all) (use assms(3) rows in simp)
  then show "x = G (sql_view tparse (db_tables d))" using sel(2) rows assms(4) by simp
qed (rule assms(1))

lemma keeps_readers:
  "keeps (read_claim tparse r)" "keeps (read_relationship tparse r')" "keeps (read_audit tparse r2)"
  "keeps (scanSchedule tparse r3)" "keeps (read_revocation tparse r4)"
  by (auto simp: read_claim_def read_relationship_def read_audit_def scanSchedule_def
    read_revocation_def split: prod.splits intro!: keeps_andThen keeps_basic)

lemma readable_all: "readable f t \<Longrightarrow> r \<in> set t \<Longrightarrow> f r = Some (the (f r))"
  by (auto simp: readable_def)

text \<open>The audit table is in sequence order, so reading it back in order is reading it as it is.\<close>

lemma audit_keys:
  assumes "sql_ok sha tfmt tparse t" "i < length (t_audit t)"
  shows "fst (t_audit t ! i) = int i + 1"
proof -
  let ?es = "map (the \<circ> entry_of tparse) (t_audit t)"
  have "VerifyChain sha tfmt ?es = None"
    using assms(1) by (simp add: sql_ok_def view_ok_def sql_view_def)
  then have "en_Sequence (?es ! i) = int (0 + i + 1)"
    using assms(2) VerifyChain_nth_Sequence [of sha tfmt 0 "[]" ?es i] by (simp add: VerifyChain_def)
  moreover have "readable (entry_of tparse) (t_audit t)"
    using assms(1) by (simp add: sql_ok_def rows_ok_def)
  then have "entry_of tparse (t_audit t ! i) = Some (the (entry_of tparse (t_audit t ! i)))"
    using assms(2) readable_all nth_mem by metis
  ultimately show ?thesis using assms(2)
    by (auto simp: entry_of_def split: option.splits prod.splits)
qed

lemma order_by_audit:
  assumes "sql_ok sha tfmt tparse t"
  shows "order_by (t_audit t) = t_audit t"
  unfolding order_by_def
proof (rule slice_less.sorted_unique [OF slice_less_key [of fst]])
  show "sorted_wrt (\<lambda>a b. \<not> fst b < fst a) (t_audit t)"
    by (simp add: sorted_wrt_iff_nth_less audit_keys [OF assms])
  show "sorted_wrt (\<lambda>a b. \<not> fst b < fst a) (sort_slice (\<lambda>a b. fst a < fst b) (t_audit t))"
    by (rule slice_less.sorted_sort_slice [OF slice_less_key])
  fix a b assume "a \<in> set (sort_slice (\<lambda>a b. fst a < fst b) (t_audit t))"
    "b \<in> set (sort_slice (\<lambda>a b. fst a < fst b) (t_audit t))" "a \<noteq> b"
  moreover have "distinct (map fst (t_audit t))"
    using assms by (simp add: sql_ok_def rows_ok_def readable_def)
  ultimately have "fst a \<noteq> fst b" by (auto simp: distinct_map inj_on_def)
  then show "fst a < fst b \<or> fst b < fst a" by (simp add: neq_iff)
qed simp

section \<open>Appending to the audit log\<close>

text \<open>What a backend must be able to represent.\<close>

definition storable_event :: "(time \<Rightarrow> string) \<Rightarrow> (string \<Rightarrow> time option) \<Rightarrow> time \<Rightarrow> event \<Rightarrow> bool" where
  "storable_event tfmt tparse now ev \<longleftrightarrow> time_ok tfmt tparse now \<and> valid_strings (evt_Detail ev)"

definition storable_schedule :: "(time \<Rightarrow> string) \<Rightarrow> (string \<Rightarrow> time option) \<Rightarrow> schedule \<Rightarrow> bool" where
  "storable_schedule tfmt tparse s \<longleftrightarrow> time_ok tfmt tparse (sc_NextRunAt s)
     \<and> time_ok tfmt tparse (sc_CreatedAt s) \<and> time_ok tfmt tparse (sc_UpdatedAt s)"

definition storable_revocation ::
  "(time \<Rightarrow> string) \<Rightarrow> (string \<Rightarrow> time option) \<Rightarrow> certificate_revocation \<Rightarrow> bool" where
  "storable_revocation tfmt tparse rv \<longleftrightarrow> time_ok tfmt tparse (rv_RevokedAt rv)"

lemma last_audit_row:
  assumes "sql_ok sha tfmt tparse t"
  shows "(case rev (order_by (t_audit t)) of [] \<Rightarrow> (0, []) | (s, row) # _ \<Rightarrow> (s, ta_hash row)) =
    (int (length (v_audit (sql_view tparse t))), tip_from [] (v_audit (sql_view tparse t)))"
proof (cases "t_audit t" rule: rev_cases)
  case Nil
  then show ?thesis by (simp add: order_by_def sql_view_def)
next
  case (snoc rs r)
  have "fst r = int (length rs) + 1"
    using audit_keys [OF assms, of "length rs"] snoc by (simp add: nth_append)
  moreover have "readable (entry_of tparse) (t_audit t)"
    using assms by (simp add: sql_ok_def rows_ok_def)
  then have "entry_of tparse r = Some (the (entry_of tparse r))"
    using readable_all snoc by (metis in_set_conv_decomp)
  then have "ta_hash (snd r) = en_Hash (the (entry_of tparse r))"
    by (auto simp: entry_of_def split: option.splits prod.splits)
  moreover have "rev (order_by (t_audit t)) = r # rev rs"
    using order_by_audit [OF assms] snoc by simp
  ultimately show ?thesis
    by (cases r) (simp add: snoc sql_view_def tip_from_def)
qed

lemma sqlAppend_ok:
  assumes "sqok sha tfmt tparse d" "storable_event tfmt tparse now ev"
  shows "answers (sqok sha tfmt tparse) (sqview tparse) (next_entry sha tfmt now ev)
    (\<lambda>v. v\<lparr>v_audit := v_audit v @ [next_entry sha tfmt now ev v]\<rparr>) d
    (sqlAppendAuditEvent sha tfmt now ev d)"
proof -
  let ?I = "sql_ok sha tfmt tparse" and ?w = "sql_view tparse"
  let ?f = "\<lambda>v. v\<lparr>v_audit := v_audit v @ [next_entry sha tfmt now ev v]\<rparr>"
  have ent: "entry_of tparse (en_Sequence (next_entry sha tfmt now ev v),
      \<lparr>ta_recorded_at = tfmt (en_RecordedAt (next_entry sha tfmt now ev v)),
       ta_action = en_Action (next_entry sha tfmt now ev v),
       ta_actor = en_Actor (next_entry sha tfmt now ev v),
       ta_detail = enc_gomap enc_string (evt_Detail ev),
       ta_prev_hash = en_PrevHash (next_entry sha tfmt now ev v),
       ta_hash = en_Hash (next_entry sha tfmt now ev v)\<rparr>) = Some (next_entry sha tfmt now ev v)" for v
    using assms(2) by (simp add: entry_of_def next_entry_def Chain_def Let_def storable_event_def
      time_ok_def dec_enc_strings)
  have "hoare (\<lambda>t. ?I t \<and> ?w t = v) (\<lambda>d. sqlAppendAuditEvent sha tfmt now ev d)
      (\<lambda>x t. x = next_entry sha tfmt now ev v \<and> ?I t \<and> ?w t = ?f v)" for v
    unfolding sqlAppendAuditEvent_def
  proof (rule hoare_in_tx, rule hoare_andThen [where M = "\<lambda>rows t. ?I t \<and> ?w t = v
      \<and> (case rows of [] \<Rightarrow> (0, []) | (s, row) # _ \<Rightarrow> (s, ta_hash row)) =
         (int (length (v_audit v)), tip_from [] (v_audit v))"])
    show "hoare (\<lambda>t. ?I t \<and> ?w t = v) (select ''read last audit entry'' (\<lambda>t. rev (order_by (t_audit t))))
      (\<lambda>rows t. ?I t \<and> ?w t = v \<and> (case rows of [] \<Rightarrow> (0, []) | (s, row) # _ \<Rightarrow> (s, ta_hash row)) =
         (int (length (v_audit v)), tip_from [] (v_audit v)))"
      using last_audit_row by (intro hoare_select) blast
  next
    fix rows :: "(int \<times> audit_row) list"
    let ?last = "case rows of [] \<Rightarrow> (0, []) | (s, row) # _ \<Rightarrow> (s, ta_hash row)"
    let ?ent = "next_entry sha tfmt now ev v"
    show "hoare (\<lambda>t. ?I t \<and> ?w t = v \<and> ?last = (int (length (v_audit v)), tip_from [] (v_audit v)))
      (let (lastSeq, prevHash) = ?last; ent = Chain sha tfmt prevHash (lastSeq + 1) now ev
       in andThen (stmt ''save audit entry'' (\<lambda>t.
               if en_Sequence ent \<in> fst ` set (t_audit t)
                  \<or> en_Hash ent \<in> (ta_hash \<circ> snd) ` set (t_audit t)
               then (Inl ''UNIQUE constraint failed'', t)
               else (Inr (), t\<lparr>t_audit := t_audit t @ [(en_Sequence ent,
                 \<lparr>ta_recorded_at = tfmt (en_RecordedAt ent), ta_action = en_Action ent,
                  ta_actor = en_Actor ent, ta_detail = enc_gomap enc_string (evt_Detail ev),
                  ta_prev_hash = en_PrevHash ent, ta_hash = en_Hash ent\<rparr>)]\<rparr>)))
             (\<lambda>_. return ent))
      (\<lambda>x t. x = ?ent \<and> ?I t \<and> ?w t = ?f v)"
    proof (cases "?last = (int (length (v_audit v)), tip_from [] (v_audit v))")
      case True
      have chain: "Chain sha tfmt (tip_from [] (v_audit v)) (int (length (v_audit v)) + 1) now ev = ?ent"
        by (simp add: next_entry_def)
      show ?thesis unfolding True Let_def prod.case chain
      proof (rule hoare_andThen [where M = "\<lambda>_ t. ?I t \<and> ?w t = ?f v"], rule hoare_stmt)
        fix t x t'
        let ?row = "(en_Sequence ?ent,
                 \<lparr>ta_recorded_at = tfmt (en_RecordedAt ?ent), ta_action = en_Action ?ent,
                  ta_actor = en_Actor ?ent, ta_detail = enc_gomap enc_string (evt_Detail ev),
                  ta_prev_hash = en_PrevHash ?ent, ta_hash = en_Hash ?ent\<rparr>)"
        assume t: "?I t \<and> ?w t = v \<and> (int (length (v_audit v)), tip_from [] (v_audit v)) =
            (int (length (v_audit v)), tip_from [] (v_audit v))"
          and "(if en_Sequence ?ent \<in> fst ` set (t_audit t)
                  \<or> en_Hash ?ent \<in> (ta_hash \<circ> snd) ` set (t_audit t)
               then (Inl ''UNIQUE constraint failed'', t)
               else (Inr (), t\<lparr>t_audit := t_audit t @ [?row]\<rparr>)) = (Inr x, t')"
        then have t': "t' = t\<lparr>t_audit := t_audit t @ [?row]\<rparr>" "en_Sequence ?ent \<notin> fst ` set (t_audit t)"
          by (auto split: if_splits)
        have rows: "rows_ok tfmt tparse t" using t by (simp add: sql_ok_def)
        then have "readable (entry_of tparse) (t_audit t @ [?row])"
          using readable_append [OF _ t'(2), of "entry_of tparse"] ent [of v]
          by (simp add: rows_ok_def)
        then have "rows_ok tfmt tparse t'" using rows t'(1) by (simp add: rows_ok_def)
        moreover have "?w t' = ?f v" using t t'(1) ent [of v] by (auto simp: sql_view_def)
        moreover have "view_ok sha tfmt (?f v)"
          using t view_ok_append [of sha tfmt v now ev] by (auto simp: sql_ok_def)
        ultimately show "?I t' \<and> ?w t' = ?f v" by (simp add: sql_ok_def)
      qed (rule hoare_return, simp)
    next
      case False
      then show ?thesis by (simp add: hoare_def)
    qed
  qed
  moreover have "atomic (sqlAppendAuditEvent sha tfmt now ev)"
    by (simp add: sqlAppendAuditEvent_def atomic_in_tx)
  ultimately show ?thesis
    using answers_query [where ok = ?I and view = ?w and q = "sqlAppendAuditEvent sha tfmt now ev"
      and v = "?w (db_tables d)" and d = d and f = ?f and g = "next_entry sha tfmt now ev"] assms(1)
    by blast
qed

section \<open>Schedules and revocations\<close>

lemma decoded_delete: "decoded f (AList.delete k t) = (decoded f t)(k := None)"
  by (auto simp: decoded_def fun_eq_iff delete_conv')

text \<open>The statement keeps the \<open>created_at\<close> of a row it replaces.\<close>

lemma sqlUpsert_kept:
  assumes "sqok sha tfmt tparse d" "storable_schedule tfmt tparse s"
  shows "writes (sqok sha tfmt tparse) (sqview tparse) (\<lambda>v. spec_upsert (kept s v) v) d
    (sqlUpsertSchedule tfmt s d)"
proof -
  let ?c = "sc_CollectorID s"
  let ?new = "\<lparr>ts_job_type = sc_JobType s, ts_interval = sc_IntervalSeconds s,
    ts_next_run = tfmt (sc_NextRunAt s), ts_created = tfmt (sc_CreatedAt s),
    ts_updated = tfmt (sc_UpdatedAt s)\<rparr>"
  let ?up = "\<lambda>t. t\<lparr>t_schedules := (case map_of (t_schedules t) ?c of
      None \<Rightarrow> t_schedules t @ [(?c, ?new)]
    | Some old \<Rightarrow> AList.update ?c (?new\<lparr>ts_created := ts_created old\<rparr>) (t_schedules t))\<rparr>"
  have "hoare (\<lambda>t. sql_ok sha tfmt tparse t \<and> sql_view tparse t = v)
    (exec ''upsert schedule'' ?up)
    (\<lambda>_ t. sql_ok sha tfmt tparse t \<and> sql_view tparse t = spec_upsert (kept s v) v)" for v
  proof (rule hoare_exec)
    fix t assume t: "sql_ok sha tfmt tparse t \<and> sql_view tparse t = v"
    have r: "readable (schedule_of tparse) (t_schedules t)"
      using t by (simp add: sql_ok_def rows_ok_def)
    have new: "schedule_of tparse (?c, ?new) = Some s"
      using assms(2) by (simp add: schedule_of_def storable_schedule_def time_ok_def)
    have "readable (schedule_of tparse) (t_schedules (?up t))
      \<and> decoded (schedule_of tparse) (t_schedules (?up t)) = (decoded (schedule_of tparse) (t_schedules t))(?c \<mapsto> kept s v)"
    proof (cases "map_of (t_schedules t) ?c")
      case None
      then have c: "?c \<notin> fst ` set (t_schedules t)" by (simp add: map_of_eq_None_iff)
      have "v_schedules v ?c = None" using t None by (auto simp: sql_view_def decoded_def)
      then have "kept s v = s" by (simp add: kept_def)
      then show ?thesis using c None new readable_append [OF r, of ?c ?new]
          decoded_append [of ?c "t_schedules t" "schedule_of tparse" ?new] by simp
    next
      case (Some old)
      let ?row = "?new\<lparr>ts_created := ts_created old\<rparr>"
      have mem: "(?c, old) \<in> set (t_schedules t)" using Some by (rule map_of_SomeD)
      then obtain o' where o': "schedule_of tparse (?c, old) = Some o'" using r by (auto simp: readable_def)
      then have "kept s v = s\<lparr>sc_CreatedAt := sc_CreatedAt o'\<rparr>"
        using t decoded_row [OF r mem] by (auto simp: kept_def sql_view_def)
      then have "schedule_of tparse (?c, ?row) = Some (kept s v)"
        using o' assms(2)
        by (auto simp: schedule_of_def storable_schedule_def time_ok_def split: option.splits)
      then show ?thesis using Some readable_update [OF r, of ?c ?row]
          decoded_update [of "schedule_of tparse" ?c ?row "t_schedules t"] by simp
    qed
    then have "rows_ok tfmt tparse (?up t)" "sql_view tparse (?up t) = spec_upsert (kept s v) v"
      using t by (auto simp: sql_ok_def rows_ok_def sql_view_def spec_upsert_def)
    then show "sql_ok sha tfmt tparse (?up t) \<and> sql_view tparse (?up t) = spec_upsert (kept s v) v"
      using t view_ok_upsert [of sha tfmt v "kept s v"] by (auto simp: sql_ok_def)
  qed
  then have h: "hoare (\<lambda>t. t = db_tables d) (exec ''upsert schedule'' ?up)
    (\<lambda>_ t. sql_ok sha tfmt tparse t \<and> sql_view tparse t = spec_upsert (kept s (sqview tparse d)) (sqview tparse d))"
    by (rule hoare_weaken) (use assms in auto)
  show ?thesis
  proof (cases "exec ''upsert schedule'' ?up d")
    case (Pair r d')
    show ?thesis
    proof (cases r)
      case (Inl err)
      then have "db_tables d' = db_tables d" using Pair by (auto simp: exec_def dest: stmt_fails)
      then show ?thesis using Pair Inl assms(1) by (simp add: writes_def sqlUpsertSchedule_def)
    next
      case (Inr u)
      then show ?thesis using Pair hoareD [OF h refl, of u d'] by (simp add: writes_def sqlUpsertSchedule_def)
    qed
  qed
qed

lemma sqlUpsert_ok:
  "sqok sha tfmt tparse d \<Longrightarrow> storable_schedule tfmt tparse s \<Longrightarrow> keeps_created s (sqview tparse d) \<Longrightarrow>
   writes (sqok sha tfmt tparse) (sqview tparse) (spec_upsert s) d (sqlUpsertSchedule tfmt s d)"
  using sqlUpsert_kept [of sha tfmt tparse d s] by (simp add: writes_def)

lemma sqlDelete_ok:
  assumes "sqok sha tfmt tparse d"
  shows "writes (sqok sha tfmt tparse) (sqview tparse) (spec_delete c) d (sqlDeleteSchedule c d)"
proof -
  have "hoare (\<lambda>t. sql_ok sha tfmt tparse t \<and> sql_view tparse t = v)
    (exec ''delete schedule'' (\<lambda>t. t\<lparr>t_schedules := AList.delete c (t_schedules t)\<rparr>))
    (\<lambda>_ t. sql_ok sha tfmt tparse t \<and> sql_view tparse t = spec_delete c v)" for v
  proof (rule hoare_exec)
    fix t assume t: "sql_ok sha tfmt tparse t \<and> sql_view tparse t = v"
    let ?t = "t\<lparr>t_schedules := AList.delete c (t_schedules t)\<rparr>"
    have "rows_ok tfmt tparse ?t" using t by (simp add: sql_ok_def rows_ok_def readable_delete)
    moreover have "sql_view tparse ?t = spec_delete c v"
      using t by (auto simp: sql_view_def spec_delete_def decoded_delete)
    ultimately show "sql_ok sha tfmt tparse ?t \<and> sql_view tparse ?t = spec_delete c v"
      using t view_ok_delete [of sha tfmt v c] by (auto simp: sql_ok_def)
  qed
  from writes_query [where ok = "sql_ok sha tfmt tparse" and view = "sql_view tparse"
      and f = "spec_delete c", OF assms atomic_stmt(2) this refl refl]
  show ?thesis by (simp add: sqlDeleteSchedule_def)
qed

lemma sqlRevoke_ok:
  assumes "sqok sha tfmt tparse d" "storable_revocation tfmt tparse rv"
  shows "answers (sqok sha tfmt tparse) (sqview tparse)
    (\<lambda>v. v_revocations v (rv_SerialNumber rv) = None) (spec_revoke rv) d (sqlRevokeCertificate tfmt rv d)"
proof -
  let ?n = "rv_SerialNumber rv" and ?row = "\<lparr>tv_reason = rv_Reason rv, tv_revoked_at = tfmt (rv_RevokedAt rv)\<rparr>"
  let ?I = "sql_ok sha tfmt tparse" and ?w = "sql_view tparse"
  have new: "revocation_of tparse (?n, ?row) = Some rv"
    using assms(2) by (simp add: revocation_of_def storable_revocation_def time_ok_def)
  have "hoare (\<lambda>t. ?I t \<and> ?w t = v) (sqlRevokeCertificate tfmt rv)
    (\<lambda>x t. x = (v_revocations v ?n = None) \<and> ?I t \<and> ?w t = spec_revoke rv v)" for v
    unfolding sqlRevokeCertificate_def
  proof (rule hoare_andThen [where M = "\<lambda>rows t. (rows = (if v_revocations v ?n = None then 1 else 0))
      \<and> ?I t \<and> ?w t = spec_revoke rv v"], rule hoare_stmt)
    fix t x t' assume t: "?I t \<and> ?w t = v" and run: "(case map_of (t_revocations t) ?n of
         Some _ \<Rightarrow> (Inr (0 :: int), t)
       | None \<Rightarrow> (Inr 1, t\<lparr>t_revocations := t_revocations t @ [(?n, ?row)]\<rparr>)) = (Inr x, t')"
    have r: "readable (revocation_of tparse) (t_revocations t)" using t by (simp add: sql_ok_def rows_ok_def)
    have v: "v_revocations v = decoded (revocation_of tparse) (t_revocations t)"
      using t by (auto simp: sql_view_def)
    show "x = (if v_revocations v ?n = None then 1 else 0) \<and> ?I t' \<and> ?w t' = spec_revoke rv v"
    proof (cases "map_of (t_revocations t) ?n")
      case None
      then have notin: "?n \<notin> fst ` set (t_revocations t)" by (simp add: map_of_eq_None_iff)
      have t': "x = 1" "t' = t\<lparr>t_revocations := t_revocations t @ [(?n, ?row)]\<rparr>" using run None by auto
      have none: "v_revocations v ?n = None" using v decoded_None [OF r] notin by simp
      have "rows_ok tfmt tparse t'"
        using t t'(2) readable_append [OF r notin, of ?row] new by (simp add: sql_ok_def rows_ok_def)
      moreover have "?w t' = spec_revoke rv v"
        using t t'(2) decoded_append [OF notin, of "revocation_of tparse" ?row] new none
        by (auto simp: sql_view_def spec_revoke_def)
      ultimately show ?thesis using t t'(1) none view_ok_revoke [of sha tfmt v rv]
        by (auto simp: sql_ok_def)
    next
      case (Some row)
      then have "?n \<in> fst ` set (t_revocations t)" by (force dest: map_of_SomeD)
      then have "v_revocations v ?n \<noteq> None" using v decoded_None [OF r] by simp
      then show ?thesis using run Some t by (auto simp: spec_revoke_def)
    qed
  qed (rule hoare_return, simp)
  moreover have "atomic (sqlRevokeCertificate tfmt rv)"
    by (auto simp: atomic_def sqlRevokeCertificate_def andThen_def return_def
      split: prod.splits sum.splits dest: stmt_fails)
  ultimately show ?thesis
    using answers_query [where ok = ?I and view = ?w and q = "sqlRevokeCertificate tfmt rv"
      and v = "?w (db_tables d)" and d = d and f = "spec_revoke rv"
      and g = "\<lambda>v. v_revocations v ?n = None"] assms(1)
    by blast
qed

section \<open>The listing methods\<close>

lemma tables_readable:
  assumes "sqok sha tfmt tparse d"
  shows "readable (envelope_of tparse) (t_observations (db_tables d))"
    "readable (claim_of tparse) (t_claims (db_tables d))"
    "readable (relationship_of tparse) (t_relationships (db_tables d))"
    "readable (entry_of tparse) (t_audit (db_tables d))"
    "readable (schedule_of tparse) (t_schedules (db_tables d))"
    "readable (revocation_of tparse) (t_revocations (db_tables d))"
  using assms by (simp_all add: sql_ok_def rows_ok_def)

text \<open>A method that selects the rows of one table and decodes each of them.\<close>

lemma table_reader_ok:
  assumes "sqok sha tfmt tparse d" "\<And>r. keeps (f r)" "readable g t"
    and "\<And>r x d'. g r = Some x \<Longrightarrow> f r d' = (Inr x, d')"
    and "set (sel (db_tables d)) = set t"
    and "map (the \<circ> g) (sel (db_tables d)) = G (sqview tparse d)"
  shows "answers (sqok sha tfmt tparse) (sqview tparse) G (\<lambda>v. v) d
    (andThen (select msg sel) (decode_rows f) d)"
proof (rule reader_ok [OF assms(1,2), where g = "the \<circ> g"])
  fix r d' assume "r \<in> set (sel (db_tables d))"
  then have "r \<in> set t" using assms(5) by simp
  from assms(4) [OF readable_all [OF assms(3) this]]
  show "f r d' = (Inr ((the \<circ> g) r), d')" by simp
qed (rule assms(6))

lemma read_envelope:
  "keeps (read_observation tparse r)"
  "envelope_of tparse r = Some e \<Longrightarrow> read_observation tparse r d = (Inr e, d)"
  by (simp add: read_observation_def keeps_basic)
    (simp add: read_observation_def envelope_of_def decode_def return_def)

lemma sqlList_ok:
  assumes "sqok sha tfmt tparse d"
  shows "answers (sqok sha tfmt tparse) (sqview tparse) v_observations (\<lambda>v. v) d (sqlListObservations tparse d)"
    "answers (sqok sha tfmt tparse) (sqview tparse) (\<lambda>v. sorted_values (v_claims v)) (\<lambda>v. v) d
       (sqlListAssetClaims tparse d)"
    "answers (sqok sha tfmt tparse) (sqview tparse) (\<lambda>v. sorted_values (v_relationships v)) (\<lambda>v. v) d
       (sqlListRelationships tparse d)"
    "answers (sqok sha tfmt tparse) (sqview tparse) v_audit (\<lambda>v. v) d (sqlListAuditEntries tparse d)"
    "answers (sqok sha tfmt tparse) (sqview tparse) (\<lambda>v. sorted_values (v_schedules v)) (\<lambda>v. v) d
       (sqlListSchedules tparse d)"
    "answers (sqok sha tfmt tparse) (sqview tparse) (\<lambda>v. sorted_values (v_revocations v)) (\<lambda>v. v) d
       (sqlListCertificateRevocations tparse d)"
proof -
  note r = tables_readable [OF assms]
  show "answers (sqok sha tfmt tparse) (sqview tparse) v_observations (\<lambda>v. v) d (sqlListObservations tparse d)"
    unfolding sqlListObservations_def
    by (rule table_reader_ok [OF assms read_envelope(1) r(1) read_envelope(2)])
      (simp_all add: sql_view_def)
  show "answers (sqok sha tfmt tparse) (sqview tparse) (\<lambda>v. sorted_values (v_claims v)) (\<lambda>v. v) d
       (sqlListAssetClaims tparse d)"
    unfolding sqlListAssetClaims_def
    by (rule table_reader_ok [OF assms keeps_readers(1) r(2) read_simps(1)])
      (simp_all add: set_order_by sql_view_def order_by_values [OF r(2)])
  show "answers (sqok sha tfmt tparse) (sqview tparse) (\<lambda>v. sorted_values (v_relationships v)) (\<lambda>v. v) d
       (sqlListRelationships tparse d)"
    unfolding sqlListRelationships_def
    by (rule table_reader_ok [OF assms keeps_readers(2) r(3) read_simps(2)])
      (simp_all add: set_order_by sql_view_def order_by_values [OF r(3)])
  show "answers (sqok sha tfmt tparse) (sqview tparse) v_audit (\<lambda>v. v) d (sqlListAuditEntries tparse d)"
    unfolding sqlListAuditEntries_def
    by (rule table_reader_ok [OF assms keeps_readers(3) r(4) read_simps(3)])
      (simp_all add: order_by_audit [OF assms] sql_view_def)
  show "answers (sqok sha tfmt tparse) (sqview tparse) (\<lambda>v. sorted_values (v_schedules v)) (\<lambda>v. v) d
       (sqlListSchedules tparse d)"
    unfolding sqlListSchedules_def
    by (rule table_reader_ok [OF assms keeps_readers(4) r(5) read_simps(4)])
      (simp_all add: set_order_by sql_view_def order_by_values [OF r(5)])
  show "answers (sqok sha tfmt tparse) (sqview tparse) (\<lambda>v. sorted_values (v_revocations v)) (\<lambda>v. v) d
       (sqlListCertificateRevocations tparse d)"
    unfolding sqlListCertificateRevocations_def
    by (rule table_reader_ok [OF assms keeps_readers(5) r(6) read_simps(5)])
      (simp_all add: set_order_by sql_view_def order_by_values [OF r(6)])
qed

lemma sqlListAssets_ok:
  assumes "sqok sha tfmt tparse d"
  shows "answers (sqok sha tfmt tparse) (sqview tparse)
    (\<lambda>v. ResolveAssetClaims sha (sorted_values (v_claims v)) []) (\<lambda>v. v) d (sqlListAssets sha tparse d)"
proof (cases "sqlListAssetClaims tparse d")
  case (Pair x d')
  then show ?thesis using sqlList_ok(2) [OF assms]
    by (cases x) (simp_all add: sqlListAssets_def answers_def andThen_def return_def)
qed

lemma sqlGetSchedule_ok:
  assumes "sqok sha tfmt tparse d"
  shows "answers (sqok sha tfmt tparse) (sqview tparse) (\<lambda>v. the (v_schedules v c)) (\<lambda>v. v) d
      (sqlGetSchedule tparse c d)
    \<and> (case fst (sqlGetSchedule tparse c d) of Inr _ \<Rightarrow> v_schedules (sqview tparse d) c \<noteq> None
       | Inl e \<Rightarrow> e = ErrNotFound \<longrightarrow> v_schedules (sqview tparse d) c = None)"
proof (cases "select ''get schedule'' (\<lambda>t. map_of (t_schedules t) c) d")
  case (Pair x d')
  have view: "v_schedules (sqview tparse d) = decoded (schedule_of tparse) (t_schedules (db_tables d))"
    by (simp add: sql_view_def)
  have same: "db_tables d' = db_tables d"
    using Pair by (auto simp: select_def stmt_def Let_def split: if_splits)
  show ?thesis
  proof (cases x)
    case (Inl err)
    then have "err = StoreFailure ''get schedule''"
      using Pair by (auto simp: select_def stmt_def Let_def split: if_splits)
    then show ?thesis using Pair Inl same assms by (simp add: sqlGetSchedule_def answers_def)
  next
    case (Inr found)
    have "select ''get schedule'' (\<lambda>t. map_of (t_schedules t) c) d = (Inr found, d')"
      using Pair Inr by simp
    from select_run [OF this] have found: "found = map_of (t_schedules (db_tables d)) c" by simp
    show ?thesis
    proof (cases found)
      case None
      then show ?thesis using Pair Inr same assms found
        by (simp add: sqlGetSchedule_def answers_def view decoded_def)
    next
      case (Some row)
      then have mem: "(c, row) \<in> set (t_schedules (db_tables d))"
        using found by (auto dest: map_of_SomeD)
      then obtain s where s: "schedule_of tparse (c, row) = Some s"
        using tables_readable(5) [OF assms] by (auto simp: readable_def)
      have "v_schedules (sqview tparse d) c = Some s"
        unfolding view using decoded_row [OF tables_readable(5) [OF assms] mem] s by simp
      then show ?thesis using Pair Inr Some same assms read_simps(4) [OF s, of d']
        by (simp add: sqlGetSchedule_def answers_def)
    qed
  qed
qed

lemma sqlIsRevoked_ok:
  assumes "sqok sha tfmt tparse d"
  shows "answers (sqok sha tfmt tparse) (sqview tparse) (\<lambda>v. v_revocations v n \<noteq> None) (\<lambda>v. v) d
    (sqlIsCertificateRevoked n d)"
proof (cases "sqlIsCertificateRevoked n d")
  case (Pair x d')
  have "map_of t n = None \<longleftrightarrow> n \<notin> fst ` set t" for t :: "(string \<times> revocation_row) list"
    by (simp add: map_of_eq_None_iff)
  then have "v_revocations (sqview tparse d) n = None \<longleftrightarrow> map_of (t_revocations (db_tables d)) n = None"
    using decoded_None [OF tables_readable(6) [OF assms], of n] by (simp add: sql_view_def)
  moreover have "x = Inr b \<Longrightarrow> b = (map_of (t_revocations (db_tables d)) n \<noteq> None)" for b
    using Pair select_run [of "''check certificate revocation''" "\<lambda>t. map_of (t_revocations t) n \<noteq> None" d b d']
    by (simp add: sqlIsCertificateRevoked_def)
  moreover have "db_tables d' = db_tables d"
    using Pair by (auto simp: sqlIsCertificateRevoked_def select_def stmt_def Let_def split: if_splits)
  ultimately show ?thesis using Pair assms by (cases x) (simp_all add: answers_def del: not_None_eq)
qed

section \<open>The contract holds\<close>

interpretation sql: repository_contract "Sqlite sha tfmt tparse" sha tfmt "sqok sha tfmt tparse"
  "sqview tparse" "valid_observation tfmt tparse" "storable_event tfmt tparse"
  "storable_schedule tfmt tparse" "storable_revocation tfmt tparse"
  for sha tfmt tparse
proof unfold_locales
  fix d :: db assume d: "sqok sha tfmt tparse d"
  show "view_ok sha tfmt (sqview tparse d)" using d by (simp add: sql_ok_def)
  show "case fst (GetSchedule (Sqlite sha tfmt tparse) c d) of
      Inl e \<Rightarrow> e = ErrNotFound \<longrightarrow> v_schedules (sqview tparse d) c = None
    | Inr _ \<Rightarrow> v_schedules (sqview tparse d) c \<noteq> None" for c
    using sqlGetSchedule_ok [OF d, of c] by (simp add: Sqlite_def)
  show "answers (sqok sha tfmt tparse) (sqview tparse) (\<lambda>v. v_revocations v n \<noteq> None) (\<lambda>v. v) d
      (IsCertificateRevoked (Sqlite sha tfmt tparse) n d)" for n
    unfolding Sqlite_def repository.select_convs by (rule sqlIsRevoked_ok [OF d])
qed (simp_all add: Sqlite_def sqlSave_ok sqlAppend_ok sqlUpsert_ok sqlDelete_ok sqlRevoke_ok
  sqlList_ok sqlListAssets_ok sqlGetSchedule_ok sqlIsRevoked_ok)

end
