(* ===== verification/Memory_Store.thy ===== *)
theory Memory_Store
  imports Repository
begin

text \<open>
  The in-memory backend, type \<open>Memory\<close> of \<open>internal/store/store.go\<close>. The mutex serialises the
  methods, so each one is a function on the whole state. Go iterates a map in an unspecified
  order; the lists the methods build from a map are sorted before they are returned, and the
  contract shows that the result depends on the map only.
\<close>

section \<open>State and operations\<close>

record memory =
  m_observations :: "observation list"
  m_observationIndex :: "nat gomap"
  m_assetClaims :: "asset_claim gomap gomap"
  m_relationships :: "resolved_relationship gomap"
  m_auditEntries :: "entry list"
  m_schedules :: "schedule gomap"
  m_revocations :: "certificate_revocation gomap"

definition NewMemory :: memory where
  "NewMemory = \<lparr>m_observations = [], m_observationIndex = [], m_assetClaims = [],
     m_relationships = [], m_auditEntries = [], m_schedules = [], m_revocations = []\<rparr>"

definition save_envelope :: "observation \<Rightarrow> memory \<Rightarrow> memory" where
  "save_envelope e m =
     (case map_of (m_observationIndex m) (ob_ObservationID e) of
        Some idx \<Rightarrow> m\<lparr>m_observations := (m_observations m)[idx := e]\<rparr>
      | None \<Rightarrow> m\<lparr>m_observationIndex :=
                   AList.update (ob_ObservationID e) (length (m_observations m)) (m_observationIndex m),
                 m_observations := m_observations m @ [e]\<rparr>)"

definition save_asset :: "(string \<Rightarrow> string) \<Rightarrow> observation \<Rightarrow> asset \<Rightarrow> memory \<Rightarrow> memory" where
  "save_asset sha e a m =
     (let aid = StableAssetID sha a;
          sourceKey = AssetSourceKey sha (ob_SiteID e) (ob_CollectorID e) (ob_Plugin e);
          claims = (case map_of (m_assetClaims m) aid of None \<Rightarrow> [] | Some cs \<Rightarrow> cs);
          claim = merge_claim e aid a (map_of claims sourceKey)
      in m\<lparr>m_assetClaims := AList.update aid (AList.update sourceKey claim claims) (m_assetClaims m)\<rparr>)"

definition save_relationship :: "(string \<Rightarrow> string) \<Rightarrow> observation \<Rightarrow> relationship \<Rightarrow> memory \<Rightarrow> memory" where
  "save_relationship sha e rel m =
     (let rid = StableRelationshipID sha rel;
          r = merge_relationship e rid rel (map_of (m_relationships m) rid)
      in m\<lparr>m_relationships := AList.update rid r (m_relationships m)\<rparr>)"

definition memSaveObservation :: "(string \<Rightarrow> string) \<Rightarrow> observation \<Rightarrow> memory \<Rightarrow> store_error option \<times> memory" where
  "memSaveObservation sha e m =
     (None, fold (save_relationship sha e) (ob_Relationships e)
              (fold (save_asset sha e) (ob_Assets e) (save_envelope e m)))"

definition memListObservations :: "memory \<Rightarrow> (store_error + observation list) \<times> memory" where
  "memListObservations m = (Inr (m_observations m), m)"

definition claim_less :: "(string \<Rightarrow> string) \<Rightarrow> asset_claim \<Rightarrow> asset_claim \<Rightarrow> bool" where
  "claim_less sha a b =
     (if cl_AssetID a \<noteq> cl_AssetID b then cl_AssetID a < cl_AssetID b
      else source_key sha (cl_Source a) < source_key sha (cl_Source b))"

definition memListAssetClaims :: "(string \<Rightarrow> string) \<Rightarrow> memory \<Rightarrow> (store_error + asset_claim list) \<times> memory" where
  "memListAssetClaims sha m =
     (let out = concat (map (\<lambda>(aid, claims). map snd claims) (m_assetClaims m))
      in (Inr (sort_slice (claim_less sha) out), m))"

definition memListAssets :: "(string \<Rightarrow> string) \<Rightarrow> memory \<Rightarrow> (store_error + resolved_asset list) \<times> memory" where
  "memListAssets sha m =
     (case fst (memListAssetClaims sha m) of
        Inl err \<Rightarrow> (Inl err, m)
      | Inr claims \<Rightarrow> (Inr (ResolveAssetClaims sha claims []), m))"

definition memListRelationships :: "memory \<Rightarrow> (store_error + resolved_relationship list) \<times> memory" where
  "memListRelationships m =
     (Inr (sort_slice (\<lambda>a b. rr_ID a < rr_ID b) (map snd (m_relationships m))), m)"

definition memAppendAuditEvent ::
  "(string \<Rightarrow> string) \<Rightarrow> (time \<Rightarrow> string) \<Rightarrow> time \<Rightarrow> event \<Rightarrow> memory \<Rightarrow> (store_error + entry) \<times> memory" where
  "memAppendAuditEvent sha tfmt now e m =
     (let n = length (m_auditEntries m);
          prevHash = (if n > 0 then en_Hash (m_auditEntries m ! (n - 1)) else []);
          ent = Chain sha tfmt prevHash (int (n + 1)) now e
      in (Inr ent, m\<lparr>m_auditEntries := m_auditEntries m @ [ent]\<rparr>))"

definition memListAuditEntries :: "memory \<Rightarrow> (store_error + entry list) \<times> memory" where
  "memListAuditEntries m = (Inr (m_auditEntries m), m)"

definition memUpsertSchedule :: "schedule \<Rightarrow> memory \<Rightarrow> store_error option \<times> memory" where
  "memUpsertSchedule s m =
     (None, m\<lparr>m_schedules := AList.update (sc_CollectorID s) s (m_schedules m)\<rparr>)"

definition memListSchedules :: "memory \<Rightarrow> (store_error + schedule list) \<times> memory" where
  "memListSchedules m =
     (Inr (sort_slice (\<lambda>a b. sc_CollectorID a < sc_CollectorID b) (map snd (m_schedules m))), m)"

definition memGetSchedule :: "string \<Rightarrow> memory \<Rightarrow> (store_error + schedule) \<times> memory" where
  "memGetSchedule collectorID m =
     (case map_of (m_schedules m) collectorID of
        None \<Rightarrow> (Inl ErrNotFound, m) | Some s \<Rightarrow> (Inr s, m))"

definition memDeleteSchedule :: "string \<Rightarrow> memory \<Rightarrow> store_error option \<times> memory" where
  "memDeleteSchedule collectorID m =
     (None, m\<lparr>m_schedules := AList.delete collectorID (m_schedules m)\<rparr>)"

definition memRevokeCertificate :: "certificate_revocation \<Rightarrow> memory \<Rightarrow> (store_error + bool) \<times> memory" where
  "memRevokeCertificate rv m =
     (case map_of (m_revocations m) (rv_SerialNumber rv) of
        Some _ \<Rightarrow> (Inr False, m)
      | None \<Rightarrow> (Inr True, m\<lparr>m_revocations :=
                   AList.update (rv_SerialNumber rv) rv (m_revocations m)\<rparr>))"

definition memListCertificateRevocations ::
  "memory \<Rightarrow> (store_error + certificate_revocation list) \<times> memory" where
  "memListCertificateRevocations m =
     (Inr (sort_slice (\<lambda>a b. rv_SerialNumber a < rv_SerialNumber b) (map snd (m_revocations m))), m)"

definition memIsCertificateRevoked :: "string \<Rightarrow> memory \<Rightarrow> (store_error + bool) \<times> memory" where
  "memIsCertificateRevoked serial m = (Inr (map_of (m_revocations m) serial \<noteq> None), m)"

definition Memory :: "(string \<Rightarrow> string) \<Rightarrow> (time \<Rightarrow> string) \<Rightarrow> memory repository" where
  "Memory sha tfmt =
     \<lparr>SaveObservation = memSaveObservation sha, ListObservations = memListObservations,
      ListAssetClaims = memListAssetClaims sha, ListAssets = memListAssets sha,
      ListRelationships = memListRelationships, AppendAuditEvent = memAppendAuditEvent sha tfmt,
      ListAuditEntries = memListAuditEntries, UpsertSchedule = memUpsertSchedule,
      ListSchedules = memListSchedules, GetSchedule = memGetSchedule,
      DeleteSchedule = memDeleteSchedule, RevokeCertificate = memRevokeCertificate,
      ListCertificateRevocations = memListCertificateRevocations,
      IsCertificateRevoked = memIsCertificateRevoked\<rparr>"

section \<open>Invariant and view\<close>

text \<open>
  The index maps each observation ID to its position, the nested claim maps and the other maps
  have distinct keys, and the abstract invariant holds.
\<close>

definition mem_claims :: "memory \<Rightarrow> string \<times> string \<rightharpoonup> asset_claim" where
  "mem_claims m = (\<lambda>(aid, k). Option.bind (map_of (m_assetClaims m) aid) (\<lambda>cs. map_of cs k))"

definition mem_view :: "memory \<Rightarrow> repo_view" where
  "mem_view m = \<lparr>v_observations = m_observations m, v_claims = mem_claims m,
     v_relationships = map_of (m_relationships m), v_audit = m_auditEntries m,
     v_schedules = map_of (m_schedules m), v_revocations = map_of (m_revocations m)\<rparr>"

definition index_ok :: "memory \<Rightarrow> bool" where
  "index_ok m \<longleftrightarrow> (\<forall>k i. map_of (m_observationIndex m) k = Some i \<longleftrightarrow>
     i < length (m_observations m) \<and> ob_ObservationID (m_observations m ! i) = k)"

definition nested_wf :: "asset_claim gomap gomap \<Rightarrow> bool" where
  "nested_wf cm \<longleftrightarrow> gm_wf cm \<and> (\<forall>aid cs. map_of cm aid = Some cs \<longrightarrow> gm_wf cs)"

definition mem_ok :: "(string \<Rightarrow> string) \<Rightarrow> (time \<Rightarrow> string) \<Rightarrow> memory \<Rightarrow> bool" where
  "mem_ok sha tfmt m \<longleftrightarrow> view_ok sha tfmt (mem_view m) \<and> index_ok m
     \<and> nested_wf (m_assetClaims m)
     \<and> gm_wf (m_relationships m) \<and> gm_wf (m_schedules m) \<and> gm_wf (m_revocations m)"

lemma mem_ok_New: "mem_ok sha tfmt NewMemory"
proof -
  have "mem_view NewMemory = empty_view"
    by (auto simp: mem_view_def NewMemory_def empty_view_def mem_claims_def)
  then show ?thesis by (simp add: mem_ok_def view_ok_empty index_ok_def nested_wf_def NewMemory_def)
qed

section \<open>Saving an observation\<close>

lemma index_ok_None:
  assumes "index_ok m"
  shows "map_of (m_observationIndex m) k = None \<longleftrightarrow> k \<notin> ob_ObservationID ` set (m_observations m)"
proof
  assume None: "map_of (m_observationIndex m) k = None"
  show "k \<notin> ob_ObservationID ` set (m_observations m)"
  proof
    assume "k \<in> ob_ObservationID ` set (m_observations m)"
    then obtain i where "i < length (m_observations m)" "ob_ObservationID (m_observations m ! i) = k"
      by (metis imageE in_set_conv_nth)
    then have "map_of (m_observationIndex m) k = Some i" using assms by (simp add: index_ok_def)
    then show False using None by simp
  qed
next
  assume notin: "k \<notin> ob_ObservationID ` set (m_observations m)"
  show "map_of (m_observationIndex m) k = None"
  proof (rule ccontr)
    assume "map_of (m_observationIndex m) k \<noteq> None"
    then obtain i where "map_of (m_observationIndex m) k = Some i" by blast
    then have "i < length (m_observations m)" "ob_ObservationID (m_observations m ! i) = k"
      using assms by (simp_all add: index_ok_def)
    then show False using notin by (metis imageI nth_mem)
  qed
qed

lemma save_envelope_observations:
  assumes "index_ok m" "distinct (map ob_ObservationID (m_observations m))"
  shows "m_observations (save_envelope e m) = put_observation e (m_observations m)"
proof (cases "map_of (m_observationIndex m) (ob_ObservationID e)")
  case None
  then have "ob_ObservationID e \<notin> ob_ObservationID ` set (m_observations m)"
    using index_ok_None [OF assms(1)] by blast
  then show ?thesis using None by (simp add: save_envelope_def put_observation_def)
next
  case (Some i)
  let ?os = "m_observations m"
  have i: "i < length ?os" "ob_ObservationID (?os ! i) = ob_ObservationID e"
    using Some assms(1) by (simp_all add: index_ok_def)
  then have mem: "ob_ObservationID e \<in> ob_ObservationID ` set ?os" by (metis imageI nth_mem)
  have eq: "ob_ObservationID (?os ! j) = ob_ObservationID e \<longleftrightarrow> j = i" if "j < length ?os" for j
    using nth_eq_iff_index_eq [OF assms(2), of j i] i that by simp
  have "?os[i := e] = map (\<lambda>x. if ob_ObservationID x = ob_ObservationID e then e else x) ?os"
    by (rule nth_equalityI) (simp_all add: nth_list_update eq)
  moreover have "m_observations (save_envelope e m) = ?os[i := e]"
    using Some by (simp add: save_envelope_def)
  ultimately show ?thesis using mem by (simp only: put_observation_def if_True)
qed

lemma save_envelope_index:
  assumes "index_ok m"
  shows "index_ok (save_envelope e m)"
proof (cases "map_of (m_observationIndex m) (ob_ObservationID e)")
  case None
  then have "\<forall>i < length (m_observations m). ob_ObservationID (m_observations m ! i) \<noteq> ob_ObservationID e"
    using assms by (metis index_ok_def option.distinct(1))
  moreover have "save_envelope e m = m\<lparr>m_observationIndex :=
      AList.update (ob_ObservationID e) (length (m_observations m)) (m_observationIndex m),
      m_observations := m_observations m @ [e]\<rparr>"
    using None by (simp add: save_envelope_def)
  ultimately show ?thesis using assms
    by (auto simp: index_ok_def nth_append less_Suc_eq)
next
  case (Some i)
  then have "save_envelope e m = m\<lparr>m_observations := (m_observations m)[i := e]\<rparr>"
    by (simp add: save_envelope_def)
  moreover have "i < length (m_observations m)"
    "ob_ObservationID (m_observations m ! i) = ob_ObservationID e"
    using Some assms by (simp_all add: index_ok_def)
  ultimately show ?thesis using assms by (auto simp: index_ok_def nth_list_update)
qed

lemma save_envelope_other [simp]:
  "m_assetClaims (save_envelope e m) = m_assetClaims m"
  "m_relationships (save_envelope e m) = m_relationships m"
  "m_auditEntries (save_envelope e m) = m_auditEntries m"
  "m_schedules (save_envelope e m) = m_schedules m"
  "m_revocations (save_envelope e m) = m_revocations m"
  "mem_claims (save_envelope e m) = mem_claims m"
  by (auto simp: save_envelope_def mem_claims_def split: option.splits)

lemma save_asset_claims: "mem_claims (save_asset sha e a m) = put_claim sha e a (mem_claims m)"
  by (auto simp: save_asset_def put_claim_def mem_claims_def observation_key_def Let_def fun_eq_iff
    split: option.splits)

lemma save_asset_wf: "nested_wf (m_assetClaims m) \<Longrightarrow> nested_wf (m_assetClaims (save_asset sha e a m))"
  by (auto simp: save_asset_def Let_def nested_wf_def split: option.splits)

lemma fold_save_asset:
  defines "M \<equiv> \<lambda>sha e as m. fold (save_asset sha e) as m"
  shows "mem_claims (M sha e as m) = fold (put_claim sha e) as (mem_claims m)"
    "m_observations (M sha e as m) = m_observations m"
    "m_observationIndex (M sha e as m) = m_observationIndex m"
    "m_relationships (M sha e as m) = m_relationships m"
    "m_auditEntries (M sha e as m) = m_auditEntries m"
    "m_schedules (M sha e as m) = m_schedules m"
    "m_revocations (M sha e as m) = m_revocations m"
    "nested_wf (m_assetClaims m) \<Longrightarrow> nested_wf (m_assetClaims (M sha e as m))"
proof -
  show "mem_claims (M sha e as m) = fold (put_claim sha e) as (mem_claims m)"
    by (induction as arbitrary: m) (simp_all add: M_def save_asset_claims)
  show "nested_wf (m_assetClaims m) \<Longrightarrow> nested_wf (m_assetClaims (M sha e as m))"
    by (induction as arbitrary: m) (simp_all add: M_def save_asset_wf)
qed (induction as arbitrary: m; simp add: M_def save_asset_def Let_def)+

lemma fold_save_relationship:
  defines "M \<equiv> \<lambda>sha e rs m. fold (save_relationship sha e) rs m"
  shows "map_of (m_relationships (M sha e rs m)) =
      fold (put_relationship sha e) rs (map_of (m_relationships m))"
    "m_observations (M sha e rs m) = m_observations m"
    "m_observationIndex (M sha e rs m) = m_observationIndex m"
    "m_assetClaims (M sha e rs m) = m_assetClaims m"
    "m_auditEntries (M sha e rs m) = m_auditEntries m"
    "m_schedules (M sha e rs m) = m_schedules m"
    "m_revocations (M sha e rs m) = m_revocations m"
    "gm_wf (m_relationships m) \<Longrightarrow> gm_wf (m_relationships (M sha e rs m))"
  by (induction rs arbitrary: m; simp add: M_def save_relationship_def put_relationship_def Let_def)+

lemma memSave_ok:
  assumes "mem_ok sha tfmt m"
  shows "writes (mem_ok sha tfmt) mem_view (spec_save sha e) m (memSaveObservation sha e m)"
proof -
  let ?m = "snd (memSaveObservation sha e m)"
  have ids: "distinct (map ob_ObservationID (m_observations m))" and ix: "index_ok m"
    and vok: "view_ok sha tfmt (mem_view m)"
    using assms by (simp_all add: mem_ok_def view_ok_def mem_view_def)
  note parts = fold_save_relationship fold_save_asset
  have claims: "mem_claims ?m = fold (put_claim sha e) (ob_Assets e) (mem_claims m)"
    using fold_save_asset(1) [of sha e "ob_Assets e" "save_envelope e m"]
    by (simp add: memSaveObservation_def mem_claims_def fold_save_relationship(4))
  have view: "mem_view ?m = spec_save sha e (mem_view m)"
    using claims
    by (simp add: mem_view_def spec_save_def memSaveObservation_def parts
      save_envelope_observations [OF ix ids])
  have "index_ok ?m"
    using save_envelope_index [OF ix, of e] by (simp add: index_ok_def memSaveObservation_def parts)
  moreover have "nested_wf (m_assetClaims ?m)"
    unfolding memSaveObservation_def snd_conv fold_save_relationship(4)
    using assms by (intro fold_save_asset(8)) (simp_all add: mem_ok_def)
  moreover have "gm_wf (m_relationships ?m)" "gm_wf (m_schedules ?m)" "gm_wf (m_revocations ?m)"
    using assms by (simp_all add: mem_ok_def memSaveObservation_def parts fold_save_relationship(8))
  ultimately have "mem_ok sha tfmt ?m" using view view_ok_save [OF vok] by (simp add: mem_ok_def)
  then show ?thesis using view by (simp add: writes_def memSaveObservation_def)
qed

section \<open>The other methods\<close>

lemma mem_ok_view:
  "mem_ok sha tfmt m \<Longrightarrow> view_ok sha tfmt (mem_view m)"
  by (simp add: mem_ok_def)

lemma memAppend_view:
  assumes "mem_ok sha tfmt m"
  shows "fst (memAppendAuditEvent sha tfmt now e m) = Inr (next_entry sha tfmt now e (mem_view m))"
    "mem_view (snd (memAppendAuditEvent sha tfmt now e m)) =
       (mem_view m)\<lparr>v_audit := v_audit (mem_view m) @ [next_entry sha tfmt now e (mem_view m)]\<rparr>"
  by (auto simp: memAppendAuditEvent_def next_entry_def mem_view_def tip_from_def Let_def
    last_conv_nth mem_claims_def add.commute)

lemma memAppend_ok:
  assumes "mem_ok sha tfmt m"
  shows "mem_ok sha tfmt (snd (memAppendAuditEvent sha tfmt now e m))"
  using assms view_ok_append [OF mem_ok_view [OF assms], of now e] memAppend_view(2) [OF assms, of now e]
  by (simp add: mem_ok_def index_ok_def) (simp add: memAppendAuditEvent_def Let_def)

lemma memUpsert_ok:
  assumes "mem_ok sha tfmt m"
  shows "writes (mem_ok sha tfmt) mem_view (spec_upsert s) m (memUpsertSchedule s m)"
proof -
  have "mem_view (snd (memUpsertSchedule s m)) = spec_upsert s (mem_view m)"
    by (simp add: memUpsertSchedule_def mem_view_def spec_upsert_def mem_claims_def)
  then show ?thesis using assms view_ok_upsert [OF mem_ok_view [OF assms], of s]
    by (simp add: writes_def mem_ok_def index_ok_def) (simp add: memUpsertSchedule_def)
qed

lemma memDelete_ok:
  assumes "mem_ok sha tfmt m"
  shows "writes (mem_ok sha tfmt) mem_view (spec_delete c) m (memDeleteSchedule c m)"
proof -
  have "mem_view (snd (memDeleteSchedule c m)) = spec_delete c (mem_view m)"
    by (simp add: memDeleteSchedule_def mem_view_def spec_delete_def mem_claims_def delete_conv'
      fun_upd_def restrict_map_def fun_eq_iff)
  then show ?thesis using assms view_ok_delete [OF mem_ok_view [OF assms], of c]
    by (simp add: writes_def mem_ok_def index_ok_def) (simp add: memDeleteSchedule_def distinct_delete)
qed

lemma memRevoke_ok:
  assumes "mem_ok sha tfmt m"
  shows "answers (mem_ok sha tfmt) mem_view (\<lambda>v. v_revocations v (rv_SerialNumber rv) = None)
    (spec_revoke rv) m (memRevokeCertificate rv m)"
proof -
  have "mem_view (snd (memRevokeCertificate rv m)) = spec_revoke rv (mem_view m)"
    by (simp add: memRevokeCertificate_def mem_view_def spec_revoke_def mem_claims_def
      split: option.splits)
  then show ?thesis using assms view_ok_revoke [OF mem_ok_view [OF assms], of rv]
    by (simp add: answers_def mem_ok_def index_ok_def)
      (auto simp: memRevokeCertificate_def mem_view_def split: option.splits)
qed

text \<open>The claims of all assets, with both keys, as one table.\<close>

definition claim_table :: "memory \<Rightarrow> ((string \<times> string) \<times> asset_claim) list" where
  "claim_table m = concat (map (\<lambda>(aid, cs). map (\<lambda>(k, c). ((aid, k), c)) cs) (m_assetClaims m))"

lemma claim_table_of:
  fixes cm :: "asset_claim gomap gomap"
  shows "gm_wf cm \<Longrightarrow>
   map_of (concat (map (\<lambda>(aid, cs). map (\<lambda>(k, c). ((aid, k), c)) cs) cm)) (x, y) =
     Option.bind (map_of cm x) (\<lambda>cs. map_of cs y)"
proof (induction cm)
  case (Cons p cm)
  obtain aid cs where p: "p = (aid, cs)" by (cases p)
  have row: "map_of (map (\<lambda>(k, c). ((aid, k), c)) cs) (x, y) = (if x = aid then map_of cs y else None)"
    for cs :: "asset_claim gomap"
    by (induction cs) auto
  show ?case
  proof (cases "x = aid")
    case True
    then have "map_of cm x = None" using Cons.prems p by (simp add: map_of_eq_None_iff)
    then have "map_of (concat (map (\<lambda>(aid, cs). map (\<lambda>(k, c). ((aid, k), c)) cs) cm)) (x, y) = None"
      using Cons by simp
    then show ?thesis using True p row by (simp add: map_add_def split: option.splits)
  next
    case False
    then show ?thesis using Cons p row by (simp add: map_add_def)
  qed
qed simp

lemma claim_table_distinct:
  "gm_wf cm \<Longrightarrow> (\<And>aid cs. (aid, cs) \<in> set cm \<Longrightarrow> gm_wf cs) \<Longrightarrow>
   distinct (map fst (concat (map (\<lambda>(aid, cs). map (\<lambda>(k, c). ((aid, k), c)) cs) cm)))"
proof (induction cm)
  case (Cons p cm)
  obtain aid cs where p: "p = (aid, cs)" by (cases p)
  have "distinct (map fst (map (\<lambda>(k, c). ((aid, k), c)) cs))"
  proof -
    have "map fst (map (\<lambda>(k, c). ((aid, k), c)) cs) = map (Pair aid) (map fst cs)" by auto
    moreover have "distinct (map fst cs)" using Cons.prems(2) [of aid cs] p by simp
    ultimately show ?thesis by (simp only: distinct_map [of "Pair aid"]) (simp add: inj_on_def)
  qed
  then show ?case using Cons p by (auto simp: image_iff)
qed simp

lemma memListAssetClaims_view:
  assumes "mem_ok sha tfmt m"
  shows "memListAssetClaims sha m = (Inr (sorted_values (v_claims (mem_view m))), m)"
proof -
  let ?t = "claim_table m"
  let ?f = "\<lambda>c. (cl_AssetID c, source_key sha (cl_Source c))"
  have wf: "nested_wf (m_assetClaims m)" using assms by (simp add: mem_ok_def)
  have t: "map_of ?t = mem_claims m"
    using wf by (auto simp: claim_table_def claim_table_of mem_claims_def nested_wf_def)
  have d: "distinct (map fst ?t)"
    unfolding claim_table_def using wf
    by (intro claim_table_distinct) (auto simp: nested_wf_def)
  have "?f c = k" if "(k, c) \<in> set ?t" for k c
  proof -
    have "mem_claims m k = Some c" using that d t by (metis gm_wf_lookup map_of_is_SomeI)
    then show ?thesis using mem_ok_view [OF assms]
      by (cases k) (simp add: view_ok_def mem_view_def)
  qed
  then have "sort_slice (\<lambda>a b. ?f a < ?f b) (map snd ?t) = sorted_values (mem_claims m)"
    using sort_slice_values [OF d, of ?f] unfolding t by blast
  moreover have "(\<lambda>a b. ?f a < ?f b) = claim_less sha"
    by (auto simp: claim_less_def fun_eq_iff less_prod_def)
  moreover have "map snd ?t = concat (map (\<lambda>(aid, cs). map snd cs) (m_assetClaims m))"
    by (auto simp: claim_table_def map_concat intro!: arg_cong [of _ _ concat] map_cong)
  ultimately show ?thesis by (simp add: memListAssetClaims_def mem_view_def)
qed

lemma mem_list_sorted:
  assumes "mem_ok sha tfmt m"
  shows "memListRelationships m = (Inr (sorted_values (v_relationships (mem_view m))), m)"
    "memListSchedules m = (Inr (sorted_values (v_schedules (mem_view m))), m)"
    "memListCertificateRevocations m = (Inr (sorted_values (v_revocations (mem_view m))), m)"
proof -
  note v = mem_ok_view [OF assms, unfolded view_ok_def mem_view_def, simplified]
  have w: "gm_wf (m_relationships m)" "gm_wf (m_schedules m)" "gm_wf (m_revocations m)"
    using assms by (simp_all add: mem_ok_def)
  show "memListRelationships m = (Inr (sorted_values (v_relationships (mem_view m))), m)"
    using sort_slice_map [OF w(1), of rr_ID] v by (simp add: memListRelationships_def mem_view_def)
  show "memListSchedules m = (Inr (sorted_values (v_schedules (mem_view m))), m)"
    using sort_slice_map [OF w(2), of sc_CollectorID] v by (simp add: memListSchedules_def mem_view_def)
  show "memListCertificateRevocations m = (Inr (sorted_values (v_revocations (mem_view m))), m)"
    using sort_slice_map [OF w(3), of rv_SerialNumber] v
    by (simp add: memListCertificateRevocations_def mem_view_def)
qed

section \<open>The contract holds\<close>

abbreviation anything :: "'a \<Rightarrow> bool" where "anything \<equiv> \<lambda>_. True"

interpretation mem: repository_contract "Memory sha tfmt" sha tfmt "mem_ok sha tfmt" mem_view
  anything "\<lambda>_. anything" anything anything
  for sha tfmt
proof unfold_locales
  fix m assume m: "mem_ok sha tfmt m"
  then show "view_ok sha tfmt (mem_view m)" by (rule mem_ok_view)
  show "writes (mem_ok sha tfmt) mem_view (spec_save sha e) m (SaveObservation (Memory sha tfmt) e m)" for e
    using memSave_ok [OF m] by (simp add: Memory_def)
  show "answers (mem_ok sha tfmt) mem_view (next_entry sha tfmt now ev)
      (\<lambda>v. v\<lparr>v_audit := v_audit v @ [next_entry sha tfmt now ev v]\<rparr>) m
      (AppendAuditEvent (Memory sha tfmt) now ev m)" for now ev
    using memAppend_ok [OF m] memAppend_view [OF m] by (simp add: answers_def Memory_def)
  show "writes (mem_ok sha tfmt) mem_view (spec_upsert s) m (UpsertSchedule (Memory sha tfmt) s m)" for s
    using memUpsert_ok [OF m] by (simp add: Memory_def)
  show "writes (mem_ok sha tfmt) mem_view (spec_delete c) m (DeleteSchedule (Memory sha tfmt) c m)" for c
    using memDelete_ok [OF m] by (simp add: Memory_def)
  show "answers (mem_ok sha tfmt) mem_view (\<lambda>v. v_revocations v (rv_SerialNumber rv) = None)
      (spec_revoke rv) m (RevokeCertificate (Memory sha tfmt) rv m)" for rv
    using memRevoke_ok [OF m] by (simp add: Memory_def)
  show "case fst (GetSchedule (Memory sha tfmt) c m) of
      Inl e \<Rightarrow> e = ErrNotFound \<longrightarrow> v_schedules (mem_view m) c = None
      | Inr _ \<Rightarrow> v_schedules (mem_view m) c \<noteq> None" for c
    by (simp add: Memory_def memGetSchedule_def mem_view_def split: option.splits)
  show "answers (mem_ok sha tfmt) mem_view (\<lambda>v. the (v_schedules v c)) (\<lambda>v. v) m
      (GetSchedule (Memory sha tfmt) c m)" for c
    using m by (simp add: Memory_def memGetSchedule_def answers_def mem_view_def split: option.splits)
  show "answers (mem_ok sha tfmt) mem_view (\<lambda>v. v_revocations v n \<noteq> None) (\<lambda>v. v) m
      (IsCertificateRevoked (Memory sha tfmt) n m)" for n
    using m by (simp add: Memory_def memIsCertificateRevoked_def answers_def mem_view_def)
  show "answers (mem_ok sha tfmt) mem_view v_audit (\<lambda>v. v) m (ListAuditEntries (Memory sha tfmt) m)"
    using m by (simp add: Memory_def memListAuditEntries_def answers_def mem_view_def)
  show "answers (mem_ok sha tfmt) mem_view v_observations (\<lambda>v. v) m
      (ListObservations (Memory sha tfmt) m)"
    using m by (simp add: Memory_def memListObservations_def answers_def mem_view_def)
qed (simp_all add: Memory_def answers_def memListAssets_def memListAssetClaims_view mem_list_sorted)

section \<open>Properties of the in-memory store\<close>

text \<open>
  C17: \<open>Memory.SaveObservation\<close> refines the abstract operation: it keeps the invariant (index,
  nested claim maps, audit chain) and changes the abstract state exactly as \<open>spec_save\<close> says,
  and saving the same envelope once more is a no-op.
\<close>

theorem memory_save_refines:
  assumes "mem_ok sha tfmt m" and "m' = snd (SaveObservation (Memory sha tfmt) e m)"
  shows "fst (SaveObservation (Memory sha tfmt) e m) = None \<and> mem_ok sha tfmt m'
    \<and> mem_view m' = spec_save sha e (mem_view m)
    \<and> mem_view (snd (SaveObservation (Memory sha tfmt) e m')) = mem_view m'"
proof -
  have never: "fst (SaveObservation (Memory sha tfmt) e x) = None" for x
    by (simp add: Memory_def memSaveObservation_def)
  have m': "mem_ok sha tfmt m' \<and> mem_view m' = spec_save sha e (mem_view m)"
    using mem.save [OF assms(1), of e] assms(2) never by (simp add: writes_def)
  then have "mem_view (snd (SaveObservation (Memory sha tfmt) e m')) = spec_save sha e (mem_view m')"
    using mem.save [of sha tfmt m' e] never by (simp add: writes_def)
  then show ?thesis using never m' by (simp add: spec_save_again)
qed

definition demo_observation :: "string \<Rightarrow> time \<Rightarrow> string \<Rightarrow> observation" where
  "demo_observation oid t name =
     \<lparr>ob_SchemaVersion = SchemaVersion, ob_ObservationID = oid, ob_SiteID = ''s'',
      ob_CollectorID = ''c'', ob_Plugin = ''p'', ob_JobID = [], ob_ObservedAt = t,
      ob_Assets = [\<lparr>as_Type = AssetHost, as_NativeID = ''n'', as_Name = name,
        as_Identifiers = [], as_Attributes = [], as_Evidence = []\<rparr>],
      ob_Relationships = [], ob_Errors = [], ob_Labels = []\<rparr>"

theorem memory_save_refines_witness:
  "mem_view (snd (SaveObservation (Memory (take 4) dec_int) (demo_observation ''o'' 5 ''a'') NewMemory)) =
     spec_save (take 4) (demo_observation ''o'' 5 ''a'') (mem_view NewMemory)"
  using memory_save_refines [OF mem_ok_New refl] by blast

text \<open>
  C18: after any sequence of observations, delivered in any order, the claim of a source about an
  asset carries the earliest and the latest time at which that source reported it, and the
  content of the latest report (the last delivered one among equally late ones): a delayed older
  observation never overwrites newer content.
\<close>

theorem memory_claim_is_latest:
  "summarises sha aid
     (mem_claims (fold (\<lambda>e m. snd (memSaveObservation sha e m)) es NewMemory) (aid, k))
     (reports_of sha aid k es)"
proof -
  have "mem_ok sha dec_int (fold (\<lambda>e m. snd (memSaveObservation sha e m)) es NewMemory)
    \<and> mem_view (fold (\<lambda>e m. snd (memSaveObservation sha e m)) es NewMemory) =
        fold (spec_save sha) es (mem_view NewMemory)"
  proof (induction es rule: rev_induct)
    case Nil
    then show ?case by (simp add: mem_ok_New)
  next
    case (snoc e es)
    let ?m = "fold (\<lambda>e m. snd (memSaveObservation sha e m)) es NewMemory"
    have "fst (memSaveObservation sha e ?m) = None" by (simp add: memSaveObservation_def)
    then show ?case using snoc memSave_ok [of sha dec_int ?m e] by (simp add: writes_def)
  qed
  moreover have "mem_view NewMemory = empty_view"
    by (auto simp: mem_view_def NewMemory_def empty_view_def mem_claims_def)
  ultimately show ?thesis using summarises_saved [of sha aid es k]
    by (metis mem_view_def repo_view.select_convs(2))
qed

abbreviation mem_able :: "repo_call \<Rightarrow> memory \<Rightarrow> bool" where
  "mem_able \<equiv> callable mem_view anything (\<lambda>_. anything) anything anything"

text \<open>
  C19: whatever a client does with a new in-memory store, the audit log it lists verifies, and it
  extends every log listed before.
\<close>

theorem memory_audit_verifies:
  assumes "calls (Memory sha tfmt) mem_able NewMemory m" "calls (Memory sha tfmt) mem_able m m'"
    and "fst (ListAuditEntries (Memory sha tfmt) m) = Inr es"
    and "fst (ListAuditEntries (Memory sha tfmt) m') = Inr es'"
  shows "VerifyChain sha tfmt es' = None \<and> prefix es es'"
proof -
  have m: "mem_ok sha tfmt m" using mem.calls_okr [OF assms(1) mem_ok_New] .
  then have "VerifyChain sha tfmt es' = None"
    using mem.calls_audit_verifies [OF assms(2) _ assms(4)] by blast
  moreover have "prefix es es'"
    using mem.calls_audit [OF assms(2) m] assms(3,4)
    by (simp add: Memory_def memListAuditEntries_def mem_view_def)
  ultimately show ?thesis by blast
qed

theorem memory_audit_verifies_witness:
  "\<exists>es es'. length es = 1 \<and> length es' = 2 \<and> VerifyChain (take 4) dec_int es' = None \<and> prefix es es'"
proof -
  let ?ev = "\<lparr>evt_Action = ''job_created'', evt_Actor = ''k'', evt_Detail = []\<rparr>"
  let ?M = "Memory (take 4) dec_int"
  let ?m = "call ?M (CallAppend 1 ?ev) NewMemory"
  let ?m' = "call ?M (CallAppend 2 ?ev) ?m"
  have one: "calls ?M mem_able NewMemory ?m" "calls ?M mem_able ?m ?m'"
    by (rule calls_step [OF calls_refl], simp)+
  show ?thesis
    using memory_audit_verifies [OF one, of "m_auditEntries ?m" "m_auditEntries ?m'"]
    by (intro exI [of _ "m_auditEntries ?m"] exI [of _ "m_auditEntries ?m'"])
      (simp add: Memory_def memListAuditEntries_def memAppendAuditEvent_def NewMemory_def Let_def)
qed

text \<open>
  A certificate revocation is permanent: once \<open>RevokeCertificate\<close> has returned, whether it
  recorded the serial or found it recorded, the serial is reported revoked after any further
  calls.
\<close>

theorem memory_revocation_permanent:
  assumes "mem_ok sha tfmt m"
    and "calls (Memory sha tfmt) mem_able (snd (RevokeCertificate (Memory sha tfmt) rv m)) m'"
  shows "fst (IsCertificateRevoked (Memory sha tfmt) (rv_SerialNumber rv) m') = Inr True"
proof -
  obtain b where b: "fst (RevokeCertificate (Memory sha tfmt) rv m) = Inr b"
    by (cases "map_of (m_revocations m) (rv_SerialNumber rv)")
      (auto simp: Memory_def memRevokeCertificate_def)
  obtain x where x: "fst (IsCertificateRevoked (Memory sha tfmt) (rv_SerialNumber rv) m') = Inr x"
    by (simp add: Memory_def memIsCertificateRevoked_def)
  then show ?thesis using mem.revoked_stays_revoked [OF assms(1) _ b assms(2) x] by simp
qed

theorem memory_revocation_permanent_witness:
  "fst (IsCertificateRevoked (Memory (take 4) dec_int) ''ab''
     (call (Memory (take 4) dec_int) (CallDelete ''c'')
       (snd (RevokeCertificate (Memory (take 4) dec_int)
          \<lparr>rv_SerialNumber = ''ab'', rv_Reason = ''lost'', rv_RevokedAt = 3\<rparr> NewMemory)))) = Inr True"
proof -
  let ?M = "Memory (take 4) dec_int"
  let ?m = "snd (RevokeCertificate ?M
    \<lparr>rv_SerialNumber = ''ab'', rv_Reason = ''lost'', rv_RevokedAt = 3\<rparr> NewMemory)"
  have "calls ?M mem_able ?m (call ?M (CallDelete ''c'') ?m)"
    by (rule calls_step [OF calls_refl]) simp
  from memory_revocation_permanent [OF mem_ok_New this] show ?thesis by simp
qed

end
