(* ===== verification/Sqlite_Properties.thy ===== *)
theory Sqlite_Properties
  imports Sqlite_Contract Memory_Store
begin

text \<open>
  What the SQLite store guarantees: atomic methods under statement failures, an audit log that
  always verifies, agreement with the in-memory store, and a migration that is all or nothing
  and rebuilds the claims of earlier schemas.
\<close>

section \<open>Atomicity\<close>

definition empty_tables :: tables where
  "empty_tables = \<lparr>t_version = 0, t_migrated = [], t_observations = [], t_assets = [],
     t_relationships = [], t_claims = [], t_audit = [], t_schedules = [], t_revocations = []\<rparr>"

definition fresh_db :: "bool list \<Rightarrow> db" where
  "fresh_db faults = \<lparr>db_tables = empty_tables, db_faults = faults, db_now = []\<rparr>"

lemma sqlite_view_fresh: "sqview tparse (fresh_db faults) = empty_view"
  by (auto simp: fresh_db_def empty_tables_def sql_view_def empty_view_def decoded_def)

lemma sqok_fresh: "sqok sha tfmt tparse (fresh_db faults)"
  using sqlite_view_fresh [of tparse faults] view_ok_empty [of sha tfmt]
  by (simp add: sql_ok_def) (simp add: rows_ok_def readable_def fresh_db_def empty_tables_def)

text \<open>
  C13: whichever statement fails, \<open>Store.SaveObservation\<close> either reports an error and leaves every
  table as it was, or succeeds and changes the abstract state exactly as the in-memory store
  does; the invariant holds in both cases.
\<close>

theorem sqlite_save_atomic:
  assumes "sqok sha tfmt tparse d" "valid_observation tfmt tparse e"
    and "SaveObservation (Sqlite sha tfmt tparse) e d = (err, d')"
  shows "sqok sha tfmt tparse d'
    \<and> (err = None \<longrightarrow> sqview tparse d' = spec_save sha e (sqview tparse d))
    \<and> (err \<noteq> None \<longrightarrow> db_tables d' = db_tables d)"
proof -
  have "db_tables d' = db_tables d" if e: "err \<noteq> None"
  proof -
    let ?q = "in_tx ''begin save observation'' ''commit save observation''
        (andThen (exec ''save observation'' (\<lambda>t. t\<lparr>t_observations :=
             upsert_observation tfmt (db_now d) e (t_observations t)\<rparr>)) (\<lambda>_.
         andThen (forEach (saveAsset sha tfmt tparse e) (ob_Assets e)) (\<lambda>_.
         forEach (saveRelationship sha tfmt e) (ob_Relationships e))))"
    obtain x where x: "?q d = (Inl x, d')"
      using assms(3) e by (auto simp: Sqlite_def sqlSaveObservation_def split: prod.splits sum.splits)
    then show ?thesis using atomic_in_tx unfolding atomic_def by blast
  qed
  then show ?thesis using sql.save [OF assms(1,2)] assms(3) by (auto simp: writes_def)
qed

theorem sqlite_save_atomic_witness:
  "db_tables (snd (SaveObservation (Sqlite (take 4) dec_int (\<lambda>_. Some 5)) sample_observation
     (fresh_db [False, False, False, False, True]))) = empty_tables"
proof -
  let ?R = "Sqlite (take 4) dec_int (\<lambda>_. Some 5)"
  let ?d = "fresh_db [False, False, False, False, True]"
  have valid: "valid_observation dec_int (\<lambda>_. Some 5) sample_observation"
    by (simp add: valid_observation_def sample_observation_def SchemaVersion_def AssetHost_def
      valid_asset_def valid_strings_def valid_evidence_def time_ok_def valid_utf8_def)
  have "fst (SaveObservation ?R sample_observation ?d) \<noteq> None"
    by (simp add: Sqlite_def sqlSaveObservation_def in_tx_def andThen_def exec_def select_def stmt_def
      fresh_db_def empty_tables_def sample_observation_def saveAsset_def saveAssetClaim_def
      insertClaim_def Let_def)
  then show ?thesis
    using sqlite_save_atomic [OF sqok_fresh valid surjective_pairing [of "SaveObservation ?R sample_observation ?d"]]
    by (simp add: fresh_db_def)
qed

section \<open>The audit log\<close>

abbreviation sql_able :: "(time \<Rightarrow> string) \<Rightarrow> (string \<Rightarrow> time option) \<Rightarrow> repo_call \<Rightarrow> db \<Rightarrow> bool" where
  "sql_able tfmt tparse \<equiv> callable (sqview tparse) (valid_observation tfmt tparse)
     (storable_event tfmt tparse) (storable_schedule tfmt tparse) (storable_revocation tfmt tparse)"

text \<open>
  Whatever is called on a SQLite store and whichever statements fail, an audit log that
  \<open>ListAuditEntries\<close> returns verifies and extends every log returned before.
\<close>

theorem sqlite_audit_verifies:
  assumes "calls (Sqlite sha tfmt tparse) (sql_able tfmt tparse) (fresh_db faults) d"
    and "calls (Sqlite sha tfmt tparse) (sql_able tfmt tparse) d d'"
    and "fst (ListAuditEntries (Sqlite sha tfmt tparse) d) = Inr es"
    and "fst (ListAuditEntries (Sqlite sha tfmt tparse) d') = Inr es'"
  shows "VerifyChain sha tfmt es' = None \<and> prefix es es'"
proof -
  have d: "sqok sha tfmt tparse d" using sql.calls_okr [OF assms(1) sqok_fresh] .
  have d': "sqok sha tfmt tparse d'" using sql.calls_okr [OF assms(2) d] .
  have "es = v_audit (sqview tparse d)" "es' = v_audit (sqview tparse d')"
    using sql.list_audit [OF d] sql.list_audit [OF d'] assms(3,4) by (auto simp: answers_def)
  then show ?thesis
    using sql.calls_audit [OF assms(2) d] sql.calls_audit_verifies [OF assms(2) d assms(4)] by simp
qed

definition sample_event :: event where
  "sample_event = \<lparr>evt_Action = ''job_created'', evt_Actor = ''k'', evt_Detail = []\<rparr>"

theorem sqlite_audit_verifies_witness:
  "\<exists>e. fst (ListAuditEntries (Sqlite (take 4) dec_int (\<lambda>_. Some 5))
      (snd (AppendAuditEvent (Sqlite (take 4) dec_int (\<lambda>_. Some 5)) 5 sample_event (fresh_db [])))) = Inr [e]
    \<and> VerifyChain (take 4) dec_int [e] = None"
proof -
  let ?R = "Sqlite (take 4) dec_int (\<lambda>_. Some 5)"
  let ?d = "snd (AppendAuditEvent ?R 5 sample_event (fresh_db []))"
  have "calls ?R (sql_able dec_int (\<lambda>_. Some 5)) (fresh_db []) (call ?R (CallAppend 5 sample_event) (fresh_db []))"
    by (rule calls_step [OF calls_refl])
      (simp add: storable_event_def time_ok_def valid_strings_def sample_event_def)
  then have c: "calls ?R (sql_able dec_int (\<lambda>_. Some 5)) (fresh_db []) ?d" by simp
  obtain e where e: "fst (ListAuditEntries ?R ?d) = Inr [e]"
    by (simp add: Sqlite_def sqlListAuditEntries_def sqlAppendAuditEvent_def in_tx_def andThen_def
      exec_def select_def stmt_def fresh_db_def empty_tables_def order_by_def return_def read_audit_def
      decode_def sample_event_def enc_gomap_def Let_def sort_slice_def)
  show ?thesis using sqlite_audit_verifies [OF c calls_refl e e] e by blast
qed

section \<open>Agreement with the in-memory store\<close>

definition call_ok :: "'r repository \<Rightarrow> repo_call \<Rightarrow> 'r \<Rightarrow> bool" where
  "call_ok R c r = (case c of
     CallSave e \<Rightarrow> fst (SaveObservation R e r) = None
   | CallAppend now ev \<Rightarrow> \<not> isl (fst (AppendAuditEvent R now ev r))
   | CallUpsert s \<Rightarrow> fst (UpsertSchedule R s r) = None
   | CallDelete x \<Rightarrow> fst (DeleteSchedule R x r) = None
   | CallRevoke rv \<Rightarrow> \<not> isl (fst (RevokeCertificate R rv r))
   | CallListAudit \<Rightarrow> True
   | CallIsRevoked n \<Rightarrow> True)"

fun run_calls :: "'r repository \<Rightarrow> (repo_call \<Rightarrow> 'r \<Rightarrow> bool) \<Rightarrow> repo_call list \<Rightarrow> 'r \<Rightarrow> 'r option" where
  "run_calls R able [] r = Some r"
| "run_calls R able (c # cs) r =
     (if able c r \<and> call_ok R c r then run_calls R able cs (call R c r) else None)"

text \<open>The outcome of a successful call on the abstract state.\<close>

context repository_contract
begin

lemma call_ok_view:
  assumes "okr r" "able c r" "call_ok R c r"
  shows "okr (call R c r) \<and> view (call R c r) = spec_call sha tfmt c (view r)"
proof (cases c)
  case (CallSave e)
  then show ?thesis using save [OF assms(1)] assms(2,3) by (simp add: call_ok_def writes_def)
next
  case (CallAppend now ev)
  then show ?thesis using append_audit [OF assms(1), of now ev] assms(2,3)
    by (auto simp: call_ok_def answers_def split: sum.splits)
next
  case (CallUpsert s)
  then show ?thesis using upsert [OF assms(1)] assms(2,3) by (simp add: call_ok_def writes_def)
next
  case (CallDelete x)
  then show ?thesis using delete [OF assms(1)] assms(2,3) by (simp add: call_ok_def writes_def)
next
  case (CallRevoke rv)
  then show ?thesis using revoke [OF assms(1), of rv] assms(2,3)
    by (auto simp: call_ok_def answers_def split: sum.splits)
next
  case CallListAudit
  then show ?thesis using list_audit [OF assms(1)] by (auto simp: answers_def split: sum.splits)
next
  case (CallIsRevoked n)
  then show ?thesis using is_revoked [OF assms(1), of n] by (auto simp: answers_def split: sum.splits)
qed

lemma run_calls_view:
  "okr r \<Longrightarrow> run_calls R able cs r = Some s \<Longrightarrow>
     okr s \<and> view s = fold (spec_call sha tfmt) cs (view r)"
proof (induction cs arbitrary: r)
  case (Cons c cs)
  then show ?case using call_ok_view [of r c] by (auto split: if_splits)
qed simp

end

lemma memory_never_fails: "call_ok (Memory sha tfmt) c m"
  by (auto simp: call_ok_def Memory_def memSaveObservation_def memAppendAuditEvent_def
    memUpsertSchedule_def memDeleteSchedule_def memRevokeCertificate_def Let_def
    split: repo_call.splits option.splits)

lemma answers_value: "answers okr view f g r x \<Longrightarrow> fst x = Inr y \<Longrightarrow> y = f (view r)"
  by (auto simp: answers_def split: sum.splits)

text \<open>Two backends in the same abstract state answer a read alike, where the second one never fails.\<close>

lemma answers_alike:
  assumes "answers okr view f g r x" "answers okr' view' f g' r' x'" "view r = view' r'" "\<exists>y. fst x' = Inr y" "fst x = Inr y"
  shows "fst x' = Inr y"
  using answers_value [OF assms(1,5)] answers_value [OF assms(2)] assms(3,4) by auto

lemma memory_reads:
  "\<exists>y. fst (ListObservations (Memory sha tfmt) m) = Inr y" "\<exists>y. fst (ListAssetClaims (Memory sha tfmt) m) = Inr y"
  "\<exists>y. fst (ListAssets (Memory sha tfmt) m) = Inr y" "\<exists>y. fst (ListRelationships (Memory sha tfmt) m) = Inr y"
  "\<exists>y. fst (ListAuditEntries (Memory sha tfmt) m) = Inr y" "\<exists>y. fst (ListSchedules (Memory sha tfmt) m) = Inr y"
  "\<exists>y. fst (ListCertificateRevocations (Memory sha tfmt) m) = Inr y" "\<exists>y. fst (IsCertificateRevoked (Memory sha tfmt) n m) = Inr y"
  by (auto simp: Memory_def memListObservations_def memListAssetClaims_def memListAssets_def memListRelationships_def
      memListAuditEntries_def memListSchedules_def memListCertificateRevocations_def memIsCertificateRevoked_def Let_def)

text \<open>
  C25: the two backends are interchangeable. After a sequence of calls that both carry out, the SQLite
  and the in-memory store have the same observable content, and every read that SQLite answers (the
  observations, claims, assets, relationships, audit log, schedules, revocations, one schedule, one
  revocation check) the in-memory store answers alike. The calls carried out are the storable ones, so no
  \<open>UpsertSchedule\<close> that would change the creation time of an existing schedule: on those the backends differ.
\<close>

theorem backends_agree:
  assumes "run_calls (Sqlite sha tfmt tparse) (sql_able tfmt tparse) cs (fresh_db faults) = Some d"
    and "run_calls (Memory sha tfmt) mem_able cs NewMemory = Some m"
  shows "sqview tparse d = mem_view m
    \<and> (\<forall>x. fst (ListObservations (Sqlite sha tfmt tparse) d) = Inr x \<longrightarrow> fst (ListObservations (Memory sha tfmt) m) = Inr x)
    \<and> (\<forall>x. fst (ListAssetClaims (Sqlite sha tfmt tparse) d) = Inr x \<longrightarrow> fst (ListAssetClaims (Memory sha tfmt) m) = Inr x)
    \<and> (\<forall>x. fst (ListAssets (Sqlite sha tfmt tparse) d) = Inr x \<longrightarrow> fst (ListAssets (Memory sha tfmt) m) = Inr x)
    \<and> (\<forall>x. fst (ListRelationships (Sqlite sha tfmt tparse) d) = Inr x \<longrightarrow> fst (ListRelationships (Memory sha tfmt) m) = Inr x)
    \<and> (\<forall>x. fst (ListAuditEntries (Sqlite sha tfmt tparse) d) = Inr x \<longrightarrow> fst (ListAuditEntries (Memory sha tfmt) m) = Inr x)
    \<and> (\<forall>x. fst (ListSchedules (Sqlite sha tfmt tparse) d) = Inr x \<longrightarrow> fst (ListSchedules (Memory sha tfmt) m) = Inr x)
    \<and> (\<forall>x. fst (ListCertificateRevocations (Sqlite sha tfmt tparse) d) = Inr x
         \<longrightarrow> fst (ListCertificateRevocations (Memory sha tfmt) m) = Inr x)
    \<and> (\<forall>n x. fst (IsCertificateRevoked (Sqlite sha tfmt tparse) n d) = Inr x
         \<longrightarrow> fst (IsCertificateRevoked (Memory sha tfmt) n m) = Inr x)
    \<and> (\<forall>c x. fst (GetSchedule (Sqlite sha tfmt tparse) c d) = Inr x \<longrightarrow> fst (GetSchedule (Memory sha tfmt) c m) = Inr x)
    \<and> (\<forall>c. fst (GetSchedule (Sqlite sha tfmt tparse) c d) = Inl ErrNotFound \<longrightarrow> fst (GetSchedule (Memory sha tfmt) c m) = Inl ErrNotFound)"
proof -
  have empty: "mem_view NewMemory = empty_view"
    by (auto simp: mem_view_def NewMemory_def empty_view_def mem_claims_def)
  have d: "sqok sha tfmt tparse d" "sqview tparse d = fold (spec_call sha tfmt) cs empty_view"
    using sql.run_calls_view [OF sqok_fresh assms(1)] by (simp_all only: sqlite_view_fresh)
  have m: "mem_ok sha tfmt m" "mem_view m = fold (spec_call sha tfmt) cs empty_view"
    using mem.run_calls_view [OF mem_ok_New assms(2)] empty by simp_all
  have eq: "sqview tparse d = mem_view m" using d(2) m(2) by simp
  have get: "fst (GetSchedule (Memory sha tfmt) c m) = (case v_schedules (mem_view m) c of None \<Rightarrow> Inl ErrNotFound | Some s \<Rightarrow> Inr s)" for c
    by (simp add: Memory_def memGetSchedule_def mem_view_def split: option.split)
  have found: "fst (GetSchedule (Memory sha tfmt) c m) = Inr x" if "fst (GetSchedule (Sqlite sha tfmt tparse) c d) = Inr x" for c x
    using sql.get_schedule_found [OF d(1), of c] answers_value [OF sql.get_schedule [OF d(1)] that] that eq
    unfolding get by (auto split: option.splits)
  have missing: "fst (GetSchedule (Memory sha tfmt) c m) = Inl ErrNotFound" if "fst (GetSchedule (Sqlite sha tfmt tparse) c d) = Inl ErrNotFound" for c
    using sql.get_schedule_found [OF d(1), of c] that eq unfolding get by (auto split: option.splits)
  show ?thesis
    by (intro conjI allI impI eq found missing
      answers_alike [OF sql.list_observations [OF d(1)] mem.list_observations [OF m(1)] eq memory_reads(1)]
      answers_alike [OF sql.list_claims [OF d(1)] mem.list_claims [OF m(1)] eq memory_reads(2)]
      answers_alike [OF sql.list_assets [OF d(1)] mem.list_assets [OF m(1)] eq memory_reads(3)]
      answers_alike [OF sql.list_relationships [OF d(1)] mem.list_relationships [OF m(1)] eq memory_reads(4)]
      answers_alike [OF sql.list_audit [OF d(1)] mem.list_audit [OF m(1)] eq memory_reads(5)]
      answers_alike [OF sql.list_schedules [OF d(1)] mem.list_schedules [OF m(1)] eq memory_reads(6)]
      answers_alike [OF sql.list_revocations [OF d(1)] mem.list_revocations [OF m(1)] eq memory_reads(7)]
      answers_alike [OF sql.is_revoked [OF d(1)] mem.is_revoked [OF m(1)] eq memory_reads(8)])
qed

definition sample_calls :: "repo_call list" where
  "sample_calls = [CallAppend 5 sample_event, CallDelete ''c'',
     CallRevoke \<lparr>rv_SerialNumber = ''ab'', rv_Reason = ''lost'', rv_RevokedAt = 5\<rparr>]"

theorem backends_agree_witness:
  "\<exists>d m. run_calls (Sqlite (take 4) dec_int (\<lambda>_. Some 5)) (sql_able dec_int (\<lambda>_. Some 5)) sample_calls
       (fresh_db []) = Some d
     \<and> run_calls (Memory (take 4) dec_int) mem_able sample_calls NewMemory = Some m
     \<and> sqview (\<lambda>_. Some 5) d = mem_view m"
proof -
  let ?R = "Sqlite (take 4) dec_int (\<lambda>_. Some 5)"
  obtain d where d: "run_calls ?R (sql_able dec_int (\<lambda>_. Some 5)) sample_calls (fresh_db []) = Some d"
    by (simp add: sample_calls_def call_ok_def storable_event_def storable_revocation_def time_ok_def
      valid_strings_def sample_event_def Sqlite_def sqlAppendAuditEvent_def in_tx_def andThen_def
      exec_def select_def stmt_def fresh_db_def empty_tables_def order_by_def return_def Let_def
      sqlDeleteSchedule_def sqlRevokeCertificate_def)
  obtain m where m: "run_calls (Memory (take 4) dec_int) mem_able sample_calls NewMemory = Some m"
    by (simp add: sample_calls_def memory_never_fails)
  show ?thesis using backends_agree [OF d m] d m by blast
qed

section \<open>Migration\<close>

text \<open>
  A database that an older release wrote: schema version \<open>v\<close>, its migrations applied, no claims
  table content yet, and readable envelopes that are valid observations.
\<close>

definition legacy :: "(time \<Rightarrow> string) \<Rightarrow> (string \<Rightarrow> time option) \<Rightarrow> int \<Rightarrow> tables \<Rightarrow> bool" where
  "legacy tfmt tparse v t \<longleftrightarrow> 0 \<le> v \<and> v < schemaVersion \<and> t_version t = v \<and> t_migrated t = [1..v]
     \<and> t_claims t = []
     \<and> (\<forall>r \<in> set (t_observations t). \<exists>e. envelope_of tparse r = Some e \<and> valid_observation tfmt tparse e)"

lemma v_claims_fold_save:
  "v_claims (fold (spec_save sha) es v) =
     fold (\<lambda>e. fold (put_claim sha e) (ob_Assets e)) es (v_claims v)"
  by (induction es arbitrary: v) (simp_all add: spec_save_def)

text \<open>Backfilling runs \<open>saveAssetClaim\<close> for every asset of every stored envelope.\<close>

lemma hoare_backfill:
  assumes "\<forall>r \<in> set (t_observations u). \<exists>e. envelope_of tparse r = Some e \<and> valid_observation tfmt tparse e"
  shows "hoare (claims_mean tfmt tparse u m) (backfillAssetClaims sha tfmt tparse)
    (\<lambda>_. claims_mean tfmt tparse u (fold (\<lambda>e. fold (put_claim sha e) (ob_Assets e))
       (map (the \<circ> envelope_of tparse) (t_observations u)) m))"
proof -
  let ?es = "map (the \<circ> envelope_of tparse) (t_observations u)"
  have valid: "valid_observation tfmt tparse e" if "e \<in> set ?es" for e
    using that assms by force
  have each: "hoare (claims_mean tfmt tparse u m) (forEach (\<lambda>a. saveAssetClaim sha tfmt tparse e
      (StableAssetID sha a) (enc_asset tfmt a)) (ob_Assets e))
    (\<lambda>_. claims_mean tfmt tparse u (fold (put_claim sha e) (ob_Assets e) m))"
    if "e \<in> set ?es" for e m
  proof -
    have ok: "time_ok tfmt tparse (ob_ObservedAt e)" "\<forall>a \<in> set (ob_Assets e). valid_asset tfmt tparse a"
      using valid [OF that] by (auto simp: valid_observation_def list_all_iff)
    have "hoare (claims_mean tfmt tparse u m) (forEach (\<lambda>a. saveAssetClaim sha tfmt tparse e
        (StableAssetID sha a) (enc_asset tfmt a)) as)
      (\<lambda>_. claims_mean tfmt tparse u (fold (put_claim sha e) as m))"
      if "\<forall>a \<in> set as. valid_asset tfmt tparse a" for as m
      using that
    proof (induction as arbitrary: m)
      case (Cons a as)
      then show ?case
        by (auto intro!: hoare_andThen [OF hoare_saveAssetClaim [OF ok(1)]])
    qed (auto intro: hoare_return)
    then show ?thesis using ok(2) by blast
  qed
  have all: "hoare (claims_mean tfmt tparse u m) (forEach (\<lambda>e. forEach (\<lambda>a. saveAssetClaim sha tfmt tparse e
      (StableAssetID sha a) (enc_asset tfmt a)) (ob_Assets e)) es)
    (\<lambda>_. claims_mean tfmt tparse u (fold (\<lambda>e. fold (put_claim sha e) (ob_Assets e)) es m))"
    if "set es \<subseteq> set ?es" for es m
    using that
  proof (induction es arbitrary: m)
    case (Cons e es)
    then show ?case by (auto intro!: hoare_andThen [OF each])
  qed (auto intro: hoare_return)
  have rows: "hoare (claims_mean tfmt tparse u m) (select ''list observations'' t_observations)
      (\<lambda>rows t. rows = t_observations u \<and> claims_mean tfmt tparse u m t)"
    by (rule hoare_select) (auto simp: claims_mean_def)
  have decoded: "hoare (\<lambda>t. rows = t_observations u \<and> claims_mean tfmt tparse u m t)
      (decode_rows (read_observation tparse) rows)
      (\<lambda>es t. es = ?es \<and> claims_mean tfmt tparse u m t)" for rows
  proof (cases "rows = t_observations u")
    case True
    have "decode_rows (read_observation tparse) rows d = (Inr ?es, d)" for d
      unfolding True by (rule decode_rows_all) (use assms read_envelope(2) in fastforce)
    then show ?thesis using True by (simp add: hoare_def)
  qed (simp add: hoare_def)
  have "hoare (\<lambda>t. es = ?es \<and> claims_mean tfmt tparse u m t)
    (forEach (\<lambda>e. forEach (\<lambda>a. saveAssetClaim sha tfmt tparse e
      (StableAssetID sha a) (enc_asset tfmt a)) (ob_Assets e)) es)
    (\<lambda>_. claims_mean tfmt tparse u (fold (\<lambda>e. fold (put_claim sha e) (ob_Assets e)) ?es m))" for es
  proof (cases "es = ?es")
    case True
    then show ?thesis using all [of ?es m] by simp
  qed (simp add: hoare_def)
  then show ?thesis unfolding backfillAssetClaims_def
    by (intro hoare_andThen [OF rows] hoare_andThen [OF decoded])
qed

lemma forEach_append: "forEach f (xs @ ys) = andThen (forEach f xs) (\<lambda>_. forEach f ys)"
proof -
  have assoc: "andThen (andThen p q) r = andThen p (\<lambda>x. andThen (q x) r)" for p :: "unit query" and q r
    by (auto simp: andThen_def fun_eq_iff split: prod.splits sum.splits)
  have left: "andThen (return ()) q = q ()" for q :: "unit \<Rightarrow> unit query"
    by (simp add: andThen_def return_def fun_eq_iff)
  show ?thesis by (induction xs) (simp_all add: assoc left)
qed

lemma hoare_run_migration:
  "hoare (\<lambda>t. t = s) (run_migration v) (\<lambda>_ t. t = s\<lparr>t_migrated := t_migrated s @ [v]\<rparr>)"
  unfolding run_migration_def by (rule hoare_stmt) (auto split: if_splits)

lemma hoare_migrate_early:
  assumes "v \<noteq> 5"
  shows "hoare (\<lambda>t. True \<and> t = s) (migrate_to sha tfmt tparse v)
    (\<lambda>_ t. True \<and> t = s\<lparr>t_migrated := t_migrated s @ [v], t_version := v\<rparr>)"
proof (cases "v \<in> set migration_versions")
  case True
  let ?s = "s\<lparr>t_migrated := t_migrated s @ [v]\<rparr>"
  have one: "hoare (\<lambda>t. True \<and> t = s) (run_migration v) (\<lambda>_ t. t = ?s)"
    using hoare_run_migration by simp
  have two: "hoare (\<lambda>t. t = ?s) (if v = 5 then backfillAssetClaims sha tfmt tparse else return ())
      (\<lambda>_ t. t = ?s)"
    using assms by (simp add: hoare_return)
  have three: "hoare (\<lambda>t. t = ?s) (exec ''set schema version'' (\<lambda>t. t\<lparr>t_version := v\<rparr>))
      (\<lambda>_ t. True \<and> t = s\<lparr>t_migrated := t_migrated s @ [v], t_version := v\<rparr>)"
    by (rule hoare_exec) simp
  have "hoare (\<lambda>t. True \<and> t = s) (andThen (run_migration v) (\<lambda>_.
        andThen (if v = 5 then backfillAssetClaims sha tfmt tparse else return ()) (\<lambda>_.
        exec ''set schema version'' (\<lambda>t. t\<lparr>t_version := v\<rparr>))))
      (\<lambda>_ t. True \<and> t = s\<lparr>t_migrated := t_migrated s @ [v], t_version := v\<rparr>)"
    by (rule hoare_andThen [OF one], rule hoare_andThen [OF two], rule three)
  then show ?thesis unfolding migrate_to_def using True by simp
qed (simp add: migrate_to_def hoare_fail)

lemma fold_migrate:
  "fold (\<lambda>v s. s\<lparr>t_migrated := t_migrated s @ [v], t_version := v\<rparr>) vs s =
     s\<lparr>t_migrated := t_migrated s @ vs, t_version := (if vs = [] then t_version s else last vs)\<rparr>"
  by (induction vs arbitrary: s) simp_all

definition migrated :: "(string \<Rightarrow> string) \<Rightarrow> (string \<Rightarrow> time option) \<Rightarrow> tables \<Rightarrow> tables \<Rightarrow> bool" where
  "migrated sha tparse t t' \<longleftrightarrow> t_version t' = schemaVersion \<and> t_migrated t' = migration_versions
     \<and> t_observations t' = t_observations t \<and> t_relationships t' = t_relationships t
     \<and> t_audit t' = t_audit t \<and> t_schedules t' = t_schedules t \<and> t_revocations t' = t_revocations t
     \<and> (\<forall>aid k. summarises sha aid (decoded (claim_of tparse) (t_claims t') (aid, k))
          (reports_of sha aid k (map (the \<circ> envelope_of tparse) (t_observations t))))"

lemma hoare_migrate_last:
  assumes "\<forall>r \<in> set (t_observations s). \<exists>e. envelope_of tparse r = Some e \<and> valid_observation tfmt tparse e"
    and "t_claims s = []" "t_migrated s = [1..4]"
  shows "hoare (\<lambda>t. t = s) (migrate_to sha tfmt tparse 5) (\<lambda>_ t. migrated sha tparse s t)"
proof -
  let ?s = "s\<lparr>t_migrated := t_migrated s @ [5]\<rparr>"
  let ?u = "?s\<lparr>t_claims := [], t_assets := []\<rparr>"
  let ?es = "map (the \<circ> envelope_of tparse) (t_observations s)"
  let ?m = "fold (\<lambda>e. fold (put_claim sha e) (ob_Assets e)) ?es Map.empty"
  have one: "hoare (\<lambda>t. t = s) (run_migration 5) (\<lambda>_. claims_mean tfmt tparse ?u Map.empty)"
    using hoare_run_migration by (rule hoare_weaken)
      (auto simp: claims_mean_def claims_ok_def readable_def decoded_def assms(2))
  have two: "hoare (claims_mean tfmt tparse ?u Map.empty) (backfillAssetClaims sha tfmt tparse)
      (\<lambda>_. claims_mean tfmt tparse ?u ?m)"
    using hoare_backfill [of ?u tparse tfmt Map.empty sha] assms(1) by simp
  have claims: "?m = v_claims (fold (spec_save sha) ?es empty_view)"
    by (simp add: v_claims_fold_save empty_view_def)
  have three: "hoare (claims_mean tfmt tparse ?u ?m) (exec ''set schema version'' (\<lambda>t. t\<lparr>t_version := 5\<rparr>))
      (\<lambda>_ t. migrated sha tparse s t)"
  proof (rule hoare_exec)
    fix t assume t: "claims_mean tfmt tparse ?u ?m t"
    then have eq: "t\<lparr>t_claims := [], t_assets := []\<rparr> = ?u" and c: "decoded (claim_of tparse) (t_claims t) = ?m"
      by (simp_all add: claims_mean_def)
    have "t_migrated t = migration_versions"
      using arg_cong [OF eq, of t_migrated] assms(3) by (simp add: migration_versions_def upto.simps)
    then show "migrated sha tparse s (t\<lparr>t_version := 5\<rparr>)"
      using arg_cong [OF eq, of t_observations] arg_cong [OF eq, of t_relationships]
        arg_cong [OF eq, of t_audit] arg_cong [OF eq, of t_schedules] arg_cong [OF eq, of t_revocations]
        summarises_saved [of sha _ ?es]
      by (simp add: migrated_def schemaVersion_def c claims)
  qed
  have "(5 :: int) \<in> set migration_versions" by (simp add: migration_versions_def)
  then show ?thesis unfolding migrate_to_def
    by (auto intro: hoare_andThen [OF one] hoare_andThen [OF two] three)
qed

lemma hoare_migrate:
  assumes "legacy tfmt tparse v s"
  shows "hoare (\<lambda>t. t = s) (migrate sha tfmt tparse) (\<lambda>_ t. migrated sha tparse s t)"
proof -
  let ?vs = "[v + 1..4]"
  let ?s = "fold (\<lambda>v s. s\<lparr>t_migrated := t_migrated s @ [v], t_version := v\<rparr>) ?vs s"
  have v: "0 \<le> v" "v < 5" using assms by (simp_all add: legacy_def schemaVersion_def)
  then have split: "[v + 1..5] = ?vs @ [5]" using upto_rec2 [of "v + 1" 5] by simp
  have early: "hoare (\<lambda>t. t = s) (forEach (migrate_to sha tfmt tparse) ?vs) (\<lambda>_ t. t = ?s)"
    using hoare_forEach [where I = "\<lambda>_. True" and w = "\<lambda>t. t" and xs = ?vs and v = s
        and f = "migrate_to sha tfmt tparse"
        and g = "\<lambda>v s. s\<lparr>t_migrated := t_migrated s @ [v], t_version := v\<rparr>"] hoare_migrate_early by simp
  have "v = 0 \<or> v = 1 \<or> v = 2 \<or> v = 3 \<or> v = 4" using v by auto
  then have "[1..v] @ [v + 1..4] = [1..4]" by (elim disjE) (simp_all add: upto.simps)
  then have s: "t_observations ?s = t_observations s" "t_claims ?s = []" "t_migrated ?s = [1..4]"
    using assms by (simp_all add: fold_migrate legacy_def)
  have "hoare (\<lambda>t. t = ?s) (migrate_to sha tfmt tparse 5) (\<lambda>_ t. migrated sha tparse ?s t)"
    using assms s by (intro hoare_migrate_last) (simp_all add: legacy_def)
  moreover have "migrated sha tparse ?s t \<longleftrightarrow> migrated sha tparse s t" for t
    by (simp add: migrated_def fold_migrate)
  moreover have "forEach (migrate_to sha tfmt tparse) [5] =
      andThen (migrate_to sha tfmt tparse 5) (\<lambda>_. return ())" by simp
  ultimately have "hoare (\<lambda>t. t = s) (forEach (migrate_to sha tfmt tparse) [v + 1..5])
      (\<lambda>_ t. migrated sha tparse s t)"
    unfolding split forEach_append by (auto intro!: hoare_andThen [OF early] hoare_andThen hoare_return)
  then have tx: "hoare (\<lambda>t. t = s) (in_tx ''begin schema migration'' ''commit schema migration''
      (forEach (migrate_to sha tfmt tparse) [v + 1..schemaVersion])) (\<lambda>_ t. migrated sha tparse s t)"
    by (intro hoare_in_tx) (simp add: schemaVersion_def)
  have "hoare (\<lambda>t. t = s) (select ''read schema version'' t_version) (\<lambda>x t. x = v \<and> t = s)"
    using assms by (intro hoare_select) (simp add: legacy_def)
  moreover have "hoare (\<lambda>t. x = v \<and> t = s) (if x > schemaVersion
       then fail ''database schema version is newer than this binary supports''
       else if x = schemaVersion then return ()
       else in_tx ''begin schema migration'' ''commit schema migration''
              (forEach (migrate_to sha tfmt tparse) [x + 1..schemaVersion]))
      (\<lambda>_ t. migrated sha tparse s t)" for x
    using tx v by (cases "x = v") (auto simp: hoare_def schemaVersion_def)
  ultimately show ?thesis unfolding migrate_def by (rule hoare_andThen)
qed

lemma atomicD: "atomic q \<Longrightarrow> q d = (Inl e, d') \<Longrightarrow> db_tables d' = db_tables d"
  by (simp add: atomic_def)

lemma atomic_migrate: "atomic (migrate sha tfmt tparse)"
  unfolding atomic_def
proof (intro allI impI)
  fix d e d' assume run: "migrate sha tfmt tparse d = (Inl e, d')"
  obtain r d1 where sel: "select ''read schema version'' t_version d = (r, d1)"
    by (cases "select ''read schema version'' t_version d")
  have d1: "db_tables d1 = db_tables d"
    using sel by (auto simp: select_def stmt_def Let_def split: if_splits)
  show "db_tables d' = db_tables d"
    using run sel d1
    by (auto simp: migrate_def andThen_def fail_def return_def split: sum.splits if_splits
      dest!: atomicD [OF atomic_in_tx])
qed

text \<open>
  C26: opening an older database either fails and leaves it untouched at its old version, or
  applies every pending migration; then no recorded data is lost and the claims are exactly those
  the stored observations amount to: earliest and latest times and the latest content per source.
\<close>

theorem migrate_all_or_nothing:
  assumes "legacy tfmt tparse v (db_tables d)" "migrate sha tfmt tparse d = (res, d')"
  shows "(\<forall>err. res = Inl err \<longrightarrow> db_tables d' = db_tables d)
    \<and> (res = Inr () \<longrightarrow> migrated sha tparse (db_tables d) (db_tables d'))"
  using atomic_migrate [of sha tfmt tparse] hoareD [OF hoare_migrate [OF assms(1)] refl] assms(2)
  by (auto simp: atomic_def)

text \<open>An empty database: a run without failures reaches version 5, a failing commit changes nothing.\<close>

lemma legacy_empty: "legacy dec_int (\<lambda>_. Some 5) 0 empty_tables"
  by (simp add: legacy_def empty_tables_def schemaVersion_def)

theorem migrate_all_or_nothing_witness:
  "migrated (take 4) (\<lambda>_. Some 5) empty_tables
     (db_tables (snd (migrate (take 4) dec_int (\<lambda>_. Some 5) (fresh_db []))))"
proof -
  have "[1..5] = [1, 2, 3, 4, 5 :: int]" by (simp add: upto.simps)
  then have "fst (migrate (take 4) dec_int (\<lambda>_. Some 5) (fresh_db [])) = Inr ()"
    by (simp add: migrate_def migrate_to_def run_migration_def backfillAssetClaims_def in_tx_def
      andThen_def select_def exec_def stmt_def fresh_db_def empty_tables_def schemaVersion_def
      migration_versions_def return_def)
  moreover have "legacy dec_int (\<lambda>_. Some 5) 0 (db_tables (fresh_db []))"
    using legacy_empty by (simp add: fresh_db_def)
  ultimately show ?thesis
    using migrate_all_or_nothing [of dec_int "\<lambda>_. Some 5" 0 "fresh_db []" "take 4"]
    by (metis (no_types, lifting) fresh_db_def db.select_convs(1) prod.collapse)
qed

end
