(* ===== verification/Server_Invariants.thy ===== *)
theory Server_Invariants
  imports Server Sqlite_Properties
begin

text \<open>
  How a request may change the controller: the abstract steps of the store, of the job queue and
  of the token store that a handler takes, proved once for every repository that satisfies the
  contract (locale \<open>controller\<close>) and instantiated for both backends.
\<close>

section \<open>Steps of the store's view\<close>

inductive view_steps ::
  "(schedule \<Rightarrow> bool) \<Rightarrow> (string \<Rightarrow> string) \<Rightarrow> (time \<Rightarrow> string) \<Rightarrow> repo_view \<Rightarrow> repo_view \<Rightarrow> bool"
  for P sha tfmt v where
  vs_refl [simp, intro]: "view_steps P sha tfmt v v"
| vs_save: "view_steps P sha tfmt v u \<Longrightarrow> view_steps P sha tfmt v (spec_save sha e u)"
| vs_append: "view_steps P sha tfmt v u \<Longrightarrow>
    view_steps P sha tfmt v (u\<lparr>v_audit := v_audit u @ [next_entry sha tfmt now ev u]\<rparr>)"
| vs_upsert: "view_steps P sha tfmt v u \<Longrightarrow> P s \<Longrightarrow> view_steps P sha tfmt v (spec_upsert s u)"
| vs_delete: "view_steps P sha tfmt v u \<Longrightarrow> view_steps P sha tfmt v (spec_delete c u)"
| vs_revoke: "view_steps P sha tfmt v u \<Longrightarrow> view_steps P sha tfmt v (spec_revoke r u)"

lemmas one_step = vs_save [OF vs_refl] vs_append [OF vs_refl] vs_upsert [OF vs_refl]
  vs_delete [OF vs_refl] vs_revoke [OF vs_refl]

lemma view_steps_trans:
  "view_steps P sha tfmt u w \<Longrightarrow> view_steps P sha tfmt v u \<Longrightarrow> view_steps P sha tfmt v w"
  by (induction rule: view_steps.induct) (auto intro: view_steps.intros)

lemma view_steps_audit: "view_steps P sha tfmt v u \<Longrightarrow> prefix (v_audit v) (v_audit u)"
  by (induction rule: view_steps.induct)
    (auto simp: spec_save_def spec_upsert_def spec_delete_def spec_revoke_def prefix_def
      split: option.splits)

lemma view_steps_revocation:
  "view_steps P sha tfmt v u \<Longrightarrow> v_revocations v n = Some r \<Longrightarrow> v_revocations u n = Some r"
  by (induction rule: view_steps.induct)
    (auto simp: spec_save_def spec_upsert_def spec_delete_def spec_revoke_keeps)

definition all_schedules :: "(schedule \<Rightarrow> bool) \<Rightarrow> repo_view \<Rightarrow> bool" where
  "all_schedules P v \<longleftrightarrow> (\<forall>c s. v_schedules v c = Some s \<longrightarrow> P s \<and> sc_CollectorID s = c)"

lemma schedules_after [simp]:
  "v_schedules (spec_save sha e v) = v_schedules v"
  "v_schedules (spec_upsert s v) = (v_schedules v)(sc_CollectorID s \<mapsto> s)"
  "v_schedules (spec_delete c v) = (v_schedules v)(c := None)"
  "v_schedules (spec_revoke r v) = v_schedules v"
  by (simp_all add: spec_save_def spec_upsert_def spec_delete_def spec_revoke_def split: option.splits)

lemma all_schedules_upsert: "all_schedules P v \<Longrightarrow> P s \<Longrightarrow> all_schedules P (spec_upsert s v)"
  by (auto simp: all_schedules_def)

lemma all_schedules_delete: "all_schedules P v \<Longrightarrow> all_schedules P (spec_delete c v)"
  by (auto simp: all_schedules_def)

lemma all_schedules_same: "v_schedules u = v_schedules v \<Longrightarrow> all_schedules P u = all_schedules P v"
  by (simp only: all_schedules_def)

lemma view_steps_schedules:
  assumes "view_steps P sha tfmt v u" "all_schedules P v"
  shows "all_schedules P u"
  using assms(1)
proof induction
  case vs_refl
  show ?case by (rule assms(2))
next
  case (vs_save u e)
  then show ?case by (subst all_schedules_same [of _ u]) simp_all
next
  case (vs_append u now ev)
  then show ?case by (subst all_schedules_same [of _ u]) simp_all
next
  case (vs_upsert u s)
  then show ?case by (simp add: all_schedules_upsert)
next
  case (vs_delete u c)
  then show ?case by (simp add: all_schedules_delete)
next
  case (vs_revoke u r)
  then show ?case by (subst all_schedules_same [of _ u]) simp_all
qed

section \<open>Steps of the queues\<close>

fun draws :: "string option \<Rightarrow> job_call \<Rightarrow> bool" where
  "draws rnd (JEnqueue r now c ty) \<longleftrightarrow> r = rnd \<and> ty = JobTypeDiscover \<and> ValidCollectorID c"
| "draws rnd _ \<longleftrightarrow> True"

fun draws_token :: "string option \<Rightarrow> token_call \<Rightarrow> bool" where
  "draws_token rnd (CallIssue r now c ttl) \<longleftrightarrow> r = rnd"
| "draws_token rnd _ \<longleftrightarrow> True"

definition job_moves :: "string option \<Rightarrow> job_store \<Rightarrow> job_store \<Rightarrow> bool" where
  "job_moves rnd s s' \<longleftrightarrow> (\<exists>cs. list_all (draws rnd) cs \<and> s' = fold job_step cs s)"

definition token_moves :: "string option \<Rightarrow> token_store option \<Rightarrow> token_store option \<Rightarrow> bool" where
  "token_moves rnd s s' \<longleftrightarrow>
     (\<exists>cs. list_all (draws_token rnd) cs \<and> s' = map_option (fold token_step cs) s)"

lemma job_moves_refl [simp, intro]: "job_moves rnd s s"
  unfolding job_moves_def by (rule exI [of _ "[]"]) simp

lemma token_moves_refl [simp, intro]: "token_moves rnd s s"
  unfolding token_moves_def by (rule exI [of _ "[]"]) (cases s, simp_all)

lemma job_moves_step: "job_moves rnd s s' \<Longrightarrow> draws rnd c \<Longrightarrow> job_moves rnd s (job_step c s')"
  unfolding job_moves_def by (elim exE) (rule exI [of _ "_ @ [c]"], auto)

lemma token_moves_step:
  "token_moves rnd s (Some t) \<Longrightarrow> draws_token rnd c \<Longrightarrow> token_moves rnd s (Some (token_step c t))"
proof -
  assume "token_moves rnd s (Some t)" and c: "draws_token rnd c"
  then obtain cs where "list_all (draws_token rnd) cs" "Some t = map_option (fold token_step cs) s"
    by (auto simp: token_moves_def)
  then show ?thesis using c unfolding token_moves_def
    by (intro exI [of _ "cs @ [c]"]) (cases s, auto)
qed

section \<open>Text that survives the round trip\<close>

lemma valid_utf8_ascii: "\<forall>c \<in> set s. byte c < 0x80 \<Longrightarrow> valid_utf8 s"
  by (auto simp: valid_utf8_def rune_chunks_ascii_all)

lemma byte_hex_digits: "c \<in> set (hex s) \<Longrightarrow> byte c < 0x80"
proof -
  have digit: "byte (digit_char d) < 0x80" if "d < 16" for d
    using that by (cases "d < 10") auto
  have "of_char x mod (16 :: nat) < 16" "byte x div 16 < 16" for x by simp_all
  then show "c \<in> set (hex s) \<Longrightarrow> byte c < 0x80"
    using digit by (auto simp: hex_def)
qed

lemma valid_hex [simp]: "valid_utf8 (hex s)"
  by (rule valid_utf8_ascii) (simp add: byte_hex_digits)

lemma valid_text16 [simp]: "valid_utf8 (text16 n)"
  by (rule valid_utf8_ascii) (use text16_digits in blast)

lemma valid_dec_int [simp]: "valid_utf8 (dec_int i)"
  by (rule valid_utf8_ascii) (auto simp: dec_int_def dest!: set_dec)

lemma normalized_text: "NormalizeCertificateSerial raw = Inr s \<Longrightarrow> \<exists>n. s = text16 n"
  by (auto simp: NormalizeCertificateSerial_def Let_def split: if_splits option.splits)

section \<open>Legal requests\<close>

text \<open>
  Instants the backend represents exactly, for every clock reading of the request and for the
  next run of a schedule; and body strings that are valid UTF-8, which \<open>encoding/json\<close> ensures.
\<close>

definition sched_ok :: "(time \<Rightarrow> bool) \<Rightarrow> schedule \<Rightarrow> bool" where
  "sched_ok good s \<longleftrightarrow> good (sc_NextRunAt s) \<and> good (sc_CreatedAt s) \<and> good (sc_UpdatedAt s)
     \<and> minScheduleIntervalSeconds \<le> sc_IntervalSeconds s
     \<and> sc_IntervalSeconds s \<le> maxScheduleIntervalSeconds
     \<and> sc_JobType s = JobTypeDiscover
     \<and> ValidCollectorID (sc_CollectorID s) \<and> valid_utf8 (sc_CollectorID s)"

definition good_world :: "(time \<Rightarrow> bool) \<Rightarrow> world \<Rightarrow> bool" where
  "good_world good w \<longleftrightarrow> (\<forall>i k. good (w_clock w i)
     \<and> (minScheduleIntervalSeconds \<le> k \<longrightarrow> k \<le> maxScheduleIntervalSeconds \<longrightarrow>
          good (w_clock w i + k * second)))"

definition good_peer :: "peer \<Rightarrow> bool" where
  "good_peer p \<longleftrightarrow> (\<forall>c. p_cert p = Some c \<longrightarrow> valid_utf8 (crt_CommonName c))"

fun good_body :: "(observation \<Rightarrow> bool) \<Rightarrow> request \<Rightarrow> bool" where
  "good_body ok_obs (PostObservation (Inr e)) \<longleftrightarrow> ok_obs e"
| "good_body ok_obs (PostToken (Inr q)) \<longleftrightarrow> valid_utf8 (tq_CollectorID q)"
| "good_body ok_obs (PostRevocation (Inr q)) \<longleftrightarrow> valid_utf8 (rvq_Reason q)"
| "good_body ok_obs (PostJob (Inr q)) \<longleftrightarrow> valid_utf8 (jq_CollectorID q)"
| "good_body ok_obs (PostSchedule (Inr q)) \<longleftrightarrow> valid_utf8 (sq_CollectorID q)"
| "good_body ok_obs _ \<longleftrightarrow> True"

definition legal ::
  "(time \<Rightarrow> bool) \<Rightarrow> (observation \<Rightarrow> bool) \<Rightarrow> world \<Rightarrow> peer \<Rightarrow> request \<Rightarrow> bool" where
  "legal good ok_obs w p req \<longleftrightarrow> good_world good w \<and> good_peer p \<and> good_body ok_obs req"

lemma valid_strings_simps [simp]:
  "valid_strings []"
  "valid_strings ((k, v) # m) \<longleftrightarrow> valid_utf8 k \<and> valid_utf8 v \<and> valid_strings m"
  by (simp_all add: valid_strings_def)

lemma valid_utf8_Cons: "byte c < 0x80 \<Longrightarrow> valid_utf8 (c # s) \<longleftrightarrow> valid_utf8 s"
  by (simp add: valid_utf8_def)

definition lib_ok :: "lib \<Rightarrow> bool" where "lib_ok L \<longleftrightarrow> (\<forall>t. valid_utf8 (lb_sfmt L t))"

lemma time_text: "lib_ok L \<Longrightarrow> valid_utf8 (lb_sfmt L t)"
  by (simp add: lib_ok_def)

lemma valid_utf8_Nil [simp]: "valid_utf8 []"
  by (simp add: valid_utf8_def)

text \<open>The schedule a valid request stores, and the response to it.\<close>

definition requested_schedule :: "world \<Rightarrow> schedule_request \<Rightarrow> store_error + schedule \<Rightarrow> schedule" where
  "requested_schedule w req res =
     (let s = \<lparr>sc_CollectorID = sq_CollectorID req, sc_JobType = JobTypeDiscover,
        sc_IntervalSeconds = sq_IntervalSeconds req, sc_NextRunAt = w_clock w 0,
        sc_CreatedAt = w_clock w 0, sc_UpdatedAt = w_clock w 0\<rparr>
      in case res of Inr e \<Rightarrow> s\<lparr>sc_CreatedAt := sc_CreatedAt e\<rparr> | Inl _ \<Rightarrow> s)"

definition valid_schedule_request :: "schedule_request \<Rightarrow> bool" where
  "valid_schedule_request req \<longleftrightarrow> ValidCollectorID (sq_CollectorID req)
     \<and> (sq_Type req = [] \<or> sq_Type req = JobTypeDiscover)
     \<and> minScheduleIntervalSeconds \<le> sq_IntervalSeconds req
     \<and> sq_IntervalSeconds req \<le> maxScheduleIntervalSeconds"

lemma createSchedule_eq:
  assumes "valid_schedule_request req" "GetSchedule R (sq_CollectorID req) (sv_Store sv) = (res, r)"
    and "UpsertSchedule R (requested_schedule w req res) r = (res2, r2)"
  shows "createOrUpdateSchedule R w (Inr req) sv =
    (case res2 of Some err \<Rightarrow> (writeError 500 (err_text err), sv\<lparr>sv_Store := r2\<rparr>)
     | None \<Rightarrow> (Response 200 (PSchedule (requested_schedule w req res)),
         recordAudit R w (case res of Inr _ \<Rightarrow> ''schedule_updated'' | Inl _ \<Rightarrow> ''schedule_created'') ''api-key''
           [(''collector_id'', sq_CollectorID req), (''job_type'', JobTypeDiscover),
            (''interval_seconds'', dec_int (sq_IntervalSeconds req))] (sv\<lparr>sv_Store := r2\<rparr>)))"
proof -
  consider "sq_Type req = []" | "sq_Type req = JobTypeDiscover"
    using assms(1) by (auto simp: valid_schedule_request_def)
  then show ?thesis using assms
    by cases (cases res; simp add: createOrUpdateSchedule_def Let_def valid_schedule_request_def
      requested_schedule_def split: option.splits)+
qed

lemma createSchedule_invalid:
  assumes "\<And>req. body = Inr req \<Longrightarrow> \<not> valid_schedule_request req"
  shows "\<exists>code msg. createOrUpdateSchedule R w body sv = (writeError code msg, sv)"
  using assms by (auto simp: createOrUpdateSchedule_def bad_id_def valid_schedule_request_def Let_def
    split: sum.splits)

section \<open>Requests against any repository\<close>

locale controller = repository_contract R sha tfmt okr view ok_obs ok_event ok_sched ok_rev
  for R :: "'r repository" and sha tfmt okr view ok_obs ok_event ok_sched ok_rev +
  fixes good :: "time \<Rightarrow> bool"
  assumes good_event: "good t \<Longrightarrow> valid_strings d \<Longrightarrow>
      ok_event t \<lparr>evt_Action = a, evt_Actor = c, evt_Detail = d\<rparr>"
    and good_schedule: "sched_ok good s \<Longrightarrow> ok_sched s"
    and good_revocation: "good (rv_RevokedAt rv) \<Longrightarrow> ok_rev rv"
    and rebind: "ok_obs e \<Longrightarrow> valid_utf8 c \<Longrightarrow> ok_obs (e\<lparr>ob_CollectorID := c\<rparr>)"
    and upsert_any: "okr r \<Longrightarrow> ok_sched s \<Longrightarrow> UpsertSchedule R s r = (res, r') \<Longrightarrow>
      okr r' \<and> view r' \<in> {view r, spec_upsert s (view r), spec_upsert (kept s (view r)) (view r)}
      \<and> (view r' = view r \<or> res = None)"
begin

abbreviation steps :: "repo_view \<Rightarrow> repo_view \<Rightarrow> bool" where
  "steps \<equiv> view_steps (sched_ok good) sha tfmt"

text \<open>\<open>tracks w sv sv'\<close>: the request of the world \<open>w\<close> may turn \<open>sv\<close> into \<open>sv'\<close>.\<close>

definition tracks :: "world \<Rightarrow> 'r server \<Rightarrow> 'r server \<Rightarrow> bool" where
  "tracks w sv sv' \<longleftrightarrow> okr (sv_Store sv') \<and> steps (view (sv_Store sv)) (view (sv_Store sv'))
     \<and> job_moves (w_random w) (sv_Jobs sv) (sv_Jobs sv')
     \<and> token_moves (w_random w) (sv_Tokens sv) (sv_Tokens sv')
     \<and> sv_APIKey sv' = sv_APIKey sv \<and> sv_CA sv' = sv_CA sv
     \<and> sv_SourcePrecedence sv' = sv_SourcePrecedence sv"

definition sane :: "'r server \<Rightarrow> bool" where
  "sane sv \<longleftrightarrow> okr (sv_Store sv) \<and> all_schedules (sched_ok good) (view (sv_Store sv))"

lemma tracks_refl: "sane sv \<Longrightarrow> tracks w sv sv"
  by (simp add: tracks_def sane_def)

lemma tracks_sane: "tracks w sv sv' \<Longrightarrow> sane sv \<Longrightarrow> sane sv'"
  by (auto simp: tracks_def sane_def intro: view_steps_schedules)

lemma tracks_store:
  "tracks w sv sv' \<Longrightarrow> okr r \<Longrightarrow> steps (view (sv_Store sv')) (view r) \<Longrightarrow> tracks w sv (sv'\<lparr>sv_Store := r\<rparr>)"
  by (auto simp: tracks_def intro: view_steps_trans)

lemma tracks_jobs:
  "tracks w sv sv' \<Longrightarrow> draws (w_random w) c \<Longrightarrow> tracks w sv (sv'\<lparr>sv_Jobs := job_step c (sv_Jobs sv')\<rparr>)"
  by (auto simp: tracks_def intro: job_moves_step)

lemma tracks_tokens:
  "tracks w sv sv' \<Longrightarrow> sv_Tokens sv' = Some t \<Longrightarrow> draws_token (w_random w) c \<Longrightarrow>
   tracks w sv (sv'\<lparr>sv_Tokens := Some (token_step c t)\<rparr>)"
  by (auto simp: tracks_def intro: token_moves_step)

lemma tracks_heartbeats: "tracks w sv sv' \<Longrightarrow> tracks w sv (sv'\<lparr>sv_Heartbeats := h\<rparr>)"
  by (simp add: tracks_def)

lemma tracks_audit:
  assumes "tracks w sv sv'" "good_world good w" "valid_strings d"
  shows "tracks w sv (recordAudit R w a c d sv')"
proof -
  let ?ev = "\<lparr>evt_Action = a, evt_Actor = c, evt_Detail = d\<rparr>"
  have "okr (sv_Store sv')" using assms(1) by (simp add: tracks_def)
  moreover have "ok_event (w_clock w 2) ?ev"
    using good_event assms(2,3) by (simp add: good_world_def)
  ultimately have "okr (snd (AppendAuditEvent R (w_clock w 2) ?ev (sv_Store sv')))
    \<and> steps (view (sv_Store sv')) (view (snd (AppendAuditEvent R (w_clock w 2) ?ev (sv_Store sv'))))"
    using answers_view [OF append_audit [of "sv_Store sv'" "w_clock w 2" ?ev]]
    by (auto intro: one_step)
  then show ?thesis unfolding recordAudit_def by (intro tracks_store [OF assms(1)]) simp_all
qed

lemma read_steps:
  assumes "answers okr view g (\<lambda>v. v) r (res, r')"
  shows "okr r' \<and> view r' = view r"
  using answers_view [OF assms] by simp

lemma tracks_read:
  assumes "tracks w sv sv'" "answers okr view g (\<lambda>v. v) (sv_Store sv') (res, r')"
  shows "tracks w sv (sv'\<lparr>sv_Store := r'\<rparr>)"
  using tracks_store [OF assms(1)] read_steps [OF assms(2)] by simp

lemma tracks_okr: "tracks w sv sv' \<Longrightarrow> okr (sv_Store sv')"
  by (simp add: tracks_def)

lemma tracks_reply:
  assumes "sane sv" "answers okr view g (\<lambda>v. v) (sv_Store sv) (rd (sv_Store sv))"
  shows "tracks w sv (snd (reply_with rd f sv))"
proof (cases "rd (sv_Store sv)")
  case (Pair res r)
  then have "tracks w sv (sv\<lparr>sv_Store := r\<rparr>)"
    using tracks_read [OF tracks_refl [OF assms(1)]] assms(2) by simp
  then show ?thesis using Pair by (simp add: reply_with_def Let_def split: sum.splits)
qed

text \<open>The handlers.\<close>

lemma tracks_ingest:
  assumes "sane sv" "ok_obs e'" "\<forall>c. identity = Some c \<longrightarrow> valid_utf8 c" "body = Inr e'"
  shows "tracks w sv (snd (ingest R body identity sv))"
proof -
  let ?e = "e'\<lparr>ob_CollectorID := collectorIdentity identity (ob_CollectorID e')\<rparr>"
  have e: "ok_obs ?e"
  proof (cases identity)
    case None
    then have "?e = e'" by (simp add: collectorIdentity_def)
    then show ?thesis using assms(2) by simp
  next
    case (Some c)
    then show ?thesis using rebind assms(2,3) by (simp add: collectorIdentity_def)
  qed
  obtain res r where r: "SaveObservation R ?e (sv_Store sv) = (res, r)" by fastforce
  then have "okr r" "view r = view (sv_Store sv) \<or> view r = spec_save sha ?e (view (sv_Store sv))"
    using writes_view [OF save [OF _ e, of "sv_Store sv"]] assms(1) by (auto simp: sane_def)
  then have "tracks w sv (sv\<lparr>sv_Store := r\<rparr>)"
    using one_step by (intro tracks_store [OF tracks_refl [OF assms(1)]]) auto
  then show ?thesis using r assms(1,4)
    by (auto simp: ingest_def Let_def tracks_refl split: option.splits)
qed

lemma tracks_ingest_bad: "sane sv \<Longrightarrow> tracks w sv (snd (ingest R (Inl err) identity sv))"
  by (simp add: ingest_def tracks_refl)

lemma tracks_createToken:
  assumes "sane sv" "good_world good w" "good_body ok_obs (PostToken body)" "lib_ok L"
  shows "tracks w sv (snd (createEnrollmentToken L R w body sv))"
proof (cases "\<exists>tokens req. sv_Tokens sv = Some tokens \<and> sv_CA sv \<and> body = Inr req \<and> ValidCollectorID (tq_CollectorID req)")
  case True
  then obtain tokens req where *: "sv_Tokens sv = Some tokens" "sv_CA sv" "body = Inr req"
    "ValidCollectorID (tq_CollectorID req)" by blast
  let ?c = "CallIssue (w_random w) (w_clock w 0) (tq_CollectorID req) enrollmentTokenTTL"
  obtain res t where i: "Issue (w_random w) (w_clock w 0) (tq_CollectorID req) enrollmentTokenTTL tokens = (res, t)"
    by fastforce
  have t: "tracks w sv (sv\<lparr>sv_Tokens := Some t\<rparr>)"
    using tracks_tokens [OF tracks_refl [OF assms(1)] *(1), of w ?c] i by simp
  show ?thesis
  proof (cases res)
    case (Inr te)
    then obtain x y where "te = (hex x, y)"
      using i by (auto simp: Issue_def Let_def split: if_splits option.splits)
    then show ?thesis using i * Inr assms(3) tracks_audit [OF t assms(2)]
      by (simp add: createEnrollmentToken_def tokenFingerprint_def time_text [OF assms(4)] valid_utf8_Cons)
  qed (use i * t in \<open>simp add: createEnrollmentToken_def\<close>)
qed (use assms(1) in \<open>auto simp: createEnrollmentToken_def tracks_refl split: option.splits sum.splits\<close>)

lemma tracks_revocation:
  assumes "sane sv" "good_world good w" "good_body ok_obs (PostRevocation body)"
  shows "tracks w sv (snd (createCertificateRevocation R w body sv))"
proof (cases "\<exists>req serial. body = Inr req \<and> NormalizeCertificateSerial (rvq_SerialNumber req) = Inr serial
    \<and> validRevocationReason (rvq_Reason req)")
  case True
  then obtain req serial where *: "body = Inr req"
    "NormalizeCertificateSerial (rvq_SerialNumber req) = Inr serial"
    "validRevocationReason (rvq_Reason req)" by blast
  let ?rv = "\<lparr>rv_SerialNumber = serial, rv_Reason = rvq_Reason req, rv_RevokedAt = w_clock w 0\<rparr>"
  obtain res r where r: "RevokeCertificate R ?rv (sv_Store sv) = (res, r)" by fastforce
  have "ok_rev ?rv" using good_revocation assms(2) by (simp add: good_world_def)
  then have "okr r" "view r \<in> {view (sv_Store sv), spec_revoke ?rv (view (sv_Store sv))}"
    using answers_view [OF revoke [of "sv_Store sv" ?rv]] r assms(1) by (auto simp: sane_def)
  then have t: "tracks w sv (sv\<lparr>sv_Store := r\<rparr>)"
    using one_step by (intro tracks_store [OF tracks_refl [OF assms(1)]]) auto
  obtain res2 r2 where l: "ListCertificateRevocations R r = (res2, r2)" by fastforce
  then have t2: "tracks w sv (sv\<lparr>sv_Store := r2\<rparr>)"
    using tracks_read [OF t] list_revocations [OF \<open>okr r\<close>] by fastforce
  obtain n where "serial = text16 n" using normalized_text [OF *(2)] by blast
  then show ?thesis using * r l t t2 assms(3) tracks_audit [OF t assms(2)]
    by (simp add: createCertificateRevocation_def Let_def valid_utf8_Cons
      split: sum.splits option.splits bool.splits)
qed (use assms(1) in \<open>auto simp: createCertificateRevocation_def tracks_refl split: sum.splits\<close>)

lemma tracks_enroll:
  assumes "sane sv" "good_world good w" "lib_ok L"
  shows "tracks w sv (snd (enroll L R w body sv))"
proof (cases "\<exists>tokens req key. sv_Tokens sv = Some tokens \<and> sv_CA sv \<and> body = Inr req
    \<and> ValidCollectorID (er_CollectorID req) \<and> parse_csr (er_CSR req) = Inr key")
  case True
  then obtain tokens req key where *: "sv_Tokens sv = Some tokens" "sv_CA sv" "body = Inr req"
    "ValidCollectorID (er_CollectorID req)" "parse_csr (er_CSR req) = Inr key" by blast
  obtain res t where r: "Redeem (w_clock w 0) (er_Token req) (er_CollectorID req) tokens = (res, t)"
    by fastforce
  have t: "tracks w sv (sv\<lparr>sv_Tokens := Some t\<rparr>)"
    using tracks_tokens [OF tracks_refl [OF assms(1)] *(1),
      of w "CallRedeem (w_clock w 0) (er_Token req) (er_CollectorID req)"] r by simp
  show ?thesis using * r t tracks_audit [OF t assms(2)]
    by (simp add: enroll_def Let_def valid_utf8_Cons time_text [OF assms(3)] CertificateSerial_def
      split: sum.splits option.splits)
qed (use assms(1) in \<open>auto simp: enroll_def tracks_refl split: option.splits sum.splits
  elim: parse_csr.elims\<close>)

lemma tracks_rotate:
  assumes "sane sv" "good_world good w" "lib_ok L"
  shows "tracks w sv (snd (rotate L R w p body sv))"
proof (cases "\<exists>old req key. p_cert p = Some old \<and> sv_CA sv \<and> body = Inr req
    \<and> ValidCollectorID (crt_CommonName old) \<and> parse_csr (rt_CSR req) = Inr key")
  case True
  then obtain old req key where *: "p_cert p = Some old" "sv_CA sv" "body = Inr req"
    "ValidCollectorID (crt_CommonName old)" "parse_csr (rt_CSR req) = Inr key" by blast
  obtain res r where r: "IsCertificateRevoked R (CertificateSerial old) (sv_Store sv) = (res, r)"
    by fastforce
  have t: "tracks w sv (sv\<lparr>sv_Store := r\<rparr>)"
    using tracks_read [OF tracks_refl [OF assms(1)]] is_revoked [of "sv_Store sv" "CertificateSerial old"]
      r assms(1) by (auto simp: sane_def)
  show ?thesis using * r t tracks_audit [OF t assms(2)]
    by (simp add: rotate_def Let_def valid_utf8_Cons time_text [OF assms(3)] CertificateSerial_def
      split: sum.splits bool.splits)
qed (use assms(1) in \<open>auto simp: rotate_def tracks_refl Let_def split: option.splits sum.splits\<close>)

lemma tracks_createJob:
  assumes "sane sv" "good_world good w" "good_body ok_obs (PostJob body)"
  shows "tracks w sv (snd (createJob R w body sv))"
proof (cases "\<exists>req. body = Inr req \<and> ValidCollectorID (jq_CollectorID req) \<and> jq_Type req = JobTypeDiscover")
  case True
  then obtain req where *: "body = Inr req" "ValidCollectorID (jq_CollectorID req)"
    "jq_Type req = JobTypeDiscover" by blast
  obtain res j where r: "Enqueue (w_random w) (w_clock w 0) (jq_CollectorID req) JobTypeDiscover (sv_Jobs sv) = (res, j)"
    by fastforce
  have t: "tracks w sv (sv\<lparr>sv_Jobs := j\<rparr>)"
    using tracks_jobs [OF tracks_refl [OF assms(1)],
      of w "JEnqueue (w_random w) (w_clock w 0) (jq_CollectorID req) JobTypeDiscover"] r *(2) by simp
  have "valid_utf8 (jb_JobID job)" if "res = Inr job" for job
    using r that by (auto simp: Enqueue_def Let_def split: option.splits)
  then show ?thesis using * r t assms(3) tracks_audit [OF t assms(2)]
    by (simp add: createJob_def Let_def valid_utf8_Cons JobTypeDiscover_def split: sum.splits)
qed (use assms(1) in \<open>auto simp: createJob_def bad_id_def tracks_refl split: sum.splits\<close>)

lemma tracks_upsert:
  assumes "tracks w sv sv'" "sched_ok good s" "sched_ok good (kept s (view (sv_Store sv')))"
    and "UpsertSchedule R s (sv_Store sv') = (res, r)"
  shows "tracks w sv (sv'\<lparr>sv_Store := r\<rparr>)"
proof -
  have "okr r \<and> view r \<in> {view (sv_Store sv'), spec_upsert s (view (sv_Store sv')),
      spec_upsert (kept s (view (sv_Store sv'))) (view (sv_Store sv'))}"
    using upsert_any [OF tracks_okr [OF assms(1)] good_schedule [OF assms(2)] assms(4)] by blast
  then show ?thesis using assms(2,3) one_step by (intro tracks_store [OF assms(1)]) auto
qed

lemma found_schedule:
  assumes "sane sv" "GetSchedule R c (sv_Store sv) = (Inr s, r)"
  shows "okr r" "view r = view (sv_Store sv)" "v_schedules (view r) c = Some s" "sched_ok good s"
    "sc_CollectorID s = c"
proof -
  have k: "okr (sv_Store sv)" using assms(1) by (simp add: sane_def)
  show r: "okr r" "view r = view (sv_Store sv)" using get_schedule [OF k, of c] assms(2)
    by (auto simp: answers_def)
  show s: "v_schedules (view r) c = Some s"
    using get_schedule [OF k, of c] get_schedule_found [OF k, of c] assms(2) r(2)
    by (auto simp: answers_def)
  show "sched_ok good s" "sc_CollectorID s = c"
    using s r(2) assms(1) by (auto simp: sane_def all_schedules_def)
qed

lemma kept_ok:
  assumes "all_schedules (sched_ok good) v" "sched_ok good s"
  shows "sched_ok good (kept s v)"
  using assms by (auto simp: kept_def all_schedules_def sched_ok_def split: option.splits)

lemma tracks_get_schedule:
  assumes "tracks w sv sv'" "GetSchedule R c (sv_Store sv') = (res, r)"
  shows "tracks w sv (sv'\<lparr>sv_Store := r\<rparr>)" "view r = view (sv_Store sv')"
proof -
  have "answers okr view (\<lambda>v. the (v_schedules v c)) (\<lambda>v. v) (sv_Store sv') (res, r)"
    using get_schedule [OF tracks_okr [OF assms(1)], of c] assms(2) by simp
  then show "tracks w sv (sv'\<lparr>sv_Store := r\<rparr>)" "view r = view (sv_Store sv')"
    using tracks_read [OF assms(1)] read_steps by blast+
qed

lemma tracks_maybeEnqueue:
  assumes "sane sv" "good_world good w" "ValidCollectorID cid"
  shows "tracks w sv (maybeEnqueueScheduledJob R w cid sv)"
proof -
  obtain res r where r: "GetSchedule R cid (sv_Store sv) = (res, r)" by fastforce
  note t = tracks_get_schedule [OF tracks_refl [OF assms(1)] r]
  show ?thesis
  proof (cases "\<exists>s. res = Inr s \<and> \<not> sc_NextRunAt s > w_clock w 0
      \<and> \<not> HasOutstanding cid (sc_JobType s) (sv_Jobs sv)")
    case True
    then obtain s where s: "res = Inr s" "\<not> sc_NextRunAt s > w_clock w 0"
      "\<not> HasOutstanding cid (sc_JobType s) (sv_Jobs sv)" by blast
    note f = found_schedule [OF assms(1) r [unfolded s(1)]]
    obtain q j where q: "Enqueue (w_random w) (w_clock w 1) cid (sc_JobType s) (sv_Jobs sv) = (q, j)"
      by fastforce
    let ?sv = "sv\<lparr>sv_Store := r, sv_Jobs := j\<rparr>"
    let ?s = "s\<lparr>sc_NextRunAt := w_clock w 2 + sc_IntervalSeconds s * second, sc_UpdatedAt := w_clock w 3\<rparr>"
    have j: "tracks w sv ?sv"
      using tracks_jobs [OF t(1) [of w], of "JEnqueue (w_random w) (w_clock w 1) cid (sc_JobType s)"] q f(4) assms(3)
      by (simp add: sched_ok_def)
    have ok: "sched_ok good ?s" using f(4) assms(2) by (simp add: sched_ok_def good_world_def)
    have "sched_ok good (kept ?s (view (sv_Store ?sv)))"
      using assms(1) ok t(2) by (intro kept_ok) (simp_all add: sane_def)
    from tracks_upsert [OF j ok this surjective_pairing]
    have "tracks w sv (sv\<lparr>sv_Jobs := j, sv_Store := snd (UpsertSchedule R ?s r)\<rparr>)" by simp
    then show ?thesis using r s q j
      by (simp add: maybeEnqueueScheduledJob_def Let_def split: sum.splits)
  qed (use r t in \<open>auto simp: maybeEnqueueScheduledJob_def Let_def split: sum.splits\<close>)
qed

lemma tracks_pollJobs:
  assumes "sane sv" "good_world good w"
  shows "tracks w sv (snd (pollJobs R w query identity sv))"
proof (cases "ValidCollectorID (collectorIdentity identity query)")
  case True
  obtain js j where p: "Poll (collectorIdentity identity query)
      (sv_Jobs (maybeEnqueueScheduledJob R w (collectorIdentity identity query) sv)) = (js, j)" by fastforce
  show ?thesis using True p tracks_jobs [OF tracks_maybeEnqueue [OF assms True],
      of "JPoll (collectorIdentity identity query)"]
    by (simp add: pollJobs_def Let_def)
qed (simp add: pollJobs_def bad_id_def Let_def tracks_refl assms(1))

lemma tracks_result:
  assumes "sane sv"
  shows "tracks w sv (snd (reportJobResult w jid body identity sv))"
proof (cases "\<exists>req. body = Inr req \<and> ValidCollectorID (collectorIdentity identity (jr_CollectorID req))")
  case True
  then obtain req where *: "body = Inr req" "ValidCollectorID (collectorIdentity identity (jr_CollectorID req))"
    by blast
  let ?c = "collectorIdentity identity (jr_CollectorID req)"
  obtain res j where r: "Result (w_clock w 0) jid ?c req (sv_Jobs sv) = (res, j)" by fastforce
  then have "tracks w sv (sv\<lparr>sv_Jobs := j\<rparr>)"
    using tracks_jobs [OF tracks_refl [OF assms], of w "JResult (w_clock w 0) jid ?c req"] by simp
  then show ?thesis using * r by (simp add: reportJobResult_def Let_def split: option.splits)
qed (use assms in \<open>auto simp: reportJobResult_def bad_id_def tracks_refl Let_def split: sum.splits\<close>)

lemma tracks_heartbeat: "sane sv \<Longrightarrow> tracks w sv (snd (heartbeat w body identity sv))"
  by (auto simp: heartbeat_def bad_id_def Let_def tracks_refl intro: tracks_heartbeats split: sum.splits)

lemma requested_ok:
  assumes "sane sv" "good_world good w" "valid_schedule_request req" "valid_utf8 (sq_CollectorID req)"
    and "GetSchedule R (sq_CollectorID req) (sv_Store sv) = (res, r)"
  shows "sched_ok good (requested_schedule w req res)"
proof (cases res)
  case (Inl err)
  then show ?thesis using assms(2-4)
    by (simp add: requested_schedule_def sched_ok_def good_world_def valid_schedule_request_def)
next
  case (Inr e)
  then show ?thesis using assms(2-4) found_schedule(4) [OF assms(1) assms(5) [unfolded Inr]]
    by (simp add: requested_schedule_def sched_ok_def good_world_def valid_schedule_request_def)
qed

lemma tracks_createSchedule:
  assumes "sane sv" "good_world good w" "good_body ok_obs (PostSchedule body)"
  shows "tracks w sv (snd (createOrUpdateSchedule R w body sv))"
proof (cases "\<exists>req. body = Inr req \<and> valid_schedule_request req")
  case True
  then obtain req where req: "body = Inr req" "valid_schedule_request req" by blast
  obtain res r where r: "GetSchedule R (sq_CollectorID req) (sv_Store sv) = (res, r)" by fastforce
  note t = tracks_get_schedule [OF tracks_refl [OF assms(1)] r]
  have q: "sched_ok good (requested_schedule w req res)"
    using requested_ok [OF assms(1,2) req(2) _ r] assms(3) req(1) by simp
  obtain res2 r2 where u: "UpsertSchedule R (requested_schedule w req res) r = (res2, r2)" by fastforce
  have "sched_ok good (kept (requested_schedule w req res) (view r))"
    using assms(1) q t(2) by (intro kept_ok) (simp_all add: sane_def)
  then have t2: "tracks w sv (sv\<lparr>sv_Store := r2\<rparr>)"
    using tracks_upsert [OF t(1) q] u by simp
  show ?thesis unfolding req(1) createSchedule_eq [OF req(2) r u]
    using t2 tracks_audit [OF t2 assms(2)] assms(3) req(1)
    by (simp add: valid_utf8_Cons JobTypeDiscover_def split: option.splits)
next
  case False
  then show ?thesis using createSchedule_invalid [of body R w sv] tracks_refl [OF assms(1)] by fastforce
qed

lemma tracks_deleteSchedule:
  assumes "sane sv" "good_world good w"
  shows "tracks w sv (snd (deleteSchedule R w cid sv))"
proof (cases "ValidCollectorID cid")
  case True
  obtain res r where r: "GetSchedule R cid (sv_Store sv) = (res, r)" by fastforce
  note t = tracks_get_schedule [OF tracks_refl [OF assms(1)] r]
  show ?thesis
  proof (cases res)
    case (Inl err)
    then show ?thesis using True r t by (cases err) (simp_all add: deleteSchedule_def)
  next
    case (Inr s)
    note f = found_schedule [OF assms(1) r [unfolded Inr]]
    obtain res2 r2 where d: "DeleteSchedule R cid r = (res2, r2)" by fastforce
    have "okr r2" "view r2 \<in> {view r, spec_delete cid (view r)}"
      using writes_view [OF delete [OF f(1), of cid]] d by auto
    then have t2: "tracks w sv (sv\<lparr>sv_Store := r2\<rparr>)"
      using tracks_store [OF t(1), of r2] one_step by auto
    have "valid_utf8 cid" using f(4,5) by (auto simp: sched_ok_def)
    then show ?thesis using True r Inr d t2 tracks_audit [OF t2 assms(2)]
      by (simp add: deleteSchedule_def Let_def valid_utf8_Cons split: option.splits)
  qed
qed (simp add: deleteSchedule_def bad_id_def tracks_refl assms(1))

lemma tracks_trans: "tracks w sv sv' \<Longrightarrow> tracks w sv' sv'' \<Longrightarrow> tracks w sv sv''"
proof -
  assume a: "tracks w sv sv'" "tracks w sv' sv''"
  have "job_moves (w_random w) (sv_Jobs sv) (sv_Jobs sv'')"
    using a unfolding tracks_def job_moves_def by (metis fold_append comp_apply list_all_append)
  moreover have "token_moves (w_random w) (sv_Tokens sv) (sv_Tokens sv'')"
  proof -
    obtain cs ds where "list_all (draws_token (w_random w)) cs" "list_all (draws_token (w_random w)) ds"
      "sv_Tokens sv' = map_option (fold token_step cs) (sv_Tokens sv)"
      "sv_Tokens sv'' = map_option (fold token_step ds) (sv_Tokens sv')"
      using a by (auto simp: tracks_def token_moves_def)
    then show ?thesis unfolding token_moves_def
      by (intro exI [of _ "cs @ ds"]) (cases "sv_Tokens sv", auto)
  qed
  ultimately show ?thesis using a by (auto simp: tracks_def intro: view_steps_trans)
qed

lemma tracks_admin: "sane sv \<Longrightarrow> tracks w sv (snd (next sv)) \<Longrightarrow> tracks w sv (snd (adminAuth p next sv))"
  by (simp add: adminAuth_def tracks_refl)

lemma tracks_collector:
  assumes "sane sv" "\<And>i sv'. sane sv' \<Longrightarrow> (\<forall>c. i = Some c \<longrightarrow> (\<exists>cert. p_cert p = Some cert \<and> c = crt_CommonName cert))
      \<Longrightarrow> tracks w sv' (snd (next i sv'))"
  shows "tracks w sv (snd (collectorAuth R p next sv))"
proof (cases "p_cert p")
  case None
  then show ?thesis using assms by (simp add: collectorAuth_def tracks_refl)
next
  case (Some cert)
  obtain res r where r: "IsCertificateRevoked R (CertificateSerial cert) (sv_Store sv) = (res, r)" by fastforce
  have t: "tracks w sv (sv\<lparr>sv_Store := r\<rparr>)"
    using tracks_read [OF tracks_refl [OF assms(1)]] is_revoked [of "sv_Store sv" "CertificateSerial cert"]
      r assms(1) by (auto simp: sane_def)
  have "tracks w sv (snd (next i (sv\<lparr>sv_Store := r\<rparr>)))" if "i = None \<or> i = Some (crt_CommonName cert)" for i
    using that Some by (intro tracks_trans [OF t] assms(2) tracks_sane [OF t assms(1)]) auto
  then show ?thesis using Some r t by (simp add: collectorAuth_def Let_def split: sum.splits bool.splits)
qed

text \<open>Every request steps the store and the queues.\<close>

lemma Handler_tracks:
  assumes "sane sv" "legal good ok_obs w p req" "lib_ok L"
  shows "tracks w sv (snd (Handler L R w p req sv))"
proof -
  have ok: "okr (sv_Store sv)" "good_world good w" "good_peer p" "good_body ok_obs req"
    using assms by (simp_all add: sane_def legal_def)
  note admin = tracks_admin [OF assms(1)] tracks_collector [OF assms(1)]
  show ?thesis
  proof (cases req)
    case (PostObservation body)
    have "tracks w sv' (snd (ingest R body i sv'))"
      if "sane sv'" "\<forall>c. i = Some c \<longrightarrow> (\<exists>cert. p_cert p = Some cert \<and> c = crt_CommonName cert)" for i sv'
    proof (cases body)
      case (Inr e)
      then show ?thesis using that ok(3,4) PostObservation
        by (intro tracks_ingest) (auto simp: good_peer_def)
    qed (simp add: tracks_ingest_bad that(1))
    then have "tracks w sv (snd (collectorAuth R p (ingest R body) sv))"
      by (intro tracks_collector assms(1))
    then show ?thesis using PostObservation by (simp add: Handler_def)
  qed (use assms(1) ok in \<open>simp_all add: Handler_def health_def assets_def relationships_def auditLog_def
      observations_def listCertificateRevocations_def listSchedules_def collectors_def jobStatus_def
      tracks_refl admin tracks_reply [where rd = "ListAssetClaims R", OF _ list_claims] tracks_reply [where rd = "ListRelationships R", OF _ list_relationships]
      tracks_reply [where rd = "ListAuditEntries R", OF _ list_audit] tracks_reply [where rd = "ListObservations R", OF _ list_observations]
      tracks_reply [where rd = "ListCertificateRevocations R", OF _ list_revocations] tracks_reply [where rd = "ListSchedules R", OF _ list_schedules]
      tracks_createToken [OF _ _ _ assms(3)] tracks_enroll [OF _ _ assms(3)]
      tracks_rotate [OF _ _ assms(3)] tracks_revocation
      tracks_createJob tracks_pollJobs tracks_result tracks_heartbeat tracks_createSchedule
      tracks_deleteSchedule split: sum.splits\<close>)
qed

text \<open>Sequences of legal requests.\<close>

lemma serves_steps:
  assumes "serves L R lg sv sv'" "sane sv" "lib_ok L"
    and "\<And>w p req s. lg w p req s \<Longrightarrow> legal good ok_obs w p req"
  shows "sane sv' \<and> steps (view (sv_Store sv)) (view (sv_Store sv')) \<and> sv_APIKey sv' = sv_APIKey sv"
  using assms(1,2)
proof induction
  case (serves_none sv)
  then show ?case by simp
next
  case (serves_one sv sv' w p req)
  then have s: "sane sv'" "steps (view (sv_Store sv)) (view (sv_Store sv'))" "sv_APIKey sv' = sv_APIKey sv"
    by blast+
  then have t: "tracks w sv' (snd (Handler L R w p req sv'))"
    using Handler_tracks assms(3,4) serves_one(2) by blast
  then show ?case using tracks_sane [OF t s(1)] s(2,3)
    by (auto simp: tracks_def intro: view_steps_trans)
qed

lemma serves_job:
  assumes "serves L R lg sv sv'" "sane sv" "lib_ok L"
    and "\<And>w p req s. lg w p req s \<Longrightarrow> legal good ok_obs w p req \<and> (\<forall>b. w_random w = Some b \<longrightarrow> hex b \<noteq> jid)"
    and "map_of (sv_Jobs sv) jid = Some r"
  shows "\<exists>r'. map_of (sv_Jobs sv') jid = Some r' \<and> moves_on r r'"
  using assms(1,2,5)
proof induction
  case (serves_none sv)
  then show ?case by (simp add: moves_on_def)
next
  case (serves_one sv sv' w p req)
  then obtain q where q: "map_of (sv_Jobs sv') jid = Some q" "moves_on r q" by blast
  have s: "sane sv'" using serves_steps [OF serves_one(1) serves_one.prems(1) assms(3)] assms(4) by blast
  have "job_moves (w_random w) (sv_Jobs sv') (sv_Jobs (snd (Handler L R w p req sv')))"
    using Handler_tracks [OF s _ assms(3)] assms(4) [OF serves_one(2)] unfolding tracks_def by blast
  then obtain cs where cs: "list_all (draws (w_random w)) cs"
    "sv_Jobs (snd (Handler L R w p req sv')) = fold job_step cs (sv_Jobs sv')"
    by (auto simp: job_moves_def)
  have "new_id jid c" if "draws (w_random w) c" for c
    using that assms(4) [OF serves_one(2)] by (cases c) auto
  then have "list_all (new_id jid) cs" using cs(1) by (auto simp: list_all_iff)
  then show ?case using job_steps_move [OF q(1)] q(2) cs(2) moves_on_trans by metis
qed

lemma serves_token:
  assumes "serves L R lg sv sv'" "sane sv" "lib_ok L"
    and "\<And>w p req s. lg w p req s \<Longrightarrow> legal good ok_obs w p req \<and> (\<forall>b. w_random w = Some b \<longrightarrow> hex b \<noteq> tok)"
    and "sv_Tokens sv = Some t" "map_of t tok = Some r" "tk_redeemed r"
  shows "\<exists>t' r'. sv_Tokens sv' = Some t' \<and> map_of t' tok = Some r' \<and> tk_redeemed r'"
  using assms(1,2,5,6)
proof induction
  case (serves_none sv)
  then show ?case using assms(7) by blast
next
  case (serves_one sv sv' w p req)
  then obtain t' q where q: "sv_Tokens sv' = Some t'" "map_of t' tok = Some q" "tk_redeemed q" by blast
  have s: "sane sv'" using serves_steps [OF serves_one(1) serves_one.prems(1) assms(3)] assms(4) by blast
  have "token_moves (w_random w) (sv_Tokens sv') (sv_Tokens (snd (Handler L R w p req sv')))"
    using Handler_tracks [OF s _ assms(3)] assms(4) [OF serves_one(2)] unfolding tracks_def by blast
  then obtain cs where cs: "list_all (draws_token (w_random w)) cs"
    "sv_Tokens (snd (Handler L R w p req sv')) = Some (fold token_step cs t')"
    using q(1) by (auto simp: token_moves_def)
  have "fresh_for tok c" if "draws_token (w_random w) c" for c
    using that assms(4) [OF serves_one(2)] by (cases c) auto
  then have "list_all (fresh_for tok) cs" using cs(1) by (auto simp: list_all_iff)
  then show ?case using token_spent [OF q(2,3)] cs(2) by auto
qed

end

section \<open>Both backends\<close>

interpretation mctl: controller "Memory sha tfmt" sha tfmt "mem_ok sha tfmt" mem_view
  anything "\<lambda>_. anything" anything anything "\<lambda>_. True"
  for sha tfmt
proof unfold_locales
  fix m m' :: memory and s :: schedule and res
  assume "mem_ok sha tfmt m" "UpsertSchedule (Memory sha tfmt) s m = (res, m')"
  then show "mem_ok sha tfmt m' \<and> mem_view m' \<in> {mem_view m, spec_upsert s (mem_view m),
      spec_upsert (kept s (mem_view m)) (mem_view m)} \<and> (mem_view m' = mem_view m \<or> res = None)"
    using memUpsert_ok [of sha tfmt m s] by (auto simp: Memory_def writes_def)
qed simp_all

interpretation sctl: controller "Sqlite sha tfmt tparse" sha tfmt "sqok sha tfmt tparse"
  "sqview tparse" "valid_observation tfmt tparse" "storable_event tfmt tparse"
  "storable_schedule tfmt tparse" "storable_revocation tfmt tparse" "time_ok tfmt tparse"
  for sha tfmt tparse
proof unfold_locales
  fix d d' :: db and s :: schedule and res
  assume "sqok sha tfmt tparse d" "storable_schedule tfmt tparse s"
    "UpsertSchedule (Sqlite sha tfmt tparse) s d = (res, d')"
  then show "sqok sha tfmt tparse d' \<and> sqview tparse d' \<in> {sqview tparse d, spec_upsert s (sqview tparse d),
      spec_upsert (kept s (sqview tparse d)) (sqview tparse d)} \<and> (sqview tparse d' = sqview tparse d \<or> res = None)"
    using sqlUpsert_kept [of sha tfmt tparse d s] by (auto simp: Sqlite_def writes_def split: if_splits)
qed (auto simp: storable_event_def storable_schedule_def storable_revocation_def sched_ok_def
  valid_observation_def)

end
