(* ===== verification/Server_Properties.thy ===== *)
theory Server_Properties
  imports Server_Invariants
begin

text \<open>
  What the controller's API guarantees: authorisation, certificate revocation, enrollment, error
  responses that change nothing, the audit log, and the recurring discovery schedule.
\<close>

section \<open>Failed requests\<close>

context controller begin

text \<open>An error response leaves the stored data, the jobs and the heartbeats as they were.\<close>

definition quiet :: "'r server \<Rightarrow> 'r server \<Rightarrow> bool" where
  "quiet sv sv' \<longleftrightarrow> view (sv_Store sv') = view (sv_Store sv) \<and> sv_Jobs sv' = sv_Jobs sv
     \<and> sv_Heartbeats sv' = sv_Heartbeats sv"

definition fails_quietly :: "'r server \<Rightarrow> response \<times> 'r server \<Rightarrow> bool" where
  "fails_quietly sv out \<longleftrightarrow> (400 \<le> status (fst out) \<longrightarrow> quiet sv (snd out))"

lemma fails_quietly_same [simp]: "fails_quietly sv (resp, sv)"
  by (simp add: fails_quietly_def quiet_def)

lemma fails_quietly_store [simp]: "view r = view (sv_Store sv) \<Longrightarrow> fails_quietly sv (resp, sv\<lparr>sv_Store := r\<rparr>)"
  by (simp add: fails_quietly_def quiet_def)

lemma fails_quietly_ok [simp]: "code < 400 \<Longrightarrow> fails_quietly sv (Response code x, sv')"
  by (simp add: fails_quietly_def)

lemma quiet_reply:
  assumes "okr (sv_Store sv)" "answers okr view g (\<lambda>v. v) (sv_Store sv) (rd (sv_Store sv))"
  shows "fails_quietly sv (reply_with rd f sv)"
proof (cases "rd (sv_Store sv)")
  case (Pair res r)
  then show ?thesis using read_steps [OF assms(2) [unfolded Pair]]
    by (simp add: reply_with_def Let_def split: sum.splits)
qed

lemma quiet_ingest:
  assumes "okr (sv_Store sv)"
    "\<And>e. body = Inr e \<Longrightarrow> ok_obs (e\<lparr>ob_CollectorID := collectorIdentity identity (ob_CollectorID e)\<rparr>)"
  shows "fails_quietly sv (ingest R body identity sv)"
proof (cases body)
  case (Inr e)
  let ?e = "e\<lparr>ob_CollectorID := collectorIdentity identity (ob_CollectorID e)\<rparr>"
  obtain res r where r: "SaveObservation R ?e (sv_Store sv) = (res, r)" by fastforce
  then have "\<exists>x. res = Some x \<Longrightarrow> view r = view (sv_Store sv)"
    using save [OF assms(1) assms(2) [OF Inr]] by (auto simp: writes_def)
  then show ?thesis using Inr r by (auto simp: ingest_def Let_def writeError_def split: option.splits)
qed (simp add: ingest_def)

lemma quiet_revocation:
  assumes "okr (sv_Store sv)" "good_world good w"
  shows "fails_quietly sv (createCertificateRevocation R w body sv)"
proof (cases "\<exists>req serial. body = Inr req \<and> NormalizeCertificateSerial (rvq_SerialNumber req) = Inr serial
    \<and> validRevocationReason (rvq_Reason req)")
  case True
  then obtain req serial where *: "body = Inr req"
    "NormalizeCertificateSerial (rvq_SerialNumber req) = Inr serial"
    "validRevocationReason (rvq_Reason req)" by blast
  let ?rv = "\<lparr>rv_SerialNumber = serial, rv_Reason = rvq_Reason req, rv_RevokedAt = w_clock w 0\<rparr>"
  obtain res r where r: "RevokeCertificate R ?rv (sv_Store sv) = (res, r)" by fastforce
  have "ok_rev ?rv" using good_revocation assms(2) by (simp add: good_world_def)
  then have a: "okr r" "res \<noteq> Inr True \<Longrightarrow> view r = view (sv_Store sv)"
    using revoke [OF assms(1), of ?rv] r
    by (auto simp: answers_def spec_revoke_def split: sum.splits option.splits)
  obtain res2 r2 where l: "ListCertificateRevocations R r = (res2, r2)" by fastforce
  then have b: "view r2 = view r" using read_steps [OF list_revocations [OF a(1), unfolded l]] by simp
  show ?thesis using * r l a(2) b
    by (auto simp: createCertificateRevocation_def Let_def writeError_def
      split: sum.splits option.splits bool.splits)
qed (auto simp: createCertificateRevocation_def split: sum.splits)

lemma quiet_enroll: "fails_quietly sv (enroll L R w body sv)"
proof (cases "\<exists>tokens req key. sv_Tokens sv = Some tokens \<and> sv_CA sv \<and> body = Inr req
    \<and> ValidCollectorID (er_CollectorID req) \<and> parse_csr (er_CSR req) = Inr key")
  case True
  then obtain tokens req key where *: "sv_Tokens sv = Some tokens" "sv_CA sv" "body = Inr req"
    "ValidCollectorID (er_CollectorID req)" "parse_csr (er_CSR req) = Inr key" by blast
  obtain res t where r: "Redeem (w_clock w 0) (er_Token req) (er_CollectorID req) tokens = (res, t)"
    by fastforce
  show ?thesis using * r
    by (simp add: enroll_def Let_def fails_quietly_def quiet_def split: sum.splits option.splits)
qed (auto simp: enroll_def split: option.splits sum.splits)

lemma quiet_rotate:
  assumes "okr (sv_Store sv)"
  shows "fails_quietly sv (rotate L R w p body sv)"
proof (cases "\<exists>old req key. p_cert p = Some old \<and> sv_CA sv \<and> body = Inr req
    \<and> ValidCollectorID (crt_CommonName old) \<and> parse_csr (rt_CSR req) = Inr key")
  case True
  then obtain old req key where *: "p_cert p = Some old" "sv_CA sv" "body = Inr req"
    "ValidCollectorID (crt_CommonName old)" "parse_csr (rt_CSR req) = Inr key" by blast
  obtain res r where r: "IsCertificateRevoked R (CertificateSerial old) (sv_Store sv) = (res, r)"
    by fastforce
  then have "view r = view (sv_Store sv)" using read_steps [OF is_revoked [OF assms, of "CertificateSerial old", unfolded r]] by simp
  then show ?thesis using * r
    by (simp add: rotate_def Let_def split: sum.splits bool.splits)
qed (auto simp: rotate_def Let_def split: option.splits sum.splits)

lemma quiet_token: "fails_quietly sv (createEnrollmentToken L R w body sv)"
  by (auto simp: createEnrollmentToken_def Let_def fails_quietly_def quiet_def writeError_def
    split: option.splits sum.splits prod.splits)

lemma quiet_createJob: "fails_quietly sv (createJob R w body sv)"
  by (auto simp: createJob_def bad_id_def Let_def writeError_def Enqueue_def split: sum.splits option.splits)

lemma quiet_poll: "fails_quietly sv (pollJobs R w query identity sv)"
  by (simp add: pollJobs_def bad_id_def Let_def split: prod.splits)

lemma quiet_result: "fails_quietly sv (reportJobResult w jid body identity sv)"
  by (auto simp: reportJobResult_def bad_id_def Let_def Result_def writeError_def
    split: sum.splits option.splits)

lemma quiet_heartbeat: "fails_quietly sv (heartbeat w body identity sv)"
  by (auto simp: heartbeat_def bad_id_def Let_def split: sum.splits)

lemma quiet_createSchedule:
  assumes "sane sv" "good_world good w" "good_body ok_obs (PostSchedule body)"
  shows "fails_quietly sv (createOrUpdateSchedule R w body sv)"
proof (cases "\<exists>req. body = Inr req \<and> valid_schedule_request req")
  case True
  then obtain req where req: "body = Inr req" "valid_schedule_request req" by blast
  obtain res r where r: "GetSchedule R (sq_CollectorID req) (sv_Store sv) = (res, r)" by fastforce
  note t = tracks_get_schedule [OF tracks_refl [OF assms(1)] r]
  have q: "sched_ok good (requested_schedule w req res)"
    using requested_ok [OF assms(1,2) req(2) _ r] assms(3) req(1) by simp
  obtain res2 r2 where u: "UpsertSchedule R (requested_schedule w req res) r = (res2, r2)" by fastforce
  have "okr r" using tracks_okr [OF t(1)] by simp
  then have "res2 \<noteq> None \<Longrightarrow> view r2 = view (sv_Store sv)"
    using upsert_any [OF _ good_schedule [OF q] u] t(2) by auto
  then show ?thesis unfolding req(1) createSchedule_eq [OF req(2) r u]
    by (auto split: option.splits)
next
  case False
  then show ?thesis using createSchedule_invalid [of body R w sv] by fastforce
qed

lemma quiet_deleteSchedule:
  assumes "sane sv"
  shows "fails_quietly sv (deleteSchedule R w cid sv)"
proof (cases "ValidCollectorID cid")
  case True
  obtain res r where r: "GetSchedule R cid (sv_Store sv) = (res, r)" by fastforce
  note t = tracks_get_schedule [OF tracks_refl [OF assms(1)] r]
  have "okr r" using tracks_okr [OF t(1)] by simp
  obtain res2 r2 where d: "DeleteSchedule R cid r = (res2, r2)" by fastforce
  have "res2 \<noteq> None \<Longrightarrow> view r2 = view (sv_Store sv)"
    using delete [OF \<open>okr r\<close>, of cid] d t(2) by (auto simp: writes_def)
  then show ?thesis using True r d t(2)
    by (auto simp: deleteSchedule_def Let_def writeError_def split: sum.splits option.splits store_error.splits)
qed (simp add: deleteSchedule_def bad_id_def)

lemma quiet_admin: "fails_quietly sv (next sv) \<Longrightarrow> fails_quietly sv (adminAuth p next sv)"
  by (simp add: adminAuth_def)

lemma fails_quietly_view:
  "fails_quietly (sv\<lparr>sv_Store := r\<rparr>) out \<Longrightarrow> view r = view (sv_Store sv) \<Longrightarrow> fails_quietly sv out"
  by (simp add: fails_quietly_def quiet_def)

lemma quiet_collector:
  assumes "sane sv" "\<And>i sv'. okr (sv_Store sv') \<Longrightarrow>
      (\<forall>c. i = Some c \<longrightarrow> (\<exists>cert. p_cert p = Some cert \<and> c = crt_CommonName cert)) \<Longrightarrow>
      fails_quietly sv' (next i sv')"
  shows "fails_quietly sv (collectorAuth R p next sv)"
proof (cases "p_cert p")
  case None
  then show ?thesis using assms by (simp add: collectorAuth_def sane_def)
next
  case (Some cert)
  have k: "okr (sv_Store sv)" using assms(1) by (simp add: sane_def)
  obtain res r where r: "IsCertificateRevoked R (CertificateSerial cert) (sv_Store sv) = (res, r)" by fastforce
  note v = read_steps [OF is_revoked [OF k, of "CertificateSerial cert", unfolded r]]
  have "fails_quietly sv (next i (sv\<lparr>sv_Store := r\<rparr>))" if "i = None \<or> i = Some (crt_CommonName cert)" for i
    using that Some v by (intro fails_quietly_view [OF assms(2)]) auto
  then show ?thesis using Some r v by (simp add: collectorAuth_def Let_def split: sum.splits bool.splits)
qed

lemma Handler_quiet:
  assumes "sane sv" "legal good ok_obs w p req"
  shows "fails_quietly sv (Handler L R w p req sv)"
proof -
  have ok: "okr (sv_Store sv)" "good_world good w" "good_peer p" "good_body ok_obs req"
    using assms by (simp_all add: sane_def legal_def)
  note collector = quiet_collector [OF assms(1)]
  show ?thesis
  proof (cases req)
    case (PostObservation body)
    have "ok_obs (e\<lparr>ob_CollectorID := collectorIdentity i (ob_CollectorID e)\<rparr>)"
      if "body = Inr e" "\<forall>c. i = Some c \<longrightarrow> (\<exists>cert. p_cert p = Some cert \<and> c = crt_CommonName cert)" for e i
      using that ok(3,4) PostObservation rebind
      by (cases i) (auto simp: collectorIdentity_def good_peer_def)
    then show ?thesis unfolding Handler_def PostObservation request.case
      by (intro collector) (auto intro!: quiet_ingest)
  qed (use assms(1) ok in \<open>simp_all add: Handler_def health_def assets_def relationships_def auditLog_def
      observations_def listCertificateRevocations_def listSchedules_def collectors_def jobStatus_def
      quiet_admin collector quiet_reply [where rd = "ListAssetClaims R", OF _ list_claims]
      quiet_reply [where rd = "ListRelationships R", OF _ list_relationships]
      quiet_reply [where rd = "ListAuditEntries R", OF _ list_audit]
      quiet_reply [where rd = "ListObservations R", OF _ list_observations]
      quiet_reply [where rd = "ListCertificateRevocations R", OF _ list_revocations]
      quiet_reply [where rd = "ListSchedules R", OF _ list_schedules]
      quiet_token quiet_enroll quiet_rotate quiet_revocation quiet_createJob quiet_poll quiet_result
      quiet_heartbeat quiet_createSchedule quiet_deleteSchedule split: sum.splits\<close>)
qed

end

section \<open>A running controller\<close>

text \<open>
  The controller over a SQLite store, as \<open>cmd/topo\<close> starts it: an empty database whose statements
  may fail as \<open>faults\<close> says, and, with \<open>ca\<close>, enrollment switched on.
\<close>

definition start_server :: "bool list \<Rightarrow> string \<Rightarrow> bool \<Rightarrow> time \<Rightarrow> db server" where
  "start_server faults key ca now = (New (fresh_db faults) key now)
     \<lparr>sv_CA := ca, sv_Tokens := (if ca then Some NewTokenStore else None)\<rparr>"

definition server_ok :: "(string \<Rightarrow> string) \<Rightarrow> (time \<Rightarrow> string) \<Rightarrow> (string \<Rightarrow> time option) \<Rightarrow> db server \<Rightarrow> bool" where
  "server_ok sha tfmt tparse sv \<longleftrightarrow> sqok sha tfmt tparse (sv_Store sv)
     \<and> all_schedules (sched_ok (time_ok tfmt tparse)) (sqview tparse (sv_Store sv))"

abbreviation sql_legal :: "(time \<Rightarrow> string) \<Rightarrow> (string \<Rightarrow> time option) \<Rightarrow> world \<Rightarrow> peer \<Rightarrow> request \<Rightarrow> bool" where
  "sql_legal tfmt tparse \<equiv> legal (time_ok tfmt tparse) (valid_observation tfmt tparse)"

lemma sane_sql: "sctl.sane sha tfmt tparse sv \<longleftrightarrow> server_ok sha tfmt tparse sv"
  by (simp add: sctl.sane_def server_ok_def)

lemma server_ok_start: "server_ok sha tfmt tparse (start_server faults key ca now)"
  by (simp add: server_ok_def start_server_def New_def sqok_fresh sqlite_view_fresh
    all_schedules_def empty_view_def)

text \<open>Instants written in decimal: a rendering that every instant survives, for examples.\<close>

fun read_int :: "string \<Rightarrow> time option" where
  "read_int [] = None"
| "read_int (c # s) = Some (if c = CHR ''-'' then - int (read_nat s) else int (read_nat (c # s)))"

lemma read_dec_int [simp]: "read_int (dec_int i) = Some i"
proof (cases "i < 0")
  case False
  obtain c r where c: "dec (nat i) = c # r" by (cases "dec (nat i)") auto
  then have "c \<noteq> CHR ''-''" using set_dec [of c "nat i"] by auto
  then show ?thesis using False c read_nat_dec [of "nat i"] by (simp add: dec_int_def)
qed (simp add: dec_int_def)

lemma time_ok_dec [simp]: "time_ok dec_int read_int t"
  by (simp add: time_ok_def)

abbreviation demo_lib :: lib where "demo_lib \<equiv> \<lparr>lb_sha = take 4, lb_sfmt = dec_int\<rparr>"
abbreviation demo_sql :: "db repository" where "demo_sql \<equiv> Sqlite (take 4) dec_int read_int"
abbreviation demo_world :: world where
  "demo_world \<equiv> \<lparr>w_clock = (\<lambda>i. 100), w_random = Some ''r'', w_serial = Some 255, w_signs = True\<rparr>"
abbreviation admin_peer :: peer where "admin_peer \<equiv> \<lparr>p_cert = None, p_auth = bearer ''k''\<rparr>"

lemma demo_lib_ok [simp]: "lib_ok demo_lib"
  by (simp add: lib_ok_def)

lemma demo_world_ok [simp]: "good_world (time_ok dec_int read_int) w"
  by (simp add: good_world_def)

section \<open>Error responses\<close>

text \<open>
  C8: a request that is answered with an error changes nothing: whatever the request, whoever
  sends it and whichever storage statement fails, after a response of status 400 or above the
  stored observations, assets, schedules, revocations and audit log, the job queue and the
  heartbeats are what they were.
\<close>

theorem error_changes_nothing:
  assumes "server_ok sha tfmt tparse sv" "sql_legal tfmt tparse w p req"
    and "Handler L (Sqlite sha tfmt tparse) w p req sv = (resp, sv')" "400 \<le> status resp"
  shows "sqview tparse (sv_Store sv') = sqview tparse (sv_Store sv)
    \<and> sv_Jobs sv' = sv_Jobs sv \<and> sv_Heartbeats sv' = sv_Heartbeats sv"
  using sctl.Handler_quiet [of sha tfmt tparse sv w p req L] assms
  by (simp add: sane_sql sctl.fails_quietly_def sctl.quiet_def)

lemma valid_demo_id [simp]: "ValidCollectorID ''c''"
  by (simp add: ValidCollectorID_def maxCollectorIDBytes_def trim_space_text is_space_def runes_def
    is_control_def)

theorem error_changes_nothing_witness:
  "sqview read_int (sv_Store (snd (Handler demo_lib demo_sql demo_world admin_peer
      (PostSchedule (Inr \<lparr>sq_CollectorID = ''c'', sq_Type = [], sq_IntervalSeconds = 60\<rparr>))
      (start_server [False, True] ''k'' True 0)))) = empty_view"
proof -
  let ?sv = "start_server [False, True] ''k'' True 0"
  let ?req = "PostSchedule (Inr \<lparr>sq_CollectorID = ''c'', sq_Type = [], sq_IntervalSeconds = 60\<rparr>)"
  have "status (fst (Handler demo_lib demo_sql demo_world admin_peer ?req ?sv)) = 500"
    by (simp add: Handler_def adminAuth_def start_server_def New_def createOrUpdateSchedule_def
      minScheduleIntervalSeconds_def maxScheduleIntervalSeconds_def Sqlite_def sqlGetSchedule_def
      sqlUpsertSchedule_def select_def exec_def stmt_def fresh_db_def empty_tables_def
      writeError_def Let_def)
  then show ?thesis
    using error_changes_nothing [OF server_ok_start _ surjective_pairing, of dec_int read_int demo_world
        admin_peer ?req demo_lib "take 4" "[False, True]" "''k''" True 0]
    by (simp add: legal_def good_peer_def valid_utf8_ascii start_server_def New_def sqlite_view_fresh)
qed

section \<open>Authorisation\<close>

fun admin_route :: "request \<Rightarrow> bool" where
  "admin_route GetHealth = False"
| "admin_route (PostObservation _) = False"
| "admin_route (PostEnroll _) = False"
| "admin_route (PostRotate _) = False"
| "admin_route (PostHeartbeat _) = False"
| "admin_route (GetJobs _) = False"
| "admin_route (PostJobResult _ _) = False"
| "admin_route _ = True"

text \<open>The same request with another collector ID in its body or query.\<close>

fun claiming :: "string \<Rightarrow> request \<Rightarrow> request" where
  "claiming c (PostObservation (Inr e)) = PostObservation (Inr (e\<lparr>ob_CollectorID := c\<rparr>))"
| "claiming c (PostHeartbeat (Inr q)) = PostHeartbeat (Inr (q\<lparr>hr_CollectorID := c\<rparr>))"
| "claiming c (GetJobs _) = GetJobs c"
| "claiming c (PostJobResult jid (Inr q)) = PostJobResult jid (Inr (q\<lparr>jr_CollectorID := c\<rparr>))"
| "claiming c req = req"

lemma Result_claim: "Result now jid cid (q\<lparr>jr_CollectorID := c\<rparr>) s = Result now jid cid q s"
  by (simp add: Result_def split: option.splits)

lemma collectorAuth_certified:
  assumes "p_cert p = Some cert" "fst (IsCertificateRevoked R (CertificateSerial cert) (sv_Store sv)) = Inr False"
  shows "collectorAuth R p next sv = next (Some (crt_CommonName cert))
    (sv\<lparr>sv_Store := snd (IsCertificateRevoked R (CertificateSerial cert) (sv_Store sv))\<rparr>)"
  using assms by (cases "IsCertificateRevoked R (CertificateSerial cert) (sv_Store sv)")
    (simp add: collectorAuth_def)

lemma Poll_own: "Poll c s = (jobs, s') \<Longrightarrow> j \<in> set jobs \<Longrightarrow> jb_CollectorID j = c"
  by (auto simp: Poll_def due_for_def job_of_def)

text \<open>What each collector route does for a request that was accepted.\<close>

lemma ingest_accepted:
  assumes "status (fst (ingest R (Inr e) (Some c) sv)) = 202"
  shows "SaveObservation R (e\<lparr>ob_CollectorID := c\<rparr>) (sv_Store sv) = (None, sv_Store (snd (ingest R (Inr e) (Some c) sv)))"
  using assms by (auto simp: ingest_def collectorIdentity_def writeError_def Let_def split: option.splits prod.splits)

lemma heartbeat_accepted:
  assumes "status (fst (heartbeat w (Inr q) (Some c) sv)) = 202"
  shows "map_of (hs_records (sv_Heartbeats (snd (heartbeat w (Inr q) (Some c) sv)))) =
    (map_of (hs_records (sv_Heartbeats sv)))(c \<mapsto> \<lparr>hb_siteID = hr_SiteID q, hb_lastSeen = w_clock w 0\<rparr>)"
  using assms by (auto simp: heartbeat_def collectorIdentity_def writeError_def bad_id_def Record_def update_conv Let_def
      split: if_splits)

lemma result_accepted:
  assumes "status (fst (reportJobResult w jid (Inr q) (Some c) sv)) = 200"
  shows "\<exists>r. map_of (sv_Jobs sv) jid = Some r \<and> jc_collectorID r = c \<and> jc_status r = jobDispatched
    \<and> map_of (sv_Jobs (snd (reportJobResult w jid (Inr q) (Some c) sv))) = (map_of (sv_Jobs sv))
        (jid \<mapsto> r\<lparr>jc_status := (if jr_Success q then jobSucceeded else jobFailed), jc_completedAt := w_clock w 0, jc_resultError := jr_Error q\<rparr>)"
proof (cases "ValidCollectorID c")
  case True
  obtain res jobs where r: "Result (w_clock w 0) jid c q (sv_Jobs sv) = (res, jobs)" by fastforce
  have bad: "job_error_status err \<noteq> 200" for err by (cases err) simp_all
  have none: "res = None" using assms True r bad by (cases res) (auto simp: reportJobResult_def collectorIdentity_def writeError_def)
  have jobs: "sv_Jobs (snd (reportJobResult w jid (Inr q) (Some c) sv)) = jobs"
    using True r by (cases res) (simp_all add: reportJobResult_def collectorIdentity_def)
  have "Result (w_clock w 0) jid c q (sv_Jobs sv) = (None, jobs)" using r none by simp
  then show ?thesis unfolding jobs by (auto simp: Result_def update_conv split: option.splits if_splits)
qed (use assms in \<open>simp add: reportJobResult_def collectorIdentity_def bad_id_def writeError_def\<close>)

lemma rotate_accepted:
  assumes "p_cert p = Some cert" "fst (rotate L R w p (Inr q) sv) = Response 200 (PEnroll ep)"
  shows "crt_CommonName (ep_Certificate ep) = crt_CommonName cert"
  using assms by (auto simp: rotate_def writeError_def Sign_def Let_def split: if_splits sum.splits option.splits prod.splits bool.splits
      elim!: parse_csr.elims)

text \<open>
  C9: identity comes from the certificate. A request with a verified, unrevoked certificate is
  served as that certificate's collector: the collector ID it claims in its body or query makes no
  difference to the response or to the state. An accepted observation is saved under the certificate's
  name, an accepted heartbeat is recorded for that collector and no other, an accepted job result
  settles a job dispatched to that collector and no other, polling returns only that collector's jobs, and a
  rotated certificate keeps its name. Where an API key is configured, administrative routes refuse
  every such request whose Authorization header is not that key, and leave the state alone.
\<close>

theorem identity_from_certificate:
  assumes "p_cert p = Some cert"
    and "IsCertificateRevoked R (CertificateSerial cert) (sv_Store sv) = (Inr False, r0)"
  shows "Handler L R w p (claiming c req) sv = Handler L R w p req sv
    \<and> (\<forall>e. status (fst (Handler L R w p (PostObservation (Inr e)) sv)) = 202 \<longrightarrow>
         SaveObservation R (e\<lparr>ob_CollectorID := crt_CommonName cert\<rparr>) r0
         = (None, sv_Store (snd (Handler L R w p (PostObservation (Inr e)) sv))))
    \<and> (\<forall>q. status (fst (Handler L R w p (PostHeartbeat (Inr q)) sv)) = 202 \<longrightarrow>
         map_of (hs_records (sv_Heartbeats (snd (Handler L R w p (PostHeartbeat (Inr q)) sv)))) =
           (map_of (hs_records (sv_Heartbeats sv)))
             (crt_CommonName cert \<mapsto> \<lparr>hb_siteID = hr_SiteID q, hb_lastSeen = w_clock w 0\<rparr>))
    \<and> (\<forall>jid q. status (fst (Handler L R w p (PostJobResult jid (Inr q)) sv)) = 200 \<longrightarrow>
         (\<exists>r. map_of (sv_Jobs sv) jid = Some r \<and> jc_collectorID r = crt_CommonName cert \<and> jc_status r = jobDispatched
            \<and> map_of (sv_Jobs (snd (Handler L R w p (PostJobResult jid (Inr q)) sv))) = (map_of (sv_Jobs sv))
                (jid \<mapsto> r\<lparr>jc_status := (if jr_Success q then jobSucceeded else jobFailed),
                   jc_completedAt := w_clock w 0, jc_resultError := jr_Error q\<rparr>)))
    \<and> (\<forall>jobs j. fst (Handler L R w p (GetJobs c) sv) = Response 200 (PJobs jobs) \<longrightarrow> j \<in> set jobs \<longrightarrow>
         jb_CollectorID j = crt_CommonName cert)
    \<and> (\<forall>q ep. fst (Handler L R w p (PostRotate (Inr q)) sv) = Response 200 (PEnroll ep) \<longrightarrow>
         crt_CommonName (ep_Certificate ep) = crt_CommonName cert)
    \<and> (sv_APIKey sv \<noteq> [] \<and> p_auth p \<noteq> bearer (sv_APIKey sv) \<and> admin_route req \<longrightarrow>
         status (fst (Handler L R w p req sv)) = 403 \<and> snd (Handler L R w p req sv) = sv)"
proof (intro conjI impI allI)
  have auth: "collectorAuth R p handle sv = handle (Some (crt_CommonName cert)) (sv\<lparr>sv_Store := r0\<rparr>)" for handle
    using collectorAuth_certified [OF assms(1), of R sv handle] assms(2) by simp
  show "Handler L R w p (claiming c req) sv = Handler L R w p req sv"
  proof (cases req)
    case (PostObservation body)
    then show ?thesis by (cases body) (simp_all add: Handler_def auth ingest_def collectorIdentity_def Let_def)
  next
    case (PostHeartbeat body)
    then show ?thesis by (cases body) (simp_all add: Handler_def auth heartbeat_def collectorIdentity_def Let_def)
  next
    case (GetJobs x)
    then show ?thesis by (simp add: Handler_def auth pollJobs_def collectorIdentity_def Let_def)
  next
    case (PostJobResult jid body)
    then show ?thesis
      by (cases body) (simp_all add: Handler_def auth reportJobResult_def collectorIdentity_def Result_claim Let_def)
  qed simp_all
  show "SaveObservation R (e\<lparr>ob_CollectorID := crt_CommonName cert\<rparr>) r0
      = (None, sv_Store (snd (Handler L R w p (PostObservation (Inr e)) sv)))"
    if "status (fst (Handler L R w p (PostObservation (Inr e)) sv)) = 202" for e
    using that ingest_accepted [of R e "crt_CommonName cert" "sv\<lparr>sv_Store := r0\<rparr>"] by (simp add: Handler_def auth)
  show "map_of (hs_records (sv_Heartbeats (snd (Handler L R w p (PostHeartbeat (Inr q)) sv)))) =
      (map_of (hs_records (sv_Heartbeats sv)))(crt_CommonName cert \<mapsto> \<lparr>hb_siteID = hr_SiteID q, hb_lastSeen = w_clock w 0\<rparr>)"
    if "status (fst (Handler L R w p (PostHeartbeat (Inr q)) sv)) = 202" for q
    using that heartbeat_accepted [of w q "crt_CommonName cert" "sv\<lparr>sv_Store := r0\<rparr>"] by (simp add: Handler_def auth)
  show "\<exists>r. map_of (sv_Jobs sv) jid = Some r \<and> jc_collectorID r = crt_CommonName cert \<and> jc_status r = jobDispatched
      \<and> map_of (sv_Jobs (snd (Handler L R w p (PostJobResult jid (Inr q)) sv))) = (map_of (sv_Jobs sv))
          (jid \<mapsto> r\<lparr>jc_status := (if jr_Success q then jobSucceeded else jobFailed),
             jc_completedAt := w_clock w 0, jc_resultError := jr_Error q\<rparr>)"
    if "status (fst (Handler L R w p (PostJobResult jid (Inr q)) sv)) = 200" for jid q
    using that result_accepted [of w jid q "crt_CommonName cert" "sv\<lparr>sv_Store := r0\<rparr>"] by (simp add: Handler_def auth)
  show "jb_CollectorID j = crt_CommonName cert"
    if "fst (Handler L R w p (GetJobs c) sv) = Response 200 (PJobs jobs)" "j \<in> set jobs" for jobs j
    using that by (auto simp: Handler_def auth pollJobs_def collectorIdentity_def bad_id_def writeError_def Let_def
      dest: Poll_own split: if_splits prod.splits)
  show "crt_CommonName (ep_Certificate ep) = crt_CommonName cert"
    if "fst (Handler L R w p (PostRotate (Inr q)) sv) = Response 200 (PEnroll ep)" for q ep
    using that rotate_accepted [OF assms(1), of L R w q sv ep] by (simp add: Handler_def)
  assume key: "sv_APIKey sv \<noteq> [] \<and> p_auth p \<noteq> bearer (sv_APIKey sv) \<and> admin_route req"
  show "status (fst (Handler L R w p req sv)) = 403" "snd (Handler L R w p req sv) = sv"
    using key assms(1) by (cases req;
      simp add: Handler_def adminAuth_def hasVerifiedCollectorCertificate_def writeError_def)+
qed

theorem identity_from_certificate_witness:
  "map_of (hs_records (sv_Heartbeats (snd (Handler demo_lib demo_sql demo_world
      \<lparr>p_cert = Some \<lparr>crt_CommonName = ''c'', crt_SerialNumber = 7, crt_NotBefore = 0, crt_NotAfter = 9\<rparr>, p_auth = []\<rparr>
      (claiming ''d'' (PostHeartbeat (Inr \<lparr>hr_SchemaVersion = SchemaVersion, hr_CollectorID = ''e'', hr_SiteID = ''s''\<rparr>)))
      (start_server [] ''k'' True 0))))) = [''c'' \<mapsto> \<lparr>hb_siteID = ''s'', hb_lastSeen = 100\<rparr>]"
proof -
  let ?cert = "\<lparr>crt_CommonName = ''c'', crt_SerialNumber = 7, crt_NotBefore = 0, crt_NotAfter = 9\<rparr>"
  let ?p = "\<lparr>p_cert = Some ?cert, p_auth = []\<rparr>" and ?sv = "start_server [] ''k'' True 0"
  let ?q = "\<lparr>hr_SchemaVersion = SchemaVersion, hr_CollectorID = ''e'', hr_SiteID = ''s''\<rparr>"
  let ?H = "Handler demo_lib demo_sql demo_world ?p"
  obtain r0 where rev: "IsCertificateRevoked demo_sql (CertificateSerial ?cert) (sv_Store ?sv) = (Inr False, r0)"
    by (simp add: start_server_def New_def Sqlite_def sqlIsCertificateRevoked_def select_def stmt_def
      fresh_db_def empty_tables_def)
  have cert: "p_cert ?p = Some ?cert" by simp
  note id = identity_from_certificate [OF cert rev, of demo_lib demo_world "''d''" "PostHeartbeat (Inr ?q)"]
  have "status (fst (?H (PostHeartbeat (Inr ?q)) ?sv)) = 202"
    using rev by (simp add: Handler_def collectorAuth_def heartbeat_def collectorIdentity_def)
  with conjunct1 [OF conjunct2 [OF conjunct2 [OF id]]]
  have "map_of (hs_records (sv_Heartbeats (snd (?H (PostHeartbeat (Inr ?q)) ?sv)))) =
      (map_of (hs_records (sv_Heartbeats ?sv)))(''c'' \<mapsto> \<lparr>hb_siteID = ''s'', hb_lastSeen = 100\<rparr>)" by simp
  then show ?thesis unfolding conjunct1 [OF id] by (simp add: start_server_def New_def NewHeartbeatStore_def)
qed

section \<open>Revoked certificates\<close>

fun collector_route :: "request \<Rightarrow> bool" where
  "collector_route (PostObservation _) = True"
| "collector_route (PostRotate _) = True"
| "collector_route (PostHeartbeat _) = True"
| "collector_route (GetJobs _) = True"
| "collector_route (PostJobResult _ _) = True"
| "collector_route _ = False"

context controller begin

lemma revoked_after_post:
  assumes "sane sv" "good_world good w" "valid_utf8 (rvq_Reason q)"
    and "NormalizeCertificateSerial (rvq_SerialNumber q) = Inr n"
    and "status (fst (createCertificateRevocation R w (Inr q) sv)) < 400"
  shows "v_revocations (view (sv_Store (snd (createCertificateRevocation R w (Inr q) sv)))) n \<noteq> None"
proof -
  let ?rv = "\<lparr>rv_SerialNumber = n, rv_Reason = rvq_Reason q, rv_RevokedAt = w_clock w 0\<rparr>"
  have valid: "validRevocationReason (rvq_Reason q)"
    using assms(4,5) by (auto simp: createCertificateRevocation_def writeError_def split: if_splits)
  obtain res r where r: "RevokeCertificate R ?rv (sv_Store sv) = (res, r)" by fastforce
  have "ok_rev ?rv" using good_revocation assms(2) by (simp add: good_world_def)
  then have a: "okr r" "\<And>b. res = Inr b \<Longrightarrow> v_revocations (view r) n \<noteq> None"
    "view r \<in> {view (sv_Store sv), spec_revoke ?rv (view (sv_Store sv))}"
    using revoke [of "sv_Store sv" ?rv] answers_view [OF revoke [of "sv_Store sv" ?rv]] r assms(1)
    by (auto simp: sane_def answers_def spec_revoke_def split: sum.splits option.splits)
  have t: "tracks w sv (sv\<lparr>sv_Store := r\<rparr>)"
    using a(1,3) one_step by (intro tracks_store [OF tracks_refl [OF assms(1)]]) auto
  obtain b where b: "res = Inr b" using assms(4,5) r valid
    by (cases res) (auto simp: createCertificateRevocation_def writeError_def Let_def)
  obtain k where k: "n = text16 k" using normalized_text [OF assms(4)] by blast
  have kept: "v_revocations (view (sv_Store sv')) n \<noteq> None" if "tracks w (sv\<lparr>sv_Store := r\<rparr>) sv'" for sv'
    using that a(2) [OF b] by (auto simp: tracks_def dest: view_steps_revocation)
  note t0 = tracks_refl [OF tracks_sane [OF t assms(1)], of w]
  show ?thesis
  proof (cases b)
    case True
    then show ?thesis using assms(3,4) r valid b k kept [OF tracks_audit [OF t0 assms(2)]]
      by (simp add: createCertificateRevocation_def valid_utf8_Cons)
  next
    case False
    obtain res2 r2 where l: "ListCertificateRevocations R r = (res2, r2)" by fastforce
    have "view r2 = view r" using read_steps [OF list_revocations [OF a(1), unfolded l]] by simp
    then show ?thesis using False assms(4) r valid b l a(2) [OF b]
      by (auto simp: createCertificateRevocation_def Let_def split: sum.splits option.splits)
  qed
qed

lemma revoked_refused:
  assumes "sane sv" "v_revocations (view (sv_Store sv)) (CertificateSerial cert) \<noteq> None"
    and "p_cert p = Some cert" "p_auth p \<noteq> bearer (sv_APIKey sv)" "collector_route req"
  shows "400 \<le> status (fst (Handler L R w p req sv))"
proof -
  have k: "okr (sv_Store sv)" using assms(1) by (simp add: sane_def)
  obtain res r where r: "IsCertificateRevoked R (CertificateSerial cert) (sv_Store sv) = (res, r)" by fastforce
  then have res: "res \<noteq> Inr False" using is_revoked [OF k, of "CertificateSerial cert"] assms(2)
    by (auto simp: answers_def)
  have auth: "400 \<le> status (fst (collectorAuth R p next sv))" for "next"
    using assms(3,4) r res by (cases res) (auto simp: collectorAuth_def writeError_def Let_def)
  show ?thesis
  proof (cases req)
    case (PostRotate body)
    then show ?thesis using assms(3) r res
      by (auto simp: Handler_def rotate_def writeError_def Let_def split: sum.splits bool.splits
        elim!: parse_csr.elims)
  qed (use assms(5) auth in \<open>simp_all add: Handler_def\<close>)
qed

end

text \<open>
  C1: revoking a certificate shuts it out for good. Once a revocation request naming the serial
  of a certificate, however it is written, is answered without an error, then after any further
  requests every collector route, rotation included, refuses that certificate unless the request
  also carries the API key; it changes neither the stored data nor the queues, and a storage
  failure during the check refuses it too.
\<close>

theorem revocation_enforced:
  assumes "server_ok sha tfmt tparse sv" "lib_ok L"
    and "sql_legal tfmt tparse w p (PostRevocation (Inr q))"
    and "Handler L (Sqlite sha tfmt tparse) w p (PostRevocation (Inr q)) sv = (resp, sv1)" "status resp < 400"
    and "NormalizeCertificateSerial (rvq_SerialNumber q) = Inr (CertificateSerial cert)"
    and "serves L (Sqlite sha tfmt tparse) (\<lambda>w p req _. sql_legal tfmt tparse w p req) sv1 sv2"
    and "collector_route req" "sql_legal tfmt tparse w' p' req"
    and "p_cert p' = Some cert" "p_auth p' \<noteq> bearer (sv_APIKey sv)"
    and "Handler L (Sqlite sha tfmt tparse) w' p' req sv2 = (resp', sv3)"
  shows "400 \<le> status resp' \<and> sqview tparse (sv_Store sv3) = sqview tparse (sv_Store sv2)
    \<and> sv_Jobs sv3 = sv_Jobs sv2 \<and> sv_Heartbeats sv3 = sv_Heartbeats sv2"
proof -
  let ?R = "Sqlite sha tfmt tparse"
  have ok: "sctl.sane sha tfmt tparse sv" using assms(1) by (simp add: sane_sql)
  have t: "sctl.tracks sha tfmt tparse w sv sv1"
    using sctl.Handler_tracks [OF ok assms(3,2)] assms(4) by simp
  have "Handler L ?R w p (PostRevocation (Inr q)) sv = createCertificateRevocation ?R w (Inr q) sv"
    using assms(4,5) by (auto simp: Handler_def adminAuth_def writeError_def split: if_splits)
  then have c: "createCertificateRevocation ?R w (Inr q) sv = (resp, sv1)" using assms(4) by simp
  have "good_world (time_ok tfmt tparse) w" "valid_utf8 (rvq_Reason q)"
    using assms(3) by (simp_all add: legal_def)
  from sctl.revoked_after_post [OF ok this assms(6)]
  have "v_revocations (sqview tparse (sv_Store sv1)) (CertificateSerial cert) \<noteq> None"
    unfolding c using assms(5) by simp
  moreover have s2: "sctl.sane sha tfmt tparse sv2"
    "view_steps (sched_ok (time_ok tfmt tparse)) sha tfmt (sqview tparse (sv_Store sv1)) (sqview tparse (sv_Store sv2))"
    "sv_APIKey sv2 = sv_APIKey sv"
    using sctl.serves_steps [OF assms(7) sctl.tracks_sane [OF t ok] assms(2)] t
    by (auto simp: sctl.tracks_def)
  ultimately have "v_revocations (sqview tparse (sv_Store sv2)) (CertificateSerial cert) \<noteq> None"
    by (auto dest: view_steps_revocation)
  then have "400 \<le> status resp'"
    using sctl.revoked_refused [OF s2(1) _ assms(10) _ assms(8), of L w'] assms(11,12) s2(3) by simp
  then show ?thesis using sctl.Handler_quiet [OF s2(1) assms(9), of L] assms(12)
    by (simp add: sctl.fails_quietly_def sctl.quiet_def)
qed

abbreviation demo_cert :: certificate where
  "demo_cert \<equiv> \<lparr>crt_CommonName = ''c'', crt_SerialNumber = 255, crt_NotBefore = 0, crt_NotAfter = 9\<rparr>"

lemmas demo_route = Handler_def adminAuth_def start_server_def New_def Let_def writeError_def
lemmas demo_store = Sqlite_def select_def exec_def stmt_def fresh_db_def empty_tables_def
  in_tx_def andThen_def return_def

theorem revocation_enforced_witness:
  "400 \<le> status (fst (Handler demo_lib demo_sql demo_world \<lparr>p_cert = Some demo_cert, p_auth = []\<rparr> (GetJobs ''c'')
     (snd (Handler demo_lib demo_sql demo_world admin_peer
        (PostRevocation (Inr \<lparr>rvq_SerialNumber = text16 255, rvq_Reason = ''lost''\<rparr>)) (start_server [] ''k'' True 0)))))"
proof -
  let ?sv = "start_server [] ''k'' True 0"
  let ?q = "\<lparr>rvq_SerialNumber = text16 255, rvq_Reason = ''lost''\<rparr>"
  have n: "NormalizeCertificateSerial (rvq_SerialNumber ?q) = Inr (CertificateSerial demo_cert)"
    by (simp add: normalize_text16 CertificateSerial_def)
  have reason: "validRevocationReason ''lost''"
    by (simp add: validRevocationReason_def trim_space_text is_space_def runes_def is_control_def)
  have "status (fst (Handler demo_lib demo_sql demo_world admin_peer (PostRevocation (Inr ?q)) ?sv)) < 400"
    using n reason by (simp add: demo_route createCertificateRevocation_def demo_store
      sqlRevokeCertificate_def)
  from revocation_enforced [OF server_ok_start demo_lib_ok _ surjective_pairing this n serves_none _ _ _ _
      surjective_pairing, of "GetJobs ''c''" demo_world "\<lparr>p_cert = Some demo_cert, p_auth = []\<rparr>"]
  show ?thesis
    by (simp add: legal_def good_peer_def valid_utf8_ascii bearer_def start_server_def New_def)
qed

section \<open>Enrollment\<close>

lemma enroll_accepted:
  assumes "enroll L R w (Inr q) sv = (resp, sv1)" "status resp = 200"
  shows "\<exists>tokens r e t. sv_Tokens sv = Some tokens \<and> map_of tokens (er_Token q) = Some r
    \<and> tk_collectorID r = er_CollectorID q \<and> \<not> tk_redeemed r \<and> w_clock w 0 \<le> tk_expiresAt r
    \<and> resp = Response 200 (PEnroll e) \<and> crt_CommonName (ep_Certificate e) = er_CollectorID q
    \<and> sv_Tokens sv1 = Some t \<and> map_of t (er_Token q) = Some (r\<lparr>tk_redeemed := True\<rparr>)"
proof -
  obtain tokens key where c: "sv_Tokens sv = Some tokens" "sv_CA sv" "ValidCollectorID (er_CollectorID q)"
    "er_CSR q = CSR key"
    using assms by (cases "er_CSR q") (auto simp: enroll_def writeError_def split: option.splits if_splits)
  obtain res t where r: "Redeem (w_clock w 0) (er_Token q) (er_CollectorID q) tokens = (res, t)" by fastforce
  have "res = None" using assms c r
    by (cases res) (auto simp: enroll_def writeError_def)
  then have t: "\<exists>r. map_of tokens (er_Token q) = Some r \<and> tk_collectorID r = er_CollectorID q
      \<and> \<not> tk_redeemed r \<and> w_clock w 0 \<le> tk_expiresAt r
      \<and> map_of t (er_Token q) = Some (r\<lparr>tk_redeemed := True\<rparr>)"
    using r by (auto simp: Redeem_def not_less split: option.splits if_splits)
  obtain cert where s: "Sign (w_serial w) (w_signs w) (w_clock w 1) (er_CollectorID q) DefaultCertificateTTL = Inr cert"
    using assms c r \<open>res = None\<close>
    by (cases "Sign (w_serial w) (w_signs w) (w_clock w 1) (er_CollectorID q) DefaultCertificateTTL")
      (auto simp: enroll_def writeError_def)
  then have "crt_CommonName cert = er_CollectorID q"
    by (auto simp: Sign_def DefaultCertificateTTL_def split: option.splits if_splits)
  then show ?thesis using assms c r s t \<open>res = None\<close>
    by (auto simp: enroll_def recordAudit_def Let_def)
qed

lemma spent_refused:
  assumes "sv_Tokens sv = Some t" "map_of t (er_Token q) = Some r" "tk_redeemed r"
  shows "400 \<le> status (fst (enroll L R w (Inr q) sv))"
  using assms by (cases "er_CSR q") (auto simp: enroll_def Let_def writeError_def Redeem_def)

text \<open>
  C6: enrollment issues one certificate per token. An accepted request held an unspent,
  unexpired token issued for exactly the collector ID it asks for, and the certificate carries that
  ID and no other; afterwards, whatever is requested in between, the token enrolls nobody again.
  Hypothesis on the random bytes: later requests do not draw the very same 256 bits.
\<close>

theorem enrollment_once:
  assumes "server_ok sha tfmt tparse sv" "lib_ok L" "sql_legal tfmt tparse w p (PostEnroll (Inr q))"
    and "Handler L (Sqlite sha tfmt tparse) w p (PostEnroll (Inr q)) sv = (resp, sv1)" "status resp = 200"
    and "serves L (Sqlite sha tfmt tparse) (\<lambda>w p req _. sql_legal tfmt tparse w p req
           \<and> (\<forall>b. w_random w = Some b \<longrightarrow> hex b \<noteq> er_Token q)) sv1 sv2"
    and "er_Token q' = er_Token q"
  shows "(\<exists>tokens r e. sv_Tokens sv = Some tokens \<and> map_of tokens (er_Token q) = Some r
      \<and> tk_collectorID r = er_CollectorID q \<and> \<not> tk_redeemed r \<and> w_clock w 0 \<le> tk_expiresAt r
      \<and> resp = Response 200 (PEnroll e) \<and> crt_CommonName (ep_Certificate e) = er_CollectorID q)
    \<and> 400 \<le> status (fst (Handler L (Sqlite sha tfmt tparse) w' p' (PostEnroll (Inr q')) sv2))"
proof -
  let ?R = "Sqlite sha tfmt tparse"
  have e: "enroll L ?R w (Inr q) sv = (resp, sv1)" using assms(4) by (simp add: Handler_def)
  have ok: "sctl.sane sha tfmt tparse sv" using assms(1) by (simp add: sane_sql)
  have ok1: "sctl.sane sha tfmt tparse sv1"
    using sctl.tracks_sane [OF sctl.Handler_tracks [OF ok assms(3,2)] ok] assms(4) by simp
  obtain r e t where acc: "\<exists>tokens. sv_Tokens sv = Some tokens \<and> map_of tokens (er_Token q) = Some r"
    "tk_collectorID r = er_CollectorID q" "\<not> tk_redeemed r" "w_clock w 0 \<le> tk_expiresAt r"
    "resp = Response 200 (PEnroll e)" "crt_CommonName (ep_Certificate e) = er_CollectorID q"
    and t: "sv_Tokens sv1 = Some t" "map_of t (er_Token q) = Some (r\<lparr>tk_redeemed := True\<rparr>)"
    using enroll_accepted [OF e assms(5)] by blast
  obtain t' r' where "sv_Tokens sv2 = Some t'" "map_of t' (er_Token q) = Some r'" "tk_redeemed r'"
    using sctl.serves_token [OF assms(6) ok1 assms(2) _ t] by auto
  then have "400 \<le> status (fst (Handler L ?R w' p' (PostEnroll (Inr q')) sv2))"
    using spent_refused [of sv2 t' q' r'] assms(7) by (simp add: Handler_def)
  then show ?thesis using acc by blast
qed

theorem enrollment_once_witness:
  "let sv = (start_server [] ''k'' True 0)\<lparr>sv_Tokens := Some [(hex ''t'',
       \<lparr>tk_collectorID = ''c'', tk_expiresAt = 200, tk_redeemed = False\<rparr>)]\<rparr>;
     q = PostEnroll (Inr \<lparr>er_Token = hex ''t'', er_CollectorID = ''c'', er_CSR = CSR ''key''\<rparr>);
     h = Handler demo_lib demo_sql demo_world admin_peer q
   in status (fst (h sv)) = 200 \<and> 400 \<le> status (fst (h (snd (h sv))))"
proof -
  let ?sv = "(start_server [] ''k'' True 0)\<lparr>sv_Tokens := Some [(hex ''t'',
       \<lparr>tk_collectorID = ''c'', tk_expiresAt = 200, tk_redeemed = False\<rparr>)]\<rparr>"
  let ?q = "\<lparr>er_Token = hex ''t'', er_CollectorID = ''c'', er_CSR = CSR ''key''\<rparr>"
  have ok: "server_ok (take 4) dec_int read_int ?sv"
    using server_ok_start [of "take 4" dec_int read_int "[]" "''k''" True 0]
    by (simp add: server_ok_def start_server_def New_def)
  have st: "status (fst (Handler demo_lib demo_sql demo_world admin_peer (PostEnroll (Inr ?q)) ?sv)) = 200"
    by (simp add: demo_route enroll_def Redeem_def Sign_def DefaultCertificateTTL_def)
  from enrollment_once [OF ok demo_lib_ok _ surjective_pairing st serves_none, of ?q demo_world admin_peer]
  show ?thesis using st by (simp add: legal_def good_peer_def Let_def)
qed

section \<open>What the read endpoints return\<close>

lemma sorted_values_in: "s \<in> set (sorted_values m) \<Longrightarrow> finite (dom m) \<Longrightarrow> \<exists>c. m c = Some s"
  by (auto simp: sorted_values_def dom_def)

lemma view_finite: "finite (dom (v_schedules (sqview tparse d)))"
  by (auto simp: sql_view_def decoded_def dom_def finite_dom_map_of
    intro: finite_subset [OF _ finite_dom_map_of [of "t_schedules (db_tables d)"]] split: bind_splits)

lemma reply_ok:
  assumes "reply_with rd f sv = (Response 200 x, sv')"
  shows "\<exists>y. fst (rd (sv_Store sv)) = Inr y \<and> x = f y"
  using assms by (auto simp: reply_with_def writeError_def Let_def split: prod.splits sum.splits)

lemma admin_ok:
  assumes "adminAuth p next sv = (Response 200 x, sv')"
  shows "next sv = (Response 200 x, sv')"
  using assms by (auto simp: adminAuth_def writeError_def split: if_splits)

text \<open>
  C31: what the API shows after any requests to a controller started on an empty database, under
  any storage failures: every audit log it returns verifies, and every schedule it returns has an
  interval between one minute and one week, discovery as its job type and a valid collector ID.
\<close>

theorem api_reads_sound:
  assumes "serves L (Sqlite sha tfmt tparse) (\<lambda>w p req _. sql_legal tfmt tparse w p req)
      (start_server faults key ca now) sv" "lib_ok L"
  shows "(Handler L (Sqlite sha tfmt tparse) w p GetAudit sv = (Response 200 (PAudit es), sv1) \<longrightarrow>
       VerifyChain sha tfmt es = None)
    \<and> (Handler L (Sqlite sha tfmt tparse) w p GetSchedules sv = (Response 200 (PSchedules ss), sv2) \<longrightarrow>
       (\<forall>s \<in> set ss. 60 \<le> sc_IntervalSeconds s \<and> sc_IntervalSeconds s \<le> 604800
          \<and> sc_JobType s = JobTypeDiscover \<and> ValidCollectorID (sc_CollectorID s)))"
proof (intro conjI impI)
  let ?R = "Sqlite sha tfmt tparse"
  have "sctl.sane sha tfmt tparse (start_server faults key ca now)"
    unfolding sane_sql by (rule server_ok_start)
  note served = sctl.serves_steps [OF assms(1) this assms(2)]
  have "sctl.sane sha tfmt tparse sv" by (rule conjunct1 [OF served]) simp
  then have k: "sqok sha tfmt tparse (sv_Store sv)"
    and all: "all_schedules (sched_ok (time_ok tfmt tparse)) (sqview tparse (sv_Store sv))"
    by (simp_all add: sctl.sane_def)
  show "VerifyChain sha tfmt es = None"
    if h: "Handler L ?R w p GetAudit sv = (Response 200 (PAudit es), sv1)"
  proof -
    have "auditLog ?R sv = (Response 200 (PAudit es), sv1)"
      by (rule admin_ok [of p "auditLog ?R"]) (use h in \<open>simp add: Handler_def\<close>)
    then have "fst (ListAuditEntries ?R (sv_Store sv)) = Inr es"
      unfolding auditLog_def by (auto dest!: reply_ok)
    then show ?thesis using sql.list_audit [OF k] sql.okr_view [OF k]
      by (simp add: answers_def view_ok_def)
  qed
  show "\<forall>s \<in> set ss. 60 \<le> sc_IntervalSeconds s \<and> sc_IntervalSeconds s \<le> 604800
      \<and> sc_JobType s = JobTypeDiscover \<and> ValidCollectorID (sc_CollectorID s)"
    if h: "Handler L ?R w p GetSchedules sv = (Response 200 (PSchedules ss), sv2)"
  proof
    fix s assume s: "s \<in> set ss"
    have "listSchedules ?R sv = (Response 200 (PSchedules ss), sv2)"
      by (rule admin_ok [of p "listSchedules ?R"]) (use h in \<open>simp add: Handler_def\<close>)
    then have "fst (ListSchedules ?R (sv_Store sv)) = Inr ss"
      unfolding listSchedules_def by (auto dest!: reply_ok)
    then have "ss = sorted_values (v_schedules (sqview tparse (sv_Store sv)))"
      using sql.list_schedules [OF k] by (simp add: answers_def)
    then have "s \<in> set (sorted_values (v_schedules (sqview tparse (sv_Store sv))))"
      using s by simp
    from sorted_values_in [OF this view_finite]
    obtain c where "v_schedules (sqview tparse (sv_Store sv)) c = Some s" ..
    then have "sched_ok (time_ok tfmt tparse) s" using all unfolding all_schedules_def by blast
    then show "60 \<le> sc_IntervalSeconds s \<and> sc_IntervalSeconds s \<le> 604800
      \<and> sc_JobType s = JobTypeDiscover \<and> ValidCollectorID (sc_CollectorID s)"
      by (simp add: sched_ok_def minScheduleIntervalSeconds_def maxScheduleIntervalSeconds_def)
  qed
qed

theorem api_reads_sound_witness:
  "VerifyChain (take 4) dec_int [] = None
   \<and> fst (Handler demo_lib demo_sql demo_world admin_peer GetAudit (start_server [] ''k'' True 0)) = Response 200 (PAudit [])"
proof -
  have h: "Handler demo_lib demo_sql demo_world admin_peer GetAudit (start_server [] ''k'' True 0) =
      (Response 200 (PAudit []), start_server [] ''k'' True 0)"
    by (simp add: demo_route demo_store auditLog_def reply_with_def sqlListAuditEntries_def order_by_def)
  show ?thesis using conjunct1 [OF api_reads_sound [OF serves_none demo_lib_ok], of "take 4" dec_int read_int
      demo_world admin_peer "[]" "''k''" True 0 "[]" "start_server [] ''k'' True 0"] h by simp
qed

section \<open>The recurring schedule\<close>

text \<open>
  C30: a due schedule fires. With the in-memory store, when the certified, unrevoked collector of a
  schedule polls at or after its next run, has no outstanding discovery job and random bytes are to
  be had, the response of that very poll contains a new discovery job, and the schedule's next run
  moves one interval into the future.
\<close>

theorem due_schedule_fires:
  assumes "mem_ok sha tfmt (sv_Store sv)" "p_cert p = Some cert"
    and "map_of (m_revocations (sv_Store sv)) (CertificateSerial cert) = None"
    and "map_of (m_schedules (sv_Store sv)) (crt_CommonName cert) = Some s"
    and "ValidCollectorID (crt_CommonName cert)"
    and "sc_NextRunAt s \<le> w_clock w 0" "\<not> HasOutstanding (crt_CommonName cert) (sc_JobType s) (sv_Jobs sv)"
    and "w_random w = Some buf" "gm_wf (sv_Jobs sv)"
    and "Handler L (Memory sha tfmt) w p (GetJobs q) sv = (resp, sv')"
  shows "(\<exists>jobs j. resp = Response 200 (PJobs jobs) \<and> j \<in> set jobs \<and> jb_JobID j = hex buf
      \<and> jb_Type j = sc_JobType s \<and> jb_CollectorID j = crt_CommonName cert)
    \<and> (\<exists>s'. map_of (m_schedules (sv_Store sv')) (crt_CommonName cert) = Some s'
      \<and> sc_NextRunAt s' = w_clock w 2 + sc_IntervalSeconds s * second)"
proof -
  let ?c = "crt_CommonName cert"
  let ?s = "s\<lparr>sc_NextRunAt := w_clock w 2 + sc_IntervalSeconds s * second, sc_UpdatedAt := w_clock w 3\<rparr>"
  let ?new = "\<lparr>jc_collectorID = ?c, jc_jobType = sc_JobType s, jc_status = jobPending,
    jc_createdAt = w_clock w 1, jc_completedAt = zero_time, jc_resultError = []\<rparr>"
  let ?jobs = "AList.update (hex buf) ?new (sv_Jobs sv)"
  have cid: "sc_CollectorID s = ?c"
    using assms(1,4) by (simp add: mem_ok_def view_ok_def mem_view_def)
  have maybe: "maybeEnqueueScheduledJob (Memory sha tfmt) w ?c sv =
      sv\<lparr>sv_Jobs := ?jobs, sv_Store := (sv_Store sv)\<lparr>m_schedules := AList.update ?c ?s (m_schedules (sv_Store sv))\<rparr>\<rparr>"
    using assms(4,6-8) cid by (simp add: maybeEnqueueScheduledJob_def Memory_def memGetSchedule_def
      memUpsertSchedule_def Enqueue_def Let_def)
  have "Handler L (Memory sha tfmt) w p (GetJobs q) sv = pollJobs (Memory sha tfmt) w q (Some ?c) sv"
    using collectorAuth_certified [OF assms(2), of "Memory sha tfmt" sv "pollJobs (Memory sha tfmt) w q"] assms(3)
    by (simp add: Handler_def Memory_def memIsCertificateRevoked_def)
  then have out: "resp = Response 200 (PJobs (fst (Poll ?c ?jobs)))"
    "sv_Store sv' = (sv_Store sv)\<lparr>m_schedules := AList.update ?c ?s (m_schedules (sv_Store sv))\<rparr>"
    using assms(5,10) maybe by (auto simp: pollJobs_def collectorIdentity_def Let_def split: prod.splits)
  have "job_of (hex buf) ?new \<in> set (fst (Poll ?c ?jobs))"
    using assms(9) by (subst Poll_jobs) (auto simp: due_for_def)
  then show ?thesis using out by (auto simp: job_of_def)
qed

definition demo_due :: "memory server" where
  "demo_due = (New (NewMemory\<lparr>m_schedules := [(''c'', \<lparr>sc_CollectorID = ''c'', sc_JobType = JobTypeDiscover,
     sc_IntervalSeconds = 60, sc_NextRunAt = 50, sc_CreatedAt = 1, sc_UpdatedAt = 1\<rparr>)]\<rparr>) ''k'' 0)"

theorem due_schedule_fires_witness:
  "\<exists>jobs j. fst (Handler demo_lib (Memory (take 4) dec_int) demo_world
      \<lparr>p_cert = Some demo_cert, p_auth = []\<rparr> (GetJobs []) demo_due) = Response 200 (PJobs jobs)
    \<and> j \<in> set jobs \<and> jb_JobID j = hex ''r''"
proof -
  let ?p = "\<lparr>p_cert = Some demo_cert, p_auth = []\<rparr>"
  let ?s = "\<lparr>sc_CollectorID = ''c'', sc_JobType = JobTypeDiscover,
     sc_IntervalSeconds = 60, sc_NextRunAt = 50, sc_CreatedAt = 1, sc_UpdatedAt = 1\<rparr>"
  have ok: "mem_ok (take 4) dec_int (sv_Store demo_due)"
    by (auto simp: mem_ok_def view_ok_def mem_view_def index_ok_def nested_wf_def demo_due_def New_def
      NewMemory_def VerifyChain_def mem_claims_def split: option.splits)
  have s: "map_of (m_schedules (sv_Store demo_due)) (crt_CommonName demo_cert) = Some ?s"
    "map_of (m_revocations (sv_Store demo_due)) (CertificateSerial demo_cert) = None"
    "\<not> HasOutstanding (crt_CommonName demo_cert) (sc_JobType ?s) (sv_Jobs demo_due)" "gm_wf (sv_Jobs demo_due)"
    by (simp_all add: demo_due_def New_def NewMemory_def HasOutstanding_def NewJobStore_def)
  have "(\<exists>jobs j. fst (Handler demo_lib (Memory (take 4) dec_int) demo_world ?p (GetJobs []) demo_due) =
        Response 200 (PJobs jobs) \<and> j \<in> set jobs \<and> jb_JobID j = hex ''r''
      \<and> jb_Type j = sc_JobType ?s \<and> jb_CollectorID j = crt_CommonName demo_cert)
    \<and> (\<exists>s'. map_of (m_schedules (sv_Store (snd (Handler demo_lib (Memory (take 4) dec_int) demo_world ?p
          (GetJobs []) demo_due)))) (crt_CommonName demo_cert) = Some s'
      \<and> sc_NextRunAt s' = w_clock demo_world 2 + sc_IntervalSeconds ?s * second)"
    by (rule due_schedule_fires [OF ok _ s(2,1) _ _ s(3) _ s(4) surjective_pairing]) simp_all
  then show ?thesis by blast
qed

section \<open>A lost job\<close>

definition keeps_job :: "string \<Rightarrow> 'r server \<Rightarrow> 'r server \<Rightarrow> bool" where
  "keeps_job jid sv sv' \<longleftrightarrow> (\<forall>r. map_of (sv_Jobs sv) jid = Some r \<longrightarrow> jc_status r = jobDispatched \<longrightarrow>
     map_of (sv_Jobs sv') jid = Some r)"

lemma keeps_job_same [simp]: "sv_Jobs sv' = sv_Jobs sv \<Longrightarrow> keeps_job jid sv sv'"
  by (simp add: keeps_job_def)

lemma recordAudit_jobs [simp]: "sv_Jobs (recordAudit R w a c d sv) = sv_Jobs sv"
  by (simp add: recordAudit_def)

lemma keeps_job_Enqueue:
  assumes "Enqueue (w_random w) now c ty (sv_Jobs sv) = (res, j)" "\<forall>b. w_random w = Some b \<longrightarrow> hex b \<noteq> jid"
    and "sv_Jobs sv' = j"
  shows "keeps_job jid sv sv'"
  using assms(1,2) unfolding keeps_job_def assms(3)
  by (auto simp: Enqueue_def Let_def split: option.splits)

lemma maybe_keeps:
  assumes "\<forall>b. w_random w = Some b \<longrightarrow> hex b \<noteq> jid"
  shows "keeps_job jid sv (maybeEnqueueScheduledJob R w cid sv)"
  unfolding maybeEnqueueScheduledJob_def Let_def
  by (auto split: prod.splits sum.splits intro: keeps_job_Enqueue [OF _ assms])

lemma poll_keeps:
  assumes "\<forall>b. w_random w = Some b \<longrightarrow> hex b \<noteq> jid"
  shows "keeps_job jid (sv :: 'r server) (snd (pollJobs R w q identity sv))"
proof -
  let ?c = "collectorIdentity identity q"
  have "keeps_job jid sv (sv'\<lparr>sv_Jobs := snd (Poll ?c (sv_Jobs sv'))\<rparr>)"
    if "keeps_job jid sv sv'" for sv' :: "'r server"
    using that by (auto simp: keeps_job_def map_of_Poll due_for_def)
  from this [OF maybe_keeps [OF assms, of sv R ?c]] show ?thesis
    by (auto simp: pollJobs_def bad_id_def Let_def split: prod.splits)
qed

lemma createJob_keeps:
  "\<forall>b. w_random w = Some b \<longrightarrow> hex b \<noteq> jid \<Longrightarrow> keeps_job jid sv (snd (createJob R w body sv))"
  by (auto simp: createJob_def bad_id_def Let_def split: sum.splits prod.splits
    intro: keeps_job_Enqueue)

lemma result_keeps: "jid' \<noteq> jid \<Longrightarrow> keeps_job jid sv (snd (reportJobResult w jid' body identity sv))"
  by (auto simp: reportJobResult_def bad_id_def Let_def keeps_job_def Result_def
    split: sum.splits prod.splits option.splits)

lemma other_handlers_keep [simp]:
  "keeps_job jid sv (snd (ingest R obs identity sv))"
  "keeps_job jid sv (snd (heartbeat w hbt identity sv))"
  "keeps_job jid sv (snd (createEnrollmentToken L R w tok sv))"
  "keeps_job jid sv (snd (enroll L R w enr sv))"
  "keeps_job jid sv (snd (rotate L R w p rot sv))"
  "keeps_job jid sv (snd (createCertificateRevocation R w rvk sv))"
  "keeps_job jid sv (snd (deleteSchedule R w cid sv))"
  "keeps_job jid sv (snd (reply_with rd f sv))"
  by (auto simp: ingest_def heartbeat_def createEnrollmentToken_def enroll_def rotate_def reply_with_def
    createCertificateRevocation_def deleteSchedule_def bad_id_def Let_def
    split: sum.splits prod.splits option.splits store_error.splits bool.splits)

lemma schedule_keeps: "keeps_job jid sv (snd (createOrUpdateSchedule R w body sv))"
proof (cases "\<exists>req. body = Inr req \<and> valid_schedule_request req")
  case True
  then obtain req where req: "body = Inr req" "valid_schedule_request req" by blast
  obtain res r where r: "GetSchedule R (sq_CollectorID req) (sv_Store sv) = (res, r)" by fastforce
  obtain res2 r2 where u: "UpsertSchedule R (requested_schedule w req res) r = (res2, r2)" by fastforce
  show ?thesis unfolding req(1) createSchedule_eq [OF req(2) r u] by (simp split: option.splits)
next
  case False
  then show ?thesis using createSchedule_invalid [of body R w sv] by fastforce
qed

lemma collector_keeps:
  assumes "\<And>i sv'. keeps_job jid sv' (snd (next i sv'))"
  shows "keeps_job jid sv (snd (collectorAuth R p next sv))"
proof -
  have "keeps_job jid sv (snd (next i (sv\<lparr>sv_Store := r\<rparr>)))" for i r
    using assms [of "sv\<lparr>sv_Store := r\<rparr>" i] by (simp add: keeps_job_def)
  then show ?thesis using assms
    by (auto simp: collectorAuth_def Let_def split: option.splits prod.splits sum.splits bool.splits)
qed

lemma admin_keeps: "keeps_job jid sv (snd (next sv)) \<Longrightarrow> keeps_job jid sv (snd (adminAuth p next sv))"
  by (simp add: adminAuth_def)

lemma Handler_keeps:
  assumes "\<forall>b. w_random w = Some b \<longrightarrow> hex b \<noteq> jid" "\<forall>body. req \<noteq> PostJobResult jid body"
  shows "keeps_job jid sv (snd (Handler L R w p req sv))"
  using assms(2)
  by (cases req) (auto simp: Handler_def health_def assets_def relationships_def auditLog_def
    observations_def listCertificateRevocations_def listSchedules_def collectors_def jobStatus_def
    schedule_keeps createJob_keeps [OF assms(1)] poll_keeps [OF assms(1)] result_keeps
    intro!: admin_keeps collector_keeps split: sum.splits)

lemma serves_keeps:
  "serves L R lg sv sv' \<Longrightarrow> map_of (sv_Jobs sv) jid = Some r \<Longrightarrow> jc_status r = jobDispatched \<Longrightarrow>
   (\<And>w p req s. lg w p req s \<Longrightarrow> (\<forall>b. w_random w = Some b \<longrightarrow> hex b \<noteq> jid) \<and> (\<forall>body. req \<noteq> PostJobResult jid body)) \<Longrightarrow>
   map_of (sv_Jobs sv') jid = Some r"
proof (induction rule: serves.induct)
  case (serves_one sv sv' w p req)
  then show ?case using Handler_keeps [of w jid req sv' L R p] unfolding keeps_job_def by blast
qed

text \<open>
  C32: a job that was handed out and never reported stops its collector's schedule. As long as
  nobody reports a result for the dispatched discovery job \<open>jid\<close>, then after any requests whatever
  and at any later time, the scheduler enqueues nothing for that collector and never moves the
  schedule's next run: the schedule resumes only when that very job is reported.
\<close>

theorem lost_job_stalls_schedule:
  assumes "server_ok sha tfmt tparse sv" "lib_ok L"
    and "map_of (sv_Jobs sv) jid = Some r" "jc_status r = jobDispatched" "jc_jobType r = JobTypeDiscover"
    and "serves L (Sqlite sha tfmt tparse) (\<lambda>w p req _. sql_legal tfmt tparse w p req
           \<and> (\<forall>b. w_random w = Some b \<longrightarrow> hex b \<noteq> jid) \<and> (\<forall>body. req \<noteq> PostJobResult jid body)) sv sv'"
  shows "sv_Jobs (maybeEnqueueScheduledJob (Sqlite sha tfmt tparse) w (jc_collectorID r) sv') = sv_Jobs sv'
    \<and> sqview tparse (sv_Store (maybeEnqueueScheduledJob (Sqlite sha tfmt tparse) w (jc_collectorID r) sv'))
       = sqview tparse (sv_Store sv')"
proof -
  let ?R = "Sqlite sha tfmt tparse" and ?c = "jc_collectorID r"
  have "sctl.sane sha tfmt tparse sv" using assms(1) by (simp add: sane_sql)
  note served = sctl.serves_steps [OF assms(6) this assms(2)]
  have ok: "sctl.sane sha tfmt tparse sv'" by (rule conjunct1 [OF served]) simp
  have "map_of (sv_Jobs sv') jid = Some r"
    by (rule serves_keeps [OF assms(6,3,4)]) simp
  then have out: "HasOutstanding ?c JobTypeDiscover (sv_Jobs sv')"
    using assms(4,5) by (auto simp: HasOutstanding_def list_ex_iff dest!: map_of_SomeD)
  obtain res d where g: "GetSchedule ?R ?c (sv_Store sv') = (res, d)" by fastforce
  note v = sctl.tracks_get_schedule(2) [OF sctl.tracks_refl [OF ok] g]
  show ?thesis
  proof (cases res)
    case (Inl err)
    then show ?thesis using g v by (simp add: maybeEnqueueScheduledJob_def)
  next
    case (Inr s)
    then have "sc_JobType s = JobTypeDiscover"
      using sctl.found_schedule(4) [OF ok] g by (auto simp: sched_ok_def)
    then show ?thesis using Inr g v out by (simp add: maybeEnqueueScheduledJob_def Let_def)
  qed
qed

theorem lost_job_stalls_schedule_witness:
  "sv_Jobs (maybeEnqueueScheduledJob demo_sql demo_world ''c''
     ((start_server [] ''k'' True 0)\<lparr>sv_Jobs := snd (Poll ''c'' demo_jobs)\<rparr>)) = snd (Poll ''c'' demo_jobs)"
proof -
  let ?sv = "(start_server [] ''k'' True 0)\<lparr>sv_Jobs := snd (Poll ''c'' demo_jobs)\<rparr>"
  have ok: "server_ok (take 4) dec_int read_int ?sv"
    using server_ok_start [of "take 4" dec_int read_int "[]" "''k''" True 0] by (simp add: server_ok_def)
  obtain r where r: "map_of (sv_Jobs ?sv) (hex ''a'') = Some r" "jc_status r = jobDispatched"
    "jc_jobType r = JobTypeDiscover" "jc_collectorID r = ''c''"
    by (simp add: Poll_def demo_jobs_def due_for_def)
  from conjunct1 [OF lost_job_stalls_schedule [OF ok demo_lib_ok r(1-3) serves_none, of demo_world]] r(4)
  show ?thesis by simp
qed

end
