(* ===== verification/Agent.thy ===== *)
theory Agent
  imports Spool
begin

text \<open>
  The collector's run loop (\<open>internal/agent/run.go\<close>) and how its sender classifies an answer
  (\<open>internal/agent/sender.go\<close>). The answers to requests are a stream of the state (an exhausted stream
  is an unreachable controller, as is a request whose context was cancelled); the requests made are
  logged with their answers, in order. Observations are of any type \<open>'d\<close> that the spool can encode; as
  for the spool, the error path of \<open>json.Marshal\<close> in \<open>Send\<close> is left out.
\<close>

section \<open>The sender\<close>

text \<open>An answer is a status, or none. A \<open>DeliveryError\<close> tells whether the failure is worth a retry.\<close>

datatype answer = Unreachable | Status nat

datatype delivery_error = DeliveryError bool

definition doRaw :: "answer \<Rightarrow> delivery_error option" where
  "doRaw a =
     (case a of Unreachable \<Rightarrow> Some (DeliveryError True)
      | Status s \<Rightarrow> if s < 200 \<or> 300 \<le> s then Some (DeliveryError (500 \<le> s)) else None)"

fun Retryable_error :: "delivery_error \<Rightarrow> bool" where
  "Retryable_error (DeliveryError r) = r"

section \<open>State\<close>

datatype 'd agent_call = ASend 'd answer | AHeartbeat answer | APoll answer | AReport string bool string answer

record 'd agent_state =
  ag_spool :: spool
  ag_answers :: "answer list"
  ag_calls :: "'d agent_call list"

definition call :: "(answer \<Rightarrow> 'd agent_call) \<Rightarrow> 'd agent_state \<Rightarrow> answer \<times> 'd agent_state" where
  "call f s =
     (let a = (case ag_answers s of [] \<Rightarrow> Unreachable | x # _ \<Rightarrow> x)
      in (a, s\<lparr>ag_answers := tl (ag_answers s), ag_calls := ag_calls s @ [f a]\<rparr>))"

definition Send :: "'d \<Rightarrow> 'd agent_state \<Rightarrow> delivery_error option \<times> 'd agent_state" where
  "Send d s = (case call (ASend d) s of (a, s) \<Rightarrow> (doRaw a, s))"

definition with_spool :: "(spool \<Rightarrow> 'a \<times> spool) \<Rightarrow> 'd agent_state \<Rightarrow> 'a \<times> 'd agent_state" where
  "with_spool f s = (case f (ag_spool s) of (x, sp) \<Rightarrow> (x, s\<lparr>ag_spool := sp\<rparr>))"

section \<open>Draining and delivering\<close>

text \<open>A failed removal is only logged.\<close>

fun drain_entries :: "'d sealing \<Rightarrow> string list \<Rightarrow> 'd agent_state \<Rightarrow> 'd agent_state" where
  "drain_entries e [] s = s"
| "drain_entries e (name # names) s =
     (case with_spool (agent_Read e name) s of
        (Inl _, s) \<Rightarrow> drain_entries e names (snd (with_spool (agent_Remove name) s))
      | (Inr d, s) \<Rightarrow>
        case Send d s of
          (None, s) \<Rightarrow> drain_entries e names (snd (with_spool (agent_Remove name) s))
        | (Some err, s) \<Rightarrow>
            if \<not> Retryable_error err then drain_entries e names (snd (with_spool (agent_Remove name) s))
            else s)"

definition drainSpool :: "'d sealing \<Rightarrow> 'd agent_state \<Rightarrow> 'd agent_state" where
  "drainSpool e s =
     (case with_spool agent_Pending s of (None, s) \<Rightarrow> s | (Some names, s) \<Rightarrow> drain_entries e names s)"

definition deliver :: "'d sealing \<Rightarrow> nat \<Rightarrow> nat \<Rightarrow> 'd \<Rightarrow> 'd agent_state \<Rightarrow> 'd agent_state" where
  "deliver e maxBytes now d s =
     (case Send d s of (None, s) \<Rightarrow> s
      | (Some _, s) \<Rightarrow> snd (with_spool (agent_Enqueue e maxBytes now d) s))"

text \<open>What the plugin returns, with the clock when the entry would be named: an error text or an observation.\<close>

type_synonym 'd finding = "nat \<times> (string + 'd)"

definition discoverAndSend :: "'d sealing \<Rightarrow> nat \<Rightarrow> 'd finding \<Rightarrow> 'd agent_state \<Rightarrow> string option \<times> 'd agent_state" where
  "discoverAndSend e maxBytes f s =
     (case snd f of Inl err \<Rightarrow> (Some err, s) | Inr d \<Rightarrow> (None, deliver e maxBytes (fst f) d s))"

definition tick :: "'d sealing \<Rightarrow> nat \<Rightarrow> 'd finding \<Rightarrow> 'd agent_state \<Rightarrow> 'd agent_state" where
  "tick e maxBytes f s = snd (discoverAndSend e maxBytes f (drainSpool e s))"

section \<open>Heartbeats and jobs\<close>

record 'd dispatched =
  ds_JobID :: string
  ds_Type :: string
  ds_Finding :: "'d finding"

text \<open>The text of the rejection leaves out the quotation of the type.\<close>

definition agent_runJob :: "'d sealing \<Rightarrow> nat \<Rightarrow> 'd dispatched \<Rightarrow> 'd agent_state \<Rightarrow> 'd agent_state" where
  "agent_runJob e maxBytes j s =
     (case (if ds_Type j = ''discover'' then discoverAndSend e maxBytes (ds_Finding j) s
            else (Some (''collector does not support job type '' @ ds_Type j), s)) of
        (None, s) \<Rightarrow> snd (call (AReport (ds_JobID j) True []) s)
      | (Some err, s) \<Rightarrow> snd (call (AReport (ds_JobID j) False err) s))"

definition checkIn :: "'d sealing \<Rightarrow> nat \<Rightarrow> 'd dispatched list option \<Rightarrow> 'd agent_state \<Rightarrow> 'd agent_state" where
  "checkIn e maxBytes decoded s =
     (let s = snd (call AHeartbeat s)
      in case call APoll s of (a, s) \<Rightarrow>
           if doRaw a \<noteq> None then s
           else case decoded of None \<Rightarrow> s | Some jobs \<Rightarrow> fold (agent_runJob e maxBytes) jobs s)"

text \<open>The two tickers of \<open>Run\<close>, in any interleaving.\<close>

datatype 'd agent_event = Tick "'d finding" | CheckIn "'d dispatched list option"

fun agent_step :: "'d sealing \<Rightarrow> nat \<Rightarrow> 'd agent_event \<Rightarrow> 'd agent_state \<Rightarrow> 'd agent_state" where
  "agent_step e maxBytes (Tick f) s = tick e maxBytes f s"
| "agent_step e maxBytes (CheckIn decoded) s = checkIn e maxBytes decoded s"

end
