(* ===== verification/Agent_Properties.thy ===== *)
theory Agent_Properties
  imports Agent Spool_Names
begin

text \<open>
  The collector keeps an observation it could not deliver until the controller has answered for it; an
  observation too large to be read back is accepted by the spool and then dropped unsent.
\<close>

section \<open>A spool whose file operations work\<close>

definition calm :: "spool \<Rightarrow> bool" where
  "calm s \<longleftrightarrow> sp_io s = [] \<and> nonces_ok s"

lemma calm_ops:
  assumes "calm s"
  shows "ReadDir s = (Some (sp_files s), s)"
    and "ReadFile n s = (map_of (sp_files s) n, s)"
    and "RemoveFile n s = (True, s\<lparr>sp_files := AList.delete n (sp_files s)\<rparr>)"
    and "WriteFile n c s = (True, s\<lparr>sp_files := AList.update n c (sp_files s)\<rparr>)"
  using assms by (simp_all add: calm_def ReadDir_def ReadFile_def RemoveFile_def WriteFile_def next_io_def)

lemma calm_files [simp]: "calm (s\<lparr>sp_files := fs\<rparr>) = calm s"
  by (simp add: calm_def)

lemma calm_read:
  assumes "calm s"
  shows "agent_Read e n s = (if \<not> entryPath_ok spoolSuffix n then Inl BadName
     else case map_of (sp_files s) n of None \<Rightarrow> Inl OpenError | Some c \<Rightarrow> decode_entry e maxSpoolFileBytes c, s)"
  by (simp add: agent_Read_def calm_ops [OF assms] split: option.splits)

lemma calm_remove:
  assumes "calm s" "agent_Remove n s = (r, s')"
  shows "calm s'" "sp_seq s' = sp_seq s" "m \<noteq> n \<Longrightarrow> map_of (sp_files s') m = map_of (sp_files s) m"
  using assms by (auto simp: agent_Remove_def calm_ops [OF assms(1)] delete_conv' split: if_splits)

lemma calm_commit:
  assumes "calm s" "tmp \<noteq> []"
  obtains fs where "commit_entry tmp n c s = (None, s\<lparr>sp_files := fs\<rparr>)"
    "map_of fs = (map_of (sp_files s))(tmp @ n := None, n \<mapsto> c)"
proof
  let ?fs = "AList.update n c (AList.delete (tmp @ n) (AList.update (tmp @ n) c (sp_files s)))"
  have "Rename (tmp @ n) n (s\<lparr>sp_files := AList.update (tmp @ n) c (sp_files s)\<rparr>) = (True, s\<lparr>sp_files := ?fs\<rparr>)"
    using assms(1) by (simp add: calm_def Rename_def next_io_def update_conv')
  then show "commit_entry tmp n c s = (None, s\<lparr>sp_files := ?fs\<rparr>)"
    by (simp add: commit_entry_def calm_ops [OF assms(1)])
  show "map_of ?fs = (map_of (sp_files s))(tmp @ n := None, n \<mapsto> c)"
    by (rule ext) (simp add: update_conv' delete_conv')
qed

lemma calm_enqueue:
  assumes "calm s" "agent_Enqueue e m now d s = (r, s')"
  obtains (refused) "calm s'" "r \<noteq> None" "sp_files s' = sp_files s" "sp_seq s' = sp_seq s"
  | (stored) nonce where "calm s'" "r = None" "sp_seq s' = sp_seq s + 1" "length nonce = nonceSize"
      "map_of (sp_files s') = (map_of (sp_files s))
        (tmpPrefix @ entry_name now (sp_seq s + 1) spoolSuffix := None,
         entry_name now (sp_seq s + 1) spoolSuffix \<mapsto> ciphertext e nonce d)"
proof -
  obtain x s1 where n: "next_nonce s = (x, s1)" by fastforce
  have s1: "calm s1" "sp_files s1 = sp_files s" "sp_seq s1 = sp_seq s"
    using next_nonce_files [OF n] n assms(1) by (auto simp: calm_def next_nonce_def split: list.splits)
  note rd = calm_ops(1) [OF s1(1)]
  show thesis
  proof (cases x)
    case None
    then show thesis using assms(2) n s1 refused by (auto simp: agent_Enqueue_def)
  next
    case (Some nonce)
    then have len: "length nonce = nonceSize" using next_nonce_files [OF n] assms(1) unfolding calm_def by blast
    show thesis
    proof (cases "total_bytes (sp_files s1) + length (ciphertext e nonce d) > m")
      case True
      then show thesis using assms(2) n Some rd s1 refused by (auto simp: agent_Enqueue_def)
    next
      case False
      let ?s2 = "s1\<lparr>sp_seq := sp_seq s1 + 1\<rparr>"
      have c2: "calm ?s2" using s1(1) by (simp add: calm_def)
      have tmp: "tmpPrefix \<noteq> []" by (simp add: tmpPrefix_def)
      obtain fs where c: "commit_entry tmpPrefix (entry_name now (sp_seq s1 + 1) spoolSuffix) (ciphertext e nonce d) ?s2
            = (None, ?s2\<lparr>sp_files := fs\<rparr>)"
          "map_of fs = (map_of (sp_files ?s2))(tmpPrefix @ entry_name now (sp_seq s1 + 1) spoolSuffix := None,
             entry_name now (sp_seq s1 + 1) spoolSuffix \<mapsto> ciphertext e nonce d)"
        by (rule calm_commit [OF c2 tmp])
      have "r = None \<and> s' = ?s2\<lparr>sp_files := fs\<rparr>"
        using assms(2) n Some rd False c(1) by (simp add: agent_Enqueue_def Let_def)
      then show thesis using stored [OF _ _ _ len] c2 c(2) s1 by simp
    qed
  qed
qed

section \<open>What is promised of a buffered observation\<close>

text \<open>
  An observation is answered for when a request that carries it, after the first \<open>k\<close> calls, was answered
  with anything but a retryable failure; it is kept while an entry of the spool reads back as it.
\<close>

definition answered :: "('d \<Rightarrow> 'd \<Rightarrow> bool) \<Rightarrow> 'd \<Rightarrow> nat \<Rightarrow> 'd agent_state \<Rightarrow> bool" where
  "answered R d k s \<longleftrightarrow> (\<exists>d' a. ASend d' a \<in> set (drop k (ag_calls s)) \<and> (d' = d \<or> R d d')
     \<and> doRaw a \<noteq> Some (DeliveryError True))"

definition kept :: "('d \<Rightarrow> 'd \<Rightarrow> bool) \<Rightarrow> 'd sealing \<Rightarrow> 'd \<Rightarrow> string \<Rightarrow> spool \<Rightarrow> bool" where
  "kept R e d name s \<longleftrightarrow>
     (\<exists>c d'. map_of (sp_files s) name = Some c \<and> decode_entry e maxSpoolFileBytes c = Inr d' \<and> R d d')"

definition safe :: "('d \<Rightarrow> 'd \<Rightarrow> bool) \<Rightarrow> 'd sealing \<Rightarrow> 'd \<Rightarrow> nat \<Rightarrow> string \<Rightarrow> 'd agent_state \<Rightarrow> bool" where
  "safe R e d k name s \<longleftrightarrow> calm (ag_spool s) \<and> k \<le> length (ag_calls s)
     \<and> (\<exists>now i. name = entry_name now i spoolSuffix \<and> i \<le> sp_seq (ag_spool s))
     \<and> (answered R d k s \<or> kept R e d name (ag_spool s))"

lemma safe_more:
  assumes "safe R e d k name s" "ag_calls s' = ag_calls s @ xs" "calm (ag_spool s')"
    and "sp_seq (ag_spool s) \<le> sp_seq (ag_spool s')"
    and "kept R e d name (ag_spool s) \<Longrightarrow> answered R d k s' \<or> kept R e d name (ag_spool s')"
  shows "safe R e d k name s'"
proof -
  have "answered R d k s \<Longrightarrow> answered R d k s'" using assms(2) unfolding answered_def by auto
  moreover have "\<exists>now i. name = entry_name now i spoolSuffix \<and> i \<le> sp_seq (ag_spool s')"
    using assms(1,4) le_trans unfolding safe_def by blast
  ultimately show ?thesis using assms(1,2,3,5) unfolding safe_def by auto
qed

lemma safe_call: "safe R e d k name s \<Longrightarrow> safe R e d k name (snd (call f s))"
  by (rule safe_more [where xs = "[f (case ag_answers s of [] \<Rightarrow> Unreachable | x # _ \<Rightarrow> x)]"])
    (auto simp: safe_def call_def Let_def)

lemma slash_free: "CHR ''/'' \<notin> set spoolSuffix" "CHR 0x5C \<notin> set spoolSuffix"
  by (simp_all add: spoolSuffix_def)

lemma entry_not_tmp: "entry_name now i spoolSuffix \<noteq> tmpPrefix @ x"
  using entry_name_first [of now i spoolSuffix] by (auto simp: tmpPrefix_def)

lemma entry_listed: "\<not> has_prefix (entry_name now i spoolSuffix) tmpPrefix"
  using entry_name_first [of now i spoolSuffix] by (auto simp: has_prefix_def tmpPrefix_def)

lemma safe_enqueue:
  assumes "safe R e d k name s"
  shows "safe R e d k name (snd (with_spool (agent_Enqueue e m now x) s))"
proof -
  obtain r sp where en: "agent_Enqueue e m now x (ag_spool s) = (r, sp)" by fastforce
  obtain now' i where nm: "name = entry_name now' i spoolSuffix" "i \<le> sp_seq (ag_spool s)" and c: "calm (ag_spool s)"
    using assms unfolding safe_def by blast
  let ?t = "s\<lparr>ag_spool := sp\<rparr>"
  from c en have "safe R e d k name ?t"
  proof (cases rule: calm_enqueue)
    case refused
    then show ?thesis by (intro safe_more [OF assms, of ?t "[]"]) (simp_all add: kept_def)
  next
    case (stored nonce)
    have ne: "name \<noteq> tmpPrefix @ entry_name now (sp_seq (ag_spool s) + 1) spoolSuffix"
      unfolding nm(1) by (rule entry_not_tmp)
    have "name \<noteq> entry_name now (sp_seq (ag_spool s) + 1) spoolSuffix"
    proof
      assume "name = entry_name now (sp_seq (ag_spool s) + 1) spoolSuffix"
      then have "i = sp_seq (ag_spool s) + 1" unfolding nm(1) by (rule entry_name_seq)
      then show False using nm(2) by simp
    qed
    then have same: "map_of (sp_files sp) name = map_of (sp_files (ag_spool s)) name"
      using ne unfolding stored(5) by simp
    show ?thesis
      by (rule safe_more [OF assms, of ?t "[]"]) (use stored(1,3) same in \<open>simp_all add: kept_def\<close>)
  qed
  then show ?thesis by (simp add: with_spool_def en)
qed

section \<open>The run loop keeps the promise\<close>

lemma safe_remove:
  assumes "safe R e d k name s" "n = name \<Longrightarrow> answered R d k s"
  shows "safe R e d k name (snd (with_spool (agent_Remove n) s))"
proof -
  obtain r sp where rm: "agent_Remove n (ag_spool s) = (r, sp)" by fastforce
  have "calm (ag_spool s)" using assms(1) unfolding safe_def by blast
  note f = calm_remove [OF this rm]
  let ?t = "s\<lparr>ag_spool := sp\<rparr>"
  have "safe R e d k name ?t"
  proof (rule safe_more [OF assms(1), of ?t "[]"])
    assume "kept R e d name (ag_spool s)"
    then show "answered R d k ?t \<or> kept R e d name (ag_spool ?t)"
      using assms(2) f(3) [of name] by (cases "n = name") (auto simp: answered_def kept_def)
  qed (use f in simp_all)
  then show ?thesis by (simp add: with_spool_def rm)
qed

lemma Send_answered:
  assumes "Send x s = (err, s')" "R d x" "err \<noteq> Some (DeliveryError True)" "k \<le> length (ag_calls s)"
  shows "answered R d k s'"
proof -
  obtain a where "err = doRaw a" "ag_calls s' = ag_calls s @ [ASend x a]"
    using assms(1) by (auto simp: Send_def call_def Let_def)
  then show ?thesis using assms(2-4) unfolding answered_def by auto
qed

lemma Send_call: "Send x s = (err, s') \<Longrightarrow> s' = snd (call (ASend x) s)"
  by (auto simp: Send_def split: prod.splits)

lemma safe_drain_entries: "safe R e d k name s \<Longrightarrow> safe R e d k name (drain_entries e names s)"
proof (induction names arbitrary: s)
  case (Cons n names)
  have c: "calm (ag_spool s)" and k: "k \<le> length (ag_calls s)" using Cons.prems unfolding safe_def by blast+
  obtain x where rd: "with_spool (agent_Read e n) s = (x, s)"
    by (simp add: with_spool_def calm_read [OF c])
  have read: "x = fst (agent_Read e n (ag_spool s))"
    using rd by (auto simp: with_spool_def split: prod.splits)
  have kept_read: "\<exists>y. x = Inr y \<and> R d y" if "n = name" "kept R e d name (ag_spool s)"
  proof -
    obtain now i where "name = entry_name now i spoolSuffix" using Cons.prems unfolding safe_def by blast
    then have "entryPath_ok spoolSuffix n" using that(1) entry_name_path [OF slash_free] by simp
    then show ?thesis using that read by (auto simp: kept_def calm_read [OF c])
  qed
  show ?case
  proof (cases x)
    case (Inl err)
    have "n = name \<Longrightarrow> answered R d k s"
      using Cons.prems kept_read Inl unfolding safe_def by blast
    from Cons.IH [OF safe_remove [OF Cons.prems this]] show ?thesis by (simp add: rd Inl)
  next
    case (Inr y)
    obtain err s1 where sd: "Send y s = (err, s1)" by fastforce
    have s1: "safe R e d k name s1" using safe_call [OF Cons.prems] Send_call [OF sd] by simp
    have "answered R d k s1" if "n = name" "err \<noteq> Some (DeliveryError True)"
    proof (cases "answered R d k s")
      case True
      then show ?thesis unfolding Send_call [OF sd] by (auto simp: answered_def call_def Let_def)
    next
      case False
      then have "R d y" using Cons.prems kept_read [OF that(1)] Inr unfolding safe_def by auto
      with Send_answered [OF sd _ that(2) k] show ?thesis by blast
    qed
    then have "safe R e d k name (drain_entries e names (snd (with_spool (agent_Remove n) s1)))"
      if "err \<noteq> Some (DeliveryError True)"
      using that by (intro Cons.IH safe_remove [OF s1]) blast
    moreover have "err = Some (DeliveryError True) \<or> err = None \<or> err = Some (DeliveryError False)"
      by (metis (full_types) Retryable_error.cases option.exhaust)
    ultimately show ?thesis using s1 by (auto simp: rd Inr sd)
  qed
qed simp

lemma safe_drain: "safe R e d k name s \<Longrightarrow> safe R e d k name (drainSpool e s)"
  using safe_drain_entries
  by (simp add: drainSpool_def with_spool_def agent_Pending_def safe_def calm_ops)

lemma safe_deliver: "safe R e d k name s \<Longrightarrow> safe R e d k name (deliver e m now x s)"
proof -
  assume s: "safe R e d k name s"
  obtain err s1 where sd: "Send x s = (err, s1)" by fastforce
  have "safe R e d k name s1" using safe_call [OF s] Send_call [OF sd] by simp
  from safe_enqueue [OF this, of m now x] this show ?thesis by (simp add: deliver_def sd split: option.split)
qed

lemma safe_discover: "safe R e d k name s \<Longrightarrow> safe R e d k name (snd (discoverAndSend e m f s))"
  by (simp add: discoverAndSend_def safe_deliver split: sum.split)

lemma safe_runJob: "safe R e d k name s \<Longrightarrow> safe R e d k name (agent_runJob e m j s)"
proof -
  assume s: "safe R e d k name s"
  obtain x s1 where r: "(if ds_Type j = ''discover'' then discoverAndSend e m (ds_Finding j) s
      else (Some (''collector does not support job type '' @ ds_Type j), s)) = (x, s1)" by fastforce
  have "safe R e d k name s1"
    using s safe_discover [OF s, of m "ds_Finding j"] r by (auto split: if_splits)
  then show ?thesis unfolding agent_runJob_def r by (simp add: safe_call split: option.split)
qed

lemma safe_step: "safe R e d k name s \<Longrightarrow> safe R e d k name (agent_step e m event s)"
proof (cases event)
  case (CheckIn decoded)
  assume s: "safe R e d k name s"
  obtain a s1 where p: "call APoll (snd (call AHeartbeat s)) = (a, s1)" by fastforce
  have s1: "safe R e d k name s1" using safe_call [OF safe_call [OF s], of APoll AHeartbeat] p by simp
  have "safe R e d k name t \<Longrightarrow> safe R e d k name (fold (agent_runJob e m) jobs t)" for jobs t
    by (induction jobs arbitrary: t) (simp_all add: safe_runJob)
  then show ?thesis
    using s1 by (simp add: CheckIn checkIn_def Let_def p split: option.split)
qed (simp add: tick_def safe_discover safe_drain)

lemma safe_steps: "safe R e d k name s \<Longrightarrow> safe R e d k name (fold (agent_step e m) events s)"
  by (induction events arbitrary: s) (simp_all add: safe_step)

lemma safe_stored:
  assumes "sealing_ok R e" "length (sl_marshal e d) + 28 \<le> maxSpoolFileBytes" "calm (ag_spool s)"
    and "with_spool (agent_Enqueue e m now d) s = (None, s')" "k \<le> length (ag_calls s)"
  shows "safe R e d k (entry_name now (sp_seq (ag_spool s) + 1) spoolSuffix) s'"
proof -
  let ?name = "entry_name now (sp_seq (ag_spool s) + 1) spoolSuffix"
  obtain r sp where en: "agent_Enqueue e m now d (ag_spool s) = (r, sp)" by fastforce
  then have s': "r = None" "s' = s\<lparr>ag_spool := sp\<rparr>" using assms(4) by (auto simp: with_spool_def)
  from assms(3) en show ?thesis
  proof (cases rule: calm_enqueue)
    case (stored nonce)
    have "length (sl_marshal e d) \<le> gcm_limit"
      using assms(2) by (simp add: maxSpoolFileBytes_def gcm_limit_def)
    from decode_full [OF assms(1) stored(4) this assms(2)]
    have "kept R e d ?name sp" using stored(5) by (auto simp: kept_def)
    then show ?thesis using stored(1,3) s' assms(5) unfolding safe_def by auto
  qed (use s' in simp)
qed
section \<open>The log only grows\<close>

definition extends :: "'d agent_state \<Rightarrow> 'd agent_state \<Rightarrow> bool" where
  "extends s s' \<longleftrightarrow> (\<exists>xs. ag_calls s' = ag_calls s @ xs)"

lemma extends_refl [simp]: "extends s s" by (simp add: extends_def)

lemma extends_trans [trans]: "extends s s' \<Longrightarrow> extends s' s'' \<Longrightarrow> extends s s''"
  by (auto simp: extends_def)

lemma extends_call: "extends s (snd (call f s))"
  by (simp add: extends_def call_def Let_def)

lemma extends_spool: "extends s (snd (with_spool f s))"
  by (simp add: extends_def with_spool_def split: prod.split)

lemma extends_drain_entries: "extends s (drain_entries e names s)"
proof (induction names arbitrary: s)
  case (Cons n names)
  obtain x s1 where rd: "with_spool (agent_Read e n) s = (x, s1)" by fastforce
  have s1: "extends s s1" using extends_spool [of s "agent_Read e n"] rd by simp
  show ?case
  proof (cases x)
    case (Inl err)
    then show ?thesis using extends_trans [OF s1 extends_trans [OF extends_spool Cons.IH]] by (simp add: rd)
  next
    case (Inr y)
    obtain err s2 where sd: "Send y s1 = (err, s2)" by fastforce
    have s2: "extends s s2" using extends_trans [OF s1 extends_call] unfolding Send_call [OF sd] .
    then show ?thesis
      using extends_trans [OF s2 extends_trans [OF extends_spool [of s2 "agent_Remove n"] Cons.IH]] by (simp add: rd Inr sd split: option.split)
  qed
qed simp

lemma extends_drain: "extends s (drainSpool e s)"
  using extends_spool [of s agent_Pending] extends_drain_entries extends_trans
  by (fastforce simp: drainSpool_def split: prod.split option.split)

lemma extends_deliver: "extends s (deliver e m now x s)"
proof -
  obtain err s1 where sd: "Send x s = (err, s1)" by fastforce
  have s1: "extends s s1" unfolding Send_call [OF sd] by (rule extends_call)
  from extends_trans [OF s1 extends_spool [of s1 "agent_Enqueue e m now x"]] s1 show ?thesis by (simp add: deliver_def sd split: option.split)
qed

lemma extends_discover: "extends s (snd (discoverAndSend e m f s))"
  by (simp add: discoverAndSend_def extends_deliver split: sum.split)

lemma extends_runJob: "extends s (agent_runJob e m j s)"
proof -
  obtain x s1 where r: "(if ds_Type j = ''discover'' then discoverAndSend e m (ds_Finding j) s
      else (Some (''collector does not support job type '' @ ds_Type j), s)) = (x, s1)" by fastforce
  have s1: "extends s s1"
    using extends_discover [of s e m "ds_Finding j"] r by (auto split: if_splits)
  from extends_trans [OF s1 extends_call] show ?thesis unfolding agent_runJob_def r by (simp split: option.split)
qed

lemma extends_jobs: "extends s (fold (agent_runJob e m) jobs s)"
proof (induction jobs arbitrary: s)
  case (Cons j jobs)
  from extends_trans [OF extends_runJob Cons.IH] show ?case by simp
qed simp

lemma extends_step: "extends s (agent_step e m event s)"
proof (cases event)
  case (Tick f)
  from extends_trans [OF extends_drain extends_discover] show ?thesis by (simp add: Tick tick_def)
next
  case (CheckIn decoded)
  obtain a s1 where p: "call APoll (snd (call AHeartbeat s)) = (a, s1)" by fastforce
  have s1: "extends s s1" using extends_trans [OF extends_call [of s AHeartbeat] extends_call, of APoll] p by simp
  from extends_trans [OF s1 extends_jobs] s1 show ?thesis
    by (simp add: CheckIn checkIn_def Let_def p split: option.split)
qed

lemma extends_steps: "extends s (fold (agent_step e m) events s)"
proof (induction events arbitrary: s)
  case (Cons j events)
  from extends_trans [OF extends_step Cons.IH] show ?case by simp
qed simp

section \<open>The promise\<close>

text \<open>
  The collector does not lose an observation. When \<open>deliver\<close> has tried to send it, then after any
  number of ticks, check-ins and jobs, whatever the controller answers: either a request that carries the
  observation (as given, or as it reads back from its encoding) was answered by the controller, with
  success or with a permanent refusal; or the spool still holds an entry that reads back as it; or the
  spool had refused it. The files work, and the encoding fits the bound of one entry.
\<close>

lemma observation_kept:
  assumes "sealing_ok R e" "sp_io (ag_spool s) = []" "nonces_ok (ag_spool s)"
    and "length (sl_marshal e d) + 28 \<le> maxSpoolFileBytes"
    and "t = fold (agent_step e maxBytes) events (deliver e maxBytes now d s)"
  shows "(\<exists>d' a. ASend d' a \<in> set (drop (length (ag_calls s)) (ag_calls t)) \<and> (d' = d \<or> R d d')
       \<and> doRaw a \<noteq> Some (DeliveryError True))
    \<or> (\<exists>name c d'. map_of (sp_files (ag_spool t)) name = Some c
       \<and> decode_entry e maxSpoolFileBytes c = Inr d' \<and> R d d')
    \<or> fst (agent_Enqueue e maxBytes now d (ag_spool s)) \<noteq> None"
proof -
  let ?k = "length (ag_calls s)"
  let ?name = "entry_name now (sp_seq (ag_spool s) + 1) spoolSuffix"
  have c: "calm (ag_spool s)" using assms(2,3) by (simp add: calm_def)
  obtain err s1 where sd: "Send d s = (err, s1)" by fastforce
  obtain x s2 where en: "with_spool (agent_Enqueue e maxBytes now d) s1 = (x, s2)" by fastforce
  have sp: "ag_spool s1 = ag_spool s" "?k \<le> length (ag_calls s1)"
    unfolding Send_call [OF sd] by (simp_all add: call_def Let_def)
  consider (sent) "err = None" | (refused) "err \<noteq> None" "x \<noteq> None" | (stored) "err \<noteq> None" "x = None" by blast
  then show ?thesis
  proof cases
    case sent
    obtain a where a: "doRaw a = None" "ag_calls s1 = ag_calls s @ [ASend d a]"
      using sd sent by (auto simp: Send_def call_def Let_def)
    have t: "t = fold (agent_step e maxBytes) events s1" using assms(5) sent by (simp add: deliver_def sd)
    obtain xs where "ag_calls t = ag_calls s1 @ xs" using extends_steps unfolding t extends_def by blast
    then have "ASend d a \<in> set (drop ?k (ag_calls t))" using a(2) by simp
    then show ?thesis using a(1) by force
  next
    case refused
    then show ?thesis using en sp(1) by (auto simp: with_spool_def split: prod.splits)
  next
    case stored
    have "safe R e d ?k ?name s2"
      using safe_stored [OF assms(1,4) c [folded sp(1)] en [unfolded stored(2)] sp(2)] unfolding sp(1) .
    then have "safe R e d ?k ?name t"
      unfolding assms(5) using stored(1) by (auto simp: deliver_def sd en intro: safe_steps)
    then show ?thesis unfolding safe_def answered_def kept_def by blast
  qed
qed

definition start_agent :: "string list \<Rightarrow> answer list \<Rightarrow> 'd agent_state" where
  "start_agent nonces answers = \<lparr>ag_spool = \<lparr>sp_files = [], sp_seq = 0, sp_io = [], sp_nonces = nonces\<rparr>,
     ag_answers = answers, ag_calls = []\<rparr>"

section \<open>An observation above the bound of one entry\<close>

text \<open>
  C39: \<open>Enqueue\<close> has no bound on one entry and \<open>Read\<close> refuses a file above \<open>maxSpoolFileBytes\<close>, so an
  observation whose encoding is larger is buffered while the controller is away, and the next drain
  removes it from the spool without sending it, whatever the controller would answer.
\<close>

theorem agent_oversized_dropped:
  assumes "sealing_ok R e" "sp_io (ag_spool s) = []" "nonces_ok (ag_spool s)" "sp_nonces (ag_spool s) \<noteq> []"
    and "sp_files (ag_spool s) = []" "ag_answers s = Unreachable # answers"
    and "maxSpoolFileBytes < length (sl_marshal e d) + 28" "length (sl_marshal e d) + 28 \<le> maxBytes"
    and "length (sl_marshal e d) \<le> gcm_limit" "s1 = deliver e maxBytes now d s"
  shows "(\<exists>name. sp_files (ag_spool s1) = [(name, ciphertext e (hd (sp_nonces (ag_spool s))) d)])
    \<and> sp_files (ag_spool (drainSpool e s1)) = [] \<and> ag_calls (drainSpool e s1) = ag_calls s1"
proof -
  let ?name = "entry_name now (sp_seq (ag_spool s) + 1) spoolSuffix"
  let ?c = "ciphertext e (hd (sp_nonces (ag_spool s))) d"
  obtain nonce ns where n: "sp_nonces (ag_spool s) = nonce # ns" using assms(4) by (cases "sp_nonces (ag_spool s)") auto
  have len: "length nonce = nonceSize" using assms(3) n by simp
  have size: "length ?c = length (sl_marshal e d) + 28"
    using sealD(2) [OF assms(1,9)] len n by (simp add: ciphertext_def nonceSize_def)
  have tmp: "?name \<noteq> tmpPrefix @ ?name" by (simp add: tmpPrefix_def)
  obtain sp where en: "agent_Enqueue e maxBytes now d (ag_spool s) = (None, sp)" "sp_files sp = [(?name, ?c)]" "sp_io sp = []"
    using size assms(2,5,8) n tmp
    by (simp add: agent_Enqueue_def next_nonce_def ReadDir_def next_io_def commit_entry_def WriteFile_def Rename_def
        total_bytes_def Let_def)
  have s1: "ag_spool s1 = sp"
    using assms(6,10) en(1) by (simp add: deliver_def Send_def call_def doRaw_def with_spool_def Let_def)
  have pending: "agent_Pending sp = (Some [?name], sp)"
    using en(2,3) entry_listed [of now "sp_seq (ag_spool s) + 1"] entry_name_suffix [of now "sp_seq (ag_spool s) + 1" spoolSuffix]
    by (simp add: agent_Pending_def ReadDir_def next_io_def)
  have path: "entryPath_ok spoolSuffix ?name" by (rule entry_name_path [OF slash_free])
  have "agent_Read e ?name sp = (Inl FileTooLarge, sp)"
    using en(2,3) path size assms(7) by (simp add: agent_Read_def ReadFile_def next_io_def decode_entry_def)
  moreover have "agent_Remove ?name sp = (None, sp\<lparr>sp_files := []\<rparr>)"
    using en(2,3) path by (simp add: agent_Remove_def RemoveFile_def next_io_def)
  ultimately have "drainSpool e s1 = s1\<lparr>ag_spool := sp\<lparr>sp_files := []\<rparr>\<rparr>"
    by (simp add: drainSpool_def with_spool_def s1 pending)
  then show ?thesis using s1 en(2) by simp
qed

theorem agent_oversized_dropped_witness:
  "let e = demo_sealing (\<lambda>_. replicate 8388608 (CHR ''x'')) (\<lambda>_. Some ());
       s1 = deliver e 67108864 0 () (start_agent [replicate 12 (CHR ''n'')] [Unreachable, Status 202])
   in sp_files (ag_spool s1) \<noteq> [] \<and> sp_files (ag_spool (drainSpool e s1)) = []
     \<and> ag_calls (drainSpool e s1) = ag_calls s1"
proof -
  let ?e = "demo_sealing (\<lambda>_. replicate 8388608 (CHR ''x'')) (\<lambda>_. Some ())"
  let ?s = "start_agent [replicate 12 (CHR ''n'')] [Unreachable, Status 202] :: unit agent_state"
  have ok: "sealing_ok (=) ?e" by (rule demo_sealing_ok) simp
  have len: "length (sl_marshal ?e ()) = 8388608" by (simp add: demo_sealing_def)
  have s: "sp_io (ag_spool ?s) = []" "nonces_ok (ag_spool ?s)" "sp_nonces (ag_spool ?s) \<noteq> []" "sp_files (ag_spool ?s) = []"
      "ag_answers ?s = Unreachable # [Status 202]"
    by (simp_all add: start_agent_def nonceSize_def)
  have "(\<exists>name. sp_files (ag_spool s1) = [(name, ciphertext ?e (hd (sp_nonces (ag_spool ?s))) ())])
    \<and> sp_files (ag_spool (drainSpool ?e s1)) = [] \<and> ag_calls (drainSpool ?e s1) = ag_calls s1"
    if "s1 = deliver ?e 67108864 0 () ?s" for s1
    by (rule agent_oversized_dropped [OF ok s _ _ _ that])
      (simp_all only: len maxSpoolFileBytes_def gcm_limit_def, simp_all)
  from this [OF refl] show ?thesis unfolding Let_def by (elim conjE exE) simp
qed

end
