(* ===== verification/Delivery.thy ===== *)
theory Delivery
  imports Server_Properties Agent_Properties
begin

text \<open>
  A collector and the controller it reports to, together: the requests the collector's log records are
  served by the controller in that order, among any other requests of anyone, or are lost.
\<close>

section \<open>What a delivered observation leaves behind\<close>

text \<open>
  The observation is listed under its ID, and every asset and relationship it reported is known. A later
  report with the same ID replaces the observation, one of the same source updates the claims.
\<close>

definition recorded :: "(string \<Rightarrow> string) \<Rightarrow> observation \<Rightarrow> repo_view \<Rightarrow> bool" where
  "recorded sha d v \<longleftrightarrow> ob_ObservationID d \<in> ob_ObservationID ` set (v_observations v)
     \<and> (\<forall>a \<in> set (ob_Assets d). \<exists>k. (StableAssetID sha a, k) \<in> dom (v_claims v))
     \<and> (\<forall>r \<in> set (ob_Relationships d). StableRelationshipID sha r \<in> dom (v_relationships v))"

lemma put_claims_dom:
  "dom (fold (put_claim sha e) as m) = dom m \<union> (\<lambda>a. (StableAssetID sha a, observation_key sha e)) ` set as"
  by (induction as arbitrary: m) (auto simp: put_claim_def Let_def)

lemma put_relationships_dom:
  "dom (fold (put_relationship sha e) rs m) = dom m \<union> StableRelationshipID sha ` set rs"
  by (induction rs arbitrary: m) (auto simp: put_relationship_def Let_def)

lemma put_observation_dom:
  "ob_ObservationID ` set (put_observation e os) = insert (ob_ObservationID e) (ob_ObservationID ` set os)"
proof -
  have "set (map ob_ObservationID (put_observation e os)) = insert (ob_ObservationID e) (set (map ob_ObservationID os))"
    unfolding put_observation_ids by auto
  then show ?thesis by simp
qed

text \<open>The three parts of \<open>recorded\<close> grow with the domains they speak of.\<close>

lemma recorded_grows:
  assumes "recorded sha d v" "ob_ObservationID ` set (v_observations v) \<subseteq> ob_ObservationID ` set (v_observations u)"
    and "dom (v_claims v) \<subseteq> dom (v_claims u)" "dom (v_relationships v) \<subseteq> dom (v_relationships u)"
  shows "recorded sha d u"
  unfolding recorded_def
proof (intro conjI ballI)
  fix a assume "a \<in> set (ob_Assets d)"
  then obtain k where "(StableAssetID sha a, k) \<in> dom (v_claims v)" using assms(1) unfolding recorded_def by blast
  then show "\<exists>k. (StableAssetID sha a, k) \<in> dom (v_claims u)" using assms(3) by blast
next
  fix r assume "r \<in> set (ob_Relationships d)"
  then have "StableRelationshipID sha r \<in> dom (v_relationships v)" using assms(1) unfolding recorded_def by blast
  then show "StableRelationshipID sha r \<in> dom (v_relationships u)" using assms(4) by blast
qed (use assms(1,2) in \<open>auto simp: recorded_def\<close>)

lemma saved_doms:
  "ob_ObservationID ` set (v_observations (spec_save sha e v)) = insert (ob_ObservationID e) (ob_ObservationID ` set (v_observations v))"
  "dom (v_claims (spec_save sha e v))
    = dom (v_claims v) \<union> (\<lambda>a. (StableAssetID sha a, observation_key sha e)) ` set (ob_Assets e)"
  "dom (v_relationships (spec_save sha e v)) = dom (v_relationships v) \<union> StableRelationshipID sha ` set (ob_Relationships e)"
  by (simp_all add: spec_save_def put_observation_dom put_claims_dom put_relationships_dom)

lemma recorded_save: "recorded sha d (spec_save sha (d\<lparr>ob_CollectorID := c\<rparr>) v)"
  unfolding recorded_def saved_doms by auto

lemma recorded_after_save: "recorded sha d v \<Longrightarrow> recorded sha d (spec_save sha e v)"
  by (erule recorded_grows) (unfold saved_doms, blast+)

lemma recorded_same:
  "recorded sha d v \<Longrightarrow> v_observations u = v_observations v \<Longrightarrow> v_claims u = v_claims v \<Longrightarrow>
   v_relationships u = v_relationships v \<Longrightarrow> recorded sha d u"
  unfolding recorded_def by simp

lemma recorded_steps: "view_steps P sha tfmt v u \<Longrightarrow> recorded sha d v \<Longrightarrow> recorded sha d u"
proof (induction rule: view_steps.induct)
  case (vs_save u e)
  then show ?case by (simp add: recorded_after_save)
next
  case (vs_append u now ev)
  then show ?case by (auto intro: recorded_same)
next
  case (vs_upsert u s)
  then show ?case by (auto simp: spec_upsert_def intro: recorded_same)
next
  case (vs_delete u c)
  then show ?case by (auto simp: spec_delete_def intro: recorded_same)
next
  case (vs_revoke u r)
  then show ?case by (auto simp: spec_revoke_def split: option.splits intro: recorded_same)
qed

section \<open>The collector's requests at the controller\<close>

text \<open>
  The controller reads a representable observation back as it was sent. A request may be lost on its
  way, or its response may be; other requests, also those of other collectors, come in between.
\<close>

inductive hub ::
  "lib \<Rightarrow> 'r repository \<Rightarrow> (time \<Rightarrow> bool) \<Rightarrow> (observation \<Rightarrow> bool) \<Rightarrow> 'r server \<Rightarrow> observation agent_call list \<Rightarrow> 'r server \<Rightarrow> bool"
  for L R good ok_obs sv0 where
  hub_start: "hub L R good ok_obs sv0 [] sv0"
| hub_sent: "hub L R good ok_obs sv0 cs sv \<Longrightarrow> legal good ok_obs w p (PostObservation body) \<Longrightarrow>
    (ok_obs x \<Longrightarrow> body = Inr x) \<Longrightarrow> Handler L R w p (PostObservation body) sv = (resp, sv') \<Longrightarrow>
    a = Status (status resp) \<or> a = Unreachable \<Longrightarrow> hub L R good ok_obs sv0 (cs @ [ASend x a]) sv'"
| hub_lost: "hub L R good ok_obs sv0 cs sv \<Longrightarrow> hub L R good ok_obs sv0 (cs @ [ASend x Unreachable]) sv"
| hub_checkin: "hub L R good ok_obs sv0 cs sv \<Longrightarrow> (\<And>x a. c \<noteq> ASend x a) \<Longrightarrow> hub L R good ok_obs sv0 (cs @ [c]) sv"
| hub_other: "hub L R good ok_obs sv0 cs sv \<Longrightarrow> legal good ok_obs w p req \<Longrightarrow>
    hub L R good ok_obs sv0 cs (snd (Handler L R w p req sv))"

lemma ingest_status: "status (fst (ingest R body i sv)) \<in> {202, 400, 422, 500}"
  by (auto simp: ingest_def writeError_def Let_def split: sum.splits option.splits prod.splits)

lemma observation_status: "status (fst (Handler L R w p (PostObservation body) sv)) \<in> {202, 400, 401, 422, 500, 503}"
proof -
  have n: "status (fst (ingest R body i s)) \<in> {202, 400, 401, 422, 500, 503}" for i s
    using ingest_status [of R body i s] by auto
  show ?thesis
    unfolding Handler_def collectorAuth_def request.case
    by (auto simp: n [simplified] writeError_def Let_def split: option.splits sum.splits prod.splits bool.splits)
qed

context controller
begin

lemma ingest_recorded:
  assumes "sane sv" "ok_obs d" "\<forall>c. i = Some c \<longrightarrow> valid_utf8 c" "status (fst (ingest R (Inr d) i sv)) < 400"
  shows "recorded sha d (view (sv_Store (snd (ingest R (Inr d) i sv))))"
proof -
  let ?e = "d\<lparr>ob_CollectorID := collectorIdentity i (ob_CollectorID d)\<rparr>"
  have "ok_obs ?e"
  proof (cases i)
    case None
    then show ?thesis using assms(2) by (simp add: collectorIdentity_def)
  next
    case (Some c)
    then show ?thesis using rebind assms(2,3) by (simp add: collectorIdentity_def)
  qed
  moreover obtain res r where r: "SaveObservation R ?e (sv_Store sv) = (res, r)" by fastforce
  ultimately have v: "res = None \<Longrightarrow> view r = spec_save sha ?e (view (sv_Store sv))"
    using save [of "sv_Store sv" ?e] assms(1) by (auto simp: sane_def writes_def)
  have "validateObservation ?e = None \<and> res = None"
    using assms(4) r by (auto simp: ingest_def writeError_def Let_def split: option.splits)
  then show ?thesis using v r recorded_save by (simp add: ingest_def Let_def)
qed

lemma collector_recorded:
  assumes "sane sv" "ok_obs d" "good_peer p" "status (fst (collectorAuth R p (ingest R (Inr d)) sv)) < 400"
  shows "recorded sha d (view (sv_Store (snd (collectorAuth R p (ingest R (Inr d)) sv))))"
proof (cases "p_cert p")
  case None
  then show ?thesis
    using assms ingest_recorded [OF assms(1,2), of None] by (auto simp: collectorAuth_def writeError_def split: if_splits)
next
  case (Some cert)
  obtain res r where r: "IsCertificateRevoked R (CertificateSerial cert) (sv_Store sv) = (res, r)" by fastforce
  have t: "sane (sv\<lparr>sv_Store := r\<rparr>)"
    using tracks_sane [OF tracks_read [OF tracks_refl [OF assms(1)]] assms(1)]
      is_revoked [of "sv_Store sv" "CertificateSerial cert"] r assms(1) by (auto simp: sane_def)
  have "valid_utf8 (crt_CommonName cert)" using assms(3) Some by (simp add: good_peer_def)
  then show ?thesis
    using assms(4) ingest_recorded [OF t assms(2), of None] ingest_recorded [OF t assms(2), of "Some (crt_CommonName cert)"]
    by (auto simp: collectorAuth_def Some r Let_def writeError_def split: sum.splits bool.splits if_splits)
qed

lemma Handler_recorded:
  assumes "sane sv" "ok_obs d" "legal good ok_obs w p (PostObservation (Inr d))"
    and "Handler L R w p (PostObservation (Inr d)) sv = (resp, sv')" "status resp < 400"
  shows "recorded sha d (view (sv_Store sv'))"
  using collector_recorded [OF assms(1,2), of p] assms(3-5) by (auto simp: legal_def Handler_def)

lemma hub_recorded:
  assumes "hub L R good ok_obs sv0 cs sv" "sane sv0" "lib_ok L"
  shows "sane sv \<and> (\<forall>x n. ok_obs x \<and> ASend x (Status n) \<in> set cs \<longrightarrow>
    n = 202 \<and> recorded sha x (view (sv_Store sv)) \<or> 400 \<le> n)"
  using assms(1)
proof induction
  case hub_start
  then show ?case using assms(2) by simp
next
  case (hub_sent cs sv w p body x resp sv' a)
  then have s: "sane sv" by blast
  have t: "tracks w sv sv'" using Handler_tracks [OF s hub_sent.hyps(2) assms(3)] hub_sent.hyps(4) by simp
  have steps: "steps (view (sv_Store sv)) (view (sv_Store sv'))" using t by (simp add: tracks_def)
  have "status resp = 202 \<or> 400 \<le> status resp"
    using observation_status [of L R w p body sv] hub_sent.hyps(4) by auto
  moreover have "recorded sha x (view (sv_Store sv'))" if "ok_obs x" "status resp < 400"
    using Handler_recorded [OF s that(1), of w p L resp sv'] hub_sent.hyps(2,3,4) that by auto
  ultimately have new: "ok_obs x \<Longrightarrow> status resp = 202 \<and> recorded sha x (view (sv_Store sv')) \<or> 400 \<le> status resp"
    by linarith
  show ?case
    using tracks_sane [OF t s] hub_sent.IH hub_sent.hyps(5) new recorded_steps [OF steps] by auto
next
  case (hub_other cs sv w p req)
  then have s: "sane sv" by blast
  note t = Handler_tracks [OF s hub_other.hyps(2) assms(3)]
  have steps: "steps (view (sv_Store sv)) (view (sv_Store (snd (Handler L R w p req sv))))" using t by (simp add: tracks_def)
  show ?case using tracks_sane [OF t s] hub_other.IH recorded_steps [OF steps] by auto
qed auto

end
end
