(* ===== verification/Publisher.thy ===== *)
theory Publisher
  imports Model Netip
begin

text \<open>
  Package \<open>pkg/publisher/servicenow\<close>: the checks on a batch of observations (\<open>validateEnvelopes\<close>), the
  payload built from it (\<open>mapPayload\<close>), the configuration checks, and how an answer of ServiceNow is
  classified (\<open>sendPayload\<close>). \<open>url.Parse\<close>, \<open>json.Marshal\<close> of the payload, \<open>json.Unmarshal\<close> of the
  answer and \<open>Time.Format\<close> are parameters.
\<close>

section \<open>Messages\<close>

definition MaxEnvelopes :: nat where "MaxEnvelopes = 100"
definition MaxItems :: nat where "MaxItems = 1000"
definition MaxRelations :: nat where "MaxRelations = 2000"
definition MaxRequestBytes :: nat where "MaxRequestBytes = 4194304"
definition MaxResponseBytes :: nat where "MaxResponseBytes = 1048576"
definition MaxDiscoverySource :: nat where "MaxDiscoverySource = 100"
definition maxIdentityLen :: nat where "maxIdentityLen = 1024"
definition maxNameLen :: nat where "maxNameLen = 1024"

record ire_item =
  it_ClassName :: string
  it_Values :: "string gomap"
  it_SourceName :: string
  it_SourceNativeKey :: string

record ire_relation =
  ir_Type :: string
  ir_Parent :: nat
  ir_Child :: nat

record ire_payload =
  ip_Items :: "ire_item list"
  ip_Relations :: "ire_relation list"

definition classFor :: "asset_type \<Rightarrow> string option" where
  "classFor t =
     (if t = AssetHost then Some ''cmdb_ci_computer''
      else if t = AssetNetworkInterface then Some ''cmdb_ci_network_adapter''
      else None)"

definition relationFor :: "string \<Rightarrow> string option" where
  "relationFor t = (if t = ''host_has_interface'' then Some ''Owns::Owned by'' else None)"

section \<open>Checks on the input\<close>

datatype input_error = NoEnvelopes | TooManyEnvelopes | BadSchema nat | BadIdentity nat string | NoObservedAt nat
  | BadAssetType nat nat | BadNativeID nat nat | BadAssetName nat nat | BadMac nat nat | ClassChanged string
  | TooManyItems | NoAssets | BadRelationType nat nat | NoEndpoint nat nat | BadEndpoints nat nat | TooManyRelations

definition control_free :: "string \<Rightarrow> bool" where
  "control_free s \<longleftrightarrow> list_all (\<lambda>r. \<not> is_control r) (runes s)"

definition validIdentity :: "string \<Rightarrow> bool" where
  "validIdentity v \<longleftrightarrow> v \<noteq> [] \<and> length v \<le> maxIdentityLen \<and> control_free v"

definition valid_mac :: "json \<Rightarrow> bool" where
  "valid_mac v = (case v of JStr mac \<Rightarrow> length mac \<le> 128 \<and> control_free mac | _ \<Rightarrow> False)"

text \<open>\<open>types\<close> is the map from native IDs to asset types seen so far.\<close>

fun check_assets :: "nat \<Rightarrow> nat \<Rightarrow> asset_type gomap \<Rightarrow> asset list \<Rightarrow> input_error + asset_type gomap" where
  "check_assets i j types [] = Inr types"
| "check_assets i j types (a # as) =
     (if classFor (as_Type a) = None then Inl (BadAssetType i j)
      else if \<not> validIdentity (as_NativeID a) then Inl (BadNativeID i j)
      else if length (as_Name a) > maxNameLen \<or> \<not> control_free (as_Name a) then Inl (BadAssetName i j)
      else if as_Type a = AssetNetworkInterface
        \<and> (case map_of (as_Attributes a) ''mac_address'' of None \<Rightarrow> False | Some v \<Rightarrow> \<not> valid_mac v) then Inl (BadMac i j)
      else if (case map_of types (as_NativeID a) of None \<Rightarrow> False | Some t \<Rightarrow> t \<noteq> as_Type a)
        then Inl (ClassChanged (as_NativeID a))
      else let types = AList.update (as_NativeID a) (as_Type a) types
        in if length types > MaxItems then Inl TooManyItems else check_assets i (j + 1) types as)"

definition bad_identity :: "observation \<Rightarrow> string option" where
  "bad_identity e = map_option fst (find (\<lambda>(label, v). \<not> validIdentity v)
     [(''observation_id'', ob_ObservationID e), (''site_id'', ob_SiteID e),
      (''collector_id'', ob_CollectorID e), (''plugin'', ob_Plugin e)])"

fun check_envelopes :: "nat \<Rightarrow> asset_type gomap \<Rightarrow> observation list \<Rightarrow> input_error + asset_type gomap" where
  "check_envelopes i types [] = Inr types"
| "check_envelopes i types (e # es) =
     (if ob_SchemaVersion e \<noteq> SchemaVersion then Inl (BadSchema i)
      else case bad_identity e of Some label \<Rightarrow> Inl (BadIdentity i label)
      | None \<Rightarrow>
        if ob_ObservedAt e = zero_time then Inl (NoObservedAt i)
        else case check_assets i 1 types (ob_Assets e) of Inl err \<Rightarrow> Inl err
          | Inr types \<Rightarrow> check_envelopes (i + 1) types es)"

type_synonym rel_key = "string \<times> string \<times> string"

definition relation_key :: "relationship \<Rightarrow> rel_key" where
  "relation_key r = (rl_Type r, rl_FromNativeID r, rl_ToNativeID r)"

fun check_relations ::
  "nat \<Rightarrow> nat \<Rightarrow> asset_type gomap \<Rightarrow> rel_key list \<Rightarrow> relationship list \<Rightarrow> input_error + rel_key list" where
  "check_relations i j types seen [] = Inr seen"
| "check_relations i j types seen (r # rs) =
     (if relationFor (rl_Type r) = None then Inl (BadRelationType i j)
      else case (map_of types (rl_FromNativeID r), map_of types (rl_ToNativeID r)) of
        (Some from, Some dest) \<Rightarrow>
          if rl_Type r = ''host_has_interface'' \<and> (from \<noteq> AssetHost \<or> dest \<noteq> AssetNetworkInterface)
          then Inl (BadEndpoints i j)
          else let seen = List.insert (relation_key r) seen
            in if length seen > MaxRelations then Inl TooManyRelations else check_relations i (j + 1) types seen rs
      | _ \<Rightarrow> Inl (NoEndpoint i j))"

fun check_all_relations ::
  "nat \<Rightarrow> asset_type gomap \<Rightarrow> rel_key list \<Rightarrow> observation list \<Rightarrow> input_error option" where
  "check_all_relations i types seen [] = None"
| "check_all_relations i types seen (e # es) =
     (case check_relations i 1 types seen (ob_Relationships e) of Inl err \<Rightarrow> Some err
      | Inr seen \<Rightarrow> check_all_relations (i + 1) types seen es)"

definition validateEnvelopes :: "observation list \<Rightarrow> input_error option" where
  "validateEnvelopes es =
     (if es = [] then Some NoEnvelopes
      else if length es > MaxEnvelopes then Some TooManyEnvelopes
      else case check_envelopes 1 [] es of Inl err \<Rightarrow> Some err
        | Inr types \<Rightarrow> if types = [] then Some NoAssets else check_all_relations 1 types [] es)"

section \<open>Reading the input\<close>

definition MaxInputBytes :: nat where "MaxInputBytes = 10485760"
definition MaxRecordBytes :: nat where "MaxRecordBytes = 1048576"
definition MaxJSONDepth :: int where "MaxJSONDepth = 64"

text \<open>
  The tokens of \<open>json.Decoder\<close>, ending with \<open>Bad\<close> where the text is not JSON. \<open>tokens\<close> and \<open>decode\<close>
  (\<open>Decode\<close> into an envelope with unknown fields refused and nothing following) are parameters.
\<close>

datatype json_token = Opens | Closes | Scalar | Bad

datatype read_error = InputTooLarge | LineTooLong nat | EnvelopeLimit | BadJSON nat | TooDeep nat
  | Undecodable nat | Invalid input_error

fun depth_error :: "nat \<Rightarrow> int \<Rightarrow> json_token list \<Rightarrow> read_error option" where
  "depth_error line depth [] = None"
| "depth_error line depth (Bad # ts) = Some (BadJSON line)"
| "depth_error line depth (Scalar # ts) = depth_error line depth ts"
| "depth_error line depth (Opens # ts) =
     (if depth + 1 > MaxJSONDepth then Some (TooDeep line) else depth_error line (depth + 1) ts)"
| "depth_error line depth (Closes # ts) = depth_error line (depth - 1) ts"

definition validateJSONDepth :: "nat \<Rightarrow> json_token list \<Rightarrow> read_error option" where
  "validateJSONDepth line ts = depth_error line 0 ts"

fun decode_lines ::
  "(string \<Rightarrow> json_token list) \<Rightarrow> (string \<Rightarrow> observation option) \<Rightarrow> nat \<Rightarrow> observation list \<Rightarrow> string list
   \<Rightarrow> read_error + observation list" where
  "decode_lines tokens decode n acc [] = Inr acc"
| "decode_lines tokens decode n acc (raw # ls) =
     (let line = trim_space raw
      in if line = [] then decode_lines tokens decode (n + 1) acc ls
         else if length line > MaxRecordBytes then Inl (LineTooLong n)
         else if length acc = MaxEnvelopes then Inl EnvelopeLimit
         else case validateJSONDepth n (tokens line) of Some err \<Rightarrow> Inl err
           | None \<Rightarrow> (case decode line of None \<Rightarrow> Inl (Undecodable n)
               | Some e \<Rightarrow> decode_lines tokens decode (n + 1) (acc @ [e]) ls))"

definition DecodeJSONLines ::
  "(string \<Rightarrow> json_token list) \<Rightarrow> (string \<Rightarrow> observation option) \<Rightarrow> string \<Rightarrow> read_error + observation list" where
  "DecodeJSONLines tokens decode raw =
     (if length raw > MaxInputBytes then Inl InputTooLarge
      else case decode_lines tokens decode 1 [] (split_on (CHR 0x0A) raw) of Inl err \<Rightarrow> Inl err
        | Inr es \<Rightarrow> (case validateEnvelopes es of Some err \<Rightarrow> Inl (Invalid err) | None \<Rightarrow> Inr es))"

section \<open>The payload\<close>

text \<open>\<open>ofmt\<close> is \<open>ObservedAt.Format("2006-01-02 15:04:05")\<close>. Only reviewed fields are copied.\<close>

definition item_values :: "(time \<Rightarrow> string) \<Rightarrow> string \<Rightarrow> observation \<Rightarrow> asset \<Rightarrow> string gomap" where
  "item_values ofmt src e a =
     [(''name'', as_Name a), (''discovery_source'', src), (''last_discovered'', ofmt (ob_ObservedAt e))]
     @ (if as_Type a = AssetNetworkInterface
        then case map_of (as_Attributes a) ''mac_address'' of
            Some (JStr mac) \<Rightarrow> if mac \<noteq> [] then [(''mac_address'', mac)] else []
          | _ \<Rightarrow> []
        else [])"

definition item_of :: "(time \<Rightarrow> string) \<Rightarrow> string \<Rightarrow> observation \<Rightarrow> asset \<Rightarrow> ire_item" where
  "item_of ofmt src e a =
     \<lparr>it_ClassName = (case classFor (as_Type a) of None \<Rightarrow> [] | Some c \<Rightarrow> c),
      it_Values = item_values ofmt src e a, it_SourceName = src, it_SourceNativeKey = as_NativeID a\<rparr>"

type_synonym item_table = "ire_item list \<times> (string \<times> nat) list"

definition put_item :: "(time \<Rightarrow> string) \<Rightarrow> string \<Rightarrow> observation \<Rightarrow> asset \<Rightarrow> item_table \<Rightarrow> item_table" where
  "put_item ofmt src e a tab =
     (case tab of (items, index) \<Rightarrow>
        case map_of index (as_NativeID a) of
          Some pos \<Rightarrow> (items[pos := item_of ofmt src e a], index)
        | None \<Rightarrow> (items @ [item_of ofmt src e a], index @ [(as_NativeID a, length items)]))"

definition put_items :: "(time \<Rightarrow> string) \<Rightarrow> string \<Rightarrow> observation list \<Rightarrow> item_table" where
  "put_items ofmt src es = fold (\<lambda>e. fold (put_item ofmt src e) (ob_Assets e)) es ([], [])"

definition put_relation ::
  "(string \<times> nat) list \<Rightarrow> relationship \<Rightarrow> ire_relation list \<times> rel_key list \<Rightarrow> ire_relation list \<times> rel_key list" where
  "put_relation index r st =
     (case st of (out, seen) \<Rightarrow>
        case (map_of index (rl_FromNativeID r), map_of index (rl_ToNativeID r)) of
          (Some from, Some dest) \<Rightarrow>
            if relation_key r \<in> set seen then (out, seen)
            else (out @ [\<lparr>ir_Type = (case relationFor (rl_Type r) of None \<Rightarrow> [] | Some t \<Rightarrow> t),
                     ir_Parent = from, ir_Child = dest\<rparr>], relation_key r # seen)
        | _ \<Rightarrow> (out, seen))"

definition put_relations :: "(string \<times> nat) list \<Rightarrow> observation list \<Rightarrow> ire_relation list \<times> rel_key list" where
  "put_relations index es = fold (\<lambda>e. fold (put_relation index) (ob_Relationships e)) es ([], [])"

definition mapPayload :: "(time \<Rightarrow> string) \<Rightarrow> string \<Rightarrow> observation list \<Rightarrow> input_error + ire_payload" where
  "mapPayload ofmt src es =
     (case validateEnvelopes es of Some err \<Rightarrow> Inl err
      | None \<Rightarrow> (case put_items ofmt src es of (items, index) \<Rightarrow>
          Inr \<lparr>ip_Items = items, ip_Relations = fst (put_relations index es)\<rparr>))"

section \<open>Configuration and delivery\<close>

text \<open>What \<open>url.Parse\<close> returns of an address; \<open>ur_User\<close> tells whether it carries credentials.\<close>

record parsed_url =
  ur_Scheme :: string
  ur_Host :: string
  ur_User :: bool
  ur_Path :: string
  ur_ForceQuery :: bool
  ur_RawQuery :: string
  ur_Fragment :: string

record sn_config =
  sn_InstanceURL :: string
  sn_Token :: string
  sn_DiscoverySource :: string
  sn_DryRun :: bool

datatype config_problem = NoInstanceURL | InstanceURLNotHTTPS | InstanceURLExtra | NoDiscoverySource | BadDiscoverySource
  | NoToken | BadToken

definition validBearerToken :: "string \<Rightarrow> bool" where
  "validBearerToken token \<longleftrightarrow> token \<noteq> [] \<and> length token \<le> 65536
     \<and> list_all (\<lambda>r. \<not> is_space r) (runes token) \<and> list_all (\<lambda>r. \<not> is_control r) (runes token)"

definition sn_Validate :: "(string \<Rightarrow> parsed_url option) \<Rightarrow> sn_config \<Rightarrow> config_problem option" where
  "sn_Validate parse c =
     (if sn_InstanceURL c = [] then Some NoInstanceURL
      else case parse (sn_InstanceURL c) of None \<Rightarrow> Some InstanceURLNotHTTPS
      | Some u \<Rightarrow>
        if ur_Scheme u \<noteq> ''https'' \<or> ur_Host u = [] then Some InstanceURLNotHTTPS
        else if ur_User u \<or> (ur_Path u \<noteq> [] \<and> ur_Path u \<noteq> ''/'') \<or> ur_ForceQuery u \<or> ur_RawQuery u \<noteq> [] \<or> ur_Fragment u \<noteq> []
        then Some InstanceURLExtra
        else if sn_DiscoverySource c = [] then Some NoDiscoverySource
        else if length (sn_DiscoverySource c) > MaxDiscoverySource \<or> trim_space (sn_DiscoverySource c) \<noteq> sn_DiscoverySource c
          \<or> \<not> control_free (sn_DiscoverySource c) then Some BadDiscoverySource
        else if \<not> sn_DryRun c \<and> sn_Token c = [] then Some NoToken
        else if \<not> sn_DryRun c \<and> \<not> validBearerToken (sn_Token c) then Some BadToken
        else None)"

text \<open>What the HTTP client returns: no response, a response whose body cannot be read, or a response.\<close>

datatype http_answer = NoResponse | BrokenBody | Response nat string

datatype publish_failure = QueryInDryRun | BadConfig config_problem | BadInput input_error | RequestTooLarge | TransportFailed
  | BodyUnreadable | ResponseTooLarge | StatusFailed nat | MalformedJSON | ReportedError | ReportedWarning

fun Retryable :: "publish_failure \<Rightarrow> bool" where
  "Retryable TransportFailed = True"
| "Retryable (StatusFailed status) \<longleftrightarrow> status = 429 \<or> 500 \<le> status"
| "Retryable _ = False"

fun reportsFlag :: "string \<Rightarrow> json \<Rightarrow> bool" where
  "reportsFlag name (JObj kvs) = (\<exists>(k, v) \<in> set kvs. k = name \<and> v = JBool True \<or> reportsFlag name v)"
| "reportsFlag name (JArr vs) = (\<exists>v \<in> set vs. reportsFlag name v)"
| "reportsFlag name _ = False"

text \<open>A body that is valid JSON need not decode: a number may be out of range.\<close>

definition responseReportsFlag :: "(string \<Rightarrow> json option) \<Rightarrow> string \<Rightarrow> string \<Rightarrow> bool" where
  "responseReportsFlag unmarshal name body = (case unmarshal body of None \<Rightarrow> False | Some v \<Rightarrow> reportsFlag name v)"

record publish_result =
  rs_Destination :: string
  rs_Published :: nat
  rs_Rejected :: nat

abbreviation no_result :: publish_result where
  "no_result \<equiv> \<lparr>rs_Destination = [], rs_Published = 0, rs_Rejected = 0\<rparr>"

text \<open>
  \<open>marshal\<close> is \<open>json.Marshal\<close> of the payload, \<open>valid\<close> and \<open>unmarshal\<close> are \<open>json.Valid\<close> and
  \<open>json.Unmarshal\<close> of the answer, \<open>answer\<close> is what the HTTP client returns for the body posted. The HTTP request is built from a validated address.
\<close>

definition sendPayload ::
  "(ire_payload \<Rightarrow> string) \<Rightarrow> (string \<Rightarrow> bool) \<Rightarrow> (string \<Rightarrow> json option) \<Rightarrow> (string \<Rightarrow> http_answer) \<Rightarrow> ire_payload
   \<Rightarrow> string \<Rightarrow> bool \<Rightarrow> publish_result \<times> publish_failure option" where
  "sendPayload marshal valid unmarshal answer p destination commits =
     (let n = length (ip_Items p); rejected = \<lparr>rs_Destination = destination, rs_Published = 0, rs_Rejected = n\<rparr>
      in if length (marshal p) > MaxRequestBytes then (rejected, Some RequestTooLarge)
         else case answer (marshal p) of
           NoResponse \<Rightarrow> (no_result, Some TransportFailed)
         | BrokenBody \<Rightarrow> (rejected, Some BodyUnreadable)
         | Response status body \<Rightarrow>
             if length body > MaxResponseBytes then (rejected, Some ResponseTooLarge)
             else if status < 200 \<or> 300 \<le> status then (rejected, Some (StatusFailed status))
             else if \<not> valid body then (rejected, Some MalformedJSON)
             else if responseReportsFlag unmarshal ''hasError'' body then (rejected, Some ReportedError)
             else if responseReportsFlag unmarshal ''hasWarning'' body then (rejected, Some ReportedWarning)
             else (\<lparr>rs_Destination = destination, rs_Published = (if commits then n else 0), rs_Rejected = 0\<rparr>, None))"

text \<open>The environment of one publisher, and the requests it makes.\<close>

record sn_env =
  sn_Parse :: "string \<Rightarrow> parsed_url option"
  sn_Format :: "time \<Rightarrow> string"
  sn_MarshalJSON :: "ire_payload \<Rightarrow> string"
  sn_ValidJSON :: "string \<Rightarrow> bool"
  sn_UnmarshalJSON :: "string \<Rightarrow> json option"

definition sn_PublishBatch ::
  "sn_env \<Rightarrow> (string \<Rightarrow> http_answer) \<Rightarrow> sn_config \<Rightarrow> observation list \<Rightarrow> publish_result \<times> publish_failure option" where
  "sn_PublishBatch v answer c es =
     (case sn_Validate (sn_Parse v) c of Some err \<Rightarrow> (no_result, Some (BadConfig err))
      | None \<Rightarrow>
        case mapPayload (sn_Format v) (sn_DiscoverySource c) es of Inl err \<Rightarrow> (no_result, Some (BadInput err))
        | Inr p \<Rightarrow>
          if sn_DryRun c
          then (\<lparr>rs_Destination = ''servicenow-ire-preview'', rs_Published = length (ip_Items p), rs_Rejected = 0\<rparr>, None)
          else sendPayload (sn_MarshalJSON v) (sn_ValidJSON v) (sn_UnmarshalJSON v) answer p ''servicenow-ire'' True)"

definition sn_QueryBatch ::
  "sn_env \<Rightarrow> (string \<Rightarrow> http_answer) \<Rightarrow> sn_config \<Rightarrow> observation list \<Rightarrow> publish_result \<times> publish_failure option" where
  "sn_QueryBatch v answer c es =
     (if sn_DryRun c then (no_result, Some QueryInDryRun)
      else case sn_Validate (sn_Parse v) c of Some err \<Rightarrow> (no_result, Some (BadConfig err))
      | None \<Rightarrow>
        case mapPayload (sn_Format v) (sn_DiscoverySource c) es of Inl err \<Rightarrow> (no_result, Some (BadInput err))
        | Inr p \<Rightarrow> sendPayload (sn_MarshalJSON v) (sn_ValidJSON v) (sn_UnmarshalJSON v) answer p ''servicenow-ire-query'' False)"

end
