(* ===== verification/Publisher_Properties.thy ===== *)
theory Publisher_Properties
  imports Publisher
begin

text \<open>The payload sent to ServiceNow against a declarative reference.\<close>

section \<open>First occurrences\<close>

definition firsts :: "'a list \<Rightarrow> 'a list" where
  "firsts xs = rev (remdups (rev xs))"

lemma firsts_simps [simp]:
  "firsts [] = []" "firsts (xs @ [x]) = (if x \<in> set xs then firsts xs else firsts xs @ [x])"
  by (simp_all add: firsts_def)

lemma set_firsts [simp]: "set (firsts xs) = set xs"
  by (simp add: firsts_def)

lemma distinct_firsts [simp]: "distinct (firsts xs)"
  by (simp add: firsts_def)

text \<open>The position of a key in a list of distinct keys.\<close>

definition position :: "'a list \<Rightarrow> 'a \<Rightarrow> nat" where
  "position ks k = length (takeWhile (\<lambda>x. x \<noteq> k) ks)"

lemma position_in: "k \<in> set ks \<Longrightarrow> position ks k < length ks \<and> ks ! position ks k = k"
  unfolding position_def
  by (induction ks) auto

lemma map_of_zip_position: "map_of (zip ks [n..<n + length ks]) k = (if k \<in> set ks then Some (n + position ks k) else None)"
proof (induction ks arbitrary: n)
  case (Cons x ks)
  have "[n..<n + length (x # ks)] = n # [Suc n..<Suc n + length ks]" by (simp add: upt_conv_Cons del: upt_Suc)
  then show ?case using Cons [of "Suc n"] by (auto simp: position_def simp del: upt_Suc)
qed (simp add: position_def)

section \<open>The items\<close>

definition asset_pairs :: "observation list \<Rightarrow> (observation \<times> asset) list" where
  "asset_pairs es = concat (map (\<lambda>e. map (Pair e) (ob_Assets e)) es)"

abbreviation pair_key :: "observation \<times> asset \<Rightarrow> string" where
  "pair_key p \<equiv> as_NativeID (snd p)"

definition last_report :: "string \<Rightarrow> (observation \<times> asset) list \<Rightarrow> observation \<times> asset" where
  "last_report k ps = last (filter (\<lambda>p. pair_key p = k) ps)"

lemma last_report_snoc: "last_report k (ps @ [p]) = (if pair_key p = k then p else last_report k ps)"
  by (simp add: last_report_def)

definition native_keys :: "observation list \<Rightarrow> string list" where
  "native_keys es = firsts (map pair_key (asset_pairs es))"

lemma put_items_pairs: "put_items ofmt src es = fold (\<lambda>p. put_item ofmt src (fst p) (snd p)) (asset_pairs es) ([], [])"
proof -
  have "fold (\<lambda>e. fold (put_item ofmt src e) (ob_Assets e)) es st
      = fold (\<lambda>p. put_item ofmt src (fst p) (snd p)) (asset_pairs es) st" for st
    by (induction es arbitrary: st) (simp_all add: asset_pairs_def fold_map comp_def)
  then show ?thesis by (simp add: put_items_def)
qed

lemma put_item_table:
  "fold (\<lambda>p. put_item ofmt src (fst p) (snd p)) ps ([], [])
   = (map (\<lambda>k. case last_report k ps of (e, a) \<Rightarrow> item_of ofmt src e a) (firsts (map pair_key ps)),
      zip (firsts (map pair_key ps)) [0..<length (firsts (map pair_key ps))])"
proof (induction ps rule: rev_induct)
  case (snoc p ps)
  obtain e a where p: "p = (e, a)" by fastforce
  let ?ks = "firsts (map pair_key ps)" and ?k = "as_NativeID a"
  let ?item = "\<lambda>ps k. case last_report k ps of (e, a) \<Rightarrow> item_of ofmt src e a"
  have at: "map_of (zip ?ks [0..<length ?ks]) ?k = (if ?k \<in> set ?ks then Some (position ?ks ?k) else None)"
    using map_of_zip_position [of ?ks 0 ?k] by simp
  show ?case
  proof (cases "?k \<in> set ?ks")
    case True
    note pos = position_in [OF True]
    have "(map (?item ps) ?ks)[position ?ks ?k := item_of ofmt src e a] = map (?item (ps @ [p])) ?ks"
    proof (rule nth_equalityI)
      fix i assume "i < length ((map (?item ps) ?ks)[position ?ks ?k := item_of ofmt src e a])"
      then have i: "i < length ?ks" by simp
      then have "?ks ! i = ?k \<longleftrightarrow> i = position ?ks ?k" using pos distinct_firsts nth_eq_iff_index_eq by metis
      then show "(map (?item ps) ?ks)[position ?ks ?k := item_of ofmt src e a] ! i = map (?item (ps @ [p])) ?ks ! i"
        using i pos p by (auto simp: last_report_snoc nth_list_update)
    qed simp
    moreover have "firsts (map pair_key (ps @ [p])) = ?ks" using True p by simp
    ultimately show ?thesis using snoc at True p by (simp add: put_item_def)
  next
    case False
    then have ks: "firsts (map pair_key (ps @ [p])) = ?ks @ [?k]" using p by simp
    have "map (?item ps) ?ks = map (?item (ps @ [p])) ?ks"
      using False p by (auto simp: last_report_snoc)
    moreover have "?item (ps @ [p]) ?k = item_of ofmt src e a" using p by (simp add: last_report_snoc)
    moreover have new: "map_of (zip ?ks [0..<length ?ks]) ?k = None" using at False by simp
    have "put_item ofmt src e a (map (?item ps) ?ks, zip ?ks [0..<length ?ks])
        = (map (?item ps) ?ks @ [item_of ofmt src e a], zip ?ks [0..<length ?ks] @ [(?k, length ?ks)])"
      by (simp add: put_item_def new)
    ultimately show ?thesis unfolding ks using snoc p by simp
  qed
qed simp

section \<open>The relations\<close>

definition all_relationships :: "observation list \<Rightarrow> relationship list" where
  "all_relationships es = concat (map ob_Relationships es)"

definition relation_of :: "string list \<Rightarrow> rel_key \<Rightarrow> ire_relation" where
  "relation_of ks key = (case key of (t, from, dest) \<Rightarrow>
     \<lparr>ir_Type = (case relationFor t of None \<Rightarrow> [] | Some u \<Rightarrow> u), ir_Parent = position ks from, ir_Child = position ks dest\<rparr>)"

lemma put_relations_flat: "put_relations index es = fold (put_relation index) (all_relationships es) ([], [])"
proof -
  have "fold (\<lambda>e. fold (put_relation index) (ob_Relationships e)) es st = fold (put_relation index) (all_relationships es) st" for st
    by (induction es arbitrary: st) (simp_all add: all_relationships_def)
  then show ?thesis by (simp add: put_relations_def)
qed

lemma put_relation_table:
  assumes "\<forall>r \<in> set rs. rl_FromNativeID r \<in> set ks \<and> rl_ToNativeID r \<in> set ks"
  shows "fold (put_relation (zip ks [0..<length ks])) rs ([], [])
    = (map (relation_of ks) (firsts (map relation_key rs)), rev (firsts (map relation_key rs)))"
  using assms
proof (induction rs rule: rev_induct)
  case (snoc r rs)
  have at: "map_of (zip ks [0..<length ks]) k = Some (position ks k)" if "k \<in> set ks" for k
    using map_of_zip_position [of ks 0 k] that by simp
  show ?case
    using snoc at [of "rl_FromNativeID r"] at [of "rl_ToNativeID r"]
    by (auto simp: put_relation_def relation_of_def relation_key_def)
qed simp

section \<open>What the checks ensure\<close>

definition typed :: "asset_type gomap \<Rightarrow> (observation \<times> asset) list \<Rightarrow> bool" where
  "typed types ps \<longleftrightarrow> gm_wf types \<and> length types \<le> MaxItems \<and> set (map fst types) = pair_key ` set ps
     \<and> (\<forall>p \<in> set ps. map_of types (pair_key p) = Some (as_Type (snd p)) \<and> classFor (as_Type (snd p)) \<noteq> None)"

lemma check_assets_Cons:
  assumes "check_assets i j types (a # as) = Inr types'"
  obtains "classFor (as_Type a) \<noteq> None" "length (AList.update (as_NativeID a) (as_Type a) types) \<le> MaxItems"
    "check_assets i (j + 1) (AList.update (as_NativeID a) (as_Type a) types) as = Inr types'"
    "map_of types (as_NativeID a) \<in> {None, Some (as_Type a)}"
  using assms by (auto simp: Let_def split: if_splits option.splits)

lemma typed_update:
  assumes "typed types ps" "classFor (as_Type a) \<noteq> None" "length (AList.update (as_NativeID a) (as_Type a) types) \<le> MaxItems"
    and "map_of types (as_NativeID a) \<in> {None, Some (as_Type a)}"
  shows "typed (AList.update (as_NativeID a) (as_Type a) types) (ps @ [(e, a)])"
  using assms unfolding typed_def by (auto simp: update_conv' distinct_update dom_update)

lemma check_assets_typed:
  "check_assets i j types as = Inr types' \<Longrightarrow> typed types ps \<Longrightarrow> typed types' (ps @ map (Pair e) as)"
proof (induction as arbitrary: j types ps)
  case (Cons a as)
  from Cons.prems(1) show ?case
  proof (rule check_assets_Cons)
    assume a: "classFor (as_Type a) \<noteq> None" "length (AList.update (as_NativeID a) (as_Type a) types) \<le> MaxItems"
      "map_of types (as_NativeID a) \<in> {None, Some (as_Type a)}"
      "check_assets i (j + 1) (AList.update (as_NativeID a) (as_Type a) types) as = Inr types'"
    from Cons.IH [OF a(4) typed_update [OF Cons.prems(2) a(1-3), of e]] show ?case by simp
  qed
qed simp

lemma check_envelopes_typed:
  "check_envelopes i types es = Inr types' \<Longrightarrow> typed types ps \<Longrightarrow> typed types' (ps @ asset_pairs es)"
proof (induction es arbitrary: i types ps)
  case (Cons e es)
  then obtain types1 where "check_assets i 1 types (ob_Assets e) = Inr types1" "check_envelopes (i + 1) types1 es = Inr types'"
    by (auto split: if_splits option.splits sum.splits)
  from Cons.IH [OF this(2) check_assets_typed [OF this(1) Cons.prems(2), of e]] show ?case by (simp add: asset_pairs_def)
qed (simp add: asset_pairs_def)

definition related :: "asset_type gomap \<Rightarrow> rel_key list \<Rightarrow> relationship list \<Rightarrow> bool" where
  "related types seen rs \<longleftrightarrow> distinct seen \<and> length seen \<le> MaxRelations \<and> set seen = relation_key ` set rs
     \<and> (\<forall>r \<in> set rs. relationFor (rl_Type r) \<noteq> None
          \<and> map_of types (rl_FromNativeID r) = Some AssetHost \<and> map_of types (rl_ToNativeID r) = Some AssetNetworkInterface)"

lemma check_relations_related:
  "check_relations i j types seen rs = Inr seen' \<Longrightarrow> related types seen qs \<Longrightarrow> related types seen' (qs @ rs)"
proof (induction rs arbitrary: j seen qs)
  case (Cons r rs)
  let ?seen = "List.insert (relation_key r) seen"
  from Cons.prems(1) obtain a b where ab: "relationFor (rl_Type r) \<noteq> None" "map_of types (rl_FromNativeID r) = Some a"
    "map_of types (rl_ToNativeID r) = Some b" "\<not> (rl_Type r = ''host_has_interface'' \<and> (a \<noteq> AssetHost \<or> b \<noteq> AssetNetworkInterface))"
    "length ?seen \<le> MaxRelations" and rest: "check_relations i (j + 1) types ?seen rs = Inr seen'"
    by (auto simp: Let_def split: if_splits option.splits)
  have "rl_Type r = ''host_has_interface''" using ab(1) by (auto simp: relationFor_def split: if_splits)
  then have "related types ?seen (qs @ [r])"
    using ab Cons.prems(2) unfolding related_def by auto
  from Cons.IH [OF rest this] show ?case by simp
qed simp

lemma check_all_related:
  "check_all_relations i types seen es = None \<Longrightarrow> related types seen qs \<Longrightarrow> \<exists>seen'. related types seen' (qs @ all_relationships es)"
proof (induction es arbitrary: i seen qs)
  case (Cons e es)
  then obtain seen1 where "check_relations i 1 types seen (ob_Relationships e) = Inr seen1" "check_all_relations (i + 1) types seen1 es = None"
    by (auto split: sum.splits)
  from Cons.IH [OF this(2) check_relations_related [OF this(1) Cons.prems(2)]] show ?case by (simp add: all_relationships_def)
qed (auto simp: all_relationships_def)

lemma validateEnvelopes_sound:
  assumes "validateEnvelopes es = None"
  obtains types seen where "typed types (asset_pairs es)" "related types seen (all_relationships es)" "asset_pairs es \<noteq> []"
proof -
  from assms obtain types where t: "check_envelopes 1 [] es = Inr types" "types \<noteq> []" "check_all_relations 1 types [] es = None"
    by (auto simp: validateEnvelopes_def split: if_splits sum.splits)
  have ty: "typed types (asset_pairs es)"
    using check_envelopes_typed [OF t(1), of "[]"] by (simp add: typed_def MaxItems_def)
  obtain seen where "related types seen (all_relationships es)"
    using check_all_related [OF t(3), of "[]"] by (auto simp: related_def MaxRelations_def)
  moreover have "asset_pairs es \<noteq> []" using ty t(2) unfolding typed_def by auto
  ultimately show thesis using that ty by blast
qed

lemma typed_key: "typed types ps \<Longrightarrow> map_of types k \<noteq> None \<longleftrightarrow> k \<in> pair_key ` set ps"
  unfolding typed_def by (metis map_of_eq_None_iff list.set_map)

lemma payload_table:
  assumes "mapPayload ofmt src es = Inr p" "ks = native_keys es"
  shows "ip_Items p = map (\<lambda>k. case last_report k (asset_pairs es) of (e, a) \<Rightarrow> item_of ofmt src e a) ks
    \<and> distinct ks \<and> ks = map it_SourceNativeKey (ip_Items p) \<and> set ks = pair_key ` set (asset_pairs es)
    \<and> ip_Relations p = map (relation_of ks) (firsts (map relation_key (all_relationships es)))
    \<and> (\<forall>r \<in> set (all_relationships es). rl_FromNativeID r \<in> set ks \<and> rl_ToNativeID r \<in> set ks)
    \<and> 0 < length (ip_Items p) \<and> length (ip_Items p) \<le> MaxItems \<and> length (ip_Relations p) \<le> MaxRelations"
proof -
  from assms(1) have v: "validateEnvelopes es = None" by (simp add: mapPayload_def split: option.splits)
  then obtain types seen where t: "typed types (asset_pairs es)" and s: "related types seen (all_relationships es)"
    and ne: "asset_pairs es \<noteq> []" by (rule validateEnvelopes_sound)
  have keys: "set ks = pair_key ` set (asset_pairs es)" "distinct ks" by (simp_all add: assms(2) native_keys_def)
  have ends: "\<forall>r \<in> set (all_relationships es). rl_FromNativeID r \<in> set ks \<and> rl_ToNativeID r \<in> set ks"
    using s typed_key [OF t] keys(1) unfolding related_def by (metis option.distinct(1))
  have items: "put_items ofmt src es =
      (map (\<lambda>k. case last_report k (asset_pairs es) of (e, a) \<Rightarrow> item_of ofmt src e a) ks, zip ks [0..<length ks])"
    unfolding put_items_pairs put_item_table assms(2) native_keys_def ..
  then have p: "p = \<lparr>ip_Items = map (\<lambda>k. case last_report k (asset_pairs es) of (e, a) \<Rightarrow> item_of ofmt src e a) ks,
      ip_Relations = map (relation_of ks) (firsts (map relation_key (all_relationships es)))\<rparr>"
    using assms(1) v by (simp add: mapPayload_def put_relations_flat put_relation_table [OF ends])
  have "it_SourceNativeKey (case last_report k (asset_pairs es) of (e, a) \<Rightarrow> item_of ofmt src e a) = k" if "k \<in> set ks" for k
  proof -
    have "filter (\<lambda>p. pair_key p = k) (asset_pairs es) \<noteq> []" using that keys(1) by (auto simp: filter_empty_conv)
    then have "last_report k (asset_pairs es) \<in> set (filter (\<lambda>p. pair_key p = k) (asset_pairs es))"
      unfolding last_report_def by (rule last_in_set)
    then have "pair_key (last_report k (asset_pairs es)) = k" by simp
    then show ?thesis by (cases "last_report k (asset_pairs es)") (simp add: item_of_def)
  qed
  then have names: "ks = map it_SourceNativeKey (ip_Items p)" by (simp add: p map_idI)
  have "length ks = card (set ks)" using keys(2) by (simp add: distinct_card)
  moreover have "length types = card (set (map fst types))"
    using t distinct_card [of "map fst types"] unfolding typed_def by simp
  ultimately have len: "length ks = length types" using keys(1) t unfolding typed_def by simp
  have "length seen = card (set seen)" using s distinct_card [of seen] unfolding related_def by simp
  also have "set seen = set (firsts (map relation_key (all_relationships es)))" using s unfolding related_def by simp
  also have "card \<dots> = length (firsts (map relation_key (all_relationships es)))" by (rule distinct_card) simp
  also have "\<dots> = length (ip_Relations p)" unfolding p by simp
  finally have rels: "length (ip_Relations p) = length seen" ..
  show ?thesis
  proof (intro conjI)
    show "0 < length (ip_Items p)" using ne keys(1) unfolding p by (cases ks) auto
    show "length (ip_Items p) \<le> MaxItems" using len t unfolding p typed_def by simp
    show "length (ip_Relations p) \<le> MaxRelations" using s unfolding rels related_def by simp
  qed (use names keys ends in \<open>simp_all only: p ire_payload.select_convs\<close>)
qed

lemma payload_bounds: "mapPayload ofmt src es = Inr p \<Longrightarrow> ip_Items p \<noteq> [] \<and> length (ip_Items p) \<le> MaxItems"
  using payload_table [OF _ refl, of ofmt src es p] by blast

text \<open>
  C11: the payload sent to ServiceNow is the one the input determines. Every native ID of the input
  gives exactly one item, in the order of first occurrence, with the class of its type and the fields
  of the last asset that carries it; every distinct relationship gives exactly one relation, in order,
  whose parent and child are the positions of the items of its two ends; nothing else is sent, and
  the numbers of items and relations are within their limits.
\<close>

theorem mapPayload_exact:
  assumes "mapPayload ofmt src es = Inr p" "ks = native_keys es"
  shows "ip_Items p = map (\<lambda>k. case last_report k (asset_pairs es) of (e, a) \<Rightarrow> item_of ofmt src e a) ks
    \<and> distinct ks \<and> ks = map it_SourceNativeKey (ip_Items p) \<and> set ks = pair_key ` set (asset_pairs es)
    \<and> ip_Relations p = map (relation_of ks) (firsts (map relation_key (all_relationships es)))
    \<and> (\<forall>r \<in> set (all_relationships es). rl_FromNativeID r \<in> set ks \<and> rl_ToNativeID r \<in> set ks)
    \<and> 0 < length (ip_Items p) \<and> length (ip_Items p) \<le> MaxItems \<and> length (ip_Relations p) \<le> MaxRelations"
  by (rule payload_table [OF assms])

section \<open>Which report of an asset is sent\<close>

definition demo_host :: "string \<Rightarrow> asset" where
  "demo_host name = \<lparr>as_Type = ''host'', as_NativeID = ''h'', as_Name = name, as_Identifiers = [], as_Attributes = [], as_Evidence = []\<rparr>"

definition demo_report :: "time \<Rightarrow> string \<Rightarrow> observation" where
  "demo_report t name = \<lparr>ob_SchemaVersion = ''v1alpha1'', ob_ObservationID = ''o'', ob_SiteID = ''s'', ob_CollectorID = ''c'',
     ob_Plugin = ''p'', ob_JobID = [], ob_ObservedAt = t, ob_Assets = [demo_host name], ob_Relationships = [], ob_Errors = [],
     ob_Labels = []\<rparr>"

lemma demo_valid: "zero_time < t \<Longrightarrow> zero_time < u \<Longrightarrow> validateEnvelopes [demo_report t ''a'', demo_report u ''b''] = None"
  by (simp add: validateEnvelopes_def demo_report_def demo_host_def MaxEnvelopes_def SchemaVersion_def bad_identity_def validIdentity_def
      maxIdentityLen_def maxNameLen_def control_free_def runes_def is_control_def classFor_def AssetHost_def AssetNetworkInterface_def MaxItems_def)

text \<open>
  The comment on \<open>mapPayload\<close> promises the values of the most recent envelope. What is sent is the
  report that comes last in the input, also when it was observed earlier.
\<close>

theorem older_report_sent:
  assumes "zero_time < u" "u < t"
  shows "\<exists>p. mapPayload ofmt src [demo_report t ''a'', demo_report u ''b''] = Inr p
    \<and> map (\<lambda>i. map_of (it_Values i) ''name'') (ip_Items p) = [Some ''b'']"
proof -
  have "validateEnvelopes [demo_report t ''a'', demo_report u ''b''] = None"
    by (rule demo_valid) (use assms in auto)
  then show ?thesis
    by (simp add: mapPayload_def put_items_def put_item_def demo_report_def demo_host_def item_of_def item_values_def)
qed

theorem mapPayload_exact_witness:
  "\<exists>p. mapPayload (\<lambda>_. ''t'') ''topo'' [demo_report 2 ''a'', demo_report 1 ''b''] = Inr p
    \<and> map it_SourceNativeKey (ip_Items p) = [''h''] \<and> length (ip_Items p) \<le> MaxItems"
proof -
  obtain p where p: "mapPayload (\<lambda>_. ''t'') ''topo'' [demo_report 2 ''a'', demo_report 1 ''b''] = Inr p"
    using older_report_sent [of 1 2] by (auto simp: zero_time_def)
  have "native_keys [demo_report 2 ''a'', demo_report 1 ''b''] = [''h'']"
    by (simp add: native_keys_def asset_pairs_def demo_report_def demo_host_def firsts_def)
  with mapPayload_exact [OF p refl] p show ?thesis by metis
qed

section \<open>Bounds on the input\<close>

text \<open>The level of nesting after a prefix of the tokens.\<close>

definition level :: "json_token list \<Rightarrow> int" where
  "level ts = sum_list (map (\<lambda>t. case t of Opens \<Rightarrow> 1 | Closes \<Rightarrow> - 1 | _ \<Rightarrow> 0) ts)"

lemma depth_error_exact:
  "depth_error line d ts = None \<Longrightarrow> d \<le> MaxJSONDepth \<Longrightarrow> Bad \<notin> set ts \<and> (\<forall>n. d + level (take n ts) \<le> MaxJSONDepth)"
proof (induction line d ts rule: depth_error.induct)
  case (3 line d ts)
  then show ?case by (auto simp: level_def take_Cons')
next
  case (4 line d ts)
  then show ?case by (auto simp: level_def take_Cons' algebra_simps split: if_splits)
next
  case (5 line d ts)
  then show ?case by (auto simp: level_def take_Cons' algebra_simps)
qed (auto simp: level_def)

lemma decode_lines_bounded:
  "decode_lines tokens decode n acc ls = Inr es \<Longrightarrow> length acc \<le> MaxEnvelopes \<Longrightarrow> length es \<le> MaxEnvelopes"
  by (induction tokens decode n acc ls rule: decode_lines.induct) (auto simp: Let_def split: if_splits option.splits)

lemma decoded_input_valid:
  "DecodeJSONLines tokens decode raw = Inr es \<Longrightarrow> es \<noteq> [] \<and> length es \<le> MaxEnvelopes \<and> (\<exists>p. mapPayload ofmt src es = Inr p)"
  by (cases "put_items ofmt src es")
    (auto simp: DecodeJSONLines_def mapPayload_def validateEnvelopes_def split: if_splits sum.splits option.splits)

section \<open>When a batch counts as published\<close>

lemma sendPayload_success:
  "sendPayload marshal valid unmarshal answer p destination True = (r, None) \<longleftrightarrow>
    rs_Published r = length (ip_Items p) \<and> rs_Rejected r = 0 \<and> rs_Destination r = destination
    \<and> length (marshal p) \<le> MaxRequestBytes
    \<and> (\<exists>status body. answer (marshal p) = Response status body \<and> status \<in> {200..<300}
      \<and> length body \<le> MaxResponseBytes \<and> valid body
      \<and> \<not> responseReportsFlag unmarshal ''hasError'' body \<and> \<not> responseReportsFlag unmarshal ''hasWarning'' body)"
proof (cases "answer (marshal p)")
  case (Response status body)
  have r: "r = \<lparr>rs_Destination = destination, rs_Published = length (ip_Items p), rs_Rejected = 0\<rparr> \<longleftrightarrow>
      rs_Published r = length (ip_Items p) \<and> rs_Rejected r = 0 \<and> rs_Destination r = destination"
    by (cases r) auto
  show ?thesis
  proof (cases "length (marshal p) \<le> MaxRequestBytes \<and> status \<in> {200..<300} \<and> length body \<le> MaxResponseBytes \<and> valid body
      \<and> \<not> responseReportsFlag unmarshal ''hasError'' body \<and> \<not> responseReportsFlag unmarshal ''hasWarning'' body")
    case True
    then have "sendPayload marshal valid unmarshal answer p destination True
        = (\<lparr>rs_Destination = destination, rs_Published = length (ip_Items p), rs_Rejected = 0\<rparr>, None)"
      by (simp add: sendPayload_def Response Let_def)
    then show ?thesis using True Response r by auto
  next
    case False
    then have "snd (sendPayload marshal valid unmarshal answer p destination True) \<noteq> None"
      by (auto simp: sendPayload_def Response Let_def)
    then show ?thesis using False Response by auto
  qed
qed (auto simp: sendPayload_def Let_def)

text \<open>A value that occurs in a JSON value, at any depth; the walker finds exactly the true fields of such objects.\<close>

inductive occurs_in :: "json \<Rightarrow> json \<Rightarrow> bool" where
  occurs_self: "occurs_in w w"
| occurs_field: "(k, v) \<in> set kvs \<Longrightarrow> occurs_in x v \<Longrightarrow> occurs_in x (JObj kvs)"
| occurs_item: "v \<in> set vs \<Longrightarrow> occurs_in x v \<Longrightarrow> occurs_in x (JArr vs)"

lemma flag_occurs:
  "occurs_in x w \<Longrightarrow> x = JObj kvs \<Longrightarrow> (name, JBool True) \<in> set kvs \<Longrightarrow> reportsFlag name w"
proof (induction rule: occurs_in.induct)
  case (occurs_field k v fields x)
  then show ?case by auto
qed auto

lemma reportsFlag_occurs:
  "reportsFlag name w \<Longrightarrow> \<exists>kvs. occurs_in (JObj kvs) w \<and> (name, JBool True) \<in> set kvs"
proof (induction name w rule: reportsFlag.induct)
  case (1 name kvs)
  then obtain k v where kv: "(k, v) \<in> set kvs" "k = name \<and> v = JBool True \<or> reportsFlag name v" by auto
  from kv(2) show ?case
  proof (elim disjE conjE)
    assume "k = name" "v = JBool True"
    then show ?thesis using kv(1) occurs_self by blast
  next
    assume "reportsFlag name v"
    then obtain fields where "occurs_in (JObj fields) v" "(name, JBool True) \<in> set fields"
      using "1.IH" [OF kv(1)] by blast
    then show ?thesis using occurs_field [OF kv(1)] by blast
  qed
next
  case (2 name vs)
  then obtain v where v: "v \<in> set vs" "reportsFlag name v" by auto
  then show ?case using "2.IH" [OF v] occurs_item [OF v(1)] by blast
qed simp_all

lemma responseReportsFlag_exact:
  "responseReportsFlag unmarshal name body \<longleftrightarrow>
     (\<exists>w kvs. unmarshal body = Some w \<and> occurs_in (JObj kvs) w \<and> (name, JBool True) \<in> set kvs)"
  unfolding responseReportsFlag_def using flag_occurs reportsFlag_occurs by (auto split: option.splits)

text \<open>
  \<open>PublishBatch\<close> reports no error exactly when the configuration and the input are valid and either
  this is a dry run, or the request is within its bound and the answer is a complete 2xx response of
  valid JSON in which neither \<open>hasError\<close> nor \<open>hasWarning\<close> is found to be true; then all items count as
  published.
\<close>

lemma publish_success_exact:
  "sn_PublishBatch v answer c es = (r, None) \<longleftrightarrow>
    sn_Validate (sn_Parse v) c = None \<and> (\<exists>p. mapPayload (sn_Format v) (sn_DiscoverySource c) es = Inr p \<and>
      rs_Published r = length (ip_Items p) \<and> rs_Rejected r = 0 \<and>
      rs_Destination r = (if sn_DryRun c then ''servicenow-ire-preview'' else ''servicenow-ire'') \<and>
      (sn_DryRun c \<or> length (sn_MarshalJSON v p) \<le> MaxRequestBytes
        \<and> (\<exists>status body. answer (sn_MarshalJSON v p) = Response status body \<and> status \<in> {200..<300}
          \<and> length body \<le> MaxResponseBytes \<and> sn_ValidJSON v body
          \<and> \<not> responseReportsFlag (sn_UnmarshalJSON v) ''hasError'' body
          \<and> \<not> responseReportsFlag (sn_UnmarshalJSON v) ''hasWarning'' body)))"
proof (cases "sn_Validate (sn_Parse v) c")
  case None
  show ?thesis
  proof (cases "mapPayload (sn_Format v) (sn_DiscoverySource c) es")
    case (Inr p)
    show ?thesis
    proof (cases "sn_DryRun c")
      case True
      then show ?thesis using None Inr by (cases r) (auto simp: sn_PublishBatch_def)
    next
      case False
      have "sendPayload (sn_MarshalJSON v) (sn_ValidJSON v) (sn_UnmarshalJSON v) answer p ''servicenow-ire'' True = (r, None) \<longleftrightarrow>
          rs_Published r = length (ip_Items p) \<and> rs_Rejected r = 0 \<and> rs_Destination r = ''servicenow-ire''
          \<and> length (sn_MarshalJSON v p) \<le> MaxRequestBytes
          \<and> (\<exists>status body. answer (sn_MarshalJSON v p) = Response status body \<and> status \<in> {200..<300}
            \<and> length body \<le> MaxResponseBytes \<and> sn_ValidJSON v body
            \<and> \<not> responseReportsFlag (sn_UnmarshalJSON v) ''hasError'' body
            \<and> \<not> responseReportsFlag (sn_UnmarshalJSON v) ''hasWarning'' body)"
        by (rule sendPayload_success)
      then show ?thesis using None Inr False by (simp add: sn_PublishBatch_def)
    qed
  qed (use None in \<open>simp add: sn_PublishBatch_def\<close>)
qed (simp add: sn_PublishBatch_def)

text \<open>
  An answer that is valid JSON but does not decode, such as one with a number out of range, counts as
  published, also when it reports an error.
\<close>

theorem undecodable_answer_accepted:
  assumes "sn_ValidJSON v body" "sn_UnmarshalJSON v body = None" "length body \<le> MaxResponseBytes" "status \<in> {200..<300}"
    and "length (sn_MarshalJSON v p) \<le> MaxRequestBytes" "answer (sn_MarshalJSON v p) = Response status body"
  shows "sendPayload (sn_MarshalJSON v) (sn_ValidJSON v) (sn_UnmarshalJSON v) answer p destination True
    = (\<lparr>rs_Destination = destination, rs_Published = length (ip_Items p), rs_Rejected = 0\<rparr>, None)"
  using assms by (simp add: sendPayload_def responseReportsFlag_def Let_def)

end
