(* ===== verification/Spec2Isabelle.thy ===== *)
theory Spec2Isabelle
  imports Worker_Properties Worker_Authority Relay_Retention Relay_Authority Ecc_Demo Discovery_Properties Delivery
    Publisher_Properties
begin

text \<open>
  Nischoy Topo discovers hosts and networks and reports them to a controller (Topo Hub) or into
  ServiceNow. This development models the running system from its Go source and proves what makes each
  part correct. Every definition translates the code named in its theory; source names are kept, with a
  prefix where two packages use the same one (\<open>agent_Enqueue\<close>, \<open>relay_Enqueue\<close>).

  The program and its parts.
  A collector (\<open>internal/agent\<close>) runs a plugin on a timer and sends what it finds, an
  \<open>ObservationEnvelope\<close> of \<open>pkg/model\<close>, to the controller; what it cannot deliver waits in an encrypted
  spool. The controller (\<open>internal/controller\<close>) authenticates collectors by an API key or by a
  certificate it issued itself (\<open>internal/enrollment\<close>), stores observations (\<open>internal/store\<close>, in memory
  or in SQLite), resolves the claims of several collectors about one asset, queues jobs and schedules,
  and records administrative actions in a hash-chained log (\<open>internal/audit\<close>). A worker
  (\<open>internal/worker\<close>) executes tasks that ServiceNow leases to it, within a local policy. A relay
  (\<open>internal/relay\<close>) executes jobs of ServiceNow over local profiles and publishes the results with the
  publisher of \<open>pkg/publisher/servicenow\<close>. A MID transport (\<open>internal/mid\<close>) answers records of the
  ServiceNow ECC queue.

  Theories, in the order in which they build on each other.
  \<open>Topo_Prelude\<close>: Go's strings, UTF-8, \<open>strings\<close>, \<open>strconv\<close>, \<open>sort\<close>, hex, maps as association lists.
  \<open>Model\<close>: the structs of \<open>pkg/model/model.go\<close> and the stable identifiers.
  \<open>Json_Text\<close>, \<open>Json_Codec\<close>: \<open>encoding/json\<close> as the field tags direct it, with its round trip.
  \<open>Audit_Log\<close>: \<open>internal/audit/audit.go\<close>.
  \<open>Resolution\<close>: \<open>store/resolution.go\<close>, the resolution of claims.
  \<open>Repository\<close>: the interface \<open>Repository\<close> of \<open>store/store.go\<close> as a record of functions, its abstract
  state \<open>repo_view\<close>, the abstract operations \<open>spec_*\<close> and the contract, locale \<open>repository_contract\<close>.
  \<open>Memory_Store\<close>: the backend of \<open>store.go\<close>; \<open>Sqlite_Store\<close>, \<open>Sqlite_Contract\<close>, \<open>Sqlite_Properties\<close>: the
  backend of \<open>store/sqlite/sqlite.go\<close> with its transactions and migrations. Both interpret the contract.
  \<open>Enrollment\<close>: tokens, collector identities, serials and signing. \<open>Jobs\<close>: the job queue and heartbeats.
  \<open>Server\<close>: every route of \<open>controller/server.go\<close> and \<open>schedule.go\<close> over any repository;
  \<open>Server_Invariants\<close>: how a request may change the controller (locale \<open>controller\<close>, interpreted on both
  backends); \<open>Server_Properties\<close>: what the API guarantees.
  \<open>Netip\<close>: addresses and prefixes of \<open>net/netip\<close>, as documented. \<open>Worker_Partition\<close>: the target planner.
  \<open>Worker_Policy\<close>, \<open>Worker_Executor\<close>, \<open>Worker_Run\<close>: policy and allowlists, the execution of one task, and
  the run loop with concurrent attempts (\<open>wstep\<close>), the lease loop and the start limiter, with the
  theorems in \<open>Worker_Properties\<close> and \<open>Worker_Authority\<close>.
  \<open>Spool\<close>, \<open>Spool_Demo\<close>, \<open>Spool_Names\<close>: the encrypted spools of the relay and of the agent over one model
  of a directory; what the run loops rely on is the locale \<open>spool_queue\<close>, interpreted on both.
  \<open>Relay\<close> (\<open>config.go\<close>, \<open>executor.go\<close>, \<open>run.go\<close>) with \<open>Relay_Properties\<close>, \<open>Relay_Retention\<close>,
  \<open>Relay_Authority\<close>.
  \<open>Agent\<close> (\<open>run.go\<close>, \<open>sender.go\<close>) with \<open>Agent_Properties\<close>.
  \<open>Discovery_SSH\<close> (\<open>pkg/discovery/sshlinux\<close>) with \<open>Discovery_Properties\<close>.
  \<open>Publisher\<close> (\<open>servicenow.go\<close>, \<open>input.go\<close>) with \<open>Publisher_Properties\<close>.
  \<open>Ecc_Contract\<close>, \<open>Ecc_Client\<close>, \<open>Ecc_Run\<close>: records and dispatcher, SOAP operations against the queue of
  \<open>eccsim/server.go\<close>, crash journal and run loop; \<open>Ecc_Properties\<close>, \<open>Ecc_Demo\<close>.
  \<open>Delivery\<close>: a collector and the controller it reports to, together. This theory: the properties that
  span components.
\<close>

text \<open>
  How code becomes definitions.
  A struct is a record with prefixed fields, an interface a record of functions, a map an association
  list (\<open>gomap\<close>, distinct keys where the code relies on it) or, in abstract states, a HOL map. A method
  takes the state and returns its result and the new state; errors are values of a datatype per package
  and only their distinction matters, except where the text of an error is itself part of a message.
  Instants and unbounded or range-checked Go integers are \<open>int\<close> or \<open>nat\<close>. A method under a mutex is one
  step. Loops are structural recursion; the partition planner's recursions terminate by a measure, and
  the lease loop is recursion over the stream of its rounds, with the theorem \<open>lease_loop_terminates\<close>
  that bounds them. No definition uses fuel.

  What is a parameter, and what is assumed of it.
  SHA-256 (\<open>sha\<close>) and the rendering of instants (\<open>tfmt\<close>, \<open>tparse\<close>) are arguments; injectivity or a round trip
  is a hypothesis only where a theorem needs it, restricted to the values compared. Clock readings,
  random bytes, serials and whether a signature succeeds come with each request (\<open>world\<close>). Every
  statement of SQLite may fail (\<open>db_faults\<close>). AES-GCM with \<open>encoding/json\<close> is \<open>sealing\<close>, with the laws
  \<open>sealing_ok\<close>: opening inverts sealing and rejects every proper prefix. Every file operation of a spool or
  a journal may fail, and a write may fail after any number of bytes (\<open>io\<close>). The answers of remote peers
  are streams of the state; a request, or its answer, may be lost. The journal's JSON is \<open>journal_codec\<close>
  with the laws \<open>journal_codec_ok\<close>, XML is \<open>ee_wire\<close>, which keeps printable ASCII. Plugins and credential
  sources are functions. Each theorem that assumes such laws has a witness over a concrete parameter
  that satisfies them.
\<close>

text \<open>
  What the theorems show.
  Controller: a revocation binds every later request, an enrollment token works once and only for its
  collector, an error response changes nothing, a certificate decides whom a request is served and recorded as, a due
  schedule fires, a job is dispatched once and its result is final, reads over the API are sound.
  Stores: both backends refine one abstract repository, SQLite also when any statement fails; after the same
  calls, none of which changes the creation time of a schedule, they agree on every read; the audit log
  verifies and is tamper evident for entries without NUL and without \<open>=\<close> in a detail key; a migration is all or nothing. Resolution: the
  winner, completeness, independence of the order, exact conflicts. JSON: the round trip.
  Worker: a task cannot make it leave its policy; a completed task had one confined discovery; capacity
  and the reported lease counts, the lease loop, the answer to every task; the planner covers exactly the included, not excluded addresses.
  Relay: results are not lost, a reported success was published, a job stays within its profile.
  SSH discovery: only fixed commands on requested targets, every target accounted for, bounded output.
  Collector: with the controller, an observation within the entry bound is recorded there, or refused by
  it, or kept, as long as the files of the spool work.
  Publisher: the payload against a declarative reference; with the relay, what a reported success means.
  MID: only records queued for this MID are answered, and none twice, over histories with crashes at every file operation and lost requests and answers.
  Where the code does not do what it means to do, that is a theorem too: \<open>lost_job_stalls_schedule\<close>,
  \<open>relay_partial_write_stalls\<close>, \<open>ecc_partial_journal_stalls\<close>, \<open>agent_oversized_dropped\<close>,
  \<open>undecodable_answer_accepted\<close>.

  What is not modelled.
  \<open>cmd/topo\<close> (flags and wiring), the build, release and packaging tools, the simulators other than \<open>eccsim\<close>,
  the other discovery plugins (network protocols), secret
  stores (\<open>pkg/credentialref\<close>), the webhook and JSON lines publishers, the enrollment client, the online
  backup of SQLite: they are calls into other systems, or tools outside the running program. Inside the
  modelled packages: logging, response headers, the decoding of HTTP bodies (a body is the decoded
  struct or an error), key generation, PEM and x509 encoding, opening of files and their permissions,
  process locks and tickers. Goroutines appear as interleavings: of whole requests at the controller, of
  the steps of attempts at the worker, of ticks and check-ins at the collector. Errors that the values at
  hand exclude are left out: of \<open>json.Marshal\<close> on observations and deliveries, and of \<open>RowsAffected\<close>. Numbers
  are exact (no rounding to \<open>float64\<close>), JSON objects carry no order of keys, and a nil slice is an empty one.
\<close>

section \<open>The collector and the controller together\<close>

abbreviation empty_report :: observation where "empty_report \<equiv> sample_observation\<lparr>ob_Assets := []\<rparr>"

text \<open>
  C5: an observation ends up in the controller. The collector's spool is assumed to work: no file operation
  fails, nonces have their size, and the observation is representable and its encrypted entry
  at most 8 MiB (a larger one is dropped, \<open>agent_oversized_dropped\<close>). When the collector
  has tried to send it, then after any ticks, check-ins and jobs, with the controller serving the requests
  in the collector's log among any others, over SQLite with failing statements, and losing requests and
  responses: either the observation is recorded in the controller's store, or the controller has refused
  it with a client error, or the collector's spool holds it for a later drain, or the spool did not take it
  (for lack of room or of random bytes).
\<close>

theorem observation_reaches_controller:
  assumes "sealing_ok (\<lambda>x x'. x = d \<longrightarrow> x' = d) e" "sp_io (ag_spool s) = []" "nonces_ok (ag_spool s)"
    and "length (sl_marshal e d) + 28 \<le> maxSpoolFileBytes" "valid_observation tfmt tparse d"
    and "server_ok sha tfmt tparse sv0" "lib_ok L"
    and "t = fold (agent_step e maxBytes) events (deliver e maxBytes now d s)"
    and "hub L (Sqlite sha tfmt tparse) (time_ok tfmt tparse) (valid_observation tfmt tparse) sv0 (ag_calls t) sv"
  shows "recorded sha d (sqview tparse (sv_Store sv))
    \<or> (\<exists>code. ASend d (Status code) \<in> set (ag_calls t) \<and> 400 \<le> code \<and> code < 500)
    \<or> (\<exists>name c. map_of (sp_files (ag_spool t)) name = Some c \<and> decode_entry e maxSpoolFileBytes c = Inr d)
    \<or> fst (agent_Enqueue e maxBytes now d (ag_spool s)) \<noteq> None"
proof -
  have sane: "sctl.sane sha tfmt tparse sv0" using assms(6) by (simp add: sane_sql)
  note served = sctl.hub_recorded [OF assms(9) sane assms(7), THEN conjunct2, rule_format, OF conjI, OF assms(5)]
  have sent: "recorded sha d (sqview tparse (sv_Store sv)) \<or> (\<exists>code. ASend d (Status code) \<in> set (ag_calls t) \<and> 400 \<le> code \<and> code < 500)"
    if asent: "ASend d a \<in> set (ag_calls t)" "doRaw a \<noteq> Some (DeliveryError True)" for a
  proof -
    obtain code where a: "a = Status code" "code < 500"
      using asent(2) by (cases a) (auto simp: doRaw_def split: if_splits)
    show ?thesis using served [of code] asent(1) a by auto
  qed
  show ?thesis
    using observation_kept [OF assms(1-4,8)] sent set_drop_subset [of "length (ag_calls s)" "ag_calls t"] by blast
qed

theorem observation_reaches_controller_witness:
  "\<exists>sv. hub demo_lib demo_sql (time_ok dec_int read_int) (valid_observation dec_int read_int) (start_server [] ''k'' True 0)
      [ASend empty_report (Status 202)] sv
    \<and> recorded (take 4) empty_report (sqview read_int (sv_Store sv))"
proof -
  let ?d = empty_report
  let ?e = "demo_sealing (\<lambda>x. if x = ?d then ''d'' else ''x'') (\<lambda>_. Some ?d)"
  let ?s = "start_agent [replicate 12 (CHR ''n'')] [Status 202] :: observation agent_state"
  let ?t = "deliver ?e 1000 0 ?d ?s"
  let ?sv0 = "start_server [] ''k'' True 0"
  have ok: "sealing_ok (\<lambda>x x'. x = ?d \<longrightarrow> x' = ?d) ?e" by (rule demo_sealing_ok) simp
  have s: "sp_io (ag_spool ?s) = []" "nonces_ok (ag_spool ?s)" by (simp_all add: start_agent_def nonceSize_def)
  have size: "length (sl_marshal ?e ?d) + 28 \<le> maxSpoolFileBytes" by (simp add: demo_sealing_def maxSpoolFileBytes_def)
  have t: "ag_calls ?t = [ASend ?d (Status 202)]" "sp_files (ag_spool ?t) = []"
    by (simp_all add: deliver_def Send_def call_def doRaw_def start_agent_def Let_def)
  have valid: "valid_observation dec_int read_int ?d"
    by (simp add: valid_observation_def sample_observation_def SchemaVersion_def AssetHost_def
      valid_asset_def valid_strings_def valid_evidence_def valid_utf8_ascii)
  have en: "fst (agent_Enqueue ?e 1000 0 ?d (ag_spool ?s)) = None"
    by (simp add: agent_Enqueue_def start_agent_def next_nonce_def ReadDir_def next_io_def commit_entry_def
        WriteFile_def Rename_def total_bytes_def ciphertext_def demo_sealing_def demo_seal_def length_decz Let_def)
  obtain resp sv where h: "Handler demo_lib demo_sql demo_world admin_peer (PostObservation (Inr ?d)) ?sv0 = (resp, sv)" by fastforce
  have "status (fst (Handler demo_lib demo_sql demo_world admin_peer (PostObservation (Inr ?d)) ?sv0)) = 202"
    by (simp add: demo_route collectorAuth_def ingest_def collectorIdentity_def validateObservation_def sample_observation_def
      SchemaVersion_def trim_space_text is_space_def zero_time_def demo_store sqlSaveObservation_def in_tx_def andThen_def return_def)
  then have resp: "status resp = 202" using h by simp
  have hub: "hub demo_lib demo_sql (time_ok dec_int read_int) (valid_observation dec_int read_int) ?sv0 ([] @ [ASend ?d (Status 202)]) sv"
    by (rule hub_sent [OF hub_start _ _ h]) (use valid resp in \<open>simp_all add: legal_def good_peer_def\<close>)
  have "hub demo_lib demo_sql (time_ok dec_int read_int) (valid_observation dec_int read_int) ?sv0
      (ag_calls (fold (agent_step ?e 1000) [] ?t)) sv"
    using hub t(1) by simp
  from observation_reaches_controller [OF ok s size valid server_ok_start demo_lib_ok refl this]
  have "recorded (take 4) ?d (sqview read_int (sv_Store sv))" using en t by auto
  then show ?thesis using hub by auto
qed

section \<open>The relay and the ServiceNow publisher together\<close>

text \<open>
  The relay's publisher is the ServiceNow publisher \<open>v\<close> with configuration \<open>c\<close>: the answer in the log at
  \<open>j\<close> is what \<open>sn_PublishBatch\<close> makes of what the HTTP client returned then, \<open>net j\<close>. \<open>message\<close> is the
  text of a failure.
\<close>

definition published_by ::
  "sn_env \<Rightarrow> sn_config \<Rightarrow> (publish_failure \<Rightarrow> string) \<Rightarrow> (nat \<Rightarrow> string \<Rightarrow> http_answer) \<Rightarrow> relay_call list \<Rightarrow> bool" where
  "published_by v c message net cs \<longleftrightarrow> (\<forall>j obs a. j < length cs \<longrightarrow> cs ! j = RPublish obs a \<longrightarrow>
     a = (case snd (sn_PublishBatch v (net j) c [obs]) of None \<Rightarrow> Accepted
        | Some f \<Rightarrow> Refused (Retryable f) (message f)))"

text \<open>
  C12: a job the relay reports as successful was accepted by ServiceNow. With a publisher that is not in
  dry-run mode, whatever the control plane, the instance and the files do, a success was reported for an observation whose payload, with at least one
  item and within the publisher's bounds, was posted before in a request that the instance answered with a
  2xx response of valid JSON. If that answer decodes, no object in it, at any depth, has a field
  \<open>hasError\<close> or \<open>hasWarning\<close> that is true. An answer that is valid JSON but does not decode is
  taken as a success, \<open>undecodable_answer_accepted\<close>.
\<close>

theorem relay_success_reconciled:
  assumes "sealing_ok same_delivery e" "\<forall>n \<in> set nonces. length n = nonceSize"
    and "s = fold (relay_cycle e maxBytes rc) polls (start_relay ios nonces pubs reps)"
    and "published_by v c message net (ry_calls s)" "\<not> sn_DryRun c"
    and "i < length (ry_calls s)" "ry_calls s ! i = RReport r ok" "rl_Success r"
  shows "rl_Error r = [] \<and> (\<exists>j obs p code body. j < i \<and> ry_calls s ! j = RPublish obs Accepted
    \<and> utf8_fix (ob_ObservationID obs) = utf8_fix (rl_ObservationID r)
    \<and> mapPayload (sn_Format v) (sn_DiscoverySource c) [obs] = Inr p \<and> ip_Items p \<noteq> []
    \<and> length (ip_Items p) \<le> MaxItems \<and> length (sn_MarshalJSON v p) \<le> MaxRequestBytes
    \<and> net j (sn_MarshalJSON v p) = Response code body \<and> 200 \<le> code \<and> code < 300
    \<and> length body \<le> MaxResponseBytes \<and> sn_ValidJSON v body
    \<and> (\<forall>w kvs. sn_UnmarshalJSON v body = Some w \<longrightarrow> occurs_in (JObj kvs) w \<longrightarrow>
         (''hasError'', JBool True) \<notin> set kvs \<and> (''hasWarning'', JBool True) \<notin> set kvs))"
proof -
  obtain obs where obs: "rl_Error r = []" "RPublish obs Accepted \<in> set (take i (ry_calls s))"
      "utf8_fix (ob_ObservationID obs) = utf8_fix (rl_ObservationID r)"
    using relay_reports_backed [OF assms(1-3,6-8)] by blast
  then obtain j where j: "j < i" "j < length (ry_calls s)" "ry_calls s ! j = RPublish obs Accepted"
    by (auto simp: in_set_conv_nth)
  then have "(case snd (sn_PublishBatch v (net j) c [obs]) of None \<Rightarrow> Accepted
      | Some f \<Rightarrow> Refused (Retryable f) (message f)) = Accepted"
    using assms(4) unfolding published_by_def by metis
  then obtain res where "sn_PublishBatch v (net j) c [obs] = (res, None)"
    by (cases "sn_PublishBatch v (net j) c [obs]") (auto split: option.splits)
  then obtain p code body where p: "mapPayload (sn_Format v) (sn_DiscoverySource c) [obs] = Inr p"
      "length (sn_MarshalJSON v p) \<le> MaxRequestBytes" "net j (sn_MarshalJSON v p) = Response code body"
      "code \<in> {200..<300}" "length body \<le> MaxResponseBytes" "sn_ValidJSON v body"
      "\<not> responseReportsFlag (sn_UnmarshalJSON v) ''hasError'' body" "\<not> responseReportsFlag (sn_UnmarshalJSON v) ''hasWarning'' body"
    using assms(5) unfolding publish_success_exact by blast
  have codes: "200 \<le> code" "code < 300" using p(4) by simp_all
  have flags: "\<forall>w kvs. sn_UnmarshalJSON v body = Some w \<longrightarrow> occurs_in (JObj kvs) w \<longrightarrow>
      (''hasError'', JBool True) \<notin> set kvs \<and> (''hasWarning'', JBool True) \<notin> set kvs"
    using p(7,8) unfolding responseReportsFlag_exact by blast
  show ?thesis
    by (intro conjI obs(1) exI [of _ j] exI [of _ obs] exI [of _ p] exI [of _ code] exI [of _ body])
      (use obs(3) j(1,3) p(1-3,5,6) payload_bounds [OF p(1)] codes flags in blast)+
qed

definition demo_publisher :: sn_env where
  "demo_publisher = \<lparr>sn_Parse = (\<lambda>_. Some \<lparr>ur_Scheme = ''https'', ur_Host = ''h'', ur_User = False, ur_Path = [],
       ur_ForceQuery = False, ur_RawQuery = [], ur_Fragment = []\<rparr>), sn_Format = (\<lambda>_. ''t''), sn_MarshalJSON = (\<lambda>_. ''p''),
     sn_ValidJSON = (\<lambda>_. True), sn_UnmarshalJSON = (\<lambda>_. Some (JObj []))\<rparr>"

definition demo_target :: sn_config where
  "demo_target = \<lparr>sn_InstanceURL = ''u'', sn_Token = ''k'', sn_DiscoverySource = ''topo'', sn_DryRun = False\<rparr>"

theorem relay_success_reconciled_witness:
  "\<exists>p. mapPayload (sn_Format demo_publisher) ''topo'' [demo_obs] = Inr p \<and> ip_Items p \<noteq> []"
proof -
  let ?s = "fold (relay_cycle demo_env 1000 demo_config) [Some [demo_polled]] (start_relay [] [demo_nonce, demo_nonce] [Accepted] [True])"
  let ?r = "resultFor (demo_read\<lparr>pd_Published := True, pd_PublishAttempts := 1\<rparr>) None"
  let ?net = "\<lambda>(_ :: nat) (_ :: string). Response 200 ''{}''"
  have calls: "ry_calls ?s = [RPoll, RPublish demo_obs Accepted, RReport ?r True]"
    by (simp only: fold_simps demo_cycle demo_drain) simp
  have succ: "rl_Success ?r" by (simp add: resultFor_def)
  have valid: "validateEnvelopes [demo_obs] = None"
    by (simp add: validateEnvelopes_def sample_observation_def MaxEnvelopes_def SchemaVersion_def bad_identity_def validIdentity_def
      maxIdentityLen_def maxNameLen_def control_free_def runes_def is_control_def zero_time_def classFor_def AssetHost_def
      AssetNetworkInterface_def MaxItems_def)
  have conf: "sn_Validate (sn_Parse demo_publisher) demo_target = None"
    by (simp add: sn_Validate_def demo_publisher_def demo_target_def MaxDiscoverySource_def validBearerToken_def trim_space_text
      control_free_def runes_def is_control_def is_space_def)
  obtain p where p: "mapPayload (sn_Format demo_publisher) (sn_DiscoverySource demo_target) [demo_obs] = Inr p"
    using valid by (cases "put_items (sn_Format demo_publisher) (sn_DiscoverySource demo_target) [demo_obs]") (simp add: mapPayload_def)
  have "snd (sn_PublishBatch demo_publisher (?net 1) demo_target [demo_obs]) = None"
    using conf p by (simp add: sn_PublishBatch_def sendPayload_def demo_target_def demo_publisher_def MaxRequestBytes_def
      MaxResponseBytes_def responseReportsFlag_def)
  then have by_publisher: "published_by demo_publisher demo_target (\<lambda>_. []) ?net (ry_calls ?s)"
    unfolding calls published_by_def by (auto simp: nth_Cons split: nat.splits)
  have dry: "\<not> sn_DryRun demo_target" by (simp add: demo_target_def)
  have two: "2 < length (ry_calls ?s)" "ry_calls ?s ! 2 = RReport ?r True" unfolding calls by simp_all
  have nonces: "\<forall>n \<in> set [demo_nonce, demo_nonce]. length n = nonceSize" by (simp add: nonceSize_def)
  from relay_success_reconciled [OF demo_env_ok nonces refl by_publisher dry two succ]
  obtain j obs q where "ry_calls ?s ! j = RPublish obs Accepted" "j < 2"
      "mapPayload (sn_Format demo_publisher) (sn_DiscoverySource demo_target) [obs] = Inr q" "ip_Items q \<noteq> []" by blast
  then have "mapPayload (sn_Format demo_publisher) ''topo'' [demo_obs] = Inr q \<and> ip_Items q \<noteq> []"
    unfolding calls by (cases j) (auto simp: demo_target_def less_Suc_eq)
  then show ?thesis by blast
qed

end
